(* ===== verification/Prelude.thy ===== *)
theory Prelude
  imports Complex_Main "HOL-Library.List_Lexorder" "HOL-Library.Char_ord" "HOL-Library.Sublist"
    "HOL-Library.Code_Target_Nat"
begin

text \<open>
  What every theory of the development shares: Python's values as the JSON readers deliver
  them, the exceptions of the automation package, results that may be an exception, and the
  string operations the code uses.

  Python strings are held as their UTF-8 encoding, one HOL character per byte. Equality,
  concatenation, prefixes, search for ASCII text and the code point order of \<open>sorted\<close> are the
  same on both; a length in code points is \<open>py_len\<close>. A \<open>bytes\<close> value is a list of bytes too.
\<close>

named_theorems res_simps \<open>how a successful or failed bind decomposes\<close>
named_theorems json_simps \<open>equations of the JSON readers\<close>

section \<open>Exceptions\<close>

text \<open>
  One constructor per exception class the modelled code raises or catches. A class whose
  message is formatted carries the template and its arguments; the three exceptions of
  \<open>eligibility.py\<close> that carry live metadata have their own fields. Python's own errors, which
  end a run when malformed metadata reaches an attribute or key access, are values as well.
  \<open>UrlError\<close> names the class of a failed acquisition: \<open>URLError\<close>, \<open>TimeoutError\<close> or a \<open>ConnectionError\<close>.
\<close>

text \<open>The exact candidate that two of the exceptions speak about.\<close>

record candidate =
  cand_base :: string
  cand_head :: string
  cand_number :: int
  source_head :: string
  actor_login :: string
  actor_type :: string
  cand_scope :: string
  cand_title :: string
  queue_target :: string

datatype exn =
    ContractError string "string list"
  | GateFailure "string list"
  | AdmissionError string "string list"
  | EligibilityError string "string list"
  | MissingResource string
  | DistributionError string "string list"
  | QueueTargetMoved string string candidate
  | CandidateComputationPending int "string \<times> string \<times> string \<times> string" "string option"
  | ClosedPullRequest int "string \<times> string \<times> string \<times> string" "string option"
  | QueueTreeError string "string list"
  | MergeConflict
  | ReleaseError string "string list"
  | OperationalError string "string list"
  | BootstrapError string "string list"
  | ApiCommandError string "string list"
  | DependencyError string "string list"
  | RecoveryRefused string "string list"
  | ProofError string "string list"
  | SubprocessError
  | TarError
  | UnicodeError
  | ValueError string
  | OSError string
  | AttributeError
  | KeyError string
  | IndexError
  | OverflowError
  | HttpError int
  | UrlError string
  | HttpException string
  | TypeError

text \<open>The subclasses an \<open>except EligibilityError\<close> and an \<open>except ValueError\<close> clause catch.\<close>

fun is_EligibilityError :: "exn \<Rightarrow> bool" where
  "is_EligibilityError (EligibilityError _ _) = True"
| "is_EligibilityError (MissingResource _) = True"
| "is_EligibilityError (DistributionError _ _) = True"
| "is_EligibilityError (QueueTargetMoved _ _ _) = True"
| "is_EligibilityError (CandidateComputationPending _ _ _) = True"
| "is_EligibilityError (ClosedPullRequest _ _ _) = True"
| "is_EligibilityError _ = False"

fun is_ValueError :: "exn \<Rightarrow> bool" where
  "is_ValueError (OSError _) = False"
| "is_ValueError AttributeError = False"
| "is_ValueError (KeyError _) = False"
| "is_ValueError IndexError = False"
| "is_ValueError OverflowError = False"
| "is_ValueError (HttpError _) = False"
| "is_ValueError (UrlError _) = False"
| "is_ValueError (HttpException _) = False"
| "is_ValueError TypeError = False"
| "is_ValueError SubprocessError = False"
| "is_ValueError TarError = False"
| "is_ValueError _ = True"

section \<open>Results that may be an exception\<close>

type_synonym 'a res = "exn + 'a"

definition bindR :: "'a res \<Rightarrow> ('a \<Rightarrow> 'b res) \<Rightarrow> 'b res" where
  "bindR m f = (case m of Inl e \<Rightarrow> Inl e | Inr x \<Rightarrow> f x)"

lemma bindR_simps [simp]: "bindR (Inl e) f = Inl e" "bindR (Inr x) f = f x"
  by (simp_all add: bindR_def)

lemma bindR_Inr [res_simps]: "bindR m f = Inr y \<longleftrightarrow> (\<exists>x. m = Inr x \<and> f x = Inr y)"
  by (cases m) auto

lemma bindR_Inl [res_simps]:
  "bindR m f = Inl e \<longleftrightarrow> m = Inl e \<or> (\<exists>x. m = Inr x \<and> f x = Inl e)"
  by (cases m) auto

lemma bindR_InrE: "bindR m f = Inr y \<Longrightarrow> (\<And>x. m = Inr x \<Longrightarrow> f x = Inr y \<Longrightarrow> P) \<Longrightarrow> P"
  by (auto simp: bindR_Inr)

lemma if_InlE: "(if b then Inl e else r) = Inr y \<Longrightarrow> (\<not> b \<Longrightarrow> r = Inr y \<Longrightarrow> P) \<Longrightarrow> P"
  by (auto split: if_splits)

text \<open>How a chain of checks and binds that succeeded is taken apart: \<open>elim success_elims\<close>.\<close>

lemmas success_elims = if_InlE bindR_InrE

lemma bindR_cong [fundef_cong]:
  "m = m' \<Longrightarrow> (\<And>x. m' = Inr x \<Longrightarrow> f x = f' x) \<Longrightarrow> bindR m f = bindR m' f'"
  by (cases m') auto

lemma bindR_assoc: "bindR (bindR m f) g = bindR m (\<lambda>x. bindR (f x) g)"
  by (cases m) auto

text \<open>A comprehension or loop that converts each item, stopping at the first exception.\<close>

fun mapR :: "('a \<Rightarrow> 'b res) \<Rightarrow> 'a list \<Rightarrow> 'b list res" where
  "mapR f [] = Inr []"
| "mapR f (x # xs) = bindR (f x) (\<lambda>y. bindR (mapR f xs) (\<lambda>ys. Inr (y # ys)))"

lemma mapR_Inr: "mapR f xs = Inr ys \<longleftrightarrow> list_all2 (\<lambda>x y. f x = Inr y) xs ys"
  by (induction xs arbitrary: ys) (auto simp: res_simps list_all2_Cons1)

lemma mapR_length: "mapR f xs = Inr ys \<Longrightarrow> length ys = length xs"
  by (auto simp: mapR_Inr list_all2_lengthD)

lemma mapR_in_set:
  assumes "mapR f xs = Inr ys" and "y \<in> set ys"
  obtains x where "x \<in> set xs" and "f x = Inr y"
  using assms by (fastforce simp: mapR_Inr list_all2_conv_all_nth in_set_conv_nth)

lemma mapR_all: "mapR f xs = Inr ys \<Longrightarrow> x \<in> set xs \<Longrightarrow> \<exists>y \<in> set ys. f x = Inr y"
  by (auto simp: mapR_Inr list_all2_conv_all_nth in_set_conv_nth)

text \<open>A loop that only checks: it ends at the first exception of an item.\<close>

fun checkR :: "('a \<Rightarrow> unit res) \<Rightarrow> 'a list \<Rightarrow> unit res" where
  "checkR f [] = Inr ()"
| "checkR f (x # xs) = bindR (f x) (\<lambda>_. checkR f xs)"

lemma checkR_Inr [simp]: "checkR f xs = Inr u \<longleftrightarrow> (\<forall>x \<in> set xs. f x = Inr ())"
  by (induction xs) (auto simp: res_simps)

text \<open>A guard: the exception unless the condition holds.\<close>

definition require :: "bool \<Rightarrow> exn \<Rightarrow> unit res" where
  "require b e = (if b then Inr () else Inl e)"

lemma require_simps [simp]: "require True e = Inr ()" "require False e = Inl e"
  by (simp_all add: require_def)

lemma require_Inr [simp]: "require b e = Inr u \<longleftrightarrow> b"
  by (simp add: require_def)

lemma require_Inl [simp]: "require b e = Inl e' \<longleftrightarrow> \<not> b \<and> e' = e"
  by (auto simp: require_def)

section \<open>Python values\<close>

text \<open>
  The values \<open>json.loads\<close> returns. A float is a rational, an infinity or NaN. An object is the
  list of its items in insertion order, each key once.
\<close>

datatype pyfloat = Finite rat | PosInf | NegInf | NaN

datatype json =
    JNull
  | JBool bool
  | JInt int
  | JFloat pyfloat
  | JStr string
  | JList "json list"
  | JObj "(string \<times> json) list"

type_synonym dict = "(string \<times> json) list"

text \<open>
  Python's \<open>==\<close>: numbers compare by value across \<open>bool\<close>, \<open>int\<close> and \<open>float\<close>, NaN differs from
  everything, and two dictionaries are equal when they have the same items in any order.
\<close>

fun num_eq :: "pyfloat \<Rightarrow> json \<Rightarrow> bool" where
  "num_eq p (JBool b) = (p = Finite (of_bool b))"
| "num_eq p (JInt i) = (p = Finite (of_int i))"
| "num_eq p (JFloat q) = (p = q \<and> p \<noteq> NaN)"
| "num_eq p _ = False"

fun py_eq :: "json \<Rightarrow> json \<Rightarrow> bool"
  and py_eq_items :: "json list \<Rightarrow> json list \<Rightarrow> bool"
  and py_eq_dict :: "dict \<Rightarrow> dict \<Rightarrow> bool" where
  "py_eq JNull y = (y = JNull)"
| "py_eq (JBool b) y = num_eq (Finite (of_bool b)) y"
| "py_eq (JInt i) y = num_eq (Finite (of_int i)) y"
| "py_eq (JFloat p) y = num_eq p y"
| "py_eq (JStr s) y = (y = JStr s)"
| "py_eq (JList xs) y = (case y of JList ys \<Rightarrow> py_eq_items xs ys | _ \<Rightarrow> False)"
| "py_eq (JObj d) y = (case y of JObj e \<Rightarrow> length d = length e \<and> py_eq_dict d e | _ \<Rightarrow> False)"
| "py_eq_items [] ys = (ys = [])"
| "py_eq_items (x # xs) ys = (case ys of [] \<Rightarrow> False | y # ys' \<Rightarrow> py_eq x y \<and> py_eq_items xs ys')"
| "py_eq_dict [] e = True"
| "py_eq_dict ((k, v) # d) e =
     ((case map_of e k of None \<Rightarrow> False | Some w \<Rightarrow> py_eq v w) \<and> py_eq_dict d e)"

lemma py_eq_JStr [simp]: "py_eq v (JStr s) \<longleftrightarrow> v = JStr s"
  by (cases v) (auto split: json.splits)

lemma py_eq_JNull [simp]: "py_eq v JNull \<longleftrightarrow> v = JNull"
  by (cases v) (auto split: json.splits)

lemma num_eq_Finite_JInt: "num_eq (Finite (of_int i)) (JInt j) \<longleftrightarrow> i = j"
  by simp

text \<open>\<open>d.get(k)\<close> on a dictionary, and with a default.\<close>

definition dget_or :: "dict \<Rightarrow> string \<Rightarrow> json \<Rightarrow> json" where
  "dget_or d k v = (case map_of d k of None \<Rightarrow> v | Some w \<Rightarrow> w)"

definition dget :: "dict \<Rightarrow> string \<Rightarrow> json" where
  "dget d k = dget_or d k JNull"

definition has_key :: "dict \<Rightarrow> string \<Rightarrow> bool" where
  "has_key d k = (map_of d k \<noteq> None)"

text \<open>\<open>d[k]\<close>, and \<open>v.get(k)\<close> where \<open>v\<close> may not be a dictionary.\<close>

definition item :: "dict \<Rightarrow> string \<Rightarrow> json res" where
  "item d k = (case map_of d k of None \<Rightarrow> Inl (KeyError k) | Some v \<Rightarrow> Inr v)"

fun attr_get :: "json \<Rightarrow> string \<Rightarrow> json res" where
  "attr_get (JObj d) k = Inr (dget d k)"
| "attr_get _ k = Inl AttributeError"

lemma dget_simps [simp]:
  "dget [] k = JNull"
  "dget ((k', v) # d) k = (if k = k' then v else dget d k)"
  by (simp_all add: dget_def dget_or_def)

lemma dget_or_simps [simp]:
  "dget_or [] k w = w"
  "dget_or ((k', v) # d) k w = (if k = k' then v else dget_or d k w)"
  by (simp_all add: dget_or_def)

lemma has_key_simps [simp]:
  "has_key [] k = False"
  "has_key ((k', v) # d) k = (k = k' \<or> has_key d k)"
  by (auto simp: has_key_def)

lemma has_key_keys: "has_key d k \<longleftrightarrow> k \<in> fst ` set d"
  by (simp add: has_key_def map_of_eq_None_iff)

lemma item_Inr: "item d k = Inr v \<longleftrightarrow> map_of d k = Some v"
  by (simp add: item_def split: option.splits)

lemma item_has_key: "has_key d k \<Longrightarrow> item d k = Inr (dget d k)"
  by (auto simp: item_def has_key_def dget_def dget_or_def)

lemma attr_get_Inr [res_simps]: "attr_get v k = Inr w \<longleftrightarrow> (\<exists>d. v = JObj d \<and> w = dget d k)"
  by (cases v) auto

text \<open>\<open>isinstance\<close> and \<open>type(v) is ...\<close> tests, and truth values.\<close>

fun is_obj :: "json \<Rightarrow> bool" where
  "is_obj (JObj _) = True" | "is_obj _ = False"

fun is_list :: "json \<Rightarrow> bool" where
  "is_list (JList _) = True" | "is_list _ = False"

fun is_str :: "json \<Rightarrow> bool" where
  "is_str (JStr _) = True" | "is_str _ = False"

fun is_int :: "json \<Rightarrow> bool" where
  "is_int (JInt _) = True" | "is_int _ = False"

fun is_bool :: "json \<Rightarrow> bool" where
  "is_bool (JBool _) = True" | "is_bool _ = False"

fun positive_int :: "json \<Rightarrow> bool" where
  "positive_int (JInt i) = (1 \<le> i)" | "positive_int _ = False"

fun truthy :: "json \<Rightarrow> bool" where
  "truthy JNull = False"
| "truthy (JBool b) = b"
| "truthy (JInt i) = (i \<noteq> 0)"
| "truthy (JFloat p) = (p \<noteq> Finite 0)"
| "truthy (JStr s) = (s \<noteq> [])"
| "truthy (JList xs) = (xs \<noteq> [])"
| "truthy (JObj d) = (d \<noteq> [])"

text \<open>The string, number or items inside a value of the tested type.\<close>

fun str_of :: "json \<Rightarrow> string" where
  "str_of (JStr s) = s" | "str_of _ = []"

fun int_of :: "json \<Rightarrow> int" where
  "int_of (JInt i) = i" | "int_of _ = 0"

fun dict_of :: "json \<Rightarrow> dict" where
  "dict_of (JObj d) = d" | "dict_of _ = []"

fun list_of :: "json \<Rightarrow> json list" where
  "list_of (JList xs) = xs" | "list_of _ = []"

lemma is_str_iff: "is_str v \<longleftrightarrow> (\<exists>s. v = JStr s)" by (cases v) auto
lemma is_int_iff: "is_int v \<longleftrightarrow> (\<exists>i. v = JInt i)" by (cases v) auto
lemma is_obj_iff: "is_obj v \<longleftrightarrow> (\<exists>d. v = JObj d)" by (cases v) auto
lemma is_list_iff: "is_list v \<longleftrightarrow> (\<exists>xs. v = JList xs)" by (cases v) auto
lemma is_bool_iff: "is_bool v \<longleftrightarrow> (\<exists>b. v = JBool b)" by (cases v) auto
lemma positive_int_iff: "positive_int v \<longleftrightarrow> (\<exists>i. v = JInt i \<and> 1 \<le> i)" by (cases v) auto

lemmas typed_iffs = is_str_iff is_int_iff is_obj_iff is_list_iff is_bool_iff positive_int_iff

section \<open>Strings and bytes\<close>

definition ord :: "char \<Rightarrow> nat" where
  "ord c = of_char c"

definition is_digit :: "char \<Rightarrow> bool" where
  "is_digit c = (48 \<le> ord c \<and> ord c \<le> 57)"

definition is_lower :: "char \<Rightarrow> bool" where
  "is_lower c = (97 \<le> ord c \<and> ord c \<le> 122)"

definition is_upper :: "char \<Rightarrow> bool" where
  "is_upper c = (65 \<le> ord c \<and> ord c \<le> 90)"

definition is_alnum :: "char \<Rightarrow> bool" where
  "is_alnum c = (is_digit c \<or> is_lower c \<or> is_upper c)"

definition is_hex :: "char \<Rightarrow> bool" where
  "is_hex c = (is_digit c \<or> (97 \<le> ord c \<and> ord c \<le> 102))"

lemmas char_class_defs = is_alnum_def is_hex_def is_digit_def is_lower_def is_upper_def ord_def

definition nul :: char where "nul = CHR 0x00"
definition newline :: char where "newline = CHR 0x0A"
definition carriage :: char where "carriage = CHR 0x0D"
definition backslash :: char where "backslash = CHR 0x5C"

text \<open>\<open>re.fullmatch(r"[0-9a-f]{40}", s)\<close> and the 64-digit form of a SHA-256.\<close>

definition is_sha :: "string \<Rightarrow> bool" where
  "is_sha s = (length s = 40 \<and> list_all is_hex s)"

definition is_sha256 :: "string \<Rightarrow> bool" where
  "is_sha256 s = (length s = 64 \<and> list_all is_hex s)"

fun is_sha_str :: "json \<Rightarrow> bool" where
  "is_sha_str (JStr s) = is_sha s" | "is_sha_str _ = False"

lemma is_sha_replicate [simp]: "is_sha (replicate 40 c) = is_hex c"
  by (simp add: is_sha_def list_all_iff)

text \<open>The number of code points of a string: its bytes without UTF-8 continuation bytes.\<close>

definition continuation :: "char \<Rightarrow> bool" where
  "continuation c = (128 \<le> ord c \<and> ord c < 192)"

definition py_len :: "string \<Rightarrow> nat" where
  "py_len s = length (filter (\<lambda>c. \<not> continuation c) s)"

definition startswith :: "'a list \<Rightarrow> 'a list \<Rightarrow> bool" where
  "startswith s p = prefix p s"

definition endswith :: "string \<Rightarrow> string \<Rightarrow> bool" where
  "endswith s p = prefix (rev p) (rev s)"

definition removeprefix :: "string \<Rightarrow> string \<Rightarrow> string" where
  "removeprefix s p = (if prefix p s then drop (length p) s else s)"

text \<open>\<open>any(char in s for char in "\\r\\n\\0")\<close>.\<close>

definition has_line_break :: "string \<Rightarrow> bool" where
  "has_line_break s = (carriage \<in> set s \<or> newline \<in> set s \<or> nul \<in> set s)"

text \<open>\<open>s.split(c)\<close> for one character \<open>c\<close>, and \<open>c.join(parts)\<close>.\<close>

fun split_on :: "char \<Rightarrow> string \<Rightarrow> string list" where
  "split_on c [] = [[]]"
| "split_on c (x # xs) =
     (if x = c then [] # split_on c xs
      else (case split_on c xs of [] \<Rightarrow> [[x]] | p # ps \<Rightarrow> (x # p) # ps))"

fun join :: "string \<Rightarrow> string list \<Rightarrow> string" where
  "join sep [] = []"
| "join sep [x] = x"
| "join sep (x # y # ys) = x @ sep @ join sep (y # ys)"

lemma split_on_nonempty [simp]: "split_on c s \<noteq> []"
  by (induction s) (auto split: list.splits)

lemma split_on_no_sep: "p \<in> set (split_on c s) \<Longrightarrow> c \<notin> set p"
  by (induction s arbitrary: p) (auto split: list.splits if_splits)

lemma join_split_on: "join [c] (split_on c s) = s"
proof (induction s)
  case Nil
  then show ?case by simp
next
  case (Cons x s)
  obtain p ps where ps: "split_on c s = p # ps" by (meson neq_Nil_conv split_on_nonempty)
  with Cons show ?case by (cases ps) auto
qed

lemma split_on_append_sep: "c \<notin> set p \<Longrightarrow> split_on c (p @ c # s) = p # split_on c s"
  by (induction p) auto

lemma split_on_terminated:
  "list_all (\<lambda>f. c \<notin> set f) fs \<Longrightarrow> split_on c (concat (map (\<lambda>f. f @ [c]) fs)) = fs @ [[]]"
  by (induction fs) (auto simp: split_on_append_sep)

lemma split_on_plain: "c \<notin> set p \<Longrightarrow> split_on c p = [p]"
  by (induction p) auto

lemma split_on_join:
  "ps \<noteq> [] \<Longrightarrow> (\<And>p. p \<in> set ps \<Longrightarrow> c \<notin> set p) \<Longrightarrow> split_on c (join [c] ps) = ps"
  by (induction "[c]" ps rule: join.induct) (auto simp: split_on_append_sep split_on_plain)

text \<open>A byte string decodes as ASCII or as strict UTF-8, or raises; the text is the same bytes.\<close>

fun utf8_ok :: "nat list \<Rightarrow> bool" where
  "utf8_ok [] = True"
| "utf8_ok (a # r) =
    (if a < 128 then utf8_ok r
     else if 194 \<le> a \<and> a \<le> 223 then
       (case r of b # r' \<Rightarrow> 128 \<le> b \<and> b \<le> 191 \<and> utf8_ok r' | _ \<Rightarrow> False)
     else if 224 \<le> a \<and> a \<le> 239 then
       (case r of b # c # r' \<Rightarrow>
          (if a = 224 then 160 else 128) \<le> b \<and> b \<le> (if a = 237 then 159 else 191)
          \<and> 128 \<le> c \<and> c \<le> 191 \<and> utf8_ok r'
        | _ \<Rightarrow> False)
     else if 240 \<le> a \<and> a \<le> 244 then
       (case r of b # c # d # r' \<Rightarrow>
          (if a = 240 then 144 else 128) \<le> b \<and> b \<le> (if a = 244 then 143 else 191)
          \<and> 128 \<le> c \<and> c \<le> 191 \<and> 128 \<le> d \<and> d \<le> 191 \<and> utf8_ok r'
        | _ \<Rightarrow> False)
     else False)"

definition decode_utf8 :: "string \<Rightarrow> string res" where
  "decode_utf8 b = (if utf8_ok (map ord b) then Inr b else Inl UnicodeError)"

definition decode_ascii :: "string \<Rightarrow> string res" where
  "decode_ascii b = (if list_all (\<lambda>c. ord c < 128) b then Inr b else Inl UnicodeError)"

lemma decode_utf8_Inr [res_simps]: "decode_utf8 b = Inr s \<longleftrightarrow> s = b \<and> utf8_ok (map ord b)"
  by (auto simp: decode_utf8_def)

lemma decode_ascii_Inr [res_simps]:
  "decode_ascii b = Inr s \<longleftrightarrow> s = b \<and> list_all (\<lambda>c. ord c < 128) b"
  by (auto simp: decode_ascii_def)

lemma utf8_ok_ascii: "list_all (\<lambda>a. a < 128) bs \<Longrightarrow> utf8_ok bs"
  by (induction bs) auto

text \<open>\<open>str(n)\<close> and \<open>int(digits)\<close>.\<close>

fun show_nat :: "nat \<Rightarrow> string" where
  "show_nat n = (if n < 10 then [char_of (48 + n)] else show_nat (n div 10) @ [char_of (48 + n mod 10)])"

declare show_nat.simps [simp del]

definition show_int :: "int \<Rightarrow> string" where
  "show_int i = (if i < 0 then ''-'' @ show_nat (nat (- i)) else show_nat (nat i))"

definition parse_nat :: "string \<Rightarrow> nat" where
  "parse_nat s = foldl (\<lambda>n c. 10 * n + (ord c - 48)) 0 s"

lemma show_nat_digits: "list_all is_digit (show_nat n)"
proof (induction n rule: show_nat.induct)
  case (1 n)
  show ?case
    by (subst show_nat.simps) (use 1 in \<open>auto simp: is_digit_def ord_def list_all_iff\<close>)
qed

lemma parse_show_nat: "parse_nat (show_nat n) = n"
proof (induction n rule: show_nat.induct)
  case (1 n)
  show ?case
  proof (cases "n < 10")
    case True
    then show ?thesis by (subst show_nat.simps) (simp add: parse_nat_def ord_def)
  next
    case False
    have "parse_nat (show_nat (n div 10)) = n div 10" using 1 False by simp
    moreover have "parse_nat (show_nat n)
        = 10 * parse_nat (show_nat (n div 10)) + (ord (char_of (48 + n mod 10)) - 48)"
      using False by (subst show_nat.simps) (simp add: parse_nat_def)
    moreover have "ord (char_of (48 + n mod 10)) = 48 + n mod 10" by (simp add: ord_def)
    ultimately show ?thesis by presburger
  qed
qed

lemma show_nat_inject: "show_nat m = show_nat n \<longleftrightarrow> m = n"
  by (metis parse_show_nat)

lemma show_nat_nonempty: "show_nat n \<noteq> []"
  by (subst show_nat.simps) simp

text \<open>The code points of a valid UTF-8 byte list.\<close>

fun code_points :: "nat list \<Rightarrow> nat list" where
  "code_points [] = []"
| "code_points (a # r) =
    (if a < 128 then a # code_points r
     else if a < 224 then
       (case r of b # r' \<Rightarrow> ((a - 192) * 64 + (b - 128)) # code_points r' | _ \<Rightarrow> [])
     else if a < 240 then
       (case r of b # c # r' \<Rightarrow>
          ((a - 224) * 4096 + (b - 128) * 64 + (c - 128)) # code_points r' | _ \<Rightarrow> [])
     else
       (case r of b # c # d # r' \<Rightarrow>
          ((a - 240) * 262144 + (b - 128) * 4096 + (c - 128) * 64 + (d - 128)) # code_points r'
        | _ \<Rightarrow> []))"

text \<open>
  The parts of the platform a module reads files and documents through: the file system, the
  JSON decoder (an object keeps the last value of a repeated key), path resolution, and which
  code points beyond ASCII Python's \<open>\w\<close> matches.
\<close>

record platform =
  read_bytes :: "string \<Rightarrow> string res"
  json_loads :: "string \<Rightarrow> json option"
  resolve_path :: "string \<Rightarrow> string"
  word_point :: "nat \<Rightarrow> bool"

text \<open>\<open>re.fullmatch(r"[\w.-]+", s)\<close> and \<open>re.fullmatch(r"[a-zA-Z0-9_-]+", s)\<close>.\<close>

definition word_dot_dash :: "platform \<Rightarrow> string \<Rightarrow> bool" where
  "word_dot_dash pf s = (s \<noteq> [] \<and>
     list_all (\<lambda>a. if a < 128 then is_alnum (char_of a) \<or> char_of a \<in> set ''_.-''
                   else word_point pf a)
       (code_points (map ord s)))"

definition safe_ident :: "string \<Rightarrow> bool" where
  "safe_ident s = (s \<noteq> [] \<and> list_all (\<lambda>c. is_alnum c \<or> c \<in> set ''_-'') s)"

text \<open>\<open>PurePosixPath(s).name\<close>: the last component that is neither empty nor a dot.\<close>

definition path_name :: "string \<Rightarrow> string" where
  "path_name s = (case filter (\<lambda>c. c \<noteq> [] \<and> c \<noteq> ''.'') (split_on CHR ''/'' s) of
     [] \<Rightarrow> [] | cs \<Rightarrow> last cs)"

text \<open>
  \<open>s.strip()\<close>: the leading and trailing characters that are whitespace. The characters of a
  UTF-8 string are its bytes grouped at the bytes that do not continue one.
\<close>

fun utf8_chars :: "string \<Rightarrow> string list" where
  "utf8_chars [] = []"
| "utf8_chars (x # xs) = (case utf8_chars xs of
     (y # ys) # cs \<Rightarrow> if continuation y then (x # y # ys) # cs else [x] # (y # ys) # cs
   | cs \<Rightarrow> [x] # cs)"

definition is_space :: "string \<Rightarrow> bool" where
  "is_space u = (map ord u \<in> set
     ([[9], [10], [11], [12], [13], [28], [29], [30], [31], [32], [0xC2, 0x85], [0xC2, 0xA0],
       [0xE1, 0x9A, 0x80], [0xE2, 0x80, 0xA8], [0xE2, 0x80, 0xA9], [0xE2, 0x80, 0xAF],
       [0xE2, 0x81, 0x9F], [0xE3, 0x80, 0x80]]
      @ map (\<lambda>i. [0xE2, 0x80, i]) [0x80..<0x8B]))"

definition py_strip :: "string \<Rightarrow> string" where
  "py_strip s = concat (rev (dropWhile is_space (rev (dropWhile is_space (utf8_chars s)))))"

definition py_take :: "nat \<Rightarrow> string \<Rightarrow> string" where
  "py_take n s = concat (take n (utf8_chars s))"

lemma concat_utf8_chars: "concat (utf8_chars s) = s"
  by (induction s) (auto split: list.splits)

text \<open>\<open>sorted\<close> of a set of strings.\<close>

abbreviation sorted_strings :: "string set \<Rightarrow> string list" where
  "sorted_strings S \<equiv> sorted_list_of_set S"

text \<open>\<open>v in {...}\<close> for a set of strings: a list or dictionary is not hashable.\<close>

definition in_strings :: "json \<Rightarrow> string list \<Rightarrow> bool res" where
  "in_strings v xs =
     (if is_list v \<or> is_obj v then Inl TypeError else Inr (is_str v \<and> str_of v \<in> set xs))"

lemma in_strings_True [simp]: "in_strings v xs = Inr True \<longleftrightarrow> (\<exists>s \<in> set xs. v = JStr s)"
  by (cases v) (auto simp: in_strings_def)

text \<open>\<open>urllib.parse.quote(s, safe=...)\<close>: bytes outside the unreserved and safe ones are escaped.\<close>

definition hex_digit :: "nat \<Rightarrow> char" where
  "hex_digit n = ''0123456789ABCDEF'' ! (n mod 16)"

definition quote :: "string \<Rightarrow> string \<Rightarrow> string" where
  "quote safe s = concat (map (\<lambda>c.
     if is_alnum c \<or> c \<in> set ''_.-~'' \<or> c \<in> set safe then [c]
     else [CHR ''%'', hex_digit (ord c div 16), hex_digit (ord c)]) s)"

text \<open>The keys of a dictionary, in insertion order.\<close>

abbreviation keys :: "(string \<times> 'v) list \<Rightarrow> string set" where
  "keys d \<equiv> set (map fst d)"

text \<open>\<open>int\<close> of a string of digits, which refuses more than 4300 of them.\<close>

definition run_number :: "string \<Rightarrow> int res" where
  "run_number digits =
     (if 4300 < length digits then Inl (ValueError ''integer string conversion'')
      else Inr (int (parse_nat digits)))"

end
