(* ===== verification/Contracts.thy ===== *)
theory Contracts
  imports Prelude
begin

text \<open>
  \<open>contracts.py\<close>: the strict readers used at the untrusted workflow boundary. Each takes a
  decoded JSON value and a label for its message and returns the typed value or raises
  \<open>ContractError\<close>. The lemmas characterise what each reader accepts; \<open>walk\<close> gives the meaning
  of a repository-relative path, and an accepted path never leaves its root.
\<close>

section \<open>The readers\<close>

definition object_value :: "json \<Rightarrow> string \<Rightarrow> dict res" where
  "object_value v label = (case v of
     JObj d \<Rightarrow> Inr d
   | _ \<Rightarrow> Inl (ContractError ''{} must be an object with string keys'' [label]))"

definition strings :: "json \<Rightarrow> string \<Rightarrow> bool \<Rightarrow> string list res" where
  "strings v label nonempty =
     (if \<not> is_list v \<or> (\<exists>i \<in> set (list_of v). \<not> is_str i \<or> str_of i = [])
      then Inl (ContractError ''{} must be an array of nonempty strings'' [label])
      else if nonempty \<and> list_of v = []
      then Inl (ContractError ''{} may not be empty'' [label])
      else if \<not> distinct (map str_of (list_of v))
      then Inl (ContractError ''{} may not contain duplicates'' [label])
      else Inr (map str_of (list_of v)))"

definition exact_sha :: "json \<Rightarrow> string \<Rightarrow> string res" where
  "exact_sha v label =
     (if \<not> is_sha_str v
      then Inl (ContractError ''{} must be an exact lowercase 40-character Git SHA'' [label])
      else Inr (str_of v))"

definition relative_path :: "json \<Rightarrow> string \<Rightarrow> bool \<Rightarrow> string res" where
  "relative_path v label pattern =
     (if \<not> is_str v \<or> str_of v = [] \<or> nul \<in> set (str_of v) \<or> backslash \<in> set (str_of v)
      then Inl (ContractError ''{} must be a repository-relative POSIX path'' [label])
      else if startswith (str_of v) ''/'' \<or> ''..'' \<in> set (split_on CHR ''/'' (str_of v))
              \<or> str_of v = ''.''
      then Inl (ContractError ''{} escapes the repository'' [label])
      else if \<not> pattern \<and> (\<exists>c \<in> set (str_of v). c \<in> set ''*?['')
      then Inl (ContractError ''{} is a path, not a pattern'' [label])
      else Inr (str_of v))"

section \<open>What they accept\<close>

lemma object_value_Inr [res_simps]: "object_value v label = Inr d \<longleftrightarrow> v = JObj d"
  by (cases v) (auto simp: object_value_def)

lemma object_value_Inl [res_simps]:
  "object_value v label = Inl e \<longleftrightarrow>
     \<not> is_obj v \<and> e = ContractError ''{} must be an object with string keys'' [label]"
  by (cases v) (auto simp: object_value_def)

lemma str_items: "(\<forall>i \<in> set vs. is_str i) \<Longrightarrow> map JStr (map str_of vs) = vs"
  by (induction vs) (auto simp: is_str_iff)

lemma strings_Inr [res_simps]:
  "strings v label nonempty = Inr xs \<longleftrightarrow>
     v = JList (map JStr xs) \<and> distinct xs \<and> [] \<notin> set xs \<and> (nonempty \<longrightarrow> xs \<noteq> [])"
proof
  assume ok: "strings v label nonempty = Inr xs"
  then obtain vs where v: "v = JList vs" and items: "\<forall>i \<in> set vs. is_str i"
    by (auto simp: strings_def is_list_iff split: if_splits)
  with ok str_items [OF items] show "v = JList (map JStr xs) \<and> distinct xs \<and> [] \<notin> set xs
      \<and> (nonempty \<longrightarrow> xs \<noteq> [])"
    by (force simp: strings_def split: if_splits)
next
  assume "v = JList (map JStr xs) \<and> distinct xs \<and> [] \<notin> set xs \<and> (nonempty \<longrightarrow> xs \<noteq> [])"
  then show "strings v label nonempty = Inr xs" by (auto simp: strings_def comp_def)
qed

lemma exact_sha_Inr [res_simps]: "exact_sha v label = Inr s \<longleftrightarrow> v = JStr s \<and> is_sha s"
  by (cases v) (auto simp: exact_sha_def)

lemma relative_path_Inr [res_simps]:
  "relative_path v label pattern = Inr s \<longleftrightarrow>
     v = JStr s \<and> s \<noteq> [] \<and> nul \<notin> set s \<and> backslash \<notin> set s \<and> \<not> startswith s ''/''
     \<and> ''..'' \<notin> set (split_on CHR ''/'' s) \<and> s \<noteq> ''.''
     \<and> (pattern \<or> (\<forall>c \<in> set s. c \<notin> set ''*?[''))"
  by (cases v) (auto simp: relative_path_def)

text \<open>A path as the code's callers rely on it; \<open>safe_path\<close> is what \<open>relative_path\<close> guarantees.\<close>

definition safe_path :: "string \<Rightarrow> bool" where
  "safe_path s \<longleftrightarrow> s \<noteq> [] \<and> nul \<notin> set s \<and> backslash \<notin> set s \<and> \<not> startswith s ''/''
     \<and> ''..'' \<notin> set (split_on CHR ''/'' s) \<and> s \<noteq> ''.''"

lemma relative_path_safe: "relative_path v label pattern = Inr s \<Longrightarrow> safe_path s"
  by (auto simp: res_simps safe_path_def)

section \<open>Path resolution\<close>

text \<open>
  Resolving a path component by component from a directory, held as the list of the names
  above it, innermost last: an empty component and \<open>.\<close> stay, \<open>..\<close> goes up, a name goes down.
\<close>

fun walk :: "string list \<Rightarrow> string list \<Rightarrow> string list" where
  "walk dir [] = dir"
| "walk dir (c # cs) =
     (if c = [] \<or> c = ''.'' then walk dir cs
      else if c = ''..'' then walk (butlast dir) cs
      else walk (dir @ [c]) cs)"

lemma walk_descends:
  "''..'' \<notin> set cs \<Longrightarrow> walk dir cs = dir @ filter (\<lambda>c. c \<noteq> [] \<and> c \<noteq> ''.'') cs"
  by (induction cs arbitrary: dir) auto

lemma safe_path_stays:
  "safe_path s \<Longrightarrow>
     walk dir (split_on CHR ''/'' s)
       = dir @ filter (\<lambda>c. c \<noteq> [] \<and> c \<noteq> ''.'') (split_on CHR ''/'' s)"
  by (simp add: safe_path_def walk_descends)

end
