(* ===== verification/Policy.thy ===== *)
theory Policy
  imports Contracts
begin

text \<open>
  \<open>policy.py\<close>: parsing of a repository's validation policy and the job selection it defines.
  \<open>policy_wf\<close> is the invariant every loaded policy has, and \<open>selected_jobs\<close> only ever selects
  jobs the policy declares.
\<close>

section \<open>Data\<close>

record task =
  task_commands :: "string list list"
  timeout_seconds :: int

record policy =
  pol_repository :: string
  pol_jobs :: "string list"
  pol_profile_jobs :: "(string \<times> string list) list"
  pol_public_root :: string
  pol_full_roots :: "string list"
  pol_executable_roots :: "string list"
  pol_executable_paths :: "string list"
  pol_manifest :: "string option"
  pol_local_commands :: "(string \<times> string list list) list"
  pol_path_profiles :: "(string \<times> string list) list"
  pol_tasks :: "(string \<times> task) list"
  pol_path :: string

definition DEFAULT_TASKS :: "(string \<times> string list list) list" where
  "DEFAULT_TASKS =
     [(''rust-quality'',
        [[''cargo'', ''fmt'', ''--all'', ''--'', ''--check''],
         [''cargo'', ''ci-check''], [''cargo'', ''ci-policy''], [''cargo'', ''ci-clippy''],
         [''cargo'', ''ci-test''], [''cargo'', ''ci-doctest''], [''cargo'', ''ci-doc'']]),
      (''msrv'', [[''cargo'', ''ci-check''], [''cargo'', ''ci-policy'']])]"

section \<open>Reading the policy\<close>

definition shells :: "string list" where
  "shells = [''sh'', ''bash'', ''dash'', ''zsh'', ''fish'', ''cmd'', ''powershell'', ''pwsh'']"

definition command :: "string \<Rightarrow> json \<Rightarrow> string list res" where
  "command label call =
     (if \<not> is_list call \<or> list_of call = []
         \<or> (\<exists>arg \<in> set (list_of call). \<not> is_str arg \<or> str_of arg = [] \<or> nul \<in> set (str_of arg))
      then Inl (ContractError ''{} must use nonempty, NUL-free argv arrays'' [label])
      else let argv = map str_of (list_of call) in
        if path_name (hd argv) \<in> set shells
        then if length argv < 2 \<or> startswith (argv ! 1) ''-''
             then Inl (ContractError ''{} permits repository scripts, not shell expressions'' [label])
             else bindR (relative_path (JStr (argv ! 1)) (label @ '' script'') False) (\<lambda>_. Inr argv)
        else Inr argv)"

definition commands :: "json \<Rightarrow> string \<Rightarrow> string list list res" where
  "commands v label =
     (if \<not> is_list v \<or> list_of v = []
      then Inl (ContractError ''{} must contain at least one argv array'' [label])
      else mapR (command label) (list_of v))"

definition required_keys :: "string list" where
  "required_keys =
     [''schema'', ''repository'', ''jobs'', ''profile_jobs'', ''public_documentation_root'',
      ''full_documentation_roots'', ''executable_documentation_roots'',
      ''executable_documentation_paths'', ''documentation_examples_manifest'', ''local_commands'']"

definition repository_name :: "platform \<Rightarrow> json \<Rightarrow> bool" where
  "repository_name pf v = (case v of
     JStr s \<Rightarrow> (case split_on CHR ''/'' s of
        [owner, name] \<Rightarrow> word_dot_dash pf owner \<and> word_dot_dash pf name
      | _ \<Rightarrow> False)
   | _ \<Rightarrow> False)"

definition profile_entry :: "string list \<Rightarrow> string \<times> json \<Rightarrow> (string \<times> string list) res" where
  "profile_entry jobs e = (case e of (profile, selected) \<Rightarrow>
     if profile \<in> set [''full'', ''mixed''] \<or> \<not> safe_ident profile
     then Inl (ContractError ''full/mixed profiles are reserved'' [])
     else bindR (strings selected (profile @ '' jobs'') True) (\<lambda>sel.
       if \<not> set sel \<subseteq> set jobs then Inl (ContractError ''{} selects unknown jobs'' [profile])
       else Inr (profile, sel)))"

definition local_entry :: "string \<times> json \<Rightarrow> (string \<times> string list list) res" where
  "local_entry e = (case e of (profile, calls) \<Rightarrow>
     bindR (commands calls (profile @ '' local commands'')) (\<lambda>cs. Inr (profile, cs)))"

definition check_prose ::
  "(string \<times> string list) list \<Rightarrow> (string \<times> string list list) list \<Rightarrow> unit res" where
  "check_prose profile_jobs local_commands =
     (case (map_of profile_jobs ''prose'', map_of profile_jobs ''executable-docs'') of
        (Some prose, Some executable) \<Rightarrow>
          if \<not> set prose \<subseteq> set executable
          then Inl (ContractError ''executable documentation must include prose jobs'' [])
          else if map_of local_commands ''executable-docs'' \<noteq> map_of local_commands ''full''
            \<and> \<not> (\<forall>call \<in> set (the (map_of local_commands ''prose'')).
                    call \<in> set (the (map_of local_commands ''executable-docs'')))
          then Inl (ContractError ''executable documentation must include prose commands'' [])
          else Inr ()
      | _ \<Rightarrow> Inr ())"

definition root_list :: "dict \<Rightarrow> string \<Rightarrow> string list res" where
  "root_list data key =
     bindR (item data key) (\<lambda>v.
     bindR (strings v key False) (\<lambda>xs.
     mapR (\<lambda>x. relative_path (JStr x) key False) xs))"

definition path_profile_entry ::
  "(string \<times> string list) list \<Rightarrow> string \<times> json \<Rightarrow> (string \<times> string list) res" where
  "path_profile_entry profile_jobs e = (case e of (profile, patterns) \<Rightarrow>
     if map_of profile_jobs profile = None
     then Inl (ContractError ''path profile {!r} has no job declaration'' [profile])
     else bindR (strings patterns (profile @ '' patterns'') True) (\<lambda>ps.
       bindR (mapR (\<lambda>p. relative_path (JStr p) (profile @ '' path pattern'') True) ps)
         (\<lambda>ps'. Inr (profile, ps'))))"

definition task_entry :: "string \<times> json \<Rightarrow> (string \<times> task) res" where
  "task_entry e = (case e of (name, raw) \<Rightarrow>
     bindR (object_value raw (''task '' @ name)) (\<lambda>task.
     if \<not> keys task \<subseteq> {''commands'', ''timeout_seconds''} \<or> \<not> has_key task ''commands''
     then Inl (ContractError ''task {!r} has unknown or missing keys'' [name])
     else let timeout = dget_or task ''timeout_seconds'' (JInt 900) in
       if \<not> is_int timeout \<or> \<not> (0 < int_of timeout \<and> int_of timeout \<le> 7200)
       then Inl (ContractError ''task {!r} timeout must be in [1, 7200] seconds'' [name])
       else bindR (item task ''commands'') (\<lambda>v.
         bindR (commands v (''task '' @ name)) (\<lambda>cs.
           Inr (name, \<lparr>task_commands = cs, timeout_seconds = int_of timeout\<rparr>)))))"

definition load_data :: "platform \<Rightarrow> string \<Rightarrow> dict \<Rightarrow> policy res" where
  "load_data pf path data =
     (if \<not> (set required_keys \<subseteq> keys data)
         \<or> \<not> keys data \<subseteq> set required_keys \<union> {''tasks'', ''path_profiles''}
      then Inl (ContractError ''validation policy has an unsupported key set'' [])
      else if \<not> is_int (dget data ''schema'') \<or> int_of (dget data ''schema'') \<notin> {2, 3}
      then Inl (ContractError ''validation policy has an unsupported schema'' [])
      else if \<not> repository_name pf (dget data ''repository'')
      then Inl (ContractError ''validation policy repository must be owner/name'' [])
      else
      bindR (strings (dget data ''jobs'') ''policy jobs'' True) (\<lambda>jobs.
      if \<exists>job \<in> set jobs. \<not> safe_ident job
      then Inl (ContractError ''policy job names must be safe workflow identifiers'' [])
      else
      bindR (object_value (dget data ''profile_jobs'') ''profile_jobs'') (\<lambda>raw_profiles.
      bindR (mapR (profile_entry jobs) raw_profiles) (\<lambda>profile_jobs.
      if profile_jobs = []
      then Inl (ContractError ''policy needs at least one selective profile'' [])
      else
      bindR (object_value (dget data ''local_commands'') ''local_commands'') (\<lambda>raw_local.
      bindR (mapR local_entry raw_local) (\<lambda>local_commands.
      if keys local_commands \<noteq> insert ''full'' (keys profile_jobs)
      then Inl (ContractError ''local command profiles must match profile_jobs plus full'' [])
      else
      bindR (check_prose profile_jobs local_commands) (\<lambda>_.
      bindR (root_list data ''full_documentation_roots'') (\<lambda>full_roots.
      bindR (root_list data ''executable_documentation_roots'') (\<lambda>executable_roots.
      bindR (root_list data ''executable_documentation_paths'') (\<lambda>executable_paths.
      bindR (relative_path (dget data ''public_documentation_root'')
               ''public documentation root'' False) (\<lambda>public_root.
      bindR (case dget data ''documentation_examples_manifest'' of
               JNull \<Rightarrow> Inr None
             | v \<Rightarrow> bindR (relative_path v ''documentation examples manifest'' False)
                      (\<lambda>m. Inr (Some m))) (\<lambda>manifest.
      bindR (object_value (dget_or data ''path_profiles'' (JObj [])) ''path_profiles'') (\<lambda>raw_paths.
      bindR (mapR (path_profile_entry profile_jobs) raw_paths) (\<lambda>path_profiles.
      bindR (object_value (dget_or data ''tasks'' (JObj [])) ''tasks'') (\<lambda>raw_tasks.
      bindR (mapR task_entry raw_tasks) (\<lambda>tasks.
      Inr \<lparr>pol_repository = str_of (dget data ''repository''), pol_jobs = jobs,
           pol_profile_jobs = profile_jobs, pol_public_root = public_root,
           pol_full_roots = full_roots, pol_executable_roots = executable_roots,
           pol_executable_paths = executable_paths, pol_manifest = manifest,
           pol_local_commands = local_commands, pol_path_profiles = path_profiles,
           pol_tasks = tasks, pol_path = resolve_path pf path\<rparr>))))))))))))))))"

definition load_policy :: "platform \<Rightarrow> string \<Rightarrow> policy res" where
  "load_policy pf path =
     (case bindR (read_bytes pf path) decode_utf8 of
        Inl e \<Rightarrow> Inl (ContractError ''cannot load validation policy {}'' [path])
      | Inr text \<Rightarrow> (case json_loads pf text of
          None \<Rightarrow> Inl (ContractError ''cannot load validation policy {}'' [path])
        | Some raw \<Rightarrow> bindR (object_value raw ''validation policy'') (load_data pf path)))"

section \<open>Selections\<close>

fun union_profiles :: "policy \<Rightarrow> string list \<Rightarrow> string set res" where
  "union_profiles pol [] = Inr {}"
| "union_profiles pol (profile # ps) = (case map_of (pol_profile_jobs pol) profile of
     None \<Rightarrow> Inl (ContractError ''unknown validation profile {!r}'' [profile])
   | Some js \<Rightarrow> bindR (union_profiles pol ps) (\<lambda>s. Inr (set js \<union> s)))"

definition selected_jobs :: "policy \<Rightarrow> string list \<Rightarrow> string set res" where
  "selected_jobs pol profiles =
     (if profiles = [''full''] then Inr (set (pol_jobs pol)) else union_profiles pol profiles)"

definition find_task :: "policy \<Rightarrow> string \<Rightarrow> task res" where
  "find_task pol name = (case map_of (pol_tasks pol) name of
     Some t \<Rightarrow> Inr t
   | None \<Rightarrow> (case map_of DEFAULT_TASKS name of
       Some cs \<Rightarrow> Inr \<lparr>task_commands = cs, timeout_seconds = 900\<rparr>
     | None \<Rightarrow> Inl (ContractError ''task {!r} is not configured for {}''
                     [name, pol_repository pol])))"

section \<open>What a loaded policy guarantees\<close>

text \<open>A command list: no empty argv, no empty or NUL argument, and no shell expression.\<close>

definition argv_ok :: "string list \<Rightarrow> bool" where
  "argv_ok argv \<longleftrightarrow> argv \<noteq> [] \<and> (\<forall>a \<in> set argv. a \<noteq> [] \<and> nul \<notin> set a)
     \<and> (path_name (hd argv) \<in> set shells \<longrightarrow> 2 \<le> length argv \<and> safe_path (argv ! 1)
          \<and> \<not> startswith (argv ! 1) ''-'')"

definition profile_ok :: "string list \<Rightarrow> string \<times> string list \<Rightarrow> bool" where
  "profile_ok jobs e \<longleftrightarrow> fst e \<notin> {''full'', ''mixed''} \<and> safe_ident (fst e)
     \<and> snd e \<noteq> [] \<and> distinct (snd e) \<and> set (snd e) \<subseteq> set jobs"

definition task_ok :: "string \<times> task \<Rightarrow> bool" where
  "task_ok e \<longleftrightarrow> 0 < timeout_seconds (snd e) \<and> timeout_seconds (snd e) \<le> 7200
     \<and> task_commands (snd e) \<noteq> [] \<and> (\<forall>c \<in> set (task_commands (snd e)). argv_ok c)"

definition policy_wf :: "policy \<Rightarrow> bool" where
  "policy_wf pol \<longleftrightarrow>
     pol_jobs pol \<noteq> [] \<and> distinct (pol_jobs pol) \<and> (\<forall>j \<in> set (pol_jobs pol). safe_ident j)
   \<and> pol_profile_jobs pol \<noteq> []
   \<and> (\<forall>e \<in> set (pol_profile_jobs pol). profile_ok (pol_jobs pol) e)
   \<and> keys (pol_local_commands pol) = insert ''full'' (keys (pol_profile_jobs pol))
   \<and> (\<forall>e \<in> set (pol_local_commands pol). snd e \<noteq> [] \<and> (\<forall>c \<in> set (snd e). argv_ok c))
   \<and> (\<forall>prose executable. map_of (pol_profile_jobs pol) ''prose'' = Some prose
        \<longrightarrow> map_of (pol_profile_jobs pol) ''executable-docs'' = Some executable
        \<longrightarrow> set prose \<subseteq> set executable)
   \<and> (\<forall>p \<in> set (pol_full_roots pol) \<union> set (pol_executable_roots pol)
             \<union> set (pol_executable_paths pol) \<union> {pol_public_root pol}
             \<union> set_option (pol_manifest pol). safe_path p)
   \<and> (\<forall>e \<in> set (pol_path_profiles pol). fst e \<in> keys (pol_profile_jobs pol)
        \<and> snd e \<noteq> [] \<and> (\<forall>p \<in> set (snd e). safe_path p))
   \<and> (\<forall>e \<in> set (pol_tasks pol). task_ok e)"

lemma command_ok:
  assumes "command label call = Inr argv"
  shows "argv_ok argv"
proof -
  from assms have call: "list_of call \<noteq> []"
      "\<forall>a \<in> set (list_of call). str_of a \<noteq> [] \<and> nul \<notin> set (str_of a)"
    and argv: "argv = map str_of (list_of call)"
    by (auto simp: command_def Let_def bindR_Inr split: if_splits)
  have "2 \<le> length argv \<and> safe_path (argv ! 1) \<and> \<not> startswith (argv ! 1) ''-''"
    if "path_name (hd argv) \<in> set shells"
  proof -
    from that assms argv have "bindR (relative_path (JStr (argv ! 1)) (label @ '' script'') False)
        (\<lambda>_. Inr argv) = Inr argv" and "\<not> (length argv < 2 \<or> startswith (argv ! 1) ''-'')"
      unfolding command_def Let_def by (auto split: if_splits)
    then show ?thesis by (auto simp: bindR_Inr safe_path_def relative_path_Inr)
  qed
  with call argv show ?thesis by (simp add: argv_ok_def)
qed

lemma commands_ok:
  assumes "commands v label = Inr cs"
  shows "cs \<noteq> [] \<and> (\<forall>c \<in> set cs. argv_ok c)"
proof -
  from assms have m: "mapR (command label) (list_of v) = Inr cs" and "list_of v \<noteq> []"
    by (auto simp: commands_def split: if_splits)
  with mapR_length [OF m] show ?thesis
    by (auto elim: mapR_in_set [OF m] dest: command_ok)
qed

lemma profile_entry_ok:
  assumes "profile_entry jobs e = Inr e'"
  shows "profile_ok jobs e' \<and> fst e' = fst e"
  using assms by (auto simp: profile_entry_def profile_ok_def res_simps split: prod.splits if_splits)

lemma local_entry_ok:
  assumes "local_entry e = Inr e'"
  shows "snd e' \<noteq> [] \<and> (\<forall>c \<in> set (snd e'). argv_ok c)"
  using assms by (auto simp: local_entry_def res_simps dest: commands_ok split: prod.splits)

lemma relative_paths_safe:
  assumes "mapR (\<lambda>x. relative_path (JStr x) label pattern) xs = Inr ys"
  shows "\<forall>y \<in> set ys. safe_path y" and "length ys = length xs"
  using assms by (auto elim: mapR_in_set [OF assms] dest: relative_path_safe mapR_length)

lemma root_list_safe: "root_list data key = Inr xs \<Longrightarrow> \<forall>x \<in> set xs. safe_path x"
  unfolding root_list_def bindR_Inr using relative_paths_safe by blast

lemma path_profile_entry_ok:
  assumes "path_profile_entry profile_jobs e = Inr e'"
  shows "fst e' \<in> keys profile_jobs \<and> snd e' \<noteq> [] \<and> (\<forall>p \<in> set (snd e'). safe_path p)"
proof -
  obtain profile patterns where e: "e = (profile, patterns)" by (cases e)
  with assms obtain ps ps' where k: "map_of profile_jobs profile \<noteq> None"
    and ps: "strings patterns (profile @ '' patterns'') True = Inr ps"
    and m: "mapR (\<lambda>p. relative_path (JStr p) (profile @ '' path pattern'') True) ps = Inr ps'"
    and e': "e' = (profile, ps')"
    by (auto simp: path_profile_entry_def bindR_Inr split: if_splits)
  from k have "profile \<in> keys profile_jobs" by (simp add: map_of_eq_None_iff)
  moreover from ps have "ps \<noteq> []" by (simp add: strings_Inr)
  ultimately show ?thesis using relative_paths_safe [OF m] e' by auto
qed

lemma task_entry_ok: "task_entry e = Inr e' \<Longrightarrow> task_ok e'"
  unfolding task_entry_def Let_def case_prod_beta
  by (elim success_elims) (drule commands_ok, simp add: task_ok_def, elim conjE, hypsubst, simp)

lemma mapR_all_ok:
  assumes "mapR f xs = Inr ys" and "\<And>x y. f x = Inr y \<Longrightarrow> P y"
  shows "\<forall>y \<in> set ys. P y"
  using assms by (auto elim: mapR_in_set [OF assms(1)])

lemma check_prose_ok:
  assumes "check_prose profile_jobs local_commands = Inr u"
    and "map_of profile_jobs ''prose'' = Some prose"
    and "map_of profile_jobs ''executable-docs'' = Some executable"
  shows "set prose \<subseteq> set executable"
  using assms by (auto simp: check_prose_def split: if_splits)

lemma manifest_safe:
  assumes "(case v of JNull \<Rightarrow> Inr None
            | w \<Rightarrow> bindR (relative_path w label False) (\<lambda>m. Inr (Some m))) = Inr r"
  shows "\<forall>p \<in> set_option r. safe_path p"
  using assms by (cases v) (auto simp: bindR_Inr dest: relative_path_safe)

lemma load_data_wf:
  assumes "load_data pf path data = Inr pol"
  shows "policy_wf pol"
proof -
  obtain jobs raw_profiles profile_jobs raw_local local_commands
      full_roots executable_roots executable_paths public_root manifest raw_paths path_profiles
      raw_tasks tasks u where
    jobs: "strings (dget data ''jobs'') ''policy jobs'' True = Inr jobs"
      "\<not> (\<exists>job \<in> set jobs. \<not> safe_ident job)"
    and profiles: "mapR (profile_entry jobs) raw_profiles = Inr profile_jobs"
      "profile_jobs \<noteq> []"
    and loc: "mapR local_entry raw_local = Inr local_commands"
      "\<not> keys local_commands \<noteq> insert ''full'' (keys profile_jobs)"
    and prose: "check_prose profile_jobs local_commands = Inr u"
    and roots: "root_list data ''full_documentation_roots'' = Inr full_roots"
      "root_list data ''executable_documentation_roots'' = Inr executable_roots"
      "root_list data ''executable_documentation_paths'' = Inr executable_paths"
    and public: "relative_path (dget data ''public_documentation_root'')
        ''public documentation root'' False = Inr public_root"
    and man: "(case dget data ''documentation_examples_manifest'' of JNull \<Rightarrow> Inr None
        | v \<Rightarrow> bindR (relative_path v ''documentation examples manifest'' False)
            (\<lambda>m. Inr (Some m))) = Inr manifest"
    and paths: "mapR (path_profile_entry profile_jobs) raw_paths = Inr path_profiles"
    and tasks: "mapR task_entry raw_tasks = Inr tasks"
    and pol: "Inr \<lparr>pol_repository = str_of (dget data ''repository''), pol_jobs = jobs,
           pol_profile_jobs = profile_jobs, pol_public_root = public_root,
           pol_full_roots = full_roots, pol_executable_roots = executable_roots,
           pol_executable_paths = executable_paths, pol_manifest = manifest,
           pol_local_commands = local_commands, pol_path_profiles = path_profiles,
           pol_tasks = tasks, pol_path = resolve_path pf path\<rparr> = (Inr pol :: policy res)"
  proof -
    from assms [unfolded load_data_def] show thesis by (elim success_elims) (rule that)
  qed
  have profile: "\<forall>e \<in> set profile_jobs. profile_ok jobs e"
    by (rule mapR_all_ok [OF profiles(1)]) (simp add: profile_entry_ok)
  have commands: "\<forall>e \<in> set local_commands. snd e \<noteq> [] \<and> (\<forall>c \<in> set (snd e). argv_ok c)"
    by (rule mapR_all_ok [OF loc(1)]) (rule local_entry_ok)
  have patterns: "\<forall>e \<in> set path_profiles. fst e \<in> keys profile_jobs
      \<and> snd e \<noteq> [] \<and> (\<forall>p \<in> set (snd e). safe_path p)"
    by (rule mapR_all_ok [OF paths]) (rule path_profile_entry_ok)
  have task: "\<forall>e \<in> set tasks. task_ok e"
    by (rule mapR_all_ok [OF tasks]) (rule task_entry_ok)
  have paths_safe: "\<forall>p \<in> set full_roots \<union> set executable_roots
      \<union> set executable_paths \<union> {public_root} \<union> set_option manifest. safe_path p"
    using root_list_safe [OF roots(1)] root_list_safe [OF roots(2)] root_list_safe [OF roots(3)]
      relative_path_safe [OF public] manifest_safe [OF man] by blast
  have jobs_ok: "jobs \<noteq> []" "distinct jobs" using jobs(1) by (simp_all add: strings_Inr)
  have pol': "pol = \<lparr>pol_repository = str_of (dget data ''repository''), pol_jobs = jobs,
           pol_profile_jobs = profile_jobs, pol_public_root = public_root,
           pol_full_roots = full_roots, pol_executable_roots = executable_roots,
           pol_executable_paths = executable_paths, pol_manifest = manifest,
           pol_local_commands = local_commands, pol_path_profiles = path_profiles,
           pol_tasks = tasks, pol_path = resolve_path pf path\<rparr>" using pol by simp
  show ?thesis
    unfolding policy_wf_def pol' policy.select_convs
    using loc(2) jobs jobs_ok profiles(2) profile commands patterns task paths_safe
      check_prose_ok [OF prose] by blast
qed

section \<open>Properties\<close>

text \<open>
  C6. Every policy that loads satisfies the invariant: job names are distinct safe identifiers,
  every selective profile selects declared jobs only and never claims \<open>full\<close> or \<open>mixed\<close>, every
  path stays in the repository, every command is a shell-free argument vector, and every task
  has a timeout of at most two hours.
\<close>

theorem load_policy_wf:
  assumes "load_policy pf path = Inr pol"
  shows "policy_wf pol"
proof -
  from assms obtain data where "load_data pf path data = Inr pol"
    by (auto simp: load_policy_def bindR_Inr split: sum.splits option.splits)
  then show ?thesis by (rule load_data_wf)
qed

text \<open>A minimal policy document and a host that delivers it.\<close>

definition sample_policy :: json where
  "sample_policy = JObj
     [(''schema'', JInt 3), (''repository'', JStr ''o/r''),
      (''jobs'', JList [JStr ''a'', JStr ''b'']),
      (''profile_jobs'', JObj [(''prose'', JList [JStr ''a''])]),
      (''public_documentation_root'', JStr ''docs/''),
      (''full_documentation_roots'', JList []),
      (''executable_documentation_roots'', JList []),
      (''executable_documentation_paths'', JList []),
      (''documentation_examples_manifest'', JNull),
      (''local_commands'', JObj
         [(''full'', JList [JList [JStr ''cargo'']]), (''prose'', JList [JList [JStr ''true'']])])]"

definition sample_platform :: platform where
  "sample_platform = \<lparr>read_bytes = (\<lambda>_. Inr ''{}''), json_loads = (\<lambda>_. Some sample_policy),
     resolve_path = (\<lambda>p. p), word_point = (\<lambda>_. False)\<rparr>"

definition sample_loaded :: policy where
  "sample_loaded =
     \<lparr>pol_repository = ''o/r'', pol_jobs = [''a'', ''b''], pol_profile_jobs = [(''prose'', [''a''])],
      pol_public_root = ''docs/'', pol_full_roots = [], pol_executable_roots = [],
      pol_executable_paths = [], pol_manifest = None,
      pol_local_commands = [(''full'', [[''cargo'']]), (''prose'', [[''true'']])],
      pol_path_profiles = [], pol_tasks = [], pol_path = ''/p''\<rparr>"

lemma load_sample: "load_policy sample_platform ''/p'' = Inr sample_loaded"
  by code_simp

theorem load_policy_wf_witness:
  "load_policy sample_platform ''/p'' = Inr sample_loaded \<and> policy_wf sample_loaded"
  using load_sample load_policy_wf [OF load_sample] by (rule conjI)

lemma policy_wf_jobs:
  assumes "policy_wf pol"
  shows "pol_jobs pol \<noteq> []" and "distinct (pol_jobs pol)" and "''full'' \<notin> keys (pol_profile_jobs pol)"
    and "\<And>p js. map_of (pol_profile_jobs pol) p = Some js \<Longrightarrow> set js \<subseteq> set (pol_jobs pol)"
proof -
  show "pol_jobs pol \<noteq> []" "distinct (pol_jobs pol)" using assms by (simp_all add: policy_wf_def)
  have ok: "\<forall>e \<in> set (pol_profile_jobs pol). profile_ok (pol_jobs pol) e"
    using assms by (simp add: policy_wf_def)
  then show "''full'' \<notin> keys (pol_profile_jobs pol)" by (auto simp: profile_ok_def)
  show "set js \<subseteq> set (pol_jobs pol)" if "map_of (pol_profile_jobs pol) p = Some js" for p js
    using bspec [OF ok map_of_SomeD [OF that]] by (simp add: profile_ok_def)
qed

lemma profile_declared:
  "p \<in> keys (pol_profile_jobs pol) \<Longrightarrow> \<exists>js. map_of (pol_profile_jobs pol) p = Some js"
  by (metis map_of_eq_None_iff not_None_eq set_map)

lemma union_profiles_Inr:
  "union_profiles pol ps = Inr S \<longleftrightarrow>
     (\<forall>p \<in> set ps. p \<in> keys (pol_profile_jobs pol))
     \<and> S = (\<Union>p \<in> set ps. set (the (map_of (pol_profile_jobs pol) p)))"
proof (induction ps arbitrary: S)
  case (Cons p ps)
  show ?case
  proof (cases "map_of (pol_profile_jobs pol) p")
    case None
    then have "p \<notin> keys (pol_profile_jobs pol)" by (simp add: map_of_eq_None_iff)
    with None show ?thesis by simp
  next
    case (Some js)
    then have "p \<in> keys (pol_profile_jobs pol)" by (force dest: map_of_SomeD)
    with Some Cons.IH show ?thesis by (auto simp: bindR_Inr)
  qed
qed auto

lemma sample_wf: "policy_wf sample_loaded"
proof -
  have "load_data sample_platform ''/p'' (dict_of sample_policy) = Inr sample_loaded" by code_simp
  then show ?thesis by (rule load_data_wf)
qed

lemma selected_sub:
  assumes "policy_wf pol" and "selected_jobs pol profiles = Inr S"
  shows "S \<subseteq> set (pol_jobs pol)"
proof (cases "profiles = [''full'']")
  case False
  with assms have S: "\<forall>p \<in> set profiles. p \<in> keys (pol_profile_jobs pol)"
      "S = (\<Union>p \<in> set profiles. set (the (map_of (pol_profile_jobs pol) p)))"
    by (simp_all add: selected_jobs_def union_profiles_Inr)
  have "set (the (map_of (pol_profile_jobs pol) p)) \<subseteq> set (pol_jobs pol)" if "p \<in> set profiles" for p
  proof -
    from S(1) that obtain js where "map_of (pol_profile_jobs pol) p = Some js"
      using profile_declared by blast
    with policy_wf_jobs(4) [OF assms(1)] show ?thesis by simp
  qed
  with S(2) show ?thesis by auto
qed (use assms in \<open>simp add: selected_jobs_def\<close>)

text \<open>
  Whatever profiles are asked for, a selection of a loaded policy holds only jobs the policy
  declares, and \<open>full\<close> alone selects all of them.
\<close>

theorem selected_jobs_declared:
  assumes "policy_wf pol" and "selected_jobs pol profiles = Inr S"
  shows "S \<subseteq> set (pol_jobs pol) \<and> (profiles = [''full''] \<longrightarrow> S = set (pol_jobs pol))"
  using selected_sub [OF assms] assms(2) by (auto simp: selected_jobs_def)

theorem selected_jobs_declared_witness:
  "selected_jobs sample_loaded [''prose''] = Inr {''a''}
   \<and> {''a''} \<subseteq> set (pol_jobs sample_loaded)"
proof -
  have "selected_jobs sample_loaded [''prose''] = Inr {''a''}" by code_simp
  with selected_jobs_declared [OF sample_wf this] show ?thesis by simp
qed

text \<open>
  Dropping \<open>prose\<close> next to \<open>executable-docs\<close> never loses a job: both selections are the same.
\<close>

theorem prose_subsumed:
  assumes "policy_wf pol" and "P \<subseteq> keys (pol_profile_jobs pol)" and "finite P"
    and "{''prose'', ''executable-docs''} \<subseteq> P"
  shows "selected_jobs pol (sorted_strings (P - {''prose''})) = selected_jobs pol (sorted_strings P)"
proof -
  let ?u = "\<lambda>Q. \<Union>p \<in> Q. set (the (map_of (pol_profile_jobs pol) p))"
  have full: "''full'' \<notin> P" using policy_wf_jobs(3) [OF assms(1)] assms(2) by blast
  from assms(2,4) obtain prose executable where m:
    "map_of (pol_profile_jobs pol) ''prose'' = Some prose"
    "map_of (pol_profile_jobs pol) ''executable-docs'' = Some executable"
    using profile_declared [of "''prose''" pol] profile_declared [of "''executable-docs''" pol]
    by blast
  with assms(1) have "set prose \<subseteq> set executable" by (simp add: policy_wf_def)
  moreover have "set executable \<subseteq> ?u (P - {''prose''})"
    using m(2) assms(4) by (intro SUP_upper2 [of "''executable-docs''"]) auto
  ultimately have "set (the (map_of (pol_profile_jobs pol) p)) \<subseteq> ?u (P - {''prose''})" if "p \<in> P" for p
    using that m(1) by (cases "p = ''prose''") auto
  then have "?u P = ?u (P - {''prose''})" by auto
  moreover have "selected_jobs pol (sorted_strings Q) = Inr (?u Q)" if "Q \<subseteq> P" for Q
  proof -
    have fin: "finite Q" using that assms(3) by (rule finite_subset)
    then have "set (sorted_strings Q) = Q" by simp
    then have "sorted_strings Q \<noteq> [''full'']" using that full by auto
    moreover have "union_profiles pol (sorted_strings Q) = Inr (?u Q)"
      using that assms(2) fin by (auto simp: union_profiles_Inr)
    ultimately show ?thesis by (simp add: selected_jobs_def)
  qed
  ultimately show ?thesis by (metis Diff_subset order_refl)
qed

theorem prose_subsumed_witness:
  "selected_jobs (sample_loaded\<lparr>pol_profile_jobs := [(''prose'', [''a'']), (''executable-docs'', [''a'', ''b''])],
       pol_local_commands := [(''full'', [[''cargo'']]), (''prose'', [[''true'']]), (''executable-docs'', [[''true'']])]\<rparr>)
     (sorted_strings ({''prose'', ''executable-docs''} - {''prose''})) = Inr {''a'', ''b''}"
proof -
  let ?p = "sample_loaded\<lparr>pol_profile_jobs := [(''prose'', [''a'']), (''executable-docs'', [''a'', ''b''])],
       pol_local_commands := [(''full'', [[''cargo'']]), (''prose'', [[''true'']]), (''executable-docs'', [[''true'']])]\<rparr>"
  have "policy_wf ?p" using sample_wf
    by (auto simp: policy_wf_def sample_loaded_def profile_ok_def argv_ok_def)
      (simp_all add: safe_ident_def char_class_defs)
  from prose_subsumed [OF this, of "{''prose'', ''executable-docs''}"]
  have "selected_jobs ?p (sorted_strings ({''prose'', ''executable-docs''} - {''prose''}))
      = selected_jobs ?p (sorted_strings {''prose'', ''executable-docs''})"
    by (simp add: sample_loaded_def)
  also have "\<dots> = Inr {''a'', ''b''}" by code_simp
  finally show ?thesis .
qed

end
