(* ===== verification/Markdown.thy ===== *)
theory Markdown
  imports Prelude
begin

text \<open>
  \<open>markdown.py\<close>: the bounded code projection of a prose file. The regular expressions of the
  module are written out as matchers on bytes; every matcher works on the suffix of the data
  that begins at the match position. An accepted projection is a bounded, ordered list of
  regions of the original bytes.
\<close>

section \<open>Limits and byte classes\<close>

definition MAX_MARKDOWN_BYTES :: nat where "MAX_MARKDOWN_BYTES = 1024 * 1024"
definition MAX_REGIONS :: nat where "MAX_REGIONS = 4096"
definition MAX_LINES :: nat where "MAX_LINES = 20000"
definition MAX_LINE_BYTES :: nat where "MAX_LINE_BYTES = 65536"

definition tab :: char where "tab = CHR 0x09"
definition backtick :: char where "backtick = CHR 0x60"
definition quote1 :: char where "quote1 = CHR 0x27"
definition quote2 :: char where "quote2 = CHR 0x22"

definition is_blank_char :: "char \<Rightarrow> bool" where
  "is_blank_char c = (c = CHR '' '' \<or> c = tab)"

text \<open>The whitespace of \<open>bytes.strip\<close> and the letter case of \<open>bytes.lower\<close>.\<close>

definition is_bspace :: "char \<Rightarrow> bool" where
  "is_bspace c = (ord c = 32 \<or> (9 \<le> ord c \<and> ord c \<le> 13))"

definition bstrip :: "string \<Rightarrow> string" where
  "bstrip s = rev (dropWhile is_bspace (rev (dropWhile is_bspace s)))"

definition lower :: "char \<Rightarrow> char" where
  "lower c = (if is_upper c then char_of (ord c + 32) else c)"

definition lower_s :: "string \<Rightarrow> string" where
  "lower_s s = map lower s"

text \<open>\<open>data.splitlines(keepends=True)\<close> of bytes: a line ends at LF, CR LF or CR.\<close>

fun splitlines :: "string \<Rightarrow> string list" where
  "splitlines [] = []"
| "splitlines (c # s) =
     (if c = newline \<or> (c = carriage \<and> \<not> startswith s [newline]) then [c] # splitlines s
      else (case splitlines s of [] \<Rightarrow> [[c]] | l # ls \<Rightarrow> (c # l) # ls))"

lemma concat_splitlines: "concat (splitlines s) = s"
proof (induction s)
  case (Cons c s)
  then show ?case by (cases "splitlines s") auto
qed simp

section \<open>The line patterns\<close>

text \<open>The indentation of at most three spaces that most patterns allow.\<close>

definition after_indent :: "string \<Rightarrow> string option" where
  "after_indent line =
     (if length (takeWhile (\<lambda>c. c = CHR '' '') line) \<le> 3
      then Some (dropWhile (\<lambda>c. c = CHR '' '') line) else None)"

definition line_end :: "string \<Rightarrow> bool" where
  "line_end s = (s = [] \<or> s = [newline] \<or> s = [carriage, newline])"

text \<open>\<open>_FENCE\<close>: the indentation, the delimiter run and the info string of an opening fence.\<close>

definition fence_line :: "string \<Rightarrow> (string \<times> string \<times> string) option" where
  "fence_line line = (case after_indent line of
     None \<Rightarrow> None
   | Some [] \<Rightarrow> None
   | Some (c # r) \<Rightarrow>
       let ticks = takeWhile (\<lambda>x. x = c) (c # r);
           rest = dropWhile (\<lambda>x. x = c) (c # r);
           info = takeWhile (\<lambda>x. x \<noteq> carriage \<and> x \<noteq> newline) rest
       in if (c = backtick \<or> c = CHR ''~'') \<and> 3 \<le> length ticks
             \<and> line_end (drop (length info) rest)
          then Some (takeWhile (\<lambda>c. c = CHR '' '') line, ticks, info) else None)"

definition closing_fence :: "char \<Rightarrow> nat \<Rightarrow> string \<Rightarrow> bool" where
  "closing_fence delimiter n line = (case after_indent line of
     None \<Rightarrow> False
   | Some r \<Rightarrow>
       n \<le> length (takeWhile (\<lambda>x. x = delimiter) r)
       \<and> line_end (dropWhile is_blank_char (dropWhile (\<lambda>x. x = delimiter) r)))"

definition unsupported_container :: "string \<Rightarrow> bool" where
  "unsupported_container line = (case after_indent line of
     None \<Rightarrow> False
   | Some r \<Rightarrow>
       startswith r ''>''
       \<or> (startswith r ''['' \<and> takeWhile (\<lambda>c. c \<noteq> CHR '']'') (tl r) \<noteq> []
            \<and> startswith (dropWhile (\<lambda>c. c \<noteq> CHR '']'') (tl r)) '']:'')
       \<or> startswith r '': '' \<or> startswith r [CHR '':'', tab]
       \<or> startswith r '':::'' \<or> startswith r ''!!!'' \<or> startswith r ''???'')"

definition heading :: "string \<Rightarrow> bool" where
  "heading line = (let n = length (takeWhile (\<lambda>c. c = CHR ''#'') line); r = drop n line in
     1 \<le> n \<and> n \<le> 6 \<and> ((r \<noteq> [] \<and> is_blank_char (hd r)) \<or> line_end r \<or> r = [carriage]))"

definition list_item :: "string \<Rightarrow> bool" where
  "list_item line = (case after_indent line of
     None \<Rightarrow> False
   | Some r \<Rightarrow>
       (case r of
          m # b # _ \<Rightarrow> m \<in> set ''-+*'' \<and> is_blank_char b
        | _ \<Rightarrow> False)
       \<or> (takeWhile is_digit r \<noteq> [] \<and>
          (case dropWhile is_digit r of
             m # b # _ \<Rightarrow> m \<in> set ''.)'' \<and> is_blank_char b
           | _ \<Rightarrow> False)))"

text \<open>\<open>_indented\<close>: the leading blanks reach column four with tab stops of four.\<close>

definition indent_width :: "string \<Rightarrow> nat" where
  "indent_width line =
     foldl (\<lambda>col c. if c = tab then col + (4 - col mod 4) else col + 1) 0
       (takeWhile is_blank_char line)"

definition indented :: "string \<Rightarrow> bool" where
  "indented line = (bstrip line \<noteq> [] \<and> takeWhile is_blank_char line \<noteq> []
     \<and> 4 \<le> indent_width line)"

section \<open>Complete HTML code elements\<close>

definition name_start :: "char \<Rightarrow> bool" where
  "name_start c = (is_lower c \<or> is_upper c \<or> c \<in> set ''_:'')"

definition name_char :: "char \<Rightarrow> bool" where
  "name_char c = (is_alnum c \<or> c \<in> set ''_:.-'')"

definition value_char :: "char \<Rightarrow> bool" where
  "value_char c = (is_alnum c \<or> c \<in> set ''_.:/-'')"

text \<open>What follows an attribute value, or nothing when there is no well-formed value.\<close>

definition quoted :: "char \<Rightarrow> string \<Rightarrow> string option" where
  "quoted q s = (let body = takeWhile (\<lambda>c. c \<noteq> q) s; r = dropWhile (\<lambda>c. c \<noteq> q) s in
     if r = [] \<or> (\<exists>c \<in> set body. c \<in> {CHR ''<'', CHR ''>'', carriage, newline})
     then None else Some (tl r))"

definition attribute_value :: "string \<Rightarrow> string option" where
  "attribute_value s = (case s of
     [] \<Rightarrow> None
   | c # r \<Rightarrow>
       if c = quote2 then quoted quote2 r
       else if c = quote1 then quoted quote1 r
       else if value_char c then Some (dropWhile value_char s)
       else None)"

lemma quoted_shorter: "quoted q s = Some s' \<Longrightarrow> length s' \<le> length s"
proof -
  assume "quoted q s = Some s'"
  then have "s' = tl (dropWhile (\<lambda>c. c \<noteq> q) s)" by (simp add: quoted_def Let_def split: if_splits)
  then show ?thesis using length_dropWhile_le [of "\<lambda>c. c \<noteq> q" s] by simp
qed

lemma attribute_value_shorter: "attribute_value s = Some s' \<Longrightarrow> length s' \<le> length s"
proof (cases s)
  case (Cons c r)
  assume "attribute_value s = Some s'"
  with Cons consider q where "quoted q r = Some s'" | "s' = dropWhile value_char s"
    by (auto simp: attribute_value_def split: if_splits)
  then show ?thesis
  proof cases
    case 1
    from quoted_shorter [OF this] Cons show ?thesis by simp
  next
    case 2
    then show ?thesis by (simp add: length_dropWhile_le)
  qed
qed (simp add: attribute_value_def)

text \<open>The text between the tag name and the closing bracket, one attribute after another.\<close>

function attributes :: "string \<Rightarrow> bool" where
  "attributes s =
     (let r = dropWhile is_blank_char s in
      if r = [] then True
      else if r = s \<or> \<not> name_start (hd r) then False
      else let after = dropWhile name_char (tl r);
               eq = dropWhile is_blank_char after
           in if eq \<noteq> [] \<and> hd eq = CHR ''=''
              then (case attribute_value (dropWhile is_blank_char (tl eq)) of
                      None \<Rightarrow> False
                    | Some s' \<Rightarrow> attributes s')
              else attributes after)"
  by auto
termination
proof (relation "measure length", simp, goal_cases)
  case (1 s r after eq s')
  have "length s' \<le> length eq"
    using attribute_value_shorter [OF 1(7)] length_dropWhile_le [of is_blank_char "tl eq"] by simp
  moreover have "length eq \<le> length (tl r)"
    unfolding 1(4,5) by (meson le_trans length_dropWhile_le)
  moreover have "length r \<le> length s" by (simp add: 1(1) length_dropWhile_le)
  moreover have "r \<noteq> []" by fact
  ultimately show ?case by (cases r) auto
next
  case (2 s r after eq)
  have "length after \<le> length (tl r)" unfolding 2(4) by (rule length_dropWhile_le)
  moreover have "length r \<le> length s" by (simp add: 2(1) length_dropWhile_le)
  moreover have "r \<noteq> []" by fact
  ultimately show ?case by (cases r) auto
qed

declare attributes.simps [simp del]

text \<open>\<open>_HTML_OPEN.match\<close>: the tag as written and the length of the opening tag.\<close>

definition html_open :: "string \<Rightarrow> (string \<times> nat) option" where
  "html_open s =
     (let n = (if startswith (lower_s s) ''<code'' then 4
               else if startswith (lower_s s) ''<pre'' then 3 else 0);
          body = takeWhile (\<lambda>c. c \<noteq> CHR ''>'') (drop (n + 1) s);
          k = n + 1 + length body
      in if n \<noteq> 0 \<and> k < length s \<and> attributes body
         then Some (take n (drop 1 s), k + 1) else None)"

text \<open>The closing pattern at the start of a suffix, and the first place it matches.\<close>

definition html_close :: "string \<Rightarrow> string \<Rightarrow> nat option" where
  "html_close tag s =
     (let n = length tag + 2; blanks = takeWhile is_blank_char (drop n s);
          k = n + length blanks
      in if startswith (lower_s s) (''</'' @ lower_s tag) \<and> startswith (drop k s) ''>''
         then Some (k + 1) else None)"

fun search_close :: "string \<Rightarrow> string \<Rightarrow> (nat \<times> nat) option" where
  "search_close tag [] = None"
| "search_close tag (c # s) = (case html_close tag (c # s) of
     Some k \<Rightarrow> Some (0, k)
   | None \<Rightarrow> (case search_close tag s of
       None \<Rightarrow> None
     | Some (i, k) \<Rightarrow> Some (i + 1, k)))"

fun html_nested :: "string \<Rightarrow> bool" where
  "html_nested [] = False"
| "html_nested (c # s) =
     ((c = CHR ''<'' \<and> (case s of
         [] \<Rightarrow> False
       | d # s' \<Rightarrow> is_lower d \<or> is_upper d \<or> d = CHR ''!'' \<or> d = CHR ''?''
           \<or> (d = CHR ''/'' \<and> s' \<noteq> [] \<and> (is_lower (hd s') \<or> is_upper (hd s')))))
      \<or> html_nested s)"

text \<open>\<open>_html_end\<close>: the length of the complete element that begins the suffix.\<close>

definition html_end :: "string \<Rightarrow> nat option" where
  "html_end s = (case html_open s of
     None \<Rightarrow> None
   | Some (tag, n) \<Rightarrow> (case search_close tag (drop n s) of
       None \<Rightarrow> None
     | Some (i, k) \<Rightarrow> if html_nested (take i (drop n s)) then None else Some (n + i + k)))"

lemma html_close_bound: "html_close tag s = Some k \<Longrightarrow> 0 < k \<and> k \<le> length s"
  by (auto simp: html_close_def startswith_def Let_def split: if_splits dest!: prefix_length_le)

lemma search_close_bound:
  "search_close tag s = Some (i, k) \<Longrightarrow> 0 < k \<and> i + k \<le> length s"
proof (induction s arbitrary: i)
  case (Cons c s)
  show ?case
  proof (cases "html_close tag (c # s)")
    case None
    with Cons.prems obtain j where "search_close tag s = Some (j, k)" "i = j + 1"
      by (auto split: option.splits)
    with Cons.IH show ?thesis by fastforce
  next
    case (Some k')
    with Cons.prems html_close_bound [OF Some] show ?thesis by simp
  qed
qed simp

lemma html_end_bound:
  assumes "html_end s = Some k"
  shows "0 < k \<and> k \<le> length s"
proof -
  from assms obtain tag n i j where n: "html_open s = Some (tag, n)"
    and s: "search_close tag (drop n s) = Some (i, j)" and k: "k = n + i + j"
    by (auto simp: html_end_def split: option.splits if_splits)
  from n have "n \<le> length s" by (auto simp: html_open_def Let_def split: if_splits)
  with search_close_bound [OF s] k show ?thesis by auto
qed

section \<open>Inline spans\<close>

text \<open>A region is its kind and its bytes, delimiters included.\<close>

type_synonym region = "string \<times> string"

text \<open>
  \<open>_TICKS.finditer\<close> from the end of the opening run: the offset after the first run of exactly
  \<open>n\<close> ticks.
\<close>

lemma dropWhile_shorter:
  "dropWhile P s \<noteq> [] \<Longrightarrow>
     length (dropWhile (\<lambda>c. \<not> P c) (dropWhile P s)) < length s"
  by (induction s) (auto intro: le_imp_less_Suc length_dropWhile_le)

function ticks_end :: "nat \<Rightarrow> string \<Rightarrow> nat option" where
  "ticks_end n s =
     (let skip = length (takeWhile (\<lambda>c. c \<noteq> backtick) s);
          r = dropWhile (\<lambda>c. c \<noteq> backtick) s;
          run = length (takeWhile (\<lambda>c. \<not> c \<noteq> backtick) r)
      in if r = [] then None
         else if run = n then Some (skip + run)
         else map_option (\<lambda>k. skip + run + k)
                (ticks_end n (dropWhile (\<lambda>c. \<not> c \<noteq> backtick) r)))"
  by auto
termination
proof (relation "measure (\<lambda>(n, s). length s)", simp, goal_cases)
  case (1 n s skip r run)
  then show ?case using dropWhile_shorter [of "\<lambda>c. c \<noteq> backtick" s] by simp
qed

declare ticks_end.simps [simp del]

lemma ticks_end_bound: "ticks_end n s = Some k \<Longrightarrow> 0 < n \<Longrightarrow> 0 < k \<and> k \<le> length s"
proof (induction n s arbitrary: k rule: ticks_end.induct)
  case (1 n s)
  define skip where "skip = takeWhile (\<lambda>c. c \<noteq> backtick) s"
  define r where "r = dropWhile (\<lambda>c. c \<noteq> backtick) s"
  define run where "run = takeWhile (\<lambda>c. \<not> c \<noteq> backtick) r"
  define rest where "rest = dropWhile (\<lambda>c. \<not> c \<noteq> backtick) r"
  note defs = skip_def [symmetric] r_def [symmetric] run_def [symmetric] rest_def [symmetric]
  have s: "s = skip @ run @ rest" by (simp add: skip_def run_def rest_def r_def)
  have eq: "ticks_end n s = (if r = [] then None else if length run = n then Some (length skip + length run)
      else map_option (\<lambda>k. length skip + length run + k) (ticks_end n rest))"
    by (subst ticks_end.simps) (simp only: Let_def defs)
  show ?case
  proof (cases "r \<noteq> [] \<and> length run \<noteq> n")
    case True
    with "1.prems" eq obtain j where j: "ticks_end n rest = Some j" "k = length skip + length run + j"
      by auto
    with "1.IH" [OF refl refl refl, unfolded defs, OF _ _ j(1) "1.prems"(2)] True s show ?thesis by simp
  next
    case False
    with "1.prems" eq s show ?thesis by (auto split: if_splits)
  qed
qed

definition count_char :: "char \<Rightarrow> string \<Rightarrow> nat" where
  "count_char c s = length (filter (\<lambda>x. x = c) s)"

text \<open>
  The loop of \<open>_inline\<close>: the number of regions so far, the byte before the position if there is
  one, and the rest of the line. It returns the regions and the bytes outside them.
\<close>

definition marker :: "char \<Rightarrow> bool" where
  "marker c = (c = backtick \<or> c = CHR ''<'')"

text \<open>The end of the span that a marker opens: a complete code element, or a closing run.\<close>

definition span_end :: "string \<Rightarrow> nat option" where
  "span_end r =
     (if hd r = CHR ''<'' then
        (if startswith (lower_s r) ''<pre'' then None else html_end r)
      else let n = length (takeWhile (\<lambda>c. c = backtick) r) in
        map_option (\<lambda>k. n + k) (ticks_end n (drop n r)))"

lemma span_end_bound:
  assumes "span_end (dropWhile (\<lambda>c. \<not> marker c) s) = Some k" "dropWhile (\<lambda>c. \<not> marker c) s \<noteq> []"
  shows "0 < k \<and> k \<le> length (dropWhile (\<lambda>c. \<not> marker c) s)"
proof -
  define r where "r = dropWhile (\<lambda>c. \<not> marker c) s"
  define n where "n = length (takeWhile (\<lambda>c. c = backtick) r)"
  have m: "marker (hd r)" using assms(2) hd_dropWhile r_def by metis
  show ?thesis
  proof (cases "hd r = CHR ''<''")
    case True
    with assms(1) show ?thesis by (auto simp: span_end_def r_def dest: html_end_bound split: if_splits)
  next
    case False
    with m have "hd r = backtick" by (simp add: marker_def)
    then have n: "0 < n" using assms(2) by (cases r) (auto simp: n_def r_def [symmetric])
    from False assms(1) obtain j where j: "ticks_end n (drop n r) = Some j" "k = n + j"
      by (auto simp: span_end_def r_def [symmetric] n_def [symmetric] Let_def)
    have "n \<le> length r" by (simp add: n_def length_takeWhile_le)
    with ticks_end_bound [OF j(1) n] j(2) n \<open>n \<le> length r\<close> show ?thesis by (simp add: r_def [symmetric]) linarith
  qed
qed

function inline_scan :: "nat \<Rightarrow> char option \<Rightarrow> string \<Rightarrow> (region list \<times> string) option" where
  "inline_scan n prev s =
     (let pre = takeWhile (\<lambda>c. \<not> marker c) s; r = dropWhile (\<lambda>c. \<not> marker c) s;
          before = (if pre = [] then prev else Some (last pre))
      in if s = [] then Some ([], [])
         else if MAX_REGIONS \<le> n then None
         else if r = [] then Some ([], s)
         else if before = Some backslash then None
         else (case span_end r of
            None \<Rightarrow> None
          | Some k \<Rightarrow>
              (case inline_scan (n + 1) (Some (last (take k r))) (drop k r) of
                 None \<Rightarrow> None
               | Some (regions, outside) \<Rightarrow>
                   Some ((if hd r = CHR ''<'' then ''html-inline'' else ''inline'', take k r)
                           # regions, pre @ outside))))"
  by auto
termination
proof (relation "measure (\<lambda>(n, prev, s). length s)", simp, goal_cases)
  case (1 n prev s pre r before k)
  then have "0 < k" and "r \<noteq> []" using span_end_bound by blast+
  moreover have "length r \<le> length s" by (simp add: 1 length_dropWhile_le)
  moreover have "length r \<noteq> 0" using 1 by simp
  ultimately have "length r - k < length s" by linarith
  then show ?case by simp
qed

declare inline_scan.simps [simp del]

definition inline :: "string \<Rightarrow> region list option" where
  "inline line = (case inline_scan 0 None line of
     None \<Rightarrow> None
   | Some (regions, prose) \<Rightarrow>
       if count_char CHR ''['' prose \<noteq> count_char CHR '']'' prose then None
       else if sublist ''](''  prose \<and> count_char CHR ''('' prose \<noteq> count_char CHR '')'' prose
       then None
       else if regions \<noteq> [] \<and> (CHR ''['' \<in> set prose \<or> CHR '']'' \<in> set prose) then None
       else Some regions)"

section \<open>The projection\<close>

text \<open>The index of the line that holds byte \<open>k - 1\<close> of the joined lines (\<open>bisect_right\<close>).\<close>

fun line_index :: "nat \<Rightarrow> string list \<Rightarrow> nat" where
  "line_index k [] = 0"
| "line_index k (l # ls) = (if k \<le> length l then 0 else 1 + line_index (k - length l) ls)"

definition html_start :: "string \<Rightarrow> bool" where
  "html_start line = (let r = lower_s (dropWhile is_blank_char line) in
     startswith r ''<code'' \<or> startswith r ''<pre'')"

definition prepend :: "region list \<Rightarrow> region list option \<Rightarrow> region list option" where
  "prepend rs r = map_option (\<lambda>qs. rs @ qs) r"

definition blank_line :: "string \<Rightarrow> bool" where
  "blank_line line = (bstrip line = [])"

text \<open>The lines of an indented block: up to the last line of it that is not blank.\<close>

definition indented_block :: "string list \<Rightarrow> string list" where
  "indented_block ls =
     rev (dropWhile blank_line (rev (takeWhile (\<lambda>l. indented l \<or> blank_line l) ls)))"

lemma indented_block_nonempty:
  assumes "indented line"
  shows "0 < length (indented_block (line # rest))"
proof -
  from assms have "\<not> blank_line line" by (simp add: indented_def blank_line_def)
  with assms show ?thesis by (simp add: indented_block_def)
qed

lemma indented_block_take: "indented_block ls = take (length (indented_block ls)) ls"
proof -
  define span where "span = takeWhile (\<lambda>l. indented l \<or> blank_line l) ls"
  have "prefix (indented_block ls) span"
    unfolding indented_block_def span_def [symmetric]
    by (metis rev_rev_ident suffix_dropWhile suffix_to_prefix)
  moreover have "prefix span ls" by (simp add: span_def takeWhile_is_prefix)
  ultimately have "prefix (indented_block ls) ls" by (rule prefix_order.trans)
  then obtain zs where "ls = indented_block ls @ zs" by (auto simp: prefix_def)
  then show ?thesis by (metis append_eq_conv_conj)
qed

text \<open>
  The element that begins the first line, with the lines after its last one: nothing but blanks
  may follow it on its last line, and the next line must be blank.
\<close>

definition html_block :: "string list \<Rightarrow> (string \<times> string list) option" where
  "html_block ls = (case html_end (concat ls) of
     None \<Rightarrow> None
   | Some k \<Rightarrow>
       let m = line_index k ls;
           block = concat (take (m + 1) ls);
           after = drop (m + 1) ls
       in if bstrip (drop k block) \<noteq> [] then None
          else if after \<noteq> [] \<and> \<not> blank_line (hd after) then None
          else Some (take k block, after))"

lemma html_block_split:
  assumes "html_block ls = Some (region, after)"
  obtains gap where "concat ls = region @ gap @ concat after" and "ls \<noteq> [] \<longrightarrow> length after < length ls"
proof -
  from assms obtain k m where "region = take k (concat (take (m + 1) ls))" "after = drop (m + 1) ls"
    unfolding html_block_def Let_def by (auto simp del: line_index.simps split: option.splits if_splits)
  moreover from this have "concat ls = region @ drop k (concat (take (m + 1) ls)) @ concat after"
    by (metis append_assoc append_take_drop_id concat_append)
  ultimately show thesis by (intro that) auto
qed

text \<open>Each step of the main loop consumes a line.\<close>

lemma project_measure:
  "indented line \<Longrightarrow> length (drop (length (indented_block (line # rest))) (line # rest)) < length rest + Suc 0"
  "html_block (line # rest) = Some b \<Longrightarrow> (region, after) = b \<Longrightarrow> length after < length rest + Suc 0"
  "length (tl (dropWhile P rest)) < length rest + Suc 0"
proof -
  show "indented line \<Longrightarrow> length (drop (length (indented_block (line # rest))) (line # rest)) < length rest + Suc 0"
    using indented_block_nonempty [of line rest] by auto
  show "html_block (line # rest) = Some b \<Longrightarrow> (region, after) = b \<Longrightarrow> length after < length rest + Suc 0"
    by (rule html_block_split [of "line # rest" region after]) simp_all
  show "length (tl (dropWhile P rest)) < length rest + Suc 0"
    using length_dropWhile_le [of P rest] by simp
qed

text \<open>
  The main loop: the number of regions so far, whether a list is active, whether the previous
  line was blank, and the lines left.
\<close>

function project :: "nat \<Rightarrow> bool \<Rightarrow> bool \<Rightarrow> string list \<Rightarrow> region list option" where
  "project n active blank [] = (if n \<le> MAX_REGIONS then Some [] else None)"
| "project n active blank (line # rest) =
     (if MAX_REGIONS < n then None
      else if blank_line line then project n active True rest
      else if unsupported_container line then None
      else (case fence_line line of
        Some (indent, ticks, info) \<Rightarrow>
          (let closing = closing_fence (hd ticks) (length ticks);
               body = takeWhile (\<lambda>l. \<not> closing l) rest; after = dropWhile (\<lambda>l. \<not> closing l) rest
           in if indent \<noteq> [] \<or> (hd ticks = backtick \<and> backtick \<in> set info) then None
              else if after = [] then None
              else prepend [(''fence'', line @ concat body @ hd after)]
                     (project (n + 1) False False (tl after)))
      | None \<Rightarrow>
        if indented line then
          (if active \<or> \<not> blank then None
           else prepend [(''indented'', concat (indented_block (line # rest)))]
                  (project (n + 1) active False
                     (drop (length (indented_block (line # rest))) (line # rest))))
        else if html_start line then
          (if is_blank_char (hd line) \<or> active \<or> \<not> blank then None
           else (case html_block (line # rest) of
             None \<Rightarrow> None
           | Some (region, after) \<Rightarrow>
               prepend [(''html-block'', region)] (project (n + 1) False False after)))
        else (case inline line of
          None \<Rightarrow> None
        | Some regions \<Rightarrow>
            prepend regions
              (project (n + length regions)
                 (if list_item line then True
                  else if heading line \<or> (blank \<and> \<not> is_blank_char (hd line)) then False
                  else active)
                 False rest))))"
  by pat_completeness auto
termination
  by (relation "measure (\<lambda>(n, active, blank, ls). length ls)") 
    (simp_all only: wf_measure in_measure split_conv list.size project_measure)

declare project.simps(2) [simp del]

definition code_projection :: "string \<Rightarrow> region list option" where
  "code_projection data =
     (let lines = splitlines data;
          first = (case filter (\<lambda>l. \<not> blank_line l) lines of [] \<Rightarrow> [] | l # _ \<Rightarrow> bstrip l)
      in if MAX_MARKDOWN_BYTES < length data
            \<or> (\<exists>c \<in> set data. ord c < 32 \<and> ord c \<notin> {9, 10, 13})
         then None
         else if \<not> utf8_ok (map ord data) then None
         else if MAX_LINES < length lines \<or> (\<exists>l \<in> set lines. MAX_LINE_BYTES < length l)
         then None
         else if first \<in> {''---'', ''+++''} then None
         else project 0 False True lines)"

definition unchanged_code :: "string list \<Rightarrow> bool" where
  "unchanged_code contents =
     (if length contents < 2 then False
      else let projections = map code_projection contents in
        hd projections \<noteq> None \<and> (\<forall>v \<in> set projections. v = hd projections))"

section \<open>What a projection keeps\<close>

text \<open>The regions occur in the data in this order, apart from each other.\<close>

fun embeds :: "region list \<Rightarrow> string \<Rightarrow> bool" where
  "embeds [] d = True"
| "embeds (r # rs) d = (\<exists>a b. d = a @ snd r @ b \<and> embeds rs b)"

lemma embeds_before: "embeds rs d \<Longrightarrow> embeds rs (a @ d)"
proof (cases rs)
  case (Cons r qs)
  assume "embeds rs d"
  with Cons obtain x b where "d = x @ snd r @ b" "embeds qs b" by auto
  then have "a @ d = (a @ x) @ snd r @ b \<and> embeds qs b" by simp
  with Cons show ?thesis by (metis embeds.simps(2))
qed simp

lemma embeds_append: "embeds rs d \<Longrightarrow> embeds qs e \<Longrightarrow> embeds (rs @ qs) (d @ e)"
proof (induction rs arbitrary: d)
  case Nil
  then show ?case by (simp add: embeds_before)
next
  case (Cons r rs)
  then obtain a b where "d = a @ snd r @ b" "embeds rs b" by auto
  with Cons show ?case by auto
qed

lemma embeds_first: "embeds qs e \<Longrightarrow> embeds ((kind, r) # qs) (r @ e)"
  using embeds_append [of "[(kind, r)]" r] by auto

lemma inline_scan_embeds: "inline_scan n prev s = Some (rs, out) \<Longrightarrow> embeds rs s"
proof (induction n prev s arbitrary: rs out rule: inline_scan.induct)
  case (1 n prev s)
  define r where "r = dropWhile (\<lambda>c. \<not> marker c) s"
  show ?case
  proof (cases "s = [] \<or> r = []")
    case True
    with "1.prems" show ?thesis
      by (subst (asm) inline_scan.simps) (auto simp: Let_def r_def [symmetric] split: if_splits)
  next
    case False
    with "1.prems" obtain k qs out' where k: "span_end r = Some k"
      and rec: "inline_scan (n + 1) (Some (last (take k r))) (drop k r) = Some (qs, out')"
      and rs: "snd (hd rs) = take k r" "tl rs = qs" "rs \<noteq> []"
      by (subst (asm) inline_scan.simps)
        (auto simp: Let_def r_def [symmetric] split: if_splits option.splits prod.splits)
    have "embeds qs (drop k r)"
      using "1.prems" False k rec
      by (subst (asm) inline_scan.simps)
        (auto simp: Let_def r_def [symmetric] split: if_splits intro!: "1.IH")
    then have "embeds ((fst (hd rs), take k r) # qs) (take k r @ drop k r)" by (rule embeds_first)
    moreover have "rs = (fst (hd rs), take k r) # qs" using rs by (cases rs) auto
    moreover have "s = takeWhile (\<lambda>c. \<not> marker c) s @ r" by (simp add: r_def)
    ultimately show ?thesis by (metis append_take_drop_id embeds_before)
  qed
qed

lemma inline_embeds: "inline line = Some rs \<Longrightarrow> embeds rs line"
  by (auto simp: inline_def dest: inline_scan_embeds split: option.splits if_splits)

lemma prepend_Some: "prepend rs r = Some qs \<longleftrightarrow> (\<exists>ps. r = Some ps \<and> qs = rs @ ps)"
  by (auto simp: prepend_def)

lemma embeds_fence:
  assumes "embeds ps (concat (tl after))" and "after \<noteq> []"
  shows "embeds ((kind, line @ concat body @ hd after) # ps) (concat (line # body @ after))"
  using assms embeds_first [OF assms(1), of kind "line @ concat body @ hd after"]
  by (cases after) auto

lemma project_regions:
  "project n active blank ls = Some rs \<Longrightarrow> embeds rs (concat ls) \<and> n + length rs \<le> MAX_REGIONS"
proof (induction "length ls" arbitrary: n active blank ls rs rule: less_induct)
  case less
  show ?case
  proof (cases ls)
    case Nil
    with less.prems show ?thesis by (auto split: if_splits)
  next
    case (Cons line rest)
    have IH: "embeds ps (concat ls')" and bound: "n' + length ps \<le> MAX_REGIONS"
      if "project n' active' blank' ls' = Some ps" and "length ls' < length rest + Suc 0"
      for n' active' blank' ls' ps
      using less.hyps [OF _ that(1)] that(2) Cons by simp_all
    note prems = less.prems [unfolded Cons project.simps(2) [of n active blank line rest]]
    consider (blank) "blank_line line"
      | (fence) indent ticks info where "\<not> blank_line line" "fence_line line = Some (indent, ticks, info)"
      | (indented) "\<not> blank_line line" "fence_line line = None" "indented line"
      | (html) "\<not> blank_line line" "fence_line line = None" "\<not> indented line" "html_start line"
      | (plain) "\<not> blank_line line" "fence_line line = None" "\<not> indented line" "\<not> html_start line"
      by (cases "fence_line line") auto
    then show ?thesis
    proof cases
      case blank
      with prems IH bound Cons show ?thesis by (auto split: if_splits intro: embeds_before)
    next
      case fence
      define P where "P = (\<lambda>l. \<not> closing_fence (hd ticks) (length ticks) l)"
      from fence prems obtain ps where
        ps: "project (n + 1) False False (tl (dropWhile P rest)) = Some ps"
        and after: "dropWhile P rest \<noteq> []"
        and rs: "rs = (''fence'', line @ concat (takeWhile P rest) @ hd (dropWhile P rest)) # ps"
        by (auto simp: prepend_Some P_def Let_def split: if_splits)
      from IH [OF ps project_measure(3)] have "embeds ps (concat (tl (dropWhile P rest)))" .
      from embeds_fence [OF this after, of "''fence''" line "takeWhile P rest"] rs Cons
        bound [OF ps project_measure(3)] show ?thesis by simp
    next
      case indented
      define k where "k = length (indented_block (line # rest))"
      from indented prems obtain ps where
        ps: "project (n + 1) active False (drop k (line # rest)) = Some ps"
        and rs: "rs = (''indented'', concat (indented_block (line # rest))) # ps"
        by (auto simp: prepend_Some k_def split: if_splits)
      from indented(3) have "embeds ps (concat (drop k (line # rest)))"
        by (intro IH [OF ps]) (unfold k_def, rule project_measure(1))
      from embeds_first [OF this] rs Cons have "embeds rs (concat ls)"
        by (metis append_take_drop_id concat_append indented_block_take k_def)
      moreover from indented(3) have "n + 1 + length ps \<le> MAX_REGIONS"
        by (intro bound [OF ps]) (unfold k_def, rule project_measure(1))
      ultimately show ?thesis using rs by simp
    next
      case html
      from html prems obtain region after ps where block: "html_block (line # rest) = Some (region, after)"
        and ps: "project (n + 1) False False after = Some ps"
        and rs: "rs = (''html-block'', region) # ps"
        by (auto simp: prepend_Some split: if_splits option.splits)
      from block obtain gap where gap: "concat (line # rest) = region @ gap @ concat after"
        by (rule html_block_split)
      from IH [OF ps project_measure(2) [OF block refl]] have "embeds ps (gap @ concat after)"
        by (rule embeds_before)
      from embeds_first [OF this] rs gap Cons bound [OF ps project_measure(2) [OF block refl]]
      show ?thesis by simp
    next
      case plain
      from plain prems obtain regions ps active' where r: "inline line = Some regions"
        and ps: "project (n + length regions) active' False rest = Some ps" and rs: "rs = regions @ ps"
        by (auto simp: prepend_Some split: if_splits option.splits)
      from embeds_append [OF inline_embeds [OF r] IH [OF ps]] bound [OF ps] rs Cons
      show ?thesis by simp
    qed
  qed
qed

lemma code_projection_project:
  assumes "code_projection data = Some rs"
  shows "project 0 False True (splitlines data) = Some rs" and "length data \<le> MAX_MARKDOWN_BYTES"
  using assms by (simp_all add: code_projection_def Let_def split: if_splits)

section \<open>Properties\<close>

text \<open>
  C11. An accepted projection is a bounded list of regions of the original bytes, in their order
  and apart from each other, of data within the size limit.
\<close>

theorem code_projection_regions:
  assumes "code_projection data = Some rs"
  shows "embeds rs data \<and> length rs \<le> MAX_REGIONS \<and> length data \<le> MAX_MARKDOWN_BYTES"
  using code_projection_project [OF assms] project_regions [OF code_projection_project(1) [OF assms]]
  by (simp add: concat_splitlines)

theorem code_projection_regions_witness:
  "code_projection ''# A `b` c'' = Some [(''inline'', ''`b`'')]
   \<and> embeds [(''inline'', ''`b`'')] ''# A `b` c''"
proof -
  have "code_projection ''# A `b` c'' = Some [(''inline'', ''`b`'')]" by code_simp
  from this code_projection_regions [OF this] show ?thesis by (rule conjI [OF _ conjunct1])
qed

text \<open>
  Code is unchanged exactly when at least two revisions were observed and all of them have
  one and the same projection.
\<close>

theorem unchanged_code_iff:
  "unchanged_code contents \<longleftrightarrow>
     2 \<le> length contents \<and> (\<exists>rs. code_projection ` set contents = {Some rs})"
proof (cases contents)
  case (Cons c cs)
  then show ?thesis
    by (cases "code_projection c"; cases cs) (auto simp: unchanged_code_def Let_def)
qed (simp add: unchanged_code_def)

end
