(* ===== verification/Planner.thy ===== *)
theory Planner
  imports Policy Markdown
begin

text \<open>
  \<open>planner.py\<close>: which profiles and jobs a change selects. Git runs through \<open>runner.run\<close>; the
  result of a run, the working tree, the TOML decoder and the hash are fields of \<open>checkout\<close>, so
  that the planner is a function of what it observes.
\<close>

section \<open>Data\<close>

definition PLAN_SCHEMA :: int where "PLAN_SCHEMA = 3"
definition MAX_PATHS :: nat where "MAX_PATHS = 5000"
definition MAX_OUTPUT_BYTES :: nat where "MAX_OUTPUT_BYTES = 2000000"

record comparison =
  event :: string
  base_sha :: string
  head_sha :: string
  tested_sha :: string

text \<open>What \<open>runner.run\<close> reports of a process, and what a working-tree path is.\<close>

record process_result =
  status :: string
  cause :: string
  stderr :: string
  stdout_bytes :: string

datatype entry = Absent | SymbolicLink | RegularFile nat | OtherEntry

type_synonym change = "char \<times> string list"

text \<open>
  The host of a plan: a process by working directory and argument vector, a working-tree entry,
  \<open>tomllib.loads\<close>, the SHA-256 of bytes in hexadecimal, the JSON text of a list of change
  records, and the text of an exception.
\<close>

record checkout =
  disk :: platform
  run_process :: "string \<Rightarrow> string list \<Rightarrow> process_result"
  working_entry :: "string \<Rightarrow> entry res"
  toml_loads :: "string \<Rightarrow> dict option"
  sha256_hex :: "string \<Rightarrow> string"
  json_records :: "change list \<Rightarrow> string"
  exception_text :: "exn \<Rightarrow> string"

section \<open>Git\<close>

definition git :: "checkout \<Rightarrow> string \<Rightarrow> string list \<Rightarrow> bool \<Rightarrow> string option res" where
  "git co dir args optional =
     (let result = run_process co dir
            ([''git'', ''-c'', ''diff.external='', ''-c'', ''core.fsmonitor=false''] @ args)
      in if status result \<noteq> ''success'' then
           if optional \<and> status result = ''failed'' then Inr None
           else Inl (ContractError ''git {}: {}; {}''
                  [hd args, cause result, py_take 500 (stderr result)])
         else Inr (Some (stdout_bytes result)))"

definition git_text :: "checkout \<Rightarrow> string \<Rightarrow> string list \<Rightarrow> string res" where
  "git_text co dir args =
     bindR (git co dir args False) (\<lambda>v. case v of
       None \<Rightarrow> Inl (ContractError ''Git unexpectedly returned no output'' [])
     | Some b \<Rightarrow> bindR (decode_utf8 b) (\<lambda>s. Inr (py_strip s)))"

text \<open>\<open>git(...) or b""\<close>\<close>

definition git_bytes :: "checkout \<Rightarrow> string \<Rightarrow> string list \<Rightarrow> string res" where
  "git_bytes co dir args =
     bindR (git co dir args False) (\<lambda>v. Inr (case v of None \<Rightarrow> [] | Some b \<Rightarrow> b))"

section \<open>Change records\<close>

text \<open>\<open>re.fullmatch(r"[RC](?:100|[0-9]{1,2})", status)\<close>\<close>

definition rename_status :: "string \<Rightarrow> bool" where
  "rename_status st = (case st of
     c # n \<Rightarrow> c \<in> set ''RC''
       \<and> (n = ''100'' \<or> (list_all is_digit n \<and> (length n = 1 \<or> length n = 2)))
   | [] \<Rightarrow> False)"

definition malformed :: "'a res \<Rightarrow> 'a res" where
  "malformed r = (case r of
     Inl UnicodeError \<Rightarrow> Inl (ContractError ''Git change paths or statuses are malformed'' [])
   | _ \<Rightarrow> r)"

definition changed_path :: "string \<Rightarrow> string res" where
  "changed_path field =
     bindR (malformed (decode_utf8 field)) (\<lambda>s. relative_path (JStr s) ''changed path'' False)"

text \<open>One record: its status, its names, and the fields after it.\<close>

definition change_record :: "string \<Rightarrow> string list \<Rightarrow> (change \<times> string list) res" where
  "change_record field rest =
     bindR (malformed (decode_ascii field)) (\<lambda>st.
     let count = (if rename_status st then 2 else 1 :: nat) in
     if st \<notin> {''A'', ''M'', ''D'', ''T''} \<and> count \<noteq> 2
     then Inl (ContractError ''unsupported Git change status {!r}'' [st])
     else bindR (mapR changed_path (take count rest)) (\<lambda>names.
       if length names \<noteq> count
       then Inl (ContractError ''Git change record is incomplete'' [])
       else Inr ((hd st, names), drop count rest)))"

lemma change_record_shorter:
  "change_record field rest = Inr (r, rest') \<Longrightarrow> length rest' \<le> length rest"
  by (auto simp: change_record_def res_simps Let_def split: if_splits)

definition path_count :: "change list \<Rightarrow> nat" where
  "path_count records = sum_list (map (\<lambda>r. length (snd r)) records)"

text \<open>The loop over the fields, with the number of paths of the records before.\<close>

function parse_fields :: "nat \<Rightarrow> string list \<Rightarrow> change list res" where
  "parse_fields n [] = Inr []"
| "parse_fields n (field # rest) =
     bindR (change_record field rest) (\<lambda>p.
       if MAX_PATHS < n + length (snd (fst p))
       then Inl (ContractError ''Git comparison exceeded its changed-path bound'' [])
       else bindR (parse_fields (n + length (snd (fst p))) (snd p)) (\<lambda>rs. Inr (fst p # rs)))"
  by pat_completeness auto
termination
  by (relation "measure (\<lambda>(n, fields). length fields)")
    (auto dest: change_record_shorter simp: le_imp_less_Suc)

definition parse_diff :: "string \<Rightarrow> change list res" where
  "parse_diff raw =
     (if MAX_OUTPUT_BYTES < length raw \<or> (raw \<noteq> [] \<and> \<not> endswith raw [nul])
      then Inl (ContractError ''Git comparison was truncated or exceeded its output bound'' [])
      else parse_fields 0 (butlast (split_on nul raw)))"

definition changes_between :: "checkout \<Rightarrow> string \<Rightarrow> string \<Rightarrow> string \<Rightarrow> change list res" where
  "changes_between co dir base head =
     bindR (git_bytes co dir
       [''diff'', ''--no-ext-diff'', ''--no-textconv'', ''--name-status'', ''-z'',
        ''--find-renames'', base, head, ''--'']) parse_diff"

definition regular_contents :: "checkout \<Rightarrow> string \<Rightarrow> string \<Rightarrow> string \<Rightarrow> string option res" where
  "regular_contents co dir revision path =
     bindR (git co dir [''ls-tree'', ''-z'', revision, ''--'', path] False) (\<lambda>listing.
       case listing of
         None \<Rightarrow> Inr None
       | Some l \<Rightarrow>
           if l = [] then Inr None
           else if \<not> (startswith l ''100644 blob '' \<or> startswith l ''100755 blob '')
           then Inl (ContractError ''non-regular Git path {!r}'' [path])
           else bindR (git co dir [''show'', revision @ '':'' @ path] False) (\<lambda>v. case v of
             None \<Rightarrow> Inl (ContractError ''unreadable Git path {!r}'' [path])
           | Some b \<Rightarrow> Inr (Some b)))"

section \<open>Paths\<close>

text \<open>\<open>Path.parent\<close> and \<open>Path.relative_to(...).as_posix()\<close> of absolute paths.\<close>

definition path_parts :: "string \<Rightarrow> string list" where
  "path_parts s = filter (\<lambda>c. c \<noteq> [] \<and> c \<noteq> ''.'') (split_on CHR ''/'' s)"

definition path_parent :: "string \<Rightarrow> string" where
  "path_parent s = ''/'' @ join ''/'' (butlast (path_parts s))"

definition relative_to :: "string \<Rightarrow> string \<Rightarrow> string res" where
  "relative_to path dir =
     (if startswith path ''/'' = startswith dir ''/'' \<and> prefix (path_parts dir) (path_parts path)
      then Inr (if path_parts path = path_parts dir then ''.''
                else join ''/'' (drop (length (path_parts dir)) (path_parts path)))
      else Inl (ValueError ''is not in the subpath''))"

text \<open>\<open>fnmatch.fnmatchcase\<close> on code points.\<close>

definition class_end :: "nat list \<Rightarrow> (nat list \<times> nat list) option" where
  "class_end p =
     (let neg = (if startswith p [33] then 1 else 0);
          lead = (if startswith (drop neg p) [93] then neg + 1 else neg);
          body = takeWhile (\<lambda>c. c \<noteq> 93) (drop lead p);
          n = lead + length body
      in if n < length p then Some (take n p, drop (n + 1) p) else None)"

fun class_items :: "nat list \<Rightarrow> nat \<Rightarrow> bool" where
  "class_items [] x = False"
| "class_items [c] x = (x = c)"
| "class_items [c, d] x = (x = c \<or> x = d)"
| "class_items (lo # d # hi # r) x =
     (if d = 45 then (lo \<le> x \<and> x \<le> hi) \<or> class_items r x
      else x = lo \<or> class_items (d # hi # r) x)"

definition class_match :: "nat list \<Rightarrow> nat \<Rightarrow> bool" where
  "class_match stuff x =
     (if startswith stuff [33] then \<not> class_items (tl stuff) x else class_items stuff x)"

lemma class_end_shorter: "class_end p = Some (stuff, rest) \<Longrightarrow> length rest < length p"
  by (auto simp: class_end_def Let_def split: if_splits)

function glob :: "nat list \<Rightarrow> nat list \<Rightarrow> bool" where
  "glob [] s = (s = [])"
| "glob (c # p) s =
     (if c = 42 then glob p s \<or> (case s of [] \<Rightarrow> False | _ # s' \<Rightarrow> glob (c # p) s')
      else case s of
        [] \<Rightarrow> False
      | x # s' \<Rightarrow>
          if c = 63 then glob p s'
          else if c = 91 then
            (case class_end p of
               None \<Rightarrow> x = 91 \<and> glob p s'
             | Some (stuff, rest) \<Rightarrow> class_match stuff x \<and> glob rest s')
          else x = c \<and> glob p s')"
  by pat_completeness auto
termination
  by (relation "measures [\<lambda>(p, s). length p, \<lambda>(p, s). length s]")
    (auto dest: class_end_shorter simp: less_SucI)

definition fnmatchcase :: "string \<Rightarrow> string \<Rightarrow> bool" where
  "fnmatchcase path pat = glob (code_points (map ord pat)) (code_points (map ord path))"

text \<open>The planner's \<open>_CODE.search\<close>: a line that looks like code.\<close>

definition word_byte :: "char \<Rightarrow> bool" where
  "word_byte c = (is_alnum c \<or> c = CHR ''_'')"

fun backtick_span :: "string \<Rightarrow> bool" where
  "backtick_span [] = False"
| "backtick_span (c # s) =
     ((c = backtick \<and>
        (let body = takeWhile (\<lambda>x. x \<noteq> backtick \<and> x \<noteq> carriage) s in
          body \<noteq> [] \<and> startswith (drop (length body) s) [backtick]))
      \<or> backtick_span s)"

definition word_boundary :: "string \<Rightarrow> bool" where
  "word_boundary r = (r = [] \<or> \<not> word_byte (hd r))"

fun code_tag :: "string \<Rightarrow> bool" where
  "code_tag [] = False"
| "code_tag (c # s) =
     ((startswith (lower_s (c # s)) ''<code'' \<and> word_boundary (drop 5 (c # s)))
      \<or> (startswith (lower_s (c # s)) ''<pre'' \<and> word_boundary (drop 4 (c # s)))
      \<or> code_tag s)"

definition code_line :: "string \<Rightarrow> bool" where
  "code_line line =
     (let blanks = takeWhile is_blank_char line; rest = dropWhile is_blank_char line;
          spaces = takeWhile (\<lambda>c. c = CHR '' '') line
      in startswith rest ''```'' \<or> startswith rest ''~~~''
         \<or> ((4 \<le> length spaces \<or> startswith (drop (length spaces) line) [tab])
             \<and> rest \<noteq> [] \<and> \<not> is_bspace (hd rest))
         \<or> backtick_span line \<or> code_tag line)"

definition has_code :: "string \<Rightarrow> bool" where
  "has_code value = list_ex code_line (split_on newline value)"

section \<open>The profiles of one path\<close>

definition example_pages_of :: "json \<Rightarrow> string list res" where
  "example_pages_of example =
     (if \<not> is_obj example \<or> \<not> is_list (dget (dict_of example) ''pages'')
      then Inl (ContractError ''documentation example has no page list'' [])
      else mapR (\<lambda>page. relative_path page ''documentation example page'' False)
             (list_of (dget (dict_of example) ''pages'')))"

definition example_pages :: "checkout \<Rightarrow> policy \<Rightarrow> string set res" where
  "example_pages co pol = (case pol_manifest pol of
     None \<Rightarrow> Inr {}
   | Some path \<Rightarrow>
       bindR (git_text co (path_parent (pol_path pol)) [''rev-parse'', ''--show-toplevel'']) (\<lambda>top.
       bindR (read_bytes (disk co) (top @ ''/'' @ path)) (\<lambda>raw.
       bindR (decode_utf8 raw) (\<lambda>text.
       case toml_loads co text of
         None \<Rightarrow> Inl (ValueError ''TOMLDecodeError'')
       | Some manifest \<Rightarrow>
           if dget manifest ''schema'' \<noteq> JInt 1
           then Inl (ContractError
                  ''documentation examples manifest has an unsupported schema'' [])
           else if \<not> is_list (dget manifest ''examples'')
           then Inl (ContractError ''documentation examples manifest has no example list'' [])
           else bindR (mapR example_pages_of (list_of (dget manifest ''examples'')))
                  (\<lambda>pages. Inr (set (concat pages)))))))"

definition configured_profiles :: "policy \<Rightarrow> string \<Rightarrow> string set" where
  "configured_profiles pol path =
     set (map fst (filter (\<lambda>e. list_ex (fnmatchcase path) (snd e)) (pol_path_profiles pol)))"

definition path_profiles ::
  "string \<Rightarrow> string list \<Rightarrow> policy \<Rightarrow> string set \<Rightarrow> bool \<Rightarrow> string set" where
  "path_profiles path contents pol pages complete_pair =
     (if endswith path ''validation-policy.json'' \<or> path = ''uv.lock'' \<or> endswith path ''/uv.lock''
      then {''full''}
      else if list_ex (startswith path) (pol_full_roots pol) then {''full''}
      else
        let configured = configured_profiles pol path; extra = configured - {''prose''} in
        if path \<in> set (pol_executable_paths pol) \<or> path \<in> pages
        then insert ''executable-docs'' extra
        else if endswith path ''.md'' \<and> list_ex (startswith path) (pol_executable_roots pol)
        then insert ''executable-docs'' extra
        else if startswith path (pol_public_root pol) \<and> endswith path ''.md''
        then insert (if list_ex has_code contents then ''executable-docs'' else ''prose'') extra
        else if ''prose'' \<in> configured \<and>
          (\<not> endswith path ''.md''
           \<or> path \<notin> set (case map_of (pol_path_profiles pol) ''prose'' of None \<Rightarrow> [] | Some ps \<Rightarrow> ps)
           \<or> \<not> complete_pair \<or> \<not> unchanged_code contents)
        then {''full''}
        else if configured = {} then {''full''} else configured)"

section \<open>Classification\<close>

definition full_plan :: "string \<Rightarrow> string option \<Rightarrow> string list \<times> string list \<times> string option" where
  "full_plan reason fingerprint = ([''full''], [reason], fingerprint)"

text \<open>
  What a path shows: the baseline, candidate, indexed and working-tree contents that exist, the
  bytes added to the local fingerprint, and whether both revisions were seen.
\<close>

definition revision_contents ::
  "checkout \<Rightarrow> string \<Rightarrow> string \<Rightarrow> string \<Rightarrow> bool \<Rightarrow> string \<Rightarrow> bool \<Rightarrow> string list res" where
  "revision_contents co dir revision path expected what local =
     (if \<not> expected then Inr []
      else bindR (regular_contents co dir revision path) (\<lambda>v. case v of
        Some b \<Rightarrow> Inr [b]
      | None \<Rightarrow> if local then Inr []
                else Inl (ContractError (''missing '' @ what @ '' path {!r}'') [path])))"

definition working_contents :: "checkout \<Rightarrow> string \<Rightarrow> string \<Rightarrow> (string list \<times> string) res" where
  "working_contents co dir path =
     bindR (git co dir [''show'', '':'' @ path] True) (\<lambda>indexed.
     let (vs, dg) = (case indexed of None \<Rightarrow> ([], []) | Some b \<Rightarrow> ([b], b)) in
     bindR (working_entry co (dir @ ''/'' @ path)) (\<lambda>current. case current of
       Absent \<Rightarrow> Inr (vs, dg)
     | RegularFile bytes \<Rightarrow>
         if MAX_OUTPUT_BYTES < bytes
         then Inl (ContractError ''working-tree path too large {!r}'' [path])
         else bindR (read_bytes (disk co) (dir @ ''/'' @ path)) (\<lambda>content.
           Inr (vs @ [content], dg @ path @ content))
     | _ \<Rightarrow> Inl (ContractError ''non-regular working-tree path {!r}'' [path])))"

definition path_step ::
  "checkout \<Rightarrow> string \<Rightarrow> comparison \<Rightarrow> policy \<Rightarrow> bool \<Rightarrow> string set \<Rightarrow> string set \<Rightarrow> char
   \<Rightarrow> nat \<Rightarrow> nat \<times> string \<Rightarrow> (string set \<times> string) res" where
  "path_step co dir cmp pol local worktree pages kind count p = (case p of (position, path) \<Rightarrow>
     bindR (revision_contents co dir (base_sha cmp) path
              (kind \<noteq> CHR ''A'' \<and> position = 0) ''baseline'' local) (\<lambda>old.
     bindR (revision_contents co dir (tested_sha cmp) path
              (kind \<noteq> CHR ''D'' \<and> position = count - 1) ''candidate'' local) (\<lambda>new.
     bindR (if local \<and> path \<in> worktree then working_contents co dir path else Inr ([], []))
       (\<lambda>(work, dg).
         Inr (path_profiles path (old @ new @ work) pol pages
                (kind = CHR ''M'' \<and> count = 1 \<and> old \<noteq> [] \<and> new \<noteq> []), dg)))))"

text \<open>The loop over the records; \<open>None\<close> is the early return for a changed object type.\<close>

fun classify_records ::
  "checkout \<Rightarrow> string \<Rightarrow> comparison \<Rightarrow> policy \<Rightarrow> bool \<Rightarrow> string set \<Rightarrow> string set \<Rightarrow> change list
   \<Rightarrow> (string set \<times> string) option res" where
  "classify_records co dir cmp pol local worktree pages [] = Inr (Some ({}, []))"
| "classify_records co dir cmp pol local worktree pages ((kind, names) # rs) =
     (if kind = CHR ''T'' then Inr None
      else bindR (mapR (path_step co dir cmp pol local worktree pages kind (length names))
                    (enumerate 0 names)) (\<lambda>steps.
        bindR (classify_records co dir cmp pol local worktree pages rs) (\<lambda>rest. Inr
          (case rest of
             None \<Rightarrow> None
           | Some (profiles, dg) \<Rightarrow>
               Some (\<Union>(set (map fst steps)) \<union> profiles, concat (map snd steps) @ dg)))))"

definition untracked_paths :: "string \<Rightarrow> string list res" where
  "untracked_paths raw =
     mapR (\<lambda>f. bindR (decode_utf8 f) (\<lambda>s. relative_path (JStr s) ''untracked path'' False))
       (filter (\<lambda>f. f \<noteq> []) (split_on nul raw))"

text \<open>The records a local comparison adds, and the paths that may differ in the working tree.\<close>

definition local_records :: "checkout \<Rightarrow> string \<Rightarrow> (change list \<times> string set) res" where
  "local_records co dir =
     bindR (bindR (git_bytes co dir
              [''diff'', ''--no-ext-diff'', ''--no-textconv'', ''--name-status'', ''-z'', ''HEAD'',
               ''--'']) parse_diff) (\<lambda>unstaged.
     bindR (bindR (git_bytes co dir
              [''diff'', ''--no-ext-diff'', ''--no-textconv'', ''--cached'', ''--name-status'',
               ''-z'', ''--'']) parse_diff) (\<lambda>staged.
     bindR (bindR (git_bytes co dir [''ls-files'', ''--others'', ''--exclude-standard'', ''-z''])
              untracked_paths) (\<lambda>untracked.
     Inr (unstaged @ staged @ map (\<lambda>path. (CHR ''A'', [path])) untracked,
          set (concat (map snd (unstaged @ staged))) \<union> set untracked))))"

text \<open>The selection for the profiles of all paths, and of all records of a comparison.\<close>

definition select_profiles ::
  "checkout \<Rightarrow> policy \<Rightarrow> bool \<Rightarrow> change list \<Rightarrow> string set \<Rightarrow> string
   \<Rightarrow> string list \<times> string list \<times> string option" where
  "select_profiles co pol local records profiles dg =
     (let fingerprint = (if local then Some (sha256_hex co (json_records co records @ dg)) else None)
      in if ''full'' \<in> profiles \<or> \<not> profiles \<subseteq> keys (pol_profile_jobs pol)
         then full_plan
                ''source, dependency, policy, or unknown scope requires complete validation''
                fingerprint
         else (sorted_strings
                 (if ''executable-docs'' \<in> profiles then profiles - {''prose''} else profiles),
               [''known changed paths select the union of their profiles''], fingerprint))"

definition select_records ::
  "checkout \<Rightarrow> string \<Rightarrow> comparison \<Rightarrow> policy \<Rightarrow> bool \<Rightarrow> change list \<Rightarrow> string set
   \<Rightarrow> (string list \<times> string list \<times> string option) res" where
  "select_records co dir cmp pol local records worktree =
     (if records = [] \<or> MAX_PATHS < path_count records
      then Inr (full_plan ''empty or oversized comparison requires complete validation'' None)
      else
      bindR (example_pages co pol) (\<lambda>pages.
      bindR (classify_records co dir cmp pol local worktree pages records) (\<lambda>r. Inr (case r of
        None \<Rightarrow> full_plan ''Git object type changed'' None
      | Some (profiles, dg) \<Rightarrow> select_profiles co pol local records profiles dg))))"

definition classify ::
  "checkout \<Rightarrow> string \<Rightarrow> comparison \<Rightarrow> policy \<Rightarrow> bool
   \<Rightarrow> (string list \<times> string list \<times> string option) res" where
  "classify co dir cmp pol local =
     bindR (changes_between co dir (base_sha cmp) (tested_sha cmp)) (\<lambda>committed.
     bindR (if local then local_records co dir else Inr ([], {})) (\<lambda>p.
       select_records co dir cmp pol local (committed @ fst p) (snd p)))"

section \<open>The plan\<close>

definition verify_policy_revision ::
  "checkout \<Rightarrow> policy \<Rightarrow> string \<Rightarrow> comparison \<Rightarrow> unit res" where
  "verify_policy_revision co pol policy_sha cmp =
     bindR (exact_sha (JStr policy_sha) ''trusted policy SHA'') (\<lambda>expected.
     if expected \<noteq> base_sha cmp
     then Inl (ContractError ''PR/queue policy must come from the exact comparison base'' [])
     else
     bindR (git_text co (path_parent (pol_path pol)) [''rev-parse'', ''--show-toplevel'']) (\<lambda>top.
     bindR (relative_to (pol_path pol) top) (\<lambda>relative.
     bindR (regular_contents co top expected relative) (\<lambda>committed.
     bindR (read_bytes (disk co) (pol_path pol)) (\<lambda>here.
     if committed \<noteq> Some here
     then Inl (ContractError ''policy contents differ from the trusted base revision'' [])
     else case pol_manifest pol of
       None \<Rightarrow> Inr ()
     | Some manifest \<Rightarrow>
         bindR (regular_contents co top expected manifest) (\<lambda>m.
         bindR (read_bytes (disk co) (top @ ''/'' @ manifest)) (\<lambda>h.
         if m \<noteq> Some h
         then Inl (ContractError
                ''example manifest differs from the trusted base revision'' [])
         else Inr ())))))))"

text \<open>The revisions a plan compares, and whether the event forces a complete validation.\<close>

record request =
  req_event :: string
  req_base_sha :: string
  req_head_sha :: string
  req_tested_sha :: string
  req_policy_sha :: string
  req_base_ref :: string
  force_full :: bool

definition plan_comparison ::
  "checkout \<Rightarrow> string \<Rightarrow> policy \<Rightarrow> request \<Rightarrow> string \<Rightarrow> (comparison \<times> bool) res" where
  "plan_comparison co dir pol rq tested =
     (if req_event rq = ''local'' then
        bindR (bindR (git_text co dir [''rev-parse'', ''HEAD'']) (\<lambda>h. exact_sha (JStr h) ''HEAD''))
          (\<lambda>head.
        if tested \<noteq> head then Inl (ContractError ''local tested SHA must be HEAD'' [])
        else
        bindR (git co dir [''merge-base'', ''HEAD'', req_base_ref rq] True) (\<lambda>found.
        if found = None \<or> found = Some []
        then Inr (\<lparr>event = req_event rq, base_sha = head, head_sha = head, tested_sha = tested\<rparr>, True)
        else bindR (decode_utf8 (the found)) (\<lambda>text.
             bindR (exact_sha (JStr (py_strip text)) ''local base'') (\<lambda>base.
             Inr (\<lparr>event = req_event rq, base_sha = base, head_sha = head, tested_sha = tested\<rparr>,
                  force_full rq)))))
      else if req_event rq \<in> {''pull_request'', ''merge_group''} then
        bindR (exact_sha (JStr (req_base_sha rq)) ''base SHA'') (\<lambda>base.
        bindR (exact_sha (JStr (req_head_sha rq)) ''head SHA'') (\<lambda>head.
        let cmp = \<lparr>event = req_event rq, base_sha = base, head_sha = head, tested_sha = tested\<rparr> in
        bindR (verify_policy_revision co pol (req_policy_sha rq) cmp) (\<lambda>_.
          Inr (cmp, force_full rq))))
      else if req_event rq \<in> {''push'', ''workflow_dispatch'', ''workflow_call''} then
        Inr (\<lparr>event = req_event rq, base_sha = tested, head_sha = tested, tested_sha = tested\<rparr>, True)
      else Inl (ContractError ''unsupported validation event {!r}'' [req_event rq]))"

text \<open>The classification of a candidate that contains its head.\<close>

definition classify_candidate ::
  "checkout \<Rightarrow> string \<Rightarrow> comparison \<Rightarrow> policy \<Rightarrow> (string list \<times> string list \<times> string option) res" where
  "classify_candidate co dir cmp pol =
     bindR (if event cmp \<in> {''pull_request'', ''merge_group''}
            then git co dir [''merge-base'', ''--is-ancestor'', head_sha cmp, tested_sha cmp] True
            else Inr (Some [])) (\<lambda>found.
     if found = None
     then Inl (ContractError ''tested revision does not contain the exact candidate head'' [])
     else classify co dir cmp pol (event cmp = ''local''))"

text \<open>\<open>except (OSError, UnicodeError, ValueError)\<close>\<close>

definition classification_error :: "exn \<Rightarrow> bool" where
  "classification_error e = (is_ValueError e \<or> (case e of OSError m \<Rightarrow> True | _ \<Rightarrow> False))"

definition plan_profiles ::
  "checkout \<Rightarrow> string \<Rightarrow> comparison \<Rightarrow> policy \<Rightarrow> bool
   \<Rightarrow> (string list \<times> string list \<times> string option) res" where
  "plan_profiles co dir cmp pol full =
     (if full
      then Inr (full_plan ''this event or explicit complete mode requires full validation'' None)
      else case classify_candidate co dir cmp pol of
        Inr r \<Rightarrow> Inr r
      | Inl e \<Rightarrow>
          if classification_error e
          then Inr (full_plan (''classification unavailable: '' @ exception_text co e) None)
          else Inl e)"

definition plan_value ::
  "policy \<Rightarrow> comparison \<Rightarrow> string list \<times> string list \<times> string option \<Rightarrow> string set \<Rightarrow> dict" where
  "plan_value pol cmp r selected = (case r of (profiles, reasons, fingerprint) \<Rightarrow>
     [(''schema'', JInt PLAN_SCHEMA), (''repository'', JStr (pol_repository pol)),
      (''event'', JStr (event cmp)), (''base_sha'', JStr (base_sha cmp)),
      (''head_sha'', JStr (head_sha cmp)), (''tested_sha'', JStr (tested_sha cmp)),
      (''profile'', JStr (case profiles of [p] \<Rightarrow> p | _ \<Rightarrow> ''mixed'')),
      (''profiles'', JList (map JStr profiles)),
      (''jobs'', JObj (map (\<lambda>job. (job, JBool (job \<in> selected))) (pol_jobs pol))),
      (''reasons'', JList (map JStr reasons)),
      (''local_fingerprint'', case fingerprint of None \<Rightarrow> JNull | Some f \<Rightarrow> JStr f)])"

definition make_plan :: "checkout \<Rightarrow> string \<Rightarrow> policy \<Rightarrow> request \<Rightarrow> dict res" where
  "make_plan co rt pol rq =
     (let dir = resolve_path (disk co) rt in
      bindR (if req_tested_sha rq \<noteq> [] then Inr (req_tested_sha rq)
             else git_text co dir [''rev-parse'', ''HEAD'']) (\<lambda>t.
      bindR (exact_sha (JStr t) ''tested SHA'') (\<lambda>tested.
      bindR (plan_comparison co dir pol rq tested) (\<lambda>(cmp, full).
      bindR (plan_profiles co dir cmp pol full) (\<lambda>r.
      bindR (selected_jobs pol (fst r)) (\<lambda>selected.
      Inr (plan_value pol cmp r selected)))))))"

section \<open>What the change records guarantee\<close>

definition change_ok :: "change \<Rightarrow> bool" where
  "change_ok r \<longleftrightarrow> fst r \<in> set ''AMDTRC'' \<and> snd r \<noteq> [] \<and> length (snd r) \<le> 2
     \<and> (\<forall>p \<in> set (snd r). safe_path p)"

lemma malformed_Inr [simp]: "malformed r = Inr x \<longleftrightarrow> r = Inr x"
  by (auto simp: malformed_def split: sum.splits exn.splits)

lemma malformed_id [simp]: "malformed (Inr x) = Inr x"
  by (simp add: malformed_def)

lemma changed_path_Inr [res_simps]:
  "changed_path field = Inr s \<longleftrightarrow>
     s = field \<and> utf8_ok (map ord field) \<and> relative_path (JStr field) ''changed path'' False = Inr field"
  by (auto simp: changed_path_def res_simps)

lemma mapR_changed_path:
  "mapR changed_path fs = Inr names \<longleftrightarrow>
     names = fs \<and> (\<forall>f \<in> set fs. changed_path f = Inr f)"
  by (induction fs arbitrary: names) (auto simp: bindR_Inr changed_path_Inr)

lemma rename_status_hd: "rename_status st \<Longrightarrow> hd st \<in> set ''RC'' \<and> list_all (\<lambda>c. ord c < 128) st"
  by (auto simp: rename_status_def is_digit_def list_all_iff ord_def split: list.splits)

lemma change_record_ok:
  assumes "change_record field rest = Inr (r, rest')"
  shows "change_ok r"
proof -
  from assms have st: "field \<in> {''A'', ''M'', ''D'', ''T''} \<or> rename_status field"
    and r: "r = (hd field, take (if rename_status field then 2 else 1) rest)"
    and len: "length (snd r) = (if rename_status field then 2 else 1)"
    and ok: "\<forall>f \<in> set (snd r). changed_path f = Inr f"
    by (auto simp: change_record_def bindR_Inr decode_ascii_Inr mapR_changed_path Let_def split: if_splits)
  from st have "hd field \<in> set ''AMDTRC''" using rename_status_hd by auto
  with r len ok show ?thesis
    by (auto simp: change_ok_def changed_path_Inr dest: relative_path_safe split: if_splits)
qed

lemma parse_fields_ok:
  "parse_fields n fs = Inr rs \<Longrightarrow>
     (\<forall>r \<in> set rs. change_ok r) \<and> (rs \<noteq> [] \<longrightarrow> n + path_count rs \<le> MAX_PATHS)"
proof (induction n fs arbitrary: rs rule: parse_fields.induct)
  case (2 n field rest)
  from "2.prems" obtain r rest' rs' where
    r: "change_record field rest = Inr (r, rest')" "\<not> MAX_PATHS < n + length (snd r)"
    and rs': "parse_fields (n + length (snd r)) rest' = Inr rs'" and rs: "rs = r # rs'"
    by (auto simp: bindR_Inr split: if_splits)
  from "2.IH" [OF r(1)] r(2) rs' have
    "(\<forall>r \<in> set rs'. change_ok r) \<and> (rs' \<noteq> [] \<longrightarrow> n + length (snd r) + path_count rs' \<le> MAX_PATHS)"
    by simp
  with r change_record_ok [OF r(1)] rs show ?case
    by (cases rs') (auto simp: path_count_def)
qed (simp add: path_count_def)

lemma parse_diff_ok:
  assumes "parse_diff raw = Inr rs"
  shows "(\<forall>r \<in> set rs. change_ok r) \<and> path_count rs \<le> MAX_PATHS"
proof -
  from assms have "parse_fields 0 (butlast (split_on nul raw)) = Inr rs"
    by (simp add: parse_diff_def split: if_splits)
  from parse_fields_ok [OF this] show ?thesis by (cases "rs = []") (auto simp: path_count_def)
qed

text \<open>The records as Git writes them with \<open>-z\<close>: the status and each name end with NUL.\<close>

definition diff_fields :: "(string \<times> string list) list \<Rightarrow> string list" where
  "diff_fields rs = concat (map (\<lambda>r. fst r # snd r) rs)"

definition render_diff :: "(string \<times> string list) list \<Rightarrow> string" where
  "render_diff rs = concat (map (\<lambda>f. f @ [nul]) (diff_fields rs))"

definition diff_record_ok :: "string \<times> string list \<Rightarrow> bool" where
  "diff_record_ok r \<longleftrightarrow>
     (if rename_status (fst r) then length (snd r) = 2
      else fst r \<in> {''A'', ''M'', ''D'', ''T''} \<and> length (snd r) = 1)
     \<and> list_all (\<lambda>p. changed_path p = Inr p) (snd r)"

lemma change_record_render:
  assumes "diff_record_ok r"
  shows "change_record (fst r) (snd r @ rest) = Inr ((hd (fst r), snd r), rest)"
proof -
  from assms have a: "decode_ascii (fst r) = Inr (fst r)"
    using rename_status_hd by (auto simp: diff_record_ok_def decode_ascii_def ord_def split: if_splits)
  have m: "mapR changed_path (snd r) = Inr (snd r)"
    using assms by (auto simp: mapR_changed_path diff_record_ok_def list_all_iff)
  show ?thesis
    using assms by (auto simp: change_record_def diff_record_ok_def a m split: if_splits)
qed

lemma parse_fields_render:
  assumes "list_all diff_record_ok rs" and "n + path_count (map (\<lambda>r. (hd (fst r), snd r)) rs) \<le> MAX_PATHS"
  shows "parse_fields n (diff_fields rs) = Inr (map (\<lambda>r. (hd (fst r), snd r)) rs)"
  using assms
proof (induction rs arbitrary: n)
  case (Cons r rs)
  from Cons.prems(1) change_record_render [of r "diff_fields rs"]
  have "change_record (fst r) (snd r @ diff_fields rs) = Inr ((hd (fst r), snd r), diff_fields rs)"
    by simp
  with Cons show ?case by (simp add: diff_fields_def path_count_def)
qed (simp add: diff_fields_def)

lemma diff_fields_plain:
  assumes "list_all diff_record_ok rs"
  shows "list_all (\<lambda>f. nul \<notin> set f) (diff_fields rs)"
proof -
  have "nul \<notin> set (fst r) \<and> (\<forall>p \<in> set (snd r). nul \<notin> set p)" if "diff_record_ok r" for r
  proof
    from that have "fst r \<in> {''A'', ''M'', ''D'', ''T''} \<or> rename_status (fst r)"
      by (auto simp: diff_record_ok_def split: if_splits)
    then show "nul \<notin> set (fst r)"
      by (auto simp: rename_status_def nul_def list_all_iff is_digit_def ord_def split: list.splits)
    from that show "\<forall>p \<in> set (snd r). nul \<notin> set p"
      by (auto simp: diff_record_ok_def list_all_iff changed_path_Inr relative_path_Inr)
  qed
  with assms show ?thesis by (fastforce simp: diff_fields_def list_all_iff)
qed

lemma render_diff_end: "render_diff rs \<noteq> [] \<Longrightarrow> endswith (render_diff rs) [nul]"
  by (induction "diff_fields rs" arbitrary: rs rule: rev_induct)
    (auto simp: render_diff_def endswith_def dest: sym)

text \<open>
  C8. Git's record format is read back exactly: within the output and path bounds, the parser
  inverts the rendering of any list of valid change records, dropping only similarity scores.
\<close>

theorem parse_render_diff:
  assumes "list_all diff_record_ok rs" and "length (render_diff rs) \<le> MAX_OUTPUT_BYTES"
    and "path_count (map (\<lambda>r. (hd (fst r), snd r)) rs) \<le> MAX_PATHS"
  shows "parse_diff (render_diff rs) = Inr (map (\<lambda>r. (hd (fst r), snd r)) rs)"
proof -
  have "butlast (split_on nul (render_diff rs)) = diff_fields rs"
    by (simp add: render_diff_def split_on_terminated [OF diff_fields_plain [OF assms(1)]])
  with assms parse_fields_render [of rs 0] show ?thesis
    by (auto simp: parse_diff_def dest: render_diff_end)
qed

theorem parse_render_diff_witness:
  "parse_diff (render_diff [(''R100'', [''a'', ''b'']), (''M'', [''c/d.md''])])
     = Inr [(CHR ''R'', [''a'', ''b'']), (CHR ''M'', [''c/d.md''])]"
proof -
  let ?rs = "[(''R100'', [''a'', ''b'']), (''M'', [''c/d.md''])]"
  have a: "list_all diff_record_ok ?rs" by code_simp
  have b: "length (render_diff ?rs) \<le> MAX_OUTPUT_BYTES" by code_simp
  have c: "path_count (map (\<lambda>r. (hd (fst r), snd r)) ?rs) \<le> MAX_PATHS" by code_simp
  show ?thesis using parse_render_diff [OF a b c] by simp
qed

text \<open>
  C9. Whatever bytes Git delivers, an accepted comparison has at most 5,000 paths, each inside
  the repository, with one or two of them per record and only known change kinds.
\<close>

theorem parse_diff_safe:
  assumes "parse_diff raw = Inr rs" and "(kind, names) \<in> set rs"
  shows "path_count rs \<le> 5000 \<and> kind \<in> set ''AMDTRC'' \<and> length names \<in> {1, 2}
    \<and> list_all safe_path names"
proof -
  from parse_diff_ok [OF assms(1)] assms(2) have ok: "change_ok (kind, names)" and "path_count rs \<le> 5000"
    by (auto simp: MAX_PATHS_def)
  moreover from ok have "length names \<noteq> 0" "length names \<le> 2" by (simp_all add: change_ok_def)
  then have "length names = 1 \<or> length names = 2" by linarith
  ultimately show ?thesis by (simp add: change_ok_def list_all_iff)
qed

theorem parse_diff_safe_witness:
  "parse_diff (''D'' @ [nul] @ ''x/y'' @ [nul]) = Inr [(CHR ''D'', [''x/y''])] \<and> safe_path ''x/y''"
proof -
  have "parse_diff (''D'' @ [nul] @ ''x/y'' @ [nul]) = Inr [(CHR ''D'', [''x/y''])]" by code_simp
  from this parse_diff_safe [OF this] show ?thesis by simp
qed

text \<open>
  C10. A rename or copy whose similarity is written with three digits below 100, which is how Git
  pads it, is refused as an unsupported status; only \<open>R100\<close> and \<open>C100\<close> have three digits.
\<close>

theorem padded_similarity_rejected:
  assumes "st = [c, d1, d2, d3]" and "c \<in> set ''RC''" and "list_all is_digit [d1, d2, d3]"
    and "[d1, d2, d3] \<noteq> ''100''"
  shows "parse_diff (st @ [nul] @ rest @ [nul])
     = (if MAX_OUTPUT_BYTES < length rest + 6
        then Inl (ContractError ''Git comparison was truncated or exceeded its output bound'' [])
        else Inl (ContractError ''unsupported Git change status {!r}'' [st]))"
proof -
  from assms have st: "list_all (\<lambda>c. ord c < 128) st" "\<not> rename_status st" "nul \<notin> set st"
    by (auto simp: rename_status_def is_digit_def nul_def ord_def)
  have "split_on nul (st @ [nul] @ rest @ [nul]) = st # split_on nul (rest @ [nul])"
    using split_on_append_sep [OF st(3)] by simp
  then have fields: "butlast (split_on nul (st @ [nul] @ rest @ [nul]))
      = st # butlast (split_on nul (rest @ [nul]))" by simp
  have "change_record st more = Inl (ContractError ''unsupported Git change status {!r}'' [st])" for more
    using assms st by (auto simp: change_record_def decode_ascii_def)
  moreover have "endswith (st @ [nul] @ rest @ [nul]) [nul]" by (simp add: endswith_def)
  moreover have "length (st @ [nul] @ rest @ [nul]) = length rest + 6" by (simp add: assms(1))
  ultimately show ?thesis by (simp add: parse_diff_def fields [simplified])
qed

theorem padded_similarity_rejected_witness:
  "parse_diff (''R095'' @ [nul] @ (''a'' @ [nul] @ ''b'') @ [nul])
     = Inl (ContractError ''unsupported Git change status {!r}'' [''R095''])"
  using padded_similarity_rejected [of "''R095''" "CHR ''R''" "CHR ''0''" "CHR ''9''" "CHR ''5''"
      "''a'' @ [nul] @ ''b''"]
  by (simp add: MAX_OUTPUT_BYTES_def is_digit_def ord_def)

section \<open>What a classification guarantees\<close>

text \<open>Paths that no policy can exempt: the policy itself, the lock, and the full roots.\<close>

definition guarded :: "policy \<Rightarrow> string \<Rightarrow> bool" where
  "guarded pol path \<longleftrightarrow> endswith path ''validation-policy.json'' \<or> path = ''uv.lock''
     \<or> endswith path ''/uv.lock'' \<or> list_ex (startswith path) (pol_full_roots pol)"

lemma path_profiles_guarded:
  "guarded pol path \<Longrightarrow> path_profiles path contents pol pages pair = {''full''}"
  by (auto simp: guarded_def path_profiles_def)

lemma path_profiles_nonempty: "path_profiles path contents pol pages pair \<noteq> {}"
  by (simp add: path_profiles_def Let_def)

lemma path_step_profiles:
  assumes "path_step co dir cmp pol local worktree pages kind count p = Inr (profiles, dg)"
  shows "\<exists>contents pair. profiles = path_profiles (snd p) contents pol pages pair"
  using assms by (cases p) (auto simp: path_step_def bindR_Inr)

lemma mapR_enumerate_snd:
  assumes "mapR f (enumerate n xs) = Inr ys" and "x \<in> set xs"
  shows "\<exists>i. \<exists>y \<in> set ys. f (i, x) = Inr y"
proof -
  from assms(2) obtain i where "i < length xs" "xs ! i = x" by (auto simp: in_set_conv_nth)
  then have "(n + i, x) \<in> set (enumerate n xs)" by (auto simp: in_set_enumerate_eq)
  from mapR_all [OF assms(1) this] show ?thesis by auto
qed

lemma classify_records_path:
  assumes "classify_records co dir cmp pol local worktree pages rs = Inr (Some (P, dg))"
    and "(kind, names) \<in> set rs" and "path \<in> set names"
  shows "\<exists>contents pair. path_profiles path contents pol pages pair \<subseteq> P"
  using assms
proof (induction rs arbitrary: P dg)
  case (Cons r rs)
  obtain k ns where r: "r = (k, ns)" by (cases r)
  with Cons.prems(1) obtain steps P' dg' where
    steps: "mapR (path_step co dir cmp pol local worktree pages k (length ns)) (enumerate 0 ns) = Inr steps"
    and rest: "classify_records co dir cmp pol local worktree pages rs = Inr (Some (P', dg'))"
    and P: "P = \<Union>(set (map fst steps)) \<union> P'"
    by (auto simp: bindR_Inr split: if_splits option.splits)
  show ?case
  proof (cases "(kind, names) \<in> set rs")
    case True
    from Cons.IH [OF rest True Cons.prems(3)] P show ?thesis by auto
  next
    case False
    with Cons.prems(2,3) r have "path \<in> set ns" by auto
    from mapR_enumerate_snd [OF steps this] obtain i y where
      y: "y \<in> set steps" "path_step co dir cmp pol local worktree pages k (length ns) (i, path) = Inr y" by blast
    obtain ps dg'' where "y = (ps, dg'')" by (cases y)
    with y path_step_profiles [of co dir cmp pol local worktree pages k "length ns" "(i, path)"]
    obtain contents pair where "ps = path_profiles path contents pol pages pair" by auto
    with P y(1) \<open>y = (ps, dg'')\<close> show ?thesis by force
  qed
qed simp

definition local_print :: "checkout \<Rightarrow> bool \<Rightarrow> change list \<Rightarrow> string \<Rightarrow> string option" where
  "local_print co local records dg =
     (if local then Some (sha256_hex co (json_records co records @ dg)) else None)"

lemma select_profiles_eq:
  "select_profiles co pol local records P dg =
     (if ''full'' \<in> P \<or> \<not> P \<subseteq> keys (pol_profile_jobs pol)
      then full_plan
             ''source, dependency, policy, or unknown scope requires complete validation''
             (local_print co local records dg)
      else (sorted_strings (if ''executable-docs'' \<in> P then P - {''prose''} else P),
            [''known changed paths select the union of their profiles''],
            local_print co local records dg))"
  by (simp only: select_profiles_def local_print_def Let_def)

definition print_ok :: "checkout \<Rightarrow> bool \<Rightarrow> string option \<Rightarrow> bool" where
  "print_ok co local fp \<longleftrightarrow> fp = None \<or> (local \<and> (\<exists>raw. fp = Some (sha256_hex co raw)))"

lemma print_ok_simps [simp]: "print_ok co local None" "print_ok co local (local_print co local records dg)"
  by (auto simp: print_ok_def local_print_def)

text \<open>Every selection of records is complete, or names profiles of all its paths.\<close>

definition known_selection ::
  "checkout \<Rightarrow> string \<Rightarrow> comparison \<Rightarrow> policy \<Rightarrow> bool \<Rightarrow> change list \<Rightarrow> string set \<Rightarrow> string list \<Rightarrow> bool"
where
  "known_selection co dir cmp pol local records worktree profiles \<longleftrightarrow>
     records \<noteq> [] \<and> (\<exists>pages P dg.
       classify_records co dir cmp pol local worktree pages records = Inr (Some (P, dg))
       \<and> ''full'' \<notin> P \<and> P \<subseteq> keys (pol_profile_jobs pol)
       \<and> profiles = sorted_strings (if ''executable-docs'' \<in> P then P - {''prose''} else P))"

lemma select_records_Inr:
  assumes "select_records co dir cmp pol local records worktree = Inr (profiles, reasons, fp)"
  shows "(profiles = [''full''] \<or> known_selection co dir cmp pol local records worktree profiles)
    \<and> (\<exists>reason. reasons = [reason] \<and> reason \<noteq> []) \<and> print_ok co local fp"
proof (cases "records = [] \<or> MAX_PATHS < path_count records")
  case True
  with assms show ?thesis by (auto simp: select_records_def full_plan_def)
next
  case False
  with assms obtain pages q where
    q: "classify_records co dir cmp pol local worktree pages records = Inr q"
    and r: "(case q of None \<Rightarrow> full_plan ''Git object type changed'' None
      | Some (P, dg) \<Rightarrow> select_profiles co pol local records P dg) = (profiles, reasons, fp)"
    by (auto simp: select_records_def bindR_Inr)
  show ?thesis
  proof (cases q)
    case None
    with r show ?thesis by (auto simp: full_plan_def)
  next
    case (Some e)
    obtain P dg where e: "e = (P, dg)" by (cases e)
    show ?thesis
    proof (cases "''full'' \<in> P \<or> \<not> P \<subseteq> keys (pol_profile_jobs pol)")
      case True
      with r Some e have "full_plan
          ''source, dependency, policy, or unknown scope requires complete validation''
          (local_print co local records dg) = (profiles, reasons, fp)"
        by (simp only: option.case prod.case select_profiles_eq if_True)
      then show ?thesis by (auto simp: full_plan_def)
    next
      case known: False
      with r Some e have "(sorted_strings (if ''executable-docs'' \<in> P then P - {''prose''} else P),
          [''known changed paths select the union of their profiles''],
          local_print co local records dg) = (profiles, reasons, fp)"
        by (simp only: option.case prod.case select_profiles_eq if_False)
      moreover from this known q Some e False
      have "known_selection co dir cmp pol local records worktree profiles"
        unfolding known_selection_def by (metis prod.inject)
      ultimately show ?thesis by auto
    qed
  qed
qed

lemma classify_select:
  assumes "classify co dir cmp pol local = Inr r"
  obtains committed p where
    "changes_between co dir (base_sha cmp) (tested_sha cmp) = Inr committed"
    "(if local then local_records co dir else Inr ([], {})) = Inr p"
    "select_records co dir cmp pol local (committed @ fst p) (snd p) = Inr r"
  using assms unfolding classify_def by (elim bindR_InrE) (rule that)

text \<open>
  C3. A change of the policy, of a uv lock or below a full root always selects the complete
  validation, whatever the policy's own profiles say about the path.
\<close>

theorem guarded_change_full:
  assumes "classify co dir cmp pol local = Inr (profiles, reasons, fingerprint)"
    and "changes_between co dir (base_sha cmp) (tested_sha cmp) = Inr committed"
    and "(kind, names) \<in> set committed" and "path \<in> set names" and "guarded pol path"
  shows "profiles = [''full'']"
proof -
  from assms(1,2) obtain p where sel:
    "select_records co dir cmp pol local (committed @ fst p) (snd p) = Inr (profiles, reasons, fingerprint)"
    by (auto simp: classify_def bindR_Inr)
  from select_records_Inr [OF sel] show ?thesis
  proof (elim conjE disjE)
    assume "known_selection co dir cmp pol local (committed @ fst p) (snd p) profiles"
    then obtain pages P dg where
      P: "classify_records co dir cmp pol local (snd p) pages (committed @ fst p) = Inr (Some (P, dg))"
      and full: "''full'' \<notin> P"
      by (auto simp: known_selection_def)
    from assms(3) have "(kind, names) \<in> set (committed @ fst p)" by simp
    from classify_records_path [OF P this assms(4)] path_profiles_guarded [OF assms(5)]
    have "''full'' \<in> P" by auto
    with full show ?thesis by simp
  qed
qed

text \<open>A host whose Git reports one change between two revisions.\<close>

definition sample_process :: "string \<Rightarrow> string \<Rightarrow> string list \<Rightarrow> process_result" where
  "sample_process raw dir argv =
     \<lparr>status = ''success'', cause = [], stderr = [],
      stdout_bytes =
        (if argv ! 5 = ''diff'' then raw
         else if argv ! 5 = ''ls-tree'' then ''100644 blob 0''
         else if argv ! 5 = ''rev-parse'' then replicate 40 CHR ''b'' @ [newline]
         else ''x'')\<rparr>"

definition sample_checkout :: "string \<Rightarrow> checkout" where
  "sample_checkout raw =
     \<lparr>disk = sample_platform, run_process = sample_process raw,
      working_entry = (\<lambda>_. Inr Absent), toml_loads = (\<lambda>_. None),
      sha256_hex = (\<lambda>_. replicate 64 CHR ''0''), json_records = (\<lambda>_. []),
      exception_text = (\<lambda>_. ''error'')\<rparr>"

definition sample_comparison :: comparison where
  "sample_comparison = \<lparr>event = ''pull_request'', base_sha = replicate 40 CHR ''a'',
     head_sha = replicate 40 CHR ''b'', tested_sha = replicate 40 CHR ''b''\<rparr>"

theorem guarded_change_full_witness:
  "classify (sample_checkout (''M'' @ [nul] @ ''uv.lock'' @ [nul])) ''/r'' sample_comparison sample_loaded False
     = Inr ([''full''], [''source, dependency, policy, or unknown scope requires complete validation''], None)"
proof -
  let ?co = "sample_checkout (''M'' @ [nul] @ ''uv.lock'' @ [nul])"
  have a: "classify ?co ''/r'' sample_comparison sample_loaded False
     = Inr ([''full''], [''source, dependency, policy, or unknown scope requires complete validation''], None)"
    by code_simp
  have b: "changes_between ?co ''/r'' (base_sha sample_comparison) (tested_sha sample_comparison)
      = Inr [(CHR ''M'', [''uv.lock''])]"
    by code_simp
  have "guarded sample_loaded ''uv.lock''" by (simp add: guarded_def)
  with guarded_change_full [OF a b] have "[''full''] = [''full'' :: string]" by simp
  with a show ?thesis by simp
qed

section \<open>What a plan guarantees\<close>

text \<open>The profiles of a selection: canonical, and complete or declared by the policy.\<close>

definition selection_ok :: "policy \<Rightarrow> string list \<Rightarrow> bool" where
  "selection_ok pol ps \<longleftrightarrow> ps \<noteq> [] \<and> distinct ps \<and> sort ps = ps \<and> [] \<notin> set ps
     \<and> (''full'' \<in> set ps \<longrightarrow> ps = [''full''])"

lemma local_records_ok:
  assumes "local_records co dir = Inr (added, worktree)"
  shows "\<forall>r \<in> set added. snd r \<noteq> []"
proof -
  from assms obtain u s where "parse_diff u = Inr (fst s)" and "\<exists>v. parse_diff v = Inr (snd s)"
    and "\<exists>paths. added = fst s @ snd s @ map (\<lambda>path. (CHR ''A'', [path])) paths"
    unfolding local_records_def by (elim bindR_InrE) force
  then show ?thesis using parse_diff_ok by (fastforce simp: change_ok_def)
qed

lemma known_selection_ok:
  assumes "policy_wf pol" and "known_selection co dir cmp pol local records worktree profiles"
    and "\<forall>r \<in> set records. snd r \<noteq> []"
  shows "selection_ok pol profiles"
proof -
  from assms(2) obtain pages P dg where
    P: "classify_records co dir cmp pol local worktree pages records = Inr (Some (P, dg))"
    and full: "''full'' \<notin> P" and sub: "P \<subseteq> keys (pol_profile_jobs pol)"
    and profiles: "profiles = sorted_strings (if ''executable-docs'' \<in> P then P - {''prose''} else P)"
    and "records \<noteq> []"
    by (auto simp: known_selection_def)
  from \<open>records \<noteq> []\<close> obtain kind names where r: "(kind, names) \<in> set records"
    by (cases records) auto
  with assms(3) obtain path where "path \<in> set names" by (cases names) auto
  from classify_records_path [OF P r this] path_profiles_nonempty have "P \<noteq> {}" by blast
  then have ne: "(if ''executable-docs'' \<in> P then P - {''prose''} else P) \<noteq> {}" by auto
  have fin: "finite (if ''executable-docs'' \<in> P then P - {''prose''} else P)"
    using sub by (auto intro: finite_subset)
  have "[] \<notin> keys (pol_profile_jobs pol)"
    using assms(1) by (auto simp: policy_wf_def profile_ok_def safe_ident_def)
  with sub full ne fin show ?thesis
    by (auto simp: selection_ok_def profiles sorted_sort_id split: if_splits)
qed

lemma classify_selection:
  assumes "policy_wf pol" and "classify co dir cmp pol local = Inr (profiles, reasons, fp)"
  shows "selection_ok pol profiles \<and> (\<exists>reason. reasons = [reason] \<and> reason \<noteq> []) \<and> print_ok co local fp"
proof -
  from assms(2) obtain committed p where
    c: "changes_between co dir (base_sha cmp) (tested_sha cmp) = Inr committed"
    and p: "(if local then local_records co dir else Inr ([], {})) = Inr p"
    and sel: "select_records co dir cmp pol local (committed @ fst p) (snd p) = Inr (profiles, reasons, fp)"
    by (rule classify_select)
  from c obtain raw where "parse_diff raw = Inr committed" by (auto simp: changes_between_def bindR_Inr)
  then have "\<forall>r \<in> set committed. snd r \<noteq> []" using parse_diff_ok by (auto simp: change_ok_def)
  moreover have "\<forall>r \<in> set (fst p). snd r \<noteq> []"
    using p local_records_ok [of co dir "fst p" "snd p"] by (auto split: if_splits)
  ultimately have "\<forall>r \<in> set (committed @ fst p). snd r \<noteq> []" by auto
  then have "known_selection co dir cmp pol local (committed @ fst p) (snd p) profiles
      \<Longrightarrow> selection_ok pol profiles"
    using known_selection_ok [OF assms(1)] by blast
  moreover have "selection_ok pol [''full'']" by (simp add: selection_ok_def)
  ultimately show ?thesis using select_records_Inr [OF sel] by blast
qed

lemma plan_profiles_selection:
  assumes "policy_wf pol" and "plan_profiles co dir cmp pol full = Inr (profiles, reasons, fp)"
  shows "selection_ok pol profiles \<and> (\<exists>reason. reasons = [reason] \<and> reason \<noteq> [])
    \<and> print_ok co (event cmp = ''local'') fp \<and> (full \<longrightarrow> profiles = [''full''])"
proof (cases "full \<or> (\<exists>e. classify_candidate co dir cmp pol = Inl e)")
  case True
  with assms(2) show ?thesis
    by (auto simp: plan_profiles_def full_plan_def selection_ok_def split: if_splits)
next
  case False
  then obtain r where r: "classify_candidate co dir cmp pol = Inr r"
    by (cases "classify_candidate co dir cmp pol") auto
  with False assms(2) have "r = (profiles, reasons, fp)" by (simp add: plan_profiles_def)
  with r have "classify co dir cmp pol (event cmp = ''local'') = Inr (profiles, reasons, fp)"
    by (auto simp: classify_candidate_def bindR_Inr split: if_splits)
  with classify_selection [OF assms(1) this] False show ?thesis by simp
qed

text \<open>The comparison of a plan is of exact revisions, and complete unless it is of a candidate.\<close>

definition comparison_ok :: "comparison \<Rightarrow> bool \<Rightarrow> bool" where
  "comparison_ok cmp full \<longleftrightarrow> is_sha (base_sha cmp) \<and> is_sha (head_sha cmp) \<and> is_sha (tested_sha cmp)
     \<and> (event cmp \<notin> {''pull_request'', ''merge_group'', ''local''} \<longrightarrow>
          full \<and> base_sha cmp = tested_sha cmp \<and> head_sha cmp = tested_sha cmp)"

lemma plan_comparison_ok:
  assumes "plan_comparison co dir pol rq tested = Inr (cmp, full)" and "is_sha tested"
  shows "comparison_ok cmp full"
  using assms
  by (auto simp: plan_comparison_def comparison_ok_def bindR_Inr exact_sha_Inr Let_def split: if_splits)

lemma make_plan_Inr:
  assumes "policy_wf pol" and "make_plan co rt pol rq = Inr plan"
  obtains cmp full profiles reason fp selected where
    "plan = plan_value pol cmp (profiles, [reason], fp) selected" "comparison_ok cmp full"
    "selection_ok pol profiles" "reason \<noteq> []" "print_ok co (event cmp = ''local'') fp"
    "full \<longrightarrow> profiles = [''full'']" "selected_jobs pol profiles = Inr selected"
proof -
  from assms(2) obtain tested cmp full r selected where
    c: "is_sha tested" "plan_comparison co (resolve_path (disk co) rt) pol rq tested = Inr (cmp, full)"
    and r: "plan_profiles co (resolve_path (disk co) rt) cmp pol full = Inr r"
    and s: "selected_jobs pol (fst r) = Inr selected" "plan = plan_value pol cmp r selected"
    by (auto simp: make_plan_def Let_def bindR_Inr exact_sha_Inr)
  obtain profiles reasons fp where e: "r = (profiles, reasons, fp)" by (cases r)
  from plan_profiles_selection [OF assms(1) r [unfolded e]] obtain reason where
    "selection_ok pol profiles" "reasons = [reason]" "reason \<noteq> []"
    "print_ok co (event cmp = ''local'') fp" "full \<longrightarrow> profiles = [''full'']" by blast
  with s e plan_comparison_ok [OF c(2,1)] show thesis by (intro that) simp_all
qed

end
