(* ===== verification/Gate.thy ===== *)
theory Gate
  imports Planner
begin

text \<open>
  \<open>gate.py\<close> and \<open>devcontainer_seed.py\<close>: the aggregate check of a candidate's job outcomes
  against the plan and the trusted policy, and its extension by the Dev Container receipt.
\<close>

section \<open>The plan as the gate reads it\<close>

definition plan_keys :: "string list" where
  "plan_keys = [''schema'', ''repository'', ''event'', ''base_sha'', ''head_sha'', ''tested_sha'',
     ''profile'', ''profiles'', ''jobs'', ''reasons'', ''local_fingerprint'']"

definition bound_sha :: "dict \<Rightarrow> string \<Rightarrow> string \<Rightarrow> unit res" where
  "bound_sha plan key expected =
     bindR (exact_sha (JStr expected) key) (\<lambda>s.
       if dget plan key \<noteq> JStr s
       then Inl (ContractError ''validation plan is not bound to the exact {}'' [key])
       else Inr ())"

definition check_fingerprint :: "comparison \<Rightarrow> json \<Rightarrow> unit res" where
  "check_fingerprint cmp fingerprint =
     (if fingerprint \<noteq> JNull \<and>
         (event cmp \<noteq> ''local'' \<or> \<not> is_str fingerprint \<or> \<not> is_sha256 (str_of fingerprint))
      then Inl (ContractError ''invalid local fingerprint'' []) else Inr ())"

definition check_profiles :: "dict \<Rightarrow> comparison \<Rightarrow> string list \<Rightarrow> unit res" where
  "check_profiles plan cmp profiles =
     (if sort profiles \<noteq> profiles \<or> (''full'' \<in> set profiles \<and> profiles \<noteq> [''full''])
      then Inl (ContractError ''plan profiles must be canonical; full cannot be mixed'' [])
      else if dget plan ''profile'' \<noteq> JStr (case profiles of [p] \<Rightarrow> p | _ \<Rightarrow> ''mixed'')
      then Inl (ContractError ''plan profile does not match its constituent profiles'' [])
      else if event cmp \<notin> {''pull_request'', ''merge_group'', ''local''}
              \<and> (profiles \<noteq> [''full''] \<or> base_sha cmp \<noteq> tested_sha cmp)
      then Inl (ContractError
             ''non-PR/queue validation must be complete at the tested revision'' [])
      else if event cmp \<notin> {''pull_request'', ''merge_group'', ''local''}
              \<and> head_sha cmp \<noteq> tested_sha cmp
      then Inl (ContractError ''non-PR/queue head must equal the tested revision'' [])
      else Inr ())"

definition enabled_jobs :: "dict \<Rightarrow> string set" where
  "enabled_jobs jobs = set (filter (\<lambda>job. truthy (dget jobs job)) (map fst jobs))"

definition check_jobs :: "policy \<Rightarrow> string list \<Rightarrow> dict \<Rightarrow> unit res" where
  "check_jobs pol profiles jobs =
     (if keys jobs \<noteq> set (pol_jobs pol) \<or> \<not> list_all (\<lambda>job. is_bool (dget jobs job)) (map fst jobs)
      then Inl (ContractError
             ''plan has unknown, missing, or non-boolean job selections'' [])
      else bindR (selected_jobs pol profiles) (\<lambda>selected.
        if enabled_jobs jobs \<noteq> selected
        then Inl (ContractError
               ''plan jobs do not equal the trusted union of constituent profiles'' [])
        else Inr ()))"

fun differs :: "dict \<Rightarrow> dict \<Rightarrow> string list \<Rightarrow> bool res" where
  "differs plan expected [] = Inr False"
| "differs plan expected (k # ks) =
     bindR (item expected k) (\<lambda>e.
       if \<not> py_eq (dget plan k) e then Inr True else differs plan expected ks)"

definition check_expected :: "dict \<Rightarrow> dict option \<Rightarrow> unit res" where
  "check_expected plan expected = (case expected of
     None \<Rightarrow> Inr ()
   | Some e \<Rightarrow> bindR (differs plan e [''profiles'', ''profile'', ''jobs'']) (\<lambda>b.
       if b
       then Inl (ContractError
              ''plan selections differ from an independent exact-candidate comparison'' [])
       else Inr ()))"

text \<open>The plan is the one schema, bound to the comparison, canonical, and selects the policy's jobs.\<close>

definition verify_plan ::
  "json \<Rightarrow> policy \<Rightarrow> comparison \<Rightarrow> dict option \<Rightarrow> dict res" where
  "verify_plan plan_v pol cmp expected =
     bindR (object_value plan_v ''validation plan'') (\<lambda>plan.
     if keys plan \<noteq> set plan_keys \<or> dget plan ''schema'' \<noteq> JInt PLAN_SCHEMA
     then Inl (ContractError
            ''missing or unsupported validation plan; regenerate with schema 3'' [])
     else if dget plan ''repository'' \<noteq> JStr (pol_repository pol)
             \<or> dget plan ''event'' \<noteq> JStr (event cmp)
     then Inl (ContractError ''validation plan repository/event mismatch'' [])
     else
     bindR (bound_sha plan ''base_sha'' (base_sha cmp)) (\<lambda>_.
     bindR (bound_sha plan ''head_sha'' (head_sha cmp)) (\<lambda>_.
     bindR (bound_sha plan ''tested_sha'' (tested_sha cmp)) (\<lambda>_.
     bindR (strings (dget plan ''profiles'') ''plan profiles'' True) (\<lambda>profiles.
     bindR (check_profiles plan cmp profiles) (\<lambda>_.
     bindR (strings (dget plan ''reasons'') ''plan reasons'' True) (\<lambda>_.
     bindR (check_fingerprint cmp (dget plan ''local_fingerprint'')) (\<lambda>_.
     bindR (object_value (dget plan ''jobs'') ''plan jobs'') (\<lambda>jobs.
     bindR (check_jobs pol profiles jobs) (\<lambda>_.
     bindR (check_expected plan expected) (\<lambda>_. Inr jobs)))))))))))"

section \<open>The outcomes\<close>

definition outcomes :: "string list" where
  "outcomes = [''success'', ''failure'', ''cancelled'', ''skipped'']"

definition required_job :: "dict \<Rightarrow> string \<Rightarrow> bool" where
  "required_job jobs job = (job = ''validation-plan'' \<or> dget jobs job = JBool True)"

definition job_outcome :: "dict \<Rightarrow> dict \<Rightarrow> string \<Rightarrow> (string \<times> string) res" where
  "job_outcome jobs needs job =
     bindR (object_value (dget needs job) (job @ '' outcome'')) (\<lambda>outcome.
       let result = dget outcome ''result'' in
       if \<not> is_str result \<or> str_of result \<notin> set outcomes
       then Inl (ContractError ''{} has a missing or unknown result'' [job])
       else Inr (job, str_of result))"

definition job_failure :: "dict \<Rightarrow> string \<times> string \<Rightarrow> string list" where
  "job_failure jobs e = (case e of (job, result) \<Rightarrow>
     if required_job jobs job \<and> result \<noteq> ''success''
     then [''selected '' @ job @ '' concluded '' @ result]
     else if \<not> required_job jobs job \<and> result \<notin> {''success'', ''skipped''}
     then [''unselected '' @ job @ '' concluded '' @ result]
     else [])"

definition verify_gate ::
  "json \<Rightarrow> json \<Rightarrow> policy \<Rightarrow> comparison \<Rightarrow> dict option \<Rightarrow> (string \<times> string) list res" where
  "verify_gate plan_v needs_v pol cmp expected =
     bindR (verify_plan plan_v pol cmp expected) (\<lambda>jobs.
     bindR (object_value needs_v ''aggregate job dependencies'') (\<lambda>needs.
     if keys needs \<noteq> insert ''validation-plan'' (set (pol_jobs pol))
     then Inl (ContractError ''aggregate job dependencies do not match policy'' [])
     else
     bindR (mapR (job_outcome jobs needs) (''validation-plan'' # pol_jobs pol)) (\<lambda>results.
     let failures = concat (map (job_failure jobs) results) in
     if failures \<noteq> [] then Inl (GateFailure failures) else Inr results)))"

section \<open>The Dev Container receipt\<close>

definition DEVCONTAINER_JOB :: string where
  "DEVCONTAINER_JOB = ''devcontainer-validation''"

definition APPROVED_SEED_POLICIES :: "(string \<times> string list) list" where
  "APPROVED_SEED_POLICIES =
     [(''Strukturpiloten/boxferry'',
        [''b83045f7d6b17c8874f414536e9d8aa87ddb9e957df236c3f70501bab936cb52'']),
      (''Strukturpiloten/compose-lens'',
        [''514efbfda2d38bbf5e608d0785e8f0d8be97af1083733b966146a7f0273ab6a4'',
         ''7957938d108af2e6799befc95b19d12d32d1bc37f97d0bc1118e6d8889d36c73'']),
      (''Strukturpiloten/podman-lens'',
        [''f21647319d0829cca3e36ac2fd43e21595415ab80bdbc5faedce92954d7f96cd'',
         ''0e80da07f01f66e5963c423769d0b9d6ecf92fb131437a76b2828c84c979462e'']),
      (''Strukturpiloten/quadlet-lens'',
        [''29aff089e579582fb8ed5eb5e681b6c3f170c61a17bc188b82808b12f7e01ac3'',
         ''d4a88fb53131ebbea02578d532d14ed8e1c5581efc162a30a9f61c7cc522ee90''])]"

text \<open>Two policies are equal when their fields are, the mappings in any order of their items.\<close>

definition same_items :: "(string \<times> 'v) list \<Rightarrow> (string \<times> 'v) list \<Rightarrow> bool" where
  "same_items d e = (length d = length e \<and> list_all (\<lambda>p. map_of e (fst p) = Some (snd p)) d)"

definition policy_eq :: "policy \<Rightarrow> policy \<Rightarrow> bool" where
  "policy_eq p q =
     (pol_repository p = pol_repository q \<and> pol_jobs p = pol_jobs q
      \<and> same_items (pol_profile_jobs p) (pol_profile_jobs q)
      \<and> pol_public_root p = pol_public_root q \<and> pol_full_roots p = pol_full_roots q
      \<and> pol_executable_roots p = pol_executable_roots q
      \<and> pol_executable_paths p = pol_executable_paths q \<and> pol_manifest p = pol_manifest q
      \<and> same_items (pol_local_commands p) (pol_local_commands q)
      \<and> same_items (pol_path_profiles p) (pol_path_profiles q)
      \<and> same_items (pol_tasks p) (pol_tasks q) \<and> pol_path p = pol_path q)"

definition require_devcontainer_policy :: "checkout \<Rightarrow> policy \<Rightarrow> bool \<Rightarrow> unit res" where
  "require_devcontainer_policy co pol seed =
     (case map_of APPROVED_SEED_POLICIES (pol_repository pol) of
        None \<Rightarrow> Inl (ContractError
          ''Dev Container gate is restricted to the four reviewed owners'' [])
      | Some approved \<Rightarrow>
          if \<not> seed then Inr ()
          else bindR (read_bytes (disk co) (pol_path pol)) (\<lambda>raw.
            if sha256_hex co raw \<notin> set approved
            then Inl (ContractError ''unapproved pre-seed Dev Container policy; review exact trusted main policy bytes before seed activation'' [])
            else bindR (load_policy (disk co) (pol_path pol)) (\<lambda>loaded.
              if \<not> policy_eq loaded pol
              then Inl (ContractError
                     ''pre-seed policy object differs from its approved policy bytes'' [])
              else Inr ())))"

definition devcontainer_receipt :: "dict \<Rightarrow> string \<Rightarrow> unit res" where
  "devcontainer_receipt outcome tested =
     (let result = dget outcome ''result'' in
      if \<not> is_str result \<or> str_of result \<notin> set outcomes
      then Inl (ContractError ''{} has a missing or unknown result'' [DEVCONTAINER_JOB])
      else if result \<noteq> JStr ''success''
      then Inl (GateFailure [''selected '' @ DEVCONTAINER_JOB @ '' concluded '' @ str_of result])
      else
      bindR (object_value (dget outcome ''outputs'') (DEVCONTAINER_JOB @ '' outputs'')) (\<lambda>outputs.
      bindR (exact_sha (dget outputs ''candidate_sha'') ''Dev Container candidate receipt'')
        (\<lambda>candidate.
      if candidate \<noteq> tested
      then Inl (ContractError
             ''Dev Container receipt does not identify the exact tested candidate'' [])
      else Inr ())))"

definition verify_devcontainer_gate ::
  "checkout \<Rightarrow> json \<Rightarrow> json \<Rightarrow> policy \<Rightarrow> comparison \<Rightarrow> dict \<Rightarrow> (string \<times> string) list res" where
  "verify_devcontainer_gate co plan_v needs_v pol cmp expected =
     (let seed = (DEVCONTAINER_JOB \<notin> set (pol_jobs pol)) in
      bindR (require_devcontainer_policy co pol seed) (\<lambda>_.
      bindR (object_value needs_v ''aggregate job dependencies'') (\<lambda>needs.
      let image = dget needs DEVCONTAINER_JOB;
          original = (if seed then filter (\<lambda>e. fst e \<noteq> DEVCONTAINER_JOB) needs else needs) in
      bindR (verify_gate plan_v (JObj original) pol cmp (Some expected)) (\<lambda>results.
      bindR (object_value image (DEVCONTAINER_JOB @ '' outcome'')) (\<lambda>outcome.
      bindR (if seed \<or> dget outcome ''result'' = JStr ''success''
             then devcontainer_receipt outcome (tested_sha cmp) else Inr ()) (\<lambda>_.
      Inr (if seed then results @ [(DEVCONTAINER_JOB, ''success'')] else results)))))))"

section \<open>What the gate accepts\<close>

lemma verify_plan_Inr:
  assumes "verify_plan plan_v pol cmp expected = Inr jobs"
  obtains plan profiles selected where "plan_v = JObj plan"
    "dget plan ''repository'' = JStr (pol_repository pol)" "dget plan ''event'' = JStr (event cmp)"
    "dget plan ''base_sha'' = JStr (base_sha cmp)" "dget plan ''head_sha'' = JStr (head_sha cmp)"
    "dget plan ''tested_sha'' = JStr (tested_sha cmp)"
    "dget plan ''profiles'' = JList (map JStr profiles)" "dget plan ''jobs'' = JObj jobs"
    "selected_jobs pol profiles = Inr selected" "enabled_jobs jobs = selected"
    "keys jobs = set (pol_jobs pol)" "list_all (\<lambda>job. is_bool (dget jobs job)) (map fst jobs)"
proof -
  obtain plan profiles u1 u2 u3 u4 where o: "object_value plan_v ''validation plan'' = Inr plan"
    and re: "\<not> (dget plan ''repository'' \<noteq> JStr (pol_repository pol)
             \<or> dget plan ''event'' \<noteq> JStr (event cmp))"
    and b: "bound_sha plan ''base_sha'' (base_sha cmp) = Inr u1"
      "bound_sha plan ''head_sha'' (head_sha cmp) = Inr u2"
      "bound_sha plan ''tested_sha'' (tested_sha cmp) = Inr u3"
    and p: "strings (dget plan ''profiles'') ''plan profiles'' True = Inr profiles"
    and j: "object_value (dget plan ''jobs'') ''plan jobs'' = Inr jobs"
    and c: "check_jobs pol profiles jobs = Inr u4"
  proof -
    from assms [unfolded verify_plan_def] show thesis
      by (elim success_elims) (drule sum.inject(2) [THEN iffD1], hypsubst, rule that)
  qed
  have sha: "dget plan key = JStr s" if "bound_sha plan key s = Inr u" for key s u
    using that by (auto simp: bound_sha_def bindR_Inr exact_sha_Inr split: if_splits)
  from c obtain selected where "selected_jobs pol profiles = Inr selected" "enabled_jobs jobs = selected"
    "keys jobs = set (pol_jobs pol)" "list_all (\<lambda>job. is_bool (dget jobs job)) (map fst jobs)"
    unfolding check_jobs_def by (elim success_elims) (metis (no_types, lifting))
  with o re p j sha [OF b(1)] sha [OF b(2)] sha [OF b(3)] show thesis
    by (intro that [of plan profiles selected]) (auto simp: object_value_Inr strings_Inr)
qed

lemma job_outcome_Inr:
  "job_outcome jobs needs job = Inr (j, r) \<longleftrightarrow>
     j = job \<and> r \<in> set outcomes \<and> (\<exists>d. dget needs job = JObj d \<and> dget d ''result'' = JStr r)"
  by (auto simp: job_outcome_def bindR_Inr object_value_Inr is_str_iff Let_def)

lemma job_results:
  "mapR (job_outcome jobs needs) js = Inr rs \<Longrightarrow>
     map fst rs = js \<and> (\<forall>(j, r) \<in> set rs. \<exists>d. dget needs j = JObj d \<and> dget d ''result'' = JStr r)"
proof (induction js arbitrary: rs)
  case (Cons j js)
  then obtain r rs' where "job_outcome jobs needs j = Inr r" "mapR (job_outcome jobs needs) js = Inr rs'"
    "rs = r # rs'" by (auto simp: bindR_Inr)
  with Cons.IH [of rs'] show ?case by (cases r) (auto simp: job_outcome_Inr)
qed simp

lemma required_enabled:
  assumes "keys jobs = S" and "list_all (\<lambda>job. is_bool (dget jobs job)) (map fst jobs)" and "job \<in> S"
  shows "dget jobs job = JBool True \<longleftrightarrow> job \<in> enabled_jobs jobs"
proof -
  from assms have "is_bool (dget jobs job)" by (auto simp: list_all_iff)
  then obtain b where "dget jobs job = JBool b" by (auto simp: is_bool_iff)
  with assms(1,3) show ?thesis by (auto simp: enabled_jobs_def)
qed

text \<open>A candidate's jobs as the gate must see them: what it selects succeeded, nothing failed.\<close>

definition outcome_ok :: "string set \<Rightarrow> string \<Rightarrow> string \<Rightarrow> bool" where
  "outcome_ok selected job result \<longleftrightarrow>
     result = ''success'' \<or> (result = ''skipped'' \<and> job \<noteq> ''validation-plan'' \<and> job \<notin> selected)"

lemma job_failure_Nil:
  assumes "keys jobs = S" and "list_all (\<lambda>job. is_bool (dget jobs job)) (map fst jobs)"
    and "job = ''validation-plan'' \<or> job \<in> S"
  shows "job_failure jobs (job, result) = [] \<longleftrightarrow> outcome_ok (enabled_jobs jobs) job result"
  using required_enabled [OF assms(1,2)] assms(3)
  by (auto simp: job_failure_def required_job_def outcome_ok_def)

text \<open>
  C1. An accepted gate is sound: the plan is bound to the exact base, head and tested revisions,
  every job of the policy reported, what the trusted profiles select succeeded, and a job that
  was not selected succeeded or was skipped.
\<close>

theorem verify_gate_sound:
  assumes "verify_gate plan_v needs_v pol cmp expected = Inr results"
  shows "\<exists>plan needs profiles selected. plan_v = JObj plan \<and> needs_v = JObj needs
     \<and> dget plan ''base_sha'' = JStr (base_sha cmp) \<and> dget plan ''head_sha'' = JStr (head_sha cmp)
     \<and> dget plan ''tested_sha'' = JStr (tested_sha cmp)
     \<and> dget plan ''profiles'' = JList (map JStr profiles)
     \<and> selected_jobs pol profiles = Inr selected
     \<and> map fst results = ''validation-plan'' # pol_jobs pol
     \<and> list_all (\<lambda>(job, r). attr_get (dget needs job) ''result'' = Inr (JStr r)
                   \<and> outcome_ok selected job r) results"
proof -
  from assms obtain jobs needs where plan: "verify_plan plan_v pol cmp expected = Inr jobs"
    and needs: "needs_v = JObj needs"
    and rs: "mapR (job_outcome jobs needs) (''validation-plan'' # pol_jobs pol) = Inr results"
    and ok: "concat (map (job_failure jobs) results) = []"
    unfolding verify_gate_def Let_def
    by (elim success_elims) (force simp: object_value_Inr split: if_splits)
  from plan obtain plan profiles selected where
    p: "plan_v = JObj plan" "dget plan ''base_sha'' = JStr (base_sha cmp)"
      "dget plan ''head_sha'' = JStr (head_sha cmp)" "dget plan ''tested_sha'' = JStr (tested_sha cmp)"
      "dget plan ''profiles'' = JList (map JStr profiles)"
    and s: "selected_jobs pol profiles = Inr selected" "enabled_jobs jobs = selected"
    and k: "keys jobs = set (pol_jobs pol)" "list_all (\<lambda>job. is_bool (dget jobs job)) (map fst jobs)"
    by (rule verify_plan_Inr) blast
  note r = job_results [OF rs]
  have "attr_get (dget needs job) ''result'' = Inr (JStr r) \<and> outcome_ok selected job r"
    if "(job, r) \<in> set results" for job r
  proof -
    from that have "job \<in> set (map fst results)" by force
    with r have "job \<in> set (''validation-plan'' # pol_jobs pol)" by simp
    moreover from that ok have "job_failure jobs (job, r) = []" by auto
    ultimately have "outcome_ok selected job r" using job_failure_Nil [OF k] s(2) by auto
    with that r show ?thesis by force
  qed
  with needs p s(1) r show ?thesis by (auto simp: list_all_iff)
qed

text \<open>The comparison a plan names.\<close>

definition comparison_of :: "dict \<Rightarrow> comparison" where
  "comparison_of plan =
     \<lparr>event = str_of (dget plan ''event''), base_sha = str_of (dget plan ''base_sha''),
      head_sha = str_of (dget plan ''head_sha''), tested_sha = str_of (dget plan ''tested_sha'')\<rparr>"

lemma py_eq_strings [simp]: "py_eq_items (map JStr xs) (map JStr xs)"
  by (induction xs) auto

lemma py_eq_bools: "distinct (map fst e) \<Longrightarrow> set d \<subseteq> set e \<Longrightarrow> list_all (\<lambda>p. is_bool (snd p)) d \<Longrightarrow> py_eq_dict d e"
  by (induction d) (auto simp: is_bool_iff)

lemma dget_map_pair [simp]: "dget (map (\<lambda>j. (j, f j)) js) j = (if j \<in> set js then f j else JNull)"
  by (induction js) auto


lemma plan_value_simps [simp]:
  "dget (plan_value pol cmp (profiles, reasons, fp) selected) ''schema'' = JInt PLAN_SCHEMA"
  "dget (plan_value pol cmp (profiles, reasons, fp) selected) ''repository'' = JStr (pol_repository pol)"
  "dget (plan_value pol cmp (profiles, reasons, fp) selected) ''event'' = JStr (event cmp)"
  "dget (plan_value pol cmp (profiles, reasons, fp) selected) ''base_sha'' = JStr (base_sha cmp)"
  "dget (plan_value pol cmp (profiles, reasons, fp) selected) ''head_sha'' = JStr (head_sha cmp)"
  "dget (plan_value pol cmp (profiles, reasons, fp) selected) ''tested_sha'' = JStr (tested_sha cmp)"
  "dget (plan_value pol cmp (profiles, reasons, fp) selected) ''profile''
     = JStr (case profiles of [p] \<Rightarrow> p | _ \<Rightarrow> ''mixed'')"
  "dget (plan_value pol cmp (profiles, reasons, fp) selected) ''profiles'' = JList (map JStr profiles)"
  "dget (plan_value pol cmp (profiles, reasons, fp) selected) ''jobs''
     = JObj (map (\<lambda>job. (job, JBool (job \<in> selected))) (pol_jobs pol))"
  "dget (plan_value pol cmp (profiles, reasons, fp) selected) ''reasons'' = JList (map JStr reasons)"
  "dget (plan_value pol cmp (profiles, reasons, fp) selected) ''local_fingerprint''
     = (case fp of None \<Rightarrow> JNull | Some f \<Rightarrow> JStr f)"
  by (simp_all add: plan_value_def)

lemma plan_value_keys [simp]:
  "fst ` set (plan_value pol cmp (profiles, reasons, fp) selected) = set plan_keys"
  by (auto simp: plan_value_def plan_keys_def)

lemma plan_value_refl:
  assumes "distinct (pol_jobs pol)"
  shows "check_expected (plan_value pol cmp (profiles, reasons, fp) selected)
    (Some (plan_value pol cmp (profiles, reasons, fp) selected)) = Inr ()"
proof -
  let ?p = "plan_value pol cmp (profiles, reasons, fp) selected"
  have "has_key ?p ''profiles''" "has_key ?p ''profile''" "has_key ?p ''jobs''"
    by (simp_all add: plan_value_def)
  moreover have "py_eq_dict (map (\<lambda>job. (job, JBool (job \<in> selected))) (pol_jobs pol))
      (map (\<lambda>job. (job, JBool (job \<in> selected))) (pol_jobs pol))"
    using assms by (intro py_eq_bools) (auto simp: comp_def list_all_iff)
  ultimately show ?thesis by (simp add: check_expected_def item_has_key)
qed

lemma verify_plan_made:
  assumes "policy_wf pol" and "comparison_ok cmp full" and "selection_ok pol profiles"
    and "reason \<noteq> []" and "fp = None \<or> event cmp = ''local'' \<and> (\<exists>f. fp = Some f \<and> is_sha256 f)"
    and "full \<longrightarrow> profiles = [''full'']" and "selected_jobs pol profiles = Inr selected"
  shows "verify_plan (JObj (plan_value pol cmp (profiles, [reason], fp) selected)) pol cmp
      (Some (plan_value pol cmp (profiles, [reason], fp) selected))
    = Inr (map (\<lambda>job. (job, JBool (job \<in> selected))) (pol_jobs pol))"
proof -
  let ?p = "plan_value pol cmp (profiles, [reason], fp) selected"
  let ?jobs = "map (\<lambda>job. (job, JBool (job \<in> selected))) (pol_jobs pol)"
  have sha: "bound_sha ?p ''base_sha'' (base_sha cmp) = Inr ()"
    "bound_sha ?p ''head_sha'' (head_sha cmp) = Inr ()"
    "bound_sha ?p ''tested_sha'' (tested_sha cmp) = Inr ()"
    using assms(2) by (simp_all add: bound_sha_def comparison_ok_def exact_sha_def)
  have strs: "strings (dget ?p ''profiles'') ''plan profiles'' True = Inr profiles"
    "strings (dget ?p ''reasons'') ''plan reasons'' True = Inr [reason]"
    using assms(3,4) by (simp_all add: strings_Inr selection_ok_def)
  have prof: "check_profiles ?p cmp profiles = Inr ()"
  proof -
    have "sort profiles = profiles" and "\<not> (''full'' \<in> set profiles \<and> profiles \<noteq> [''full''])"
      using assms(3) by (auto simp: selection_ok_def)
    moreover have "\<not> (event cmp \<notin> {''pull_request'', ''merge_group'', ''local''}
        \<and> (profiles \<noteq> [''full''] \<or> base_sha cmp \<noteq> tested_sha cmp))"
      and "\<not> (event cmp \<notin> {''pull_request'', ''merge_group'', ''local''} \<and> head_sha cmp \<noteq> tested_sha cmp)"
      using assms(2,6) unfolding comparison_ok_def by blast+
    ultimately show ?thesis
      unfolding check_profiles_def by (simp only: plan_value_simps if_False simp_thms)
  qed
  have print: "check_fingerprint cmp (dget ?p ''local_fingerprint'') = Inr ()"
    using assms(5) by (auto simp: check_fingerprint_def)
  have "selected \<subseteq> set (pol_jobs pol)" using selected_sub [OF assms(1,7)] .
  then have "enabled_jobs ?jobs = selected" by (auto simp: enabled_jobs_def comp_def)
  then have "check_jobs pol profiles ?jobs = Inr ()"
    using assms(7) by (simp add: check_jobs_def comp_def list_all_iff)
  with sha strs prof print plan_value_refl [OF policy_wf_jobs(2) [OF assms(1)]] show ?thesis
    by (simp add: verify_plan_def object_value_def)
qed

lemma mapR_map: "(\<And>x. x \<in> set xs \<Longrightarrow> f x = Inr (g x)) \<Longrightarrow> mapR f xs = Inr (map g xs)"
  by (induction xs) auto

text \<open>
  C2. Planner and gate fit together: a plan made for a loaded policy is accepted with itself as
  the independent comparison as soon as every job reports the outcome its selection requires.
\<close>

theorem made_plan_accepted:
  assumes "policy_wf pol" and "make_plan co rt pol rq = Inr plan"
    and "\<And>raw. is_sha256 (sha256_hex co raw)"
    and "keys needs = insert ''validation-plan'' (set (pol_jobs pol))"
    and "\<And>job. job \<in> keys needs \<Longrightarrow> dget needs job = JObj [(''result'', JStr (outcome job))]"
    and "\<And>job. outcome job = ''success'' \<or>
       (outcome job = ''skipped'' \<and> job \<noteq> ''validation-plan'' \<and> dget (dict_of (dget plan ''jobs'')) job = JBool False)"
  shows "verify_gate (JObj plan) (JObj needs) pol (comparison_of plan) (Some plan)
    = Inr (map (\<lambda>job. (job, outcome job)) (''validation-plan'' # pol_jobs pol))"
proof -
  from make_plan_Inr [OF assms(1,2)] obtain cmp full profiles reason fp selected where
    plan: "plan = plan_value pol cmp (profiles, [reason], fp) selected" and c: "comparison_ok cmp full"
    and s: "selection_ok pol profiles" "reason \<noteq> []" "print_ok co (event cmp = ''local'') fp"
      "full \<longrightarrow> profiles = [''full'']" "selected_jobs pol profiles = Inr selected" .
  have cmp: "comparison_of plan = cmp" by (simp add: comparison_of_def plan)
  let ?jobs = "map (\<lambda>job. (job, JBool (job \<in> selected))) (pol_jobs pol)"
  from s(3) assms(3) have "fp = None \<or> event cmp = ''local'' \<and> (\<exists>f. fp = Some f \<and> is_sha256 f)"
    by (auto simp: print_ok_def)
  from verify_plan_made [OF assms(1) c s(1,2) this s(4,5)]
  have verified: "verify_plan (JObj plan) pol cmp (Some plan) = Inr ?jobs" by (simp add: plan)
  have "job_outcome ?jobs needs job = Inr (job, outcome job)" if "job \<in> keys needs" for job
    using assms(5) [OF that] assms(6) [of job] by (auto simp: job_outcome_Inr outcomes_def)
  then have results: "mapR (job_outcome ?jobs needs) (''validation-plan'' # pol_jobs pol)
      = Inr (map (\<lambda>job. (job, outcome job)) (''validation-plan'' # pol_jobs pol))"
    using assms(4) by (intro mapR_map) auto
  have "job_failure ?jobs (job, outcome job) = []" for job
    using assms(6) [of job] by (auto simp: job_failure_def required_job_def plan split: if_splits)
  then have "concat (map (job_failure ?jobs) (map (\<lambda>job. (job, outcome job)) js)) = []" for js
    by simp
  with verified results assms(4) cmp show ?thesis
    by (simp only: verify_gate_def bindR_simps object_value_def json.case Let_def if_False simp_thms)
qed


definition sample_request :: request where
  "sample_request = \<lparr>req_event = ''push'', req_base_sha = [], req_head_sha = [],
     req_tested_sha = replicate 40 CHR ''b'', req_policy_sha = [], req_base_ref = ''origin/main'',
     force_full = False\<rparr>"

definition sample_plan :: dict where
  "sample_plan = (case make_plan (sample_checkout []) ''/r'' sample_loaded sample_request of
     Inr plan \<Rightarrow> plan | Inl e \<Rightarrow> [])"

lemma sample_plan_made: "make_plan (sample_checkout []) ''/r'' sample_loaded sample_request = Inr sample_plan"
proof -
  have "\<exists>p. make_plan (sample_checkout []) ''/r'' sample_loaded sample_request = Inr p"
    by (simp add: make_plan_def sample_request_def plan_comparison_def plan_profiles_def exact_sha_def
        is_hex_def is_lower_def is_digit_def ord_def full_plan_def selected_jobs_def)
  then show ?thesis by (auto simp: sample_plan_def)
qed

definition sample_needs :: dict where
  "sample_needs = map (\<lambda>job. (job, JObj [(''result'', JStr ''success'')])) [''validation-plan'', ''a'', ''b'']"

theorem made_plan_accepted_witness:
  "verify_gate (JObj sample_plan) (JObj sample_needs) sample_loaded (comparison_of sample_plan) (Some sample_plan)
     = Inr [(''validation-plan'', ''success''), (''a'', ''success''), (''b'', ''success'')]"
proof -
  have "is_sha256 (sha256_hex (sample_checkout []) raw)" for raw
    by (simp add: sample_checkout_def is_sha256_def list_all_iff is_hex_def is_digit_def ord_def)
  moreover have "keys sample_needs = insert ''validation-plan'' (set (pol_jobs sample_loaded))"
    by (simp add: sample_needs_def sample_loaded_def)
  moreover have "dget sample_needs job = JObj [(''result'', JStr ''success'')]" if "job \<in> keys sample_needs" for job
    using that by (auto simp: sample_needs_def)
  ultimately have "verify_gate (JObj sample_plan) (JObj sample_needs) sample_loaded
      (comparison_of sample_plan) (Some sample_plan)
    = Inr (map (\<lambda>job. (job, ''success'')) (''validation-plan'' # pol_jobs sample_loaded))"
    by (intro made_plan_accepted [OF sample_wf sample_plan_made]) auto
  then show ?thesis by (simp add: sample_loaded_def)
qed

theorem verify_gate_sound_witness:
  "\<exists>results. verify_gate (JObj sample_plan) (JObj sample_needs) sample_loaded
     (comparison_of sample_plan) (Some sample_plan) = Inr results
     \<and> map fst results = [''validation-plan'', ''a'', ''b'']"
proof -
  have "verify_gate (JObj sample_plan) (JObj sample_needs) sample_loaded
      (comparison_of sample_plan) (Some sample_plan)
    = Inr [(''validation-plan'', ''success''), (''a'', ''success''), (''b'', ''success'')]"
    by code_simp
  with verify_gate_sound [OF this] show ?thesis by (auto simp: sample_loaded_def)
qed

text \<open>
  C7. The Dev Container gate keeps the whole trusted gate: it accepts only what the gate itself
  accepts of the original jobs, only for one of the four reviewed owners, with the approved
  policy bytes while the policy does not list the image job, and then only when the image job
  succeeded for exactly the tested revision.
\<close>

theorem devcontainer_gate_sound:
  assumes "verify_devcontainer_gate co plan_v needs_v pol cmp expected = Inr results"
  shows "\<exists>needs original approved. needs_v = JObj needs
     \<and> map_of APPROVED_SEED_POLICIES (pol_repository pol) = Some approved
     \<and> verify_gate plan_v (JObj (if DEVCONTAINER_JOB \<in> set (pol_jobs pol) then needs
           else filter (\<lambda>e. fst e \<noteq> DEVCONTAINER_JOB) needs)) pol cmp (Some expected) = Inr original
     \<and> (if DEVCONTAINER_JOB \<in> set (pol_jobs pol) then results = original
        else results = original @ [(DEVCONTAINER_JOB, ''success'')]
          \<and> (\<exists>raw. read_bytes (disk co) (pol_path pol) = Inr raw \<and> sha256_hex co raw \<in> set approved))
     \<and> (DEVCONTAINER_JOB \<notin> set (pol_jobs pol)
         \<or> attr_get (dget needs DEVCONTAINER_JOB) ''result'' = Inr (JStr ''success'') \<longrightarrow>
         (\<exists>d outputs. dget needs DEVCONTAINER_JOB = JObj d \<and> dget d ''result'' = JStr ''success''
            \<and> dget d ''outputs'' = JObj outputs
            \<and> dget outputs ''candidate_sha'' = JStr (tested_sha cmp)))"
proof -
  let ?seed = "DEVCONTAINER_JOB \<notin> set (pol_jobs pol)"
  from assms obtain u needs original d where
    r: "require_devcontainer_policy co pol ?seed = Inr u" and n: "needs_v = JObj needs"
    and g: "verify_gate plan_v (JObj (if ?seed then filter (\<lambda>e. fst e \<noteq> DEVCONTAINER_JOB) needs
        else needs)) pol cmp (Some expected) = Inr original"
    and d: "dget needs DEVCONTAINER_JOB = JObj d"
    and receipt: "?seed \<or> dget d ''result'' = JStr ''success'' \<Longrightarrow> devcontainer_receipt d (tested_sha cmp) = Inr ()"
    and res: "results = (if ?seed then original @ [(DEVCONTAINER_JOB, ''success'')] else original)"
    unfolding verify_devcontainer_gate_def Let_def
    by (elim bindR_InrE) (force simp: object_value_Inr split: if_splits)
  from r obtain approved where a: "map_of APPROVED_SEED_POLICIES (pol_repository pol) = Some approved"
    by (auto simp: require_devcontainer_policy_def split: option.splits)
  with r have bytes: "?seed \<Longrightarrow> \<exists>raw. read_bytes (disk co) (pol_path pol) = Inr raw
      \<and> sha256_hex co raw \<in> set approved"
    by (auto simp: require_devcontainer_policy_def bindR_Inr split: if_splits)
  have "devcontainer_receipt d s = Inr () \<Longrightarrow> dget d ''result'' = JStr ''success''
      \<and> (\<exists>outputs. dget d ''outputs'' = JObj outputs \<and> dget outputs ''candidate_sha'' = JStr s)" for s
    by (auto simp: devcontainer_receipt_def Let_def bindR_Inr object_value_Inr exact_sha_Inr split: if_splits)
  with receipt have rec: "?seed \<or> dget d ''result'' = JStr ''success'' \<Longrightarrow> dget d ''result'' = JStr ''success''
      \<and> (\<exists>outputs. dget d ''outputs'' = JObj outputs \<and> dget outputs ''candidate_sha'' = JStr (tested_sha cmp))"
    by blast
  show ?thesis
    using n a g d res bytes rec by (cases ?seed) auto
qed


definition seeded_policy :: policy where
  "seeded_policy = sample_loaded\<lparr>pol_repository := ''Strukturpiloten/boxferry'',
     pol_jobs := [DEVCONTAINER_JOB], pol_profile_jobs := [(''prose'', [DEVCONTAINER_JOB])]\<rparr>"

definition seeded_plan :: dict where
  "seeded_plan = (case make_plan (sample_checkout []) ''/r'' seeded_policy sample_request of
     Inr plan \<Rightarrow> plan | Inl e \<Rightarrow> [])"

definition seeded_needs :: dict where
  "seeded_needs = [(''validation-plan'', JObj [(''result'', JStr ''success'')]),
     (DEVCONTAINER_JOB, JObj [(''result'', JStr ''success''),
        (''outputs'', JObj [(''candidate_sha'', JStr (replicate 40 CHR ''b''))])])]"

theorem devcontainer_gate_sound_witness:
  "verify_devcontainer_gate (sample_checkout []) (JObj seeded_plan) (JObj seeded_needs) seeded_policy
       (comparison_of seeded_plan) seeded_plan
     = Inr [(''validation-plan'', ''success''), (DEVCONTAINER_JOB, ''success'')]
   \<and> tested_sha (comparison_of seeded_plan) = replicate 40 CHR ''b''"
proof -
  have ok: "verify_devcontainer_gate (sample_checkout []) (JObj seeded_plan) (JObj seeded_needs) seeded_policy
       (comparison_of seeded_plan) seeded_plan
     = Inr [(''validation-plan'', ''success''), (DEVCONTAINER_JOB, ''success'')]"
    by code_simp
  from devcontainer_gate_sound [OF ok] have
    "tested_sha (comparison_of seeded_plan) = replicate 40 CHR ''b''"
    by (auto simp: seeded_needs_def seeded_policy_def DEVCONTAINER_JOB_def)
  with ok show ?thesis by simp
qed

end
