(* ===== verification/Effects.thy ===== *)
theory Effects
  imports Prelude
begin

text \<open>
  Code with effects. A program takes the world, which answers every effect, and a state, which
  records what happened so far; it returns a value or an exception and the new state. The world
  sees the whole history when it answers, so two identical requests may be answered differently.
  The locale \<open>step_rule\<close> carries a relation between the states before and after from the
  primitive effects to every program built from them.
\<close>

section \<open>Programs\<close>

type_synonym ('w, 's, 'a) io = "'w \<Rightarrow> 's \<Rightarrow> 'a res \<times> 's"

definition retI :: "'a \<Rightarrow> ('w, 's, 'a) io" where
  "retI x w s = (Inr x, s)"

definition raiseI :: "exn \<Rightarrow> ('w, 's, 'a) io" where
  "raiseI e w s = (Inl e, s)"

definition bindI :: "('w, 's, 'a) io \<Rightarrow> ('a \<Rightarrow> ('w, 's, 'b) io) \<Rightarrow> ('w, 's, 'b) io" where
  "bindI m f w s = (case m w s of (Inl e, s') \<Rightarrow> (Inl e, s') | (Inr x, s') \<Rightarrow> f x w s')"

definition catchI :: "('w, 's, 'a) io \<Rightarrow> (exn \<Rightarrow> ('w, 's, 'a) io) \<Rightarrow> ('w, 's, 'a) io" where
  "catchI m h w s = (case m w s of (Inl e, s') \<Rightarrow> h e w s' | (Inr x, s') \<Rightarrow> (Inr x, s'))"

definition liftI :: "'a res \<Rightarrow> ('w, 's, 'a) io" where
  "liftI r w s = (r, s)"

definition getI :: "('s \<Rightarrow> 'a) \<Rightarrow> ('w, 's, 'a) io" where
  "getI f w s = (Inr (f s), s)"

definition askI :: "('w \<Rightarrow> 'a) \<Rightarrow> ('w, 's, 'a) io" where
  "askI f w s = (Inr (f w), s)"

text \<open>A guard: the exception unless the condition holds.\<close>

definition requireI :: "bool \<Rightarrow> exn \<Rightarrow> ('w, 's, unit) io" where
  "requireI b e = (if b then retI () else raiseI e)"

fun mapI :: "('a \<Rightarrow> ('w, 's, 'b) io) \<Rightarrow> 'a list \<Rightarrow> ('w, 's, 'b list) io" where
  "mapI f [] = retI []"
| "mapI f (x # xs) = bindI (f x) (\<lambda>y. bindI (mapI f xs) (\<lambda>ys. retI (y # ys)))"

fun foldI :: "('b \<Rightarrow> 'a \<Rightarrow> ('w, 's, 'b) io) \<Rightarrow> 'b \<Rightarrow> 'a list \<Rightarrow> ('w, 's, 'b) io" where
  "foldI f z [] = retI z"
| "foldI f z (x # xs) = bindI (f z x) (\<lambda>z'. foldI f z' xs)"

lemma retI_run [simp]: "retI x w s = (Inr x, s)" by (simp add: retI_def)
lemma raiseI_run [simp]: "raiseI e w s = (Inl e, s)" by (simp add: raiseI_def)
lemma liftI_run [simp]: "liftI r w s = (r, s)" by (simp add: liftI_def)
lemma getI_run [simp]: "getI f w s = (Inr (f s), s)" by (simp add: getI_def)
lemma askI_run [simp]: "askI f w s = (Inr (f w), s)" by (simp add: askI_def)

lemma requireI_Inr [simp]: "requireI b e w s = (Inr u, s') \<longleftrightarrow> b \<and> s' = s"
  by (auto simp: requireI_def)

lemma bindI_Inr: "bindI m f w s = (Inr y, t) \<longleftrightarrow> (\<exists>x s'. m w s = (Inr x, s') \<and> f x w s' = (Inr y, t))"
  by (auto simp: bindI_def split: prod.splits sum.splits)

lemma bindI_InrE:
  assumes "bindI m f w s = (Inr y, t)"
  obtains x s' where "m w s = (Inr x, s')" and "f x w s' = (Inr y, t)"
  using assms by (auto simp: bindI_Inr)

lemma bindI_Inl:
  "bindI m f w s = (Inl e, t) \<longleftrightarrow>
     m w s = (Inl e, t) \<or> (\<exists>x s'. m w s = (Inr x, s') \<and> f x w s' = (Inl e, t))"
  by (auto simp: bindI_def split: prod.splits sum.splits)

lemma bindI_step [simp]:
  "m w s = (Inr x, s') \<Longrightarrow> bindI m f w s = f x w s'"
  "m w s = (Inl e, s') \<Longrightarrow> bindI m f w s = (Inl e, s')"
  by (simp_all add: bindI_def)

lemma catchI_step [simp]:
  "m w s = (Inr x, s') \<Longrightarrow> catchI m h w s = (Inr x, s')"
  "m w s = (Inl e, s') \<Longrightarrow> catchI m h w s = h e w s'"
  by (simp_all add: catchI_def)

text \<open>Evaluation on concrete inputs runs a program from the front: \<open>simp cong: run_congs\<close>.\<close>

lemma bindI_front: "bindI m f w s = bindI m f w s"
  by (rule refl)

lemma catchI_front: "catchI m h w s = catchI m h w s"
  by (rule refl)

lemmas run_congs = bindI_front catchI_front

lemma catchI_Inr:
  "catchI m h w s = (Inr y, t) \<longleftrightarrow>
     m w s = (Inr y, t) \<or> (\<exists>e s'. m w s = (Inl e, s') \<and> h e w s' = (Inr y, t))"
  by (auto simp: catchI_def split: prod.splits sum.splits)

lemma if_raiseE:
  assumes "(if b then raiseI e else m) w s = (Inr y, t)"
  obtains "\<not> b" and "m w s = (Inr y, t)"
  using assms by (auto split: if_splits)

lemma liftI_InrE:
  assumes "liftI r w s = (Inr y, t)"
  obtains "r = Inr y" and "t = s"
  using assms by auto

lemma requireI_InrE:
  assumes "requireI b e w s = (Inr u, t)"
  obtains b and "t = s"
  using assms by auto

lemma retI_InrE:
  assumes "retI x w s = (Inr y, t)"
  obtains "x = y" and "t = s"
  using assms by auto

lemma pair_runE: "(case p of (a, b) \<Rightarrow> f a b) w s = r \<Longrightarrow> (\<And>a b. p = (a, b) \<Longrightarrow> f a b w s = r \<Longrightarrow> P) \<Longrightarrow> P"
  by (cases p) auto

lemma let_runE: "(let x = v in f x) w s = r \<Longrightarrow> (f v w s = r \<Longrightarrow> P) \<Longrightarrow> P"
  by simp

text \<open>How a program that succeeded is taken apart: \<open>elim run_elims\<close>.\<close>

lemmas run_elims = bindI_InrE if_raiseE liftI_InrE requireI_InrE retI_InrE

lemma mapI_length: "mapI f xs w s = (Inr ys, t) \<Longrightarrow> length ys = length xs"
  by (induction xs arbitrary: ys s) (auto simp: bindI_Inr)

text \<open>Each item of a completed loop ran in some state and gave its value.\<close>

lemma mapI_all2:
  "mapI f xs w s = (Inr ys, t) \<Longrightarrow> list_all2 (\<lambda>x y. \<exists>u v. f x w u = (Inr y, v)) xs ys"
  by (induction xs arbitrary: ys s) (auto simp: bindI_Inr)

section \<open>What a program does to the state\<close>

text \<open>A relation between the state before and after every run, whatever the result.\<close>

definition keeps :: "('s \<Rightarrow> 's \<Rightarrow> bool) \<Rightarrow> ('w, 's, 'a) io \<Rightarrow> bool" where
  "keeps R m \<longleftrightarrow> (\<forall>w s r t. m w s = (r, t) \<longrightarrow> R s t)"

lemma keepsI: "(\<And>w s r t. m w s = (r, t) \<Longrightarrow> R s t) \<Longrightarrow> keeps R m"
  by (auto simp: keeps_def)

lemma keepsD: "keeps R m \<Longrightarrow> m w s = (r, t) \<Longrightarrow> R s t"
  by (auto simp: keeps_def)

lemma keeps_mono: "keeps R m \<Longrightarrow> (\<And>s t. R s t \<Longrightarrow> Q s t) \<Longrightarrow> keeps Q m"
  by (auto simp: keeps_def)

text \<open>The interface: a relation that holds of doing nothing and of two steps in a row.\<close>

locale step_rule =
  fixes R :: "'s \<Rightarrow> 's \<Rightarrow> bool"
  assumes none: "R s s"
    and both: "R s t \<Longrightarrow> R t u \<Longrightarrow> R s u"
begin

lemma keeps_ret: "keeps R (retI x)"
  by (rule keepsI) (auto simp: none)

lemma keeps_raise: "keeps R (raiseI e)"
  by (rule keepsI) (auto simp: none)

lemma keeps_lift: "keeps R (liftI r)"
  by (rule keepsI) (auto simp: none)

lemma keeps_get: "keeps R (getI f)"
  by (rule keepsI) (auto simp: none)

lemma keeps_ask: "keeps R (askI f)"
  by (rule keepsI) (auto simp: none)

lemma keeps_require: "keeps R (requireI b e)"
  by (simp add: requireI_def keeps_ret keeps_raise)

lemma keeps_bind: "keeps R m \<Longrightarrow> (\<And>x. keeps R (f x)) \<Longrightarrow> keeps R (bindI m f)"
proof (rule keepsI)
  fix w s r t
  assume m: "keeps R m" and f: "\<And>x. keeps R (f x)" and run: "bindI m f w s = (r, t)"
  obtain q s' where q: "m w s = (q, s')" by (cases "m w s")
  show "R s t"
  proof (cases q)
    case (Inl e)
    with q run keepsD [OF m q] show ?thesis by simp
  next
    case (Inr x)
    with q run have "f x w s' = (r, t)" by simp
    from keepsD [OF f this] keepsD [OF m q] show ?thesis by (rule both [rotated])
  qed
qed

lemma keeps_catch: "keeps R m \<Longrightarrow> (\<And>e. keeps R (h e)) \<Longrightarrow> keeps R (catchI m h)"
proof (rule keepsI)
  fix w s r t
  assume m: "keeps R m" and h: "\<And>e. keeps R (h e)" and run: "catchI m h w s = (r, t)"
  obtain q s' where q: "m w s = (q, s')" by (cases "m w s")
  show "R s t"
  proof (cases q)
    case (Inl e)
    with q run have "h e w s' = (r, t)" by (simp add: catchI_def)
    from keepsD [OF h this] keepsD [OF m q] show ?thesis by (rule both [rotated])
  next
    case (Inr x)
    with q run keepsD [OF m q] show ?thesis by (simp add: catchI_def)
  qed
qed

lemma keeps_map: "(\<And>x. keeps R (f x)) \<Longrightarrow> keeps R (mapI f xs)"
  by (induction xs) (auto intro!: keeps_ret keeps_bind)

lemma keeps_fold: "(\<And>z x. keeps R (f z x)) \<Longrightarrow> keeps R (foldI f z xs)"
  by (induction xs arbitrary: z) (auto intro!: keeps_ret keeps_bind)

lemma keeps_if: "(b \<Longrightarrow> keeps R m) \<Longrightarrow> (\<not> b \<Longrightarrow> keeps R n) \<Longrightarrow> keeps R (if b then m else n)"
  by simp

lemma keeps_option:
  "(x = None \<Longrightarrow> keeps R m) \<Longrightarrow> (\<And>y. x = Some y \<Longrightarrow> keeps R (f y)) \<Longrightarrow>
     keeps R (case x of None \<Rightarrow> m | Some y \<Rightarrow> f y)"
  by (cases x) auto

lemma keeps_prod: "(\<And>a b. keeps R (f a b)) \<Longrightarrow> keeps R (case p of (a, b) \<Rightarrow> f a b)"
  by (cases p) auto

lemma keeps_let: "(\<And>x. keeps R (f x)) \<Longrightarrow> keeps R (let x = v in f x)"
  by (simp add: Let_def)

lemmas keeps_rules = keeps_ret keeps_raise keeps_lift keeps_get keeps_ask keeps_require
  keeps_bind keeps_catch keeps_map keeps_fold keeps_if keeps_option keeps_prod keeps_let

end

end
