(* ===== verification/GitHubApi.thy ===== *)
theory GitHubApi
  imports Effects
begin

text \<open>
  The fixed-origin GitHub client of \<open>eligibility.py\<close>: one bounded request at a time, within a
  budget of requests and time. The state of the client holds its counters and the history of its
  effects, the newest first; \<open>world\<close> answers them.
\<close>

section \<open>Effects and their answers\<close>

text \<open>
  \<open>Reserved\<close> is the assignment \<open>ledger[head] = run_id\<close> of the retry ledger, which is kept in the
  history so that its place among the effects can be stated.
\<close>

datatype event =
    Request string string "json option"
  | Clock
  | Download int
  | Fetch string
  | GitRun "string list"
  | Sleep rat
  | Reserved string int

datatype reply = Response string | HttpError int | TransportError | ProtocolError string

text \<open>The artifact endpoint answers with the bytes or with a status and a location header.\<close>

datatype artifact_reply = ArtifactBody string | ArtifactHttp int string | ArtifactTransport
  | ArtifactProtocol string

text \<open>
  A Git process that did not start, that broke one of the limits on it, or that ended with a
  status, the bytes it wrote to its error stream, and its standard output.
\<close>

datatype git_reply = GitUnavailable | GitLimit string | GitExit int nat string

text \<open>
  What answers: the API, the artifact endpoint and a plain URL by history, the scheme, host name,
  user name and password of a URL, the monotonic clock, Git processes,
  whether the object store of a queue proof is complete, \<open>json.loads\<close> of bytes, the objects a decoder
  completes on the way with the value, SHA-256, the wall clock,
  \<open>datetime.fromisoformat\<close> as the instant, unless it has none in UTC, and whether it has a timezone, and the members of a ZIP
  archive with size, encryption flag and content (\<open>None\<close> when it cannot be read).
\<close>

record world =
  answer :: "event list \<Rightarrow> string \<Rightarrow> string \<Rightarrow> json option \<Rightarrow> reply"
  artifact_answer :: "event list \<Rightarrow> string \<Rightarrow> int \<Rightarrow> artifact_reply"
  url_answer :: "event list \<Rightarrow> string \<Rightarrow> reply"
  urlparse :: "string \<Rightarrow> string \<times> string \<times> string \<times> string"
  monotonic :: "event list \<Rightarrow> rat"
  git_process :: "event list \<Rightarrow> string list \<Rightarrow> git_reply"
  store_shallow :: "event list \<Rightarrow> bool"
  store_partial :: "event list \<Rightarrow> bool"
  decode_json :: "string \<Rightarrow> json option"
  fromisoformat :: "string \<Rightarrow> (rat option \<times> bool) option"
  json_objects :: "string \<Rightarrow> dict list \<times> json option"
  sha256_hex :: "string \<Rightarrow> string"
  utc_now :: "event list \<Rightarrow> rat"
  zip_members :: "string \<Rightarrow> (string \<times> nat \<times> bool \<times> string option) list option"

record client =
  api_repository :: string
  deadline :: rat
  requests :: nat
  trace :: "event list"

type_synonym 'a api = "(world, client, 'a) io"

section \<open>The client\<close>

definition MAX_JSON_BYTES :: nat where "MAX_JSON_BYTES = 4 * 1024 * 1024"
definition MAX_STATE_BYTES :: nat where "MAX_STATE_BYTES = 2 * 1024 * 1024"
definition MAX_FILE_BYTES :: int where "MAX_FILE_BYTES = 2 * 1024 * 1024"

definition REPOSITORIES :: "string list" where
  "REPOSITORIES = map (\<lambda>name. ''Strukturpiloten/'' @ name)
     [''boxferry'', ''compose-lens'', ''podman-lens'', ''quadlet-lens'', ''docker-lens'',
      ''kubernetes-lens'', ''boxferry-website'']"

definition new_client :: "string \<Rightarrow> rat \<Rightarrow> client res" where
  "new_client repository now =
     (if repository \<notin> set REPOSITORIES
      then Inl (EligibilityError ''repository is outside the shared automation allowlist'' [])
      else Inr \<lparr>api_repository = repository, deadline = now + 480, requests = 0, trace = []\<rparr>)"

text \<open>The three primitive effects of a request.\<close>

definition bump :: "nat api" where
  "bump w s = (Inr (requests s + 1), s\<lparr>requests := requests s + 1\<rparr>)"

definition now :: "rat api" where
  "now w s = (Inr (monotonic w (trace s)), s\<lparr>trace := Clock # trace s\<rparr>)"

definition http :: "string \<Rightarrow> string \<Rightarrow> json option \<Rightarrow> reply api" where
  "http m path data w s =
     (Inr (answer w (trace s) m path data), s\<lparr>trace := Request m path data # trace s\<rparr>)"

definition budget_error :: exn where
  "budget_error = EligibilityError ''GitHub metadata request/time budget exhausted'' []"

text \<open>The JSON value of a reply: nothing for an empty body.\<close>

definition reply_value :: "(string \<Rightarrow> json option) \<Rightarrow> reply \<Rightarrow> json res" where
  "reply_value decode r = (case r of
     HttpError code \<Rightarrow>
       if code = 404 then Inl (MissingResource ''GitHub metadata resource is absent'')
       else Inl (EligibilityError ''GitHub metadata request failed with HTTP {}'' [show_int code])
   | TransportError \<Rightarrow> Inl (EligibilityError ''GitHub metadata transport failed: {}'' [])
   | ProtocolError name \<Rightarrow> Inl (HttpException name)
   | Response body \<Rightarrow>
       let raw = take (MAX_JSON_BYTES + 1) body in
       if MAX_JSON_BYTES < length raw
       then Inl (EligibilityError ''GitHub metadata response exceeds its size budget'' [])
       else if raw = [] then Inr JNull
       else (case decode raw of
         None \<Rightarrow> Inl (EligibilityError ''GitHub metadata response is not valid JSON'' [])
       | Some v \<Rightarrow> Inr v))"

definition request :: "string \<Rightarrow> string \<Rightarrow> json option \<Rightarrow> json api" where
  "request m path data =
     bindI bump (\<lambda>n.
     if 500 < n then raiseI budget_error
     else
     bindI now (\<lambda>t.
     bindI (getI deadline) (\<lambda>d.
     if d < t then raiseI budget_error
     else if \<not> startswith path ''/'' \<or> startswith path ''//''
     then raiseI (EligibilityError ''GitHub API path must be relative to its fixed origin'' [])
     else
     bindI (http m path data) (\<lambda>r.
     bindI (askI decode_json) (\<lambda>decode. liftI (reply_value decode r))))))"

definition repo_path :: "string \<Rightarrow> string \<Rightarrow> string" where
  "repo_path repository rest =
     ''/repos/'' @ repository @ (if rest = [] then [] else ''/'' @ rest)"

definition as_object :: "json \<Rightarrow> exn \<Rightarrow> dict res" where
  "as_object v e = (case v of JObj d \<Rightarrow> Inr d | _ \<Rightarrow> Inl e)"

lemma as_object_Inr [simp]: "as_object v e = Inr d \<longleftrightarrow> v = JObj d"
  by (cases v) (auto simp: as_object_def)

definition get :: "string \<Rightarrow> dict api" where
  "get rest =
     bindI (getI api_repository) (\<lambda>repository.
     bindI (request ''GET'' (repo_path repository rest) None) (\<lambda>v.
     liftI (as_object v (EligibilityError ''GitHub metadata response must be an object'' []))))"

definition items :: "string \<Rightarrow> dict list api" where
  "items rest =
     bindI (getI api_repository) (\<lambda>repository.
     bindI (request ''GET'' (repo_path repository rest) None) (\<lambda>v.
     if \<not> is_list v \<or> \<not> list_all is_obj (list_of v)
     then raiseI (EligibilityError ''GitHub metadata response must be an object list'' [])
     else retI (map dict_of (list_of v))))"

definition post :: "string \<Rightarrow> json \<Rightarrow> unit api" where
  "post rest data =
     bindI (getI api_repository) (\<lambda>repository.
     bindI (request ''POST'' (repo_path repository rest) (Some data)) (\<lambda>_. retI ()))"

text \<open>
  The artifact download: the request with the token goes to the API only; the signed URL it
  redirects to is fetched by a request of its own, without credentials.
\<close>

definition redirect_safe :: "string \<times> string \<times> string \<times> string \<Rightarrow> bool" where
  "redirect_safe u = (case u of (scheme, hostname, username, password) \<Rightarrow>
     scheme = ''https'' \<and> hostname \<noteq> [] \<and> username = [] \<and> password = [])"

definition fetch_url :: "string \<Rightarrow> string api" where
  "fetch_url url w s =
     ((case url_answer w (trace s) url of
         Response raw \<Rightarrow> Inr (take (MAX_STATE_BYTES + 65537) raw)
       | ProtocolError name \<Rightarrow> Inl (HttpException name)
       | _ \<Rightarrow> Inl (EligibilityError ''trusted artifact download transport failed'' [])),
      s\<lparr>trace := Fetch url # trace s\<rparr>)"

definition artifact_request :: "int \<Rightarrow> artifact_reply api" where
  "artifact_request artifact_id w s =
     (Inr (artifact_answer w (trace s) (api_repository s) artifact_id),
      s\<lparr>trace := Download artifact_id # trace s\<rparr>)"

definition artifact :: "int \<Rightarrow> string api" where
  "artifact artifact_id =
     bindI (artifact_request artifact_id) (\<lambda>r.
     bindI (case r of
         ArtifactBody body \<Rightarrow> retI (take (MAX_STATE_BYTES + 65537) body)
       | ArtifactProtocol name \<Rightarrow> raiseI (HttpException name)
       | ArtifactTransport \<Rightarrow>
           raiseI (EligibilityError ''trusted artifact download transport failed'' [])
       | ArtifactHttp code location \<Rightarrow>
           if code \<notin> {301, 302, 303, 307, 308}
           then raiseI (EligibilityError ''trusted artifact download failed with HTTP {}''
                  [show_int code])
           else
           bindI (askI urlparse) (\<lambda>parse.
           if \<not> redirect_safe (parse location)
           then raiseI (EligibilityError ''trusted artifact redirect is not a safe HTTPS URL'' [])
           else fetch_url location)) (\<lambda>raw.
     if MAX_STATE_BYTES + 65536 < length raw
     then raiseI (EligibilityError ''trusted artifact archive exceeds its size budget'' [])
     else retI raw))"

text \<open>\<open>revision\<close>, \<open>utc\<close> and \<open>workflow_file\<close>.\<close>

definition revision :: "json \<Rightarrow> string res" where
  "revision v =
     (if \<not> is_sha_str v
      then Inl (EligibilityError ''authoritative metadata has an invalid commit revision'' [])
      else Inr (str_of v))"

definition replace_z :: "string \<Rightarrow> string" where
  "replace_z s = concat (map (\<lambda>c. if c = CHR ''Z'' then ''+00:00'' else [c]) s)"

definition utc :: "(string \<Rightarrow> (rat option \<times> bool) option) \<Rightarrow> json \<Rightarrow> rat res" where
  "utc fromiso v =
     (if \<not> is_str v
      then Inl (EligibilityError ''persisted time must be an RFC3339 string'' [])
      else (case fromiso (replace_z (str_of v)) of
        None \<Rightarrow> Inl (EligibilityError ''persisted time is malformed'' [])
      | Some (t, aware) \<Rightarrow>
          if \<not> aware then Inl (EligibilityError ''persisted time has no timezone'' [])
          else (case t of None \<Rightarrow> Inl OverflowError | Some instant \<Rightarrow> Inr instant)))"

definition workflow_file :: "string \<Rightarrow> string" where
  "workflow_file repository =
     (if endswith repository ''/docker-lens'' then ''.github/workflows/check.yml''
      else ''.github/workflows/ci.yml'')"

lemma revision_Inr [res_simps]: "revision v = Inr s \<longleftrightarrow> v = JStr s \<and> is_sha s"
  by (cases v) (auto simp: revision_def)

section \<open>What a request guarantees\<close>

text \<open>The API answered a request after a history with this JSON value.\<close>

definition answered :: "world \<Rightarrow> event list \<Rightarrow> string \<Rightarrow> string \<Rightarrow> json option \<Rightarrow> json \<Rightarrow> bool" where
  "answered w h m path data v \<longleftrightarrow> reply_value (decode_json w) (answer w h m path data) = Inr v"

lemma request_Inr:
  "request m path data w s = (Inr v, t) \<longleftrightarrow>
     requests s + 1 \<le> 500 \<and> monotonic w (trace s) \<le> deadline s
     \<and> startswith path ''/'' \<and> \<not> startswith path ''//''
     \<and> answered w (Clock # trace s) m path data v
     \<and> t = s\<lparr>requests := requests s + 1, trace := Request m path data # Clock # trace s\<rparr>"
  by (auto simp: request_def bindI_def bump_def now_def http_def answered_def not_less
      split: prod.splits sum.splits if_splits)

lemma get_Inr:
  "get rest w s = (Inr d, t) \<longleftrightarrow>
     request ''GET'' (repo_path (api_repository s) rest) None w s = (Inr (JObj d), t)"
  by (auto simp: get_def bindI_Inr)

lemma items_Inr:
  "items rest w s = (Inr ds, t) \<longleftrightarrow>
     (\<exists>vs. request ''GET'' (repo_path (api_repository s) rest) None w s = (Inr (JList vs), t)
       \<and> list_all is_obj vs \<and> ds = map dict_of vs)"
  by (auto simp: items_def bindI_Inr is_list_iff split: if_splits; blast)

text \<open>Histories grow, and the repository and the deadline stay.\<close>

definition frame :: "client \<Rightarrow> client \<Rightarrow> bool" where
  "frame s t \<longleftrightarrow> api_repository t = api_repository s \<and> deadline t = deadline s
     \<and> requests s \<le> requests t \<and> suffix (trace s) (trace t)"

text \<open>No step sends a request beyond the budget.\<close>

definition is_request :: "event \<Rightarrow> bool" where
  "is_request e = (case e of Request m p d \<Rightarrow> True | _ \<Rightarrow> False)"

lemma is_request_simps [simp]:
  "is_request (Request m p d)" "\<not> is_request Clock" "\<not> is_request (Download n)"
  "\<not> is_request (Fetch u)" "\<not> is_request (GitRun args)" "\<not> is_request (Sleep q)"
  "\<not> is_request (Reserved h n)"
  by (simp_all add: is_request_def)

definition request_count :: "client \<Rightarrow> nat" where
  "request_count s = length (filter is_request (trace s))"

definition within_budget :: "client \<Rightarrow> bool" where
  "within_budget s \<longleftrightarrow> request_count s \<le> 500 \<and> request_count s \<le> requests s"

definition budget_step :: "client \<Rightarrow> client \<Rightarrow> bool" where
  "budget_step s t \<longleftrightarrow> (within_budget s \<longrightarrow> within_budget t)"

text \<open>Reading steps: GET requests, GraphQL queries, downloads, the clock and Git processes.\<close>

definition query_text :: "json option \<Rightarrow> string" where
  "query_text data = (case data of Some (JObj d) \<Rightarrow> str_of (dget d ''query'') | _ \<Rightarrow> [])"

definition reads_only :: "event \<Rightarrow> bool" where
  "reads_only e = (case e of
     Request m path data \<Rightarrow>
       m = ''GET'' \<or> (m = ''POST'' \<and> path = ''/graphql'' \<and> startswith (query_text data) ''query('')
   | Reserved h n \<Rightarrow> False
   | _ \<Rightarrow> True)"

definition read_step :: "client \<Rightarrow> client \<Rightarrow> bool" where
  "read_step s t \<longleftrightarrow> (\<exists>new. trace t = new @ trace s \<and> list_all reads_only new)"

interpretation frame: step_rule frame
  by unfold_locales (auto simp: frame_def intro: suffix_order.trans)

interpretation budget: step_rule budget_step
  by unfold_locales (auto simp: budget_step_def)

interpretation reader: step_rule read_step
proof
  show "read_step s s" for s by (auto simp: read_step_def)
  show "read_step s u" if "read_step s t" "read_step t u" for s t u
    using that by (force simp: read_step_def)
qed


section \<open>The client keeps its frame, its budget and, for reads, the world\<close>

lemma frame_request: "keeps frame (request m path data)"
proof -
  have "keeps frame bump" "keeps frame now" "keeps frame (http m path data)"
    by (auto intro!: keepsI simp: bump_def now_def http_def frame_def suffix_ConsI)
  then show ?thesis
    unfolding request_def by (intro frame.keeps_rules)
qed

lemma frame_get: "keeps frame (get rest)"
  unfolding get_def by (intro frame.keeps_rules frame_request)

lemma frame_items: "keeps frame (items rest)"
  unfolding items_def by (intro frame.keeps_rules frame_request)

lemma frame_post: "keeps frame (post rest data)"
  unfolding post_def by (intro frame.keeps_rules frame_request)

lemma frame_now: "keeps frame now"
  by (auto intro!: keepsI simp: now_def frame_def suffix_ConsI)

lemma frame_artifact: "keeps frame (artifact n)"
proof -
  have "keeps frame (artifact_request n)" "keeps frame (fetch_url u)" for u
    by (auto intro!: keepsI simp: artifact_request_def fetch_url_def frame_def suffix_ConsI)
  then show ?thesis
    unfolding artifact_def
    by (intro frame.keeps_rules) (auto split: artifact_reply.splits intro!: frame.keeps_rules)
qed

lemma budget_request: "keeps budget_step (request m path data)"
proof (rule keepsI)
  fix w s r t
  assume "request m path data w s = (r, t)"
  then consider "request_count t = request_count s" "requests t = requests s + 1"
    | "requests s + 1 \<le> 500" "request_count t = request_count s + 1" "requests t = requests s + 1"
    by (auto simp: request_def bindI_def bump_def now_def http_def request_count_def is_request_def
        not_less split: prod.splits sum.splits if_splits)
  then show "budget_step s t" by cases (auto simp: budget_step_def within_budget_def)
qed

lemma budget_get: "keeps budget_step (get rest)"
  unfolding get_def by (intro budget.keeps_rules budget_request)

lemma budget_items: "keeps budget_step (items rest)"
  unfolding items_def by (intro budget.keeps_rules budget_request)

lemma budget_post: "keeps budget_step (post rest data)"
  unfolding post_def by (intro budget.keeps_rules budget_request)

lemma budget_now: "keeps budget_step now"
  by (auto intro!: keepsI simp: now_def budget_step_def within_budget_def request_count_def is_request_def)

lemma budget_artifact: "keeps budget_step (artifact n)"
proof -
  have "keeps budget_step (artifact_request n)" "keeps budget_step (fetch_url u)" for u
    by (auto intro!: keepsI simp: artifact_request_def fetch_url_def budget_step_def within_budget_def
        request_count_def is_request_def)
  then show ?thesis
    unfolding artifact_def
    by (intro budget.keeps_rules) (auto split: artifact_reply.splits intro!: budget.keeps_rules)
qed

lemma reader_request:
  "reads_only (Request m path data) \<Longrightarrow> keeps read_step (request m path data)"
proof -
  assume r: "reads_only (Request m path data)"
  have "keeps read_step bump" "keeps read_step now" "keeps read_step (http m path data)"
    using r by (auto intro!: keepsI simp: bump_def now_def http_def read_step_def reads_only_def)
  then show ?thesis
    unfolding request_def by (intro reader.keeps_rules)
qed

lemma reader_get: "keeps read_step (get rest)"
  unfolding get_def by (intro reader.keeps_rules reader_request) (simp add: reads_only_def)

lemma reader_items: "keeps read_step (items rest)"
  unfolding items_def by (intro reader.keeps_rules reader_request) (simp_all add: reads_only_def)

lemma reader_now: "keeps read_step now"
  by (auto intro!: keepsI simp: now_def read_step_def reads_only_def)

lemma reader_artifact: "keeps read_step (artifact n)"
proof -
  have "keeps read_step (artifact_request n)" "keeps read_step (fetch_url u)" for u
    by (auto intro!: keepsI simp: artifact_request_def fetch_url_def read_step_def reads_only_def)
  then show ?thesis
    unfolding artifact_def
    by (intro reader.keeps_rules) (auto split: artifact_reply.splits intro!: reader.keeps_rules)
qed

lemmas frame_client = frame_get frame_items frame_post frame_now frame_artifact frame_request
lemmas budget_client = budget_get budget_items budget_post budget_now budget_artifact budget_request
lemmas reader_client = reader_get reader_items reader_now reader_artifact

text \<open>
  The two relations programs are proved to keep: \<open>act_step\<close> for every program of the client, and
  \<open>observe_step\<close> for those that only read.
\<close>

definition act_step :: "client \<Rightarrow> client \<Rightarrow> bool" where
  "act_step s t \<longleftrightarrow> frame s t \<and> budget_step s t"

definition observe_step :: "client \<Rightarrow> client \<Rightarrow> bool" where
  "observe_step s t \<longleftrightarrow> act_step s t \<and> read_step s t"

interpretation act: step_rule act_step
  by unfold_locales (auto simp: act_step_def intro: frame.none frame.both budget.none budget.both)

interpretation observe: step_rule observe_step
  by unfold_locales
    (auto simp: observe_step_def intro: act.none act.both reader.none reader.both)

lemma act_client: "keeps frame m \<Longrightarrow> keeps budget_step m \<Longrightarrow> keeps act_step m"
  by (auto simp: keeps_def act_step_def)

lemma observe_client: "keeps frame m \<Longrightarrow> keeps budget_step m \<Longrightarrow> keeps read_step m \<Longrightarrow> keeps observe_step m"
  by (auto simp: keeps_def act_step_def observe_step_def)

lemma observe_act: "keeps observe_step m \<Longrightarrow> keeps act_step m"
  by (auto simp: keeps_def observe_step_def)

lemmas observe_get = observe_client [OF frame_get budget_get reader_get]
lemmas observe_items = observe_client [OF frame_items budget_items reader_items]
lemmas observe_now = observe_client [OF frame_now budget_now reader_now]
lemmas observe_artifact = observe_client [OF frame_artifact budget_artifact reader_artifact]
lemmas act_post = act_client [OF frame_post budget_post]
lemmas act_request = act_client [OF frame_request budget_request]

lemma observe_request: "reads_only (Request m path data) \<Longrightarrow> keeps observe_step (request m path data)"
  by (rule observe_client [OF frame_request budget_request reader_request])

lemmas observe_calls = observe_get observe_items observe_now observe_artifact

lemmas observe_rules = observe.keeps_rules observe_calls

text \<open>A step without a request that only extends the history.\<close>

lemma observe_quiet:
  assumes "\<And>w s r t. m w s = (r, t) \<Longrightarrow> t = s \<or> (\<exists>e. \<not> is_request e \<and> reads_only e \<and> t = s\<lparr>trace := e # trace s\<rparr>)"
  shows "keeps observe_step m"
proof (rule keepsI)
  fix w s r t
  assume "m w s = (r, t)"
  from assms [OF this] show "observe_step s t"
    by (elim disjE exE conjE)
      (auto simp: observe_step_def act_step_def frame_def budget_step_def within_budget_def read_step_def
        request_count_def is_request_def suffix_ConsI split: event.splits)
qed

end
