(* ===== verification/QueueTree.thy ===== *)
theory QueueTree
  imports GitHubApi
begin

text \<open>
  \<open>queue_tree.py\<close>: the proof that the tree of a queue candidate is the clean merge of exactly
  the sources it claims. A Git process is an effect of the world; which processes run, in which
  order, and what their output decides is modelled. With Git objects that do not change during
  the proof, the matches are exactly the sources whose clean merge has the candidate's tree.
\<close>

definition MAX_OUTPUT :: nat where "MAX_OUTPUT = 64 * 1024"
definition MAX_SECONDS :: rat where "MAX_SECONDS = 120"
definition MAX_SOURCES :: nat where "MAX_SOURCES = 20"

section \<open>Text of Git\<close>

text \<open>\<open>s.split()\<close> and \<open>s.splitlines()\<close> of ASCII text, and \<open>dict.fromkeys\<close> as a list.\<close>

definition is_break :: "char \<Rightarrow> bool" where
  "is_break c = (ord c \<in> {10, 11, 12, 13, 28, 29, 30})"

fun text_lines :: "string \<Rightarrow> string list" where
  "text_lines [] = []"
| "text_lines (c # s) =
     (if c = carriage \<and> startswith s [newline] then text_lines s
      else if is_break c then [] # text_lines s
      else (case text_lines s of [] \<Rightarrow> [[c]] | l # ls \<Rightarrow> (c # l) # ls))"

fun text_words :: "string \<Rightarrow> string list" where
  "text_words [] = []"
| "text_words (c # s) =
     (if is_space [c] then text_words s
      else if s = [] \<or> is_space [hd s] then [c] # text_words s
      else (case text_words s of [] \<Rightarrow> [[c]] | w # ws \<Rightarrow> (c # w) # ws))"

definition unique :: "'a list \<Rightarrow> 'a list" where
  "unique xs = rev (remdups (rev xs))"

lemma set_unique [simp]: "set (unique xs) = set xs"
  by (simp add: unique_def)

text \<open>\<open>_conflict_output\<close>: a tree, then stage entries with a tab before the path, NUL-terminated.\<close>

definition conflict_entry :: "string \<Rightarrow> (char \<times> string) option" where
  "conflict_entry entry =
     (let metadata = takeWhile (\<lambda>c. c \<noteq> CHR 0x09) entry;
          rest = dropWhile (\<lambda>c. c \<noteq> CHR 0x09) entry
      in if rest = [] \<or> tl rest = [] then None
         else (case split_on CHR '' '' metadata of
           [mode, sha, stage] \<Rightarrow>
             if mode \<in> {''100644'', ''100755'', ''120000'', ''160000''} \<and> is_sha sha
                \<and> stage \<in> {''1'', ''2'', ''3''}
             then Some (last metadata, tl rest) else None
         | _ \<Rightarrow> None))"

definition conflict_output :: "string \<Rightarrow> bool" where
  "conflict_output output =
     (let fields = split_on nul output in
      if length fields < 3 \<or> last fields \<noteq> [] \<or> \<not> is_sha (hd fields) then False
      else let entries = map conflict_entry (butlast (tl fields)) in
        None \<notin> set entries \<and> distinct entries \<and> entries \<noteq> [])"

section \<open>One Git process\<close>

definition git_stage :: "string \<Rightarrow> string" where
  "git_stage command =
     (case map_of [(''init'', ''initialize''), (''fetch'', ''fetch''), (''fsck'', ''verify-objects''),
        (''rev-parse'', ''verify-identity''), (''rev-list'', ''verify-parents''),
        (''merge-base'', ''merge-base''), (''merge-tree'', ''clean-merge'')] command of
        Some stage \<Rightarrow> stage | None \<Rightarrow> ''verify'')"

definition merge_tree_args :: "string list" where
  "merge_tree_args = [''merge-tree'', ''--write-tree'', ''-z'', ''--no-messages'']"

definition git_result :: "string list \<Rightarrow> git_reply \<Rightarrow> string res" where
  "git_result arguments r = (case r of
     GitUnavailable \<Rightarrow>
       Inl (QueueTreeError ''queue Git {} verifier unavailable'' [git_stage (hd arguments)])
   | GitLimit message \<Rightarrow> Inl (QueueTreeError message [])
   | GitExit st stderr_bytes out \<Rightarrow>
       if MAX_OUTPUT < stderr_bytes + length out
       then Inl (QueueTreeError ''queue Git output exceeds its byte budget'' [])
       else if \<not> list_all (\<lambda>c. ord c < 128) out
       then Inl (QueueTreeError ''queue Git object verifier failed within its budget'' [])
       else if st \<noteq> 0 then
         if st = 1 \<and> take 4 arguments = merge_tree_args \<and> stderr_bytes = 0 \<and> conflict_output out
         then Inl MergeConflict
         else Inl (QueueTreeError ''queue Git {} failed; no queue tree proof''
                [git_stage (hd arguments)])
       else Inr out)"

definition git_effect :: "string list \<Rightarrow> git_reply api" where
  "git_effect arguments w s =
     (Inr (git_process w (trace s) arguments), s\<lparr>trace := GitRun arguments # trace s\<rparr>)"

definition queue_git :: "rat \<Rightarrow> string list \<Rightarrow> string api" where
  "queue_git limit arguments =
     bindI now (\<lambda>t.
     if limit \<le> t
     then raiseI (QueueTreeError ''queue tree proof exceeded its time budget'' [])
     else bindI (git_effect arguments) (\<lambda>r. liftI (git_result arguments r)))"

definition fetch_args :: "string \<Rightarrow> string list \<Rightarrow> string list" where
  "fetch_args repository revisions =
     [''fetch'', ''--quiet'', ''--no-tags'', ''--no-write-fetch-head'', ''--no-recurse-submodules'',
      ''--no-filter'', ''--no-auto-maintenance'',
      ''https://github.com/'' @ repository @ ''.git''] @ revisions"

section \<open>The proof\<close>

definition check_identity :: "rat \<Rightarrow> string \<Rightarrow> unit api" where
  "check_identity limit commit =
     bindI (queue_git limit [''rev-parse'', ''--verify'', commit @ ''^{commit}'']) (\<lambda>out.
     requireI (py_strip out = commit)
       (QueueTreeError ''queue commit identity differs from requested object'' []))"

text \<open>One source: \<open>None\<close> for a proved conflict, and whether its clean merge has the tree.\<close>

definition merged_tree :: "rat \<Rightarrow> string \<Rightarrow> string \<Rightarrow> string option api" where
  "merged_tree limit base source =
     catchI (bindI (queue_git limit (merge_tree_args @ [base, source])) (\<lambda>merged. retI (Some merged)))
       (\<lambda>e. if e = MergeConflict then retI None else raiseI e)"

definition source_match :: "rat \<Rightarrow> string \<Rightarrow> string \<Rightarrow> string \<Rightarrow> bool api" where
  "source_match limit base actual source =
     bindI (queue_git limit [''merge-base'', ''--all'', base, source]) (\<lambda>out.
     if length (text_lines out) \<noteq> 1 \<or> \<not> is_sha (hd (text_lines out))
     then raiseI (QueueTreeError ''queue inputs lack one unambiguous merge base'' [])
     else
     bindI (merged_tree limit base source) (\<lambda>r. case r of
       None \<Rightarrow> retI False
     | Some merged \<Rightarrow>
         if \<not> endswith merged [nul] \<or> \<not> is_sha (butlast merged)
         then raiseI (QueueTreeError
                ''queue clean merge did not produce one immutable tree'' [])
         else retI (butlast merged = actual)))"

definition prove_candidate ::
  "rat \<Rightarrow> string \<Rightarrow> string \<Rightarrow> string list \<Rightarrow> string \<Rightarrow> string api" where
  "prove_candidate limit repository base sources candidate =
     (let revisions = unique (base # sources @ [candidate]) in
      bindI (queue_git limit
        [''init'', ''--bare'', ''--quiet'', ''--template='', ''--object-format=sha1'']) (\<lambda>_.
      bindI (queue_git limit (fetch_args repository revisions)) (\<lambda>_.
      bindI (\<lambda>w s. (Inr (store_shallow w (trace s), store_partial w (trace s)), s)) (\<lambda>p.
      if fst p
      then raiseI (QueueTreeError ''queue object graph is shallow or uses alternates'' [])
      else if snd p then raiseI (QueueTreeError ''queue object graph is partial'' [])
      else
      bindI (mapI (check_identity limit) revisions) (\<lambda>_.
      bindI (queue_git limit ([''fsck'', ''--strict'', ''--no-reflogs'', ''--no-dangling''] @ revisions))
        (\<lambda>_.
      bindI (queue_git limit [''rev-list'', ''--parents'', ''--max-count=1'', candidate]) (\<lambda>out.
      if candidate = base \<or> candidate \<in> set sources \<or> text_words out \<noteq> [candidate, base]
      then raiseI (QueueTreeError
             ''current queue candidate is not the reviewed single-parent squash shape'' [])
      else
      bindI (queue_git limit [''merge-base'', ''--is-ancestor'', base, candidate]) (\<lambda>_.
      bindI (queue_git limit [''rev-parse'', ''--verify'', candidate @ ''^{tree}'']) (\<lambda>tree.
      if \<not> is_sha (py_strip tree)
      then raiseI (QueueTreeError ''queue candidate has no valid immutable tree'' [])
      else retI (py_strip tree))))))))))"

definition matching_queue_sources ::
  "string \<Rightarrow> string \<Rightarrow> string list \<Rightarrow> string \<Rightarrow> rat \<Rightarrow> string set api" where
  "matching_queue_sources repository base sources candidate limit =
     (if repository \<notin> set REPOSITORIES \<or> \<not> (1 \<le> length sources \<and> length sources \<le> MAX_SOURCES)
         \<or> \<not> list_all is_sha (base # sources @ [candidate])
      then raiseI (QueueTreeError
             ''queue tree proof requires bounded allowlisted immutable identities'' [])
      else
      bindI now (\<lambda>t.
      let limit' = min limit (t + MAX_SECONDS) in
      bindI (prove_candidate limit' repository base sources candidate) (\<lambda>actual.
      bindI (mapI (source_match limit' base actual) (unique sources)) (\<lambda>matches.
      retI (set (map fst (filter snd (zip (unique sources) matches))))))))"

definition verify_queue_tree :: "string \<Rightarrow> string \<Rightarrow> string \<Rightarrow> string \<Rightarrow> rat \<Rightarrow> unit api" where
  "verify_queue_tree repository base source candidate limit =
     bindI (matching_queue_sources repository base [source] candidate limit) (\<lambda>matches.
     if matches \<noteq> {source}
     then raiseI (QueueTreeError
            ''queue candidate tree differs from independently merged source'' [])
     else retI ())"

section \<open>What the proof establishes\<close>

lemma queue_git_Inr:
  "queue_git limit arguments w s = (Inr out, t) \<longleftrightarrow>
     monotonic w (trace s) < limit
     \<and> git_result arguments (git_process w (Clock # trace s) arguments) = Inr out
     \<and> t = s\<lparr>trace := GitRun arguments # Clock # trace s\<rparr>"
  by (auto simp: queue_git_def bindI_def now_def git_effect_def not_le split: prod.splits sum.splits)

text \<open>Objects that do not change: a Git command answers the same throughout the proof.\<close>

definition stable_git :: "world \<Rightarrow> (string list \<Rightarrow> git_reply) \<Rightarrow> bool" where
  "stable_git w g \<longleftrightarrow> (\<forall>h. git_process w h = g)"

definition git_out :: "(string list \<Rightarrow> git_reply) \<Rightarrow> string list \<Rightarrow> string res" where
  "git_out g arguments = git_result arguments (g arguments)"

lemma queue_git_out:
  "stable_git w g \<Longrightarrow> queue_git limit arguments w s = (Inr out, t) \<Longrightarrow> git_out g arguments = Inr out"
  by (simp add: queue_git_Inr stable_git_def git_out_def)

lemma queue_git_conflict:
  "stable_git w g \<Longrightarrow> queue_git limit arguments w s = (Inl MergeConflict, t) \<Longrightarrow>
     git_out g arguments = Inl MergeConflict"
  by (auto simp: queue_git_def bindI_def now_def git_effect_def stable_git_def git_out_def
      split: prod.splits sum.splits if_splits)

lemma merged_tree_Inr:
  assumes "stable_git w g" and "merged_tree limit base source w s = (Inr r, t)"
  shows "git_out g (merge_tree_args @ [base, source]) = (case r of None \<Rightarrow> Inl MergeConflict | Some m \<Rightarrow> Inr m)"
  using assms(2) queue_git_out [OF assms(1)] queue_git_conflict [OF assms(1)]
  unfolding merged_tree_def catchI_Inr by (auto simp: bindI_Inr bindI_Inl raiseI_def split: if_splits)

lemma source_match_Inr:
  assumes "stable_git w g" and "source_match limit base actual source w s = (Inr b, t)"
  shows "b \<longleftrightarrow> git_out g (merge_tree_args @ [base, source]) = Inr (actual @ [nul])"
proof -
  obtain r s1 s' where r: "merged_tree limit base source w s1 = (Inr r, s')"
    and c: "(case r of None \<Rightarrow> retI False
      | Some merged \<Rightarrow>
         if \<not> endswith merged [nul] \<or> \<not> is_sha (butlast merged)
         then raiseI (QueueTreeError ''queue clean merge did not produce one immutable tree'' [])
         else retI (butlast merged = actual)) w s' = (Inr b, t)"
  proof -
    from assms(2) [unfolded source_match_def] show thesis by (elim run_elims) (rule that)
  qed
  from c have b: "case r of None \<Rightarrow> b = False | Some m \<Rightarrow> endswith m [nul] \<and> b = (butlast m = actual)"
    by (cases r) (auto split: if_splits)
  show ?thesis
  proof (cases r)
    case None
    with b merged_tree_Inr [OF assms(1) r] show ?thesis by simp
  next
    case (Some m)
    with b have "endswith m [nul]" "b = (butlast m = actual)" by auto
    then have "b \<longleftrightarrow> m = actual @ [nul]" by (cases m rule: rev_cases) (auto simp: endswith_def)
    with Some merged_tree_Inr [OF assms(1) r] show ?thesis by simp
  qed
qed

lemma prove_candidate_Inr:
  assumes "stable_git w g" and "prove_candidate limit repository base sources candidate w s = (Inr actual, t)"
  shows "is_sha actual \<and> candidate \<noteq> base \<and> candidate \<notin> set sources
    \<and> (\<exists>out. git_out g [''rev-list'', ''--parents'', ''--max-count=1'', candidate] = Inr out
         \<and> text_words out = [candidate, base])
    \<and> (\<exists>out. git_out g [''rev-parse'', ''--verify'', candidate @ ''^{tree}''] = Inr out
         \<and> py_strip out = actual)"
proof -
  obtain parents tree s1 s2 s3 s4 where
    "queue_git limit [''rev-list'', ''--parents'', ''--max-count=1'', candidate] w s1 = (Inr parents, s2)"
    "\<not> (candidate = base \<or> candidate \<in> set sources \<or> text_words parents \<noteq> [candidate, base])"
    "queue_git limit [''rev-parse'', ''--verify'', candidate @ ''^{tree}''] w s3 = (Inr tree, s4)"
    "\<not> \<not> is_sha (py_strip tree)" "py_strip tree = actual"
  proof -
    from assms(2) [unfolded prove_candidate_def Let_def] show thesis
      by (elim run_elims) (rule that)
  qed
  with queue_git_out [OF assms(1)] show ?thesis by auto
qed

lemma sources_filter:
  assumes "list_all2 (\<lambda>x b. b \<longleftrightarrow> P x) xs bs"
  shows "set (map fst (filter snd (zip xs bs))) = {x \<in> set xs. P x}"
  using assms by (induction rule: list_all2_induct) auto

text \<open>
  C13. The queue proof is exact. When it succeeds, the candidate has the base as its only parent,
  and its matches are exactly the sources whose clean merge with the base has the candidate's tree.
\<close>

theorem queue_sources_exact:
  assumes "stable_git w g"
    and "matching_queue_sources repository base sources candidate limit w s = (Inr matches, t)"
  shows "\<exists>out tree. git_out g [''rev-list'', ''--parents'', ''--max-count=1'', candidate] = Inr out
     \<and> text_words out = [candidate, base]
     \<and> git_out g [''rev-parse'', ''--verify'', candidate @ ''^{tree}''] = Inr tree
     \<and> is_sha (py_strip tree)
     \<and> matches = {source \<in> set sources.
          git_out g (merge_tree_args @ [base, source]) = Inr (py_strip tree @ [nul])}"
proof -
  obtain limit' actual bs s1 s2 s3 where
    p: "prove_candidate limit' repository base sources candidate w s1 = (Inr actual, s2)"
    and m: "mapI (source_match limit' base actual) (unique sources) w s2 = (Inr bs, s3)"
    and matches: "set (map fst (filter snd (zip (unique sources) bs))) = matches"
  proof -
    from assms(2) [unfolded matching_queue_sources_def Let_def] show thesis
      by (elim run_elims) (rule that)
  qed
  have "list_all2 (\<lambda>x b. b \<longleftrightarrow> git_out g (merge_tree_args @ [base, x]) = Inr (actual @ [nul]))
      (unique sources) bs"
    using mapI_all2 [OF m] by (rule list_all2_mono) (auto dest: source_match_Inr [OF assms(1)])
  from sources_filter [OF this] matches prove_candidate_Inr [OF assms(1) p] show ?thesis by auto
qed

text \<open>A world in which nothing answers, and Git objects whose one source merges cleanly.\<close>

definition quiet_world :: world where
  "quiet_world =
     \<lparr>answer = (\<lambda>_ _ _ _. TransportError), artifact_answer = (\<lambda>_ _ _. ArtifactTransport),
      url_answer = (\<lambda>_ _. TransportError), urlparse = (\<lambda>_. ([], [], [], [])), monotonic = (\<lambda>_. 0),
      git_process = (\<lambda>_ _. GitUnavailable), store_shallow = (\<lambda>_. False),
      store_partial = (\<lambda>_. False), decode_json = (\<lambda>_. None), fromisoformat = (\<lambda>_. None),
      json_objects = (\<lambda>_. ([], None)), sha256_hex = (\<lambda>s. s), utc_now = (\<lambda>_. 0),
      zip_members = (\<lambda>_. None)\<rparr>"

definition sha_of :: "char \<Rightarrow> string" where "sha_of c = replicate 40 c"

definition sample_git :: "string list \<Rightarrow> git_reply" where
  "sample_git arguments = GitExit 0 0
     (if hd arguments = ''rev-parse'' then
        (if endswith (arguments ! 2) ''^{tree}'' then sha_of CHR ''d'' else take 40 (arguments ! 2))
        @ [newline]
      else if hd arguments = ''rev-list'' then sha_of CHR ''c'' @ '' '' @ sha_of CHR ''a'' @ [newline]
      else if hd arguments = ''merge-base'' then sha_of CHR ''a'' @ [newline]
      else if hd arguments = ''merge-tree'' then sha_of CHR ''d'' @ [nul]
      else [])"

definition sample_client :: client where
  "sample_client = \<lparr>api_repository = ''Strukturpiloten/boxferry'', deadline = 480, requests = 0, trace = []\<rparr>"

lemma sha_of_eq [simp]: "sha_of c = sha_of d \<longleftrightarrow> c = d"
  by (simp add: sha_of_def)

lemma sha_of_sha [simp]: "is_sha (sha_of c) = is_hex c"
  by (simp add: sha_of_def)

text \<open>What the sample objects answer, command by command.\<close>

definition sample_commits :: "string list" where
  "sample_commits = [sha_of CHR ''a'', sha_of CHR ''b'', sha_of CHR ''c'']"

lemma sample_git_out:
  "git_result [''rev-parse'', ''--verify'', sha_of CHR ''a'' @ ''^{commit}'']
     (sample_git [''rev-parse'', ''--verify'', sha_of CHR ''a'' @ ''^{commit}'']) = Inr (sha_of CHR ''a'' @ [newline])"
  "git_result [''rev-parse'', ''--verify'', sha_of CHR ''b'' @ ''^{commit}'']
     (sample_git [''rev-parse'', ''--verify'', sha_of CHR ''b'' @ ''^{commit}'']) = Inr (sha_of CHR ''b'' @ [newline])"
  "git_result [''rev-parse'', ''--verify'', sha_of CHR ''c'' @ ''^{commit}'']
     (sample_git [''rev-parse'', ''--verify'', sha_of CHR ''c'' @ ''^{commit}'']) = Inr (sha_of CHR ''c'' @ [newline])"
  "git_result [''rev-parse'', ''--verify'', sha_of CHR ''c'' @ ''^{tree}'']
     (sample_git [''rev-parse'', ''--verify'', sha_of CHR ''c'' @ ''^{tree}'']) = Inr (sha_of CHR ''d'' @ [newline])"
  "git_result [''merge-base'', ''--all'', sha_of CHR ''a'', sha_of CHR ''b'']
     (sample_git [''merge-base'', ''--all'', sha_of CHR ''a'', sha_of CHR ''b'']) = Inr (sha_of CHR ''a'' @ [newline])"
  "git_result [''rev-list'', ''--parents'', ''--max-count=1'', sha_of CHR ''c'']
     (sample_git [''rev-list'', ''--parents'', ''--max-count=1'', sha_of CHR ''c''])
     = Inr (sha_of CHR ''c'' @ '' '' @ sha_of CHR ''a'' @ [newline])"
  "git_result [''merge-tree'', ''--write-tree'', ''-z'', ''--no-messages'', sha_of CHR ''a'', sha_of CHR ''b'']
     (sample_git [''merge-tree'', ''--write-tree'', ''-z'', ''--no-messages'', sha_of CHR ''a'', sha_of CHR ''b''])
     = Inr (sha_of CHR ''d'' @ [nul])"
  by code_simp+

lemma sample_git_silent:
  "hd args \<in> {''init'', ''fetch'', ''fsck''} \<Longrightarrow> git_result args (sample_git args) = Inr []"
  "git_result [''merge-base'', ''--is-ancestor'', sha_of CHR ''a'', sha_of CHR ''c'']
     (sample_git [''merge-base'', ''--is-ancestor'', sha_of CHR ''a'', sha_of CHR ''c'']) = Inr (sha_of CHR ''a'' @ [newline])"
proof -
  show "hd args \<in> {''init'', ''fetch'', ''fsck''} \<Longrightarrow> git_result args (sample_git args) = Inr []"
    by (auto simp: git_result_def sample_git_def)
  show "git_result [''merge-base'', ''--is-ancestor'', sha_of CHR ''a'', sha_of CHR ''c'']
     (sample_git [''merge-base'', ''--is-ancestor'', sha_of CHR ''a'', sha_of CHR ''c'']) = Inr (sha_of CHR ''a'' @ [newline])"
    by code_simp
qed

lemma sample_texts:
  "py_strip (sha_of CHR ''a'' @ [newline]) = sha_of CHR ''a''"
  "py_strip (sha_of CHR ''b'' @ [newline]) = sha_of CHR ''b''"
  "py_strip (sha_of CHR ''c'' @ [newline]) = sha_of CHR ''c''"
  "py_strip (sha_of CHR ''d'' @ [newline]) = sha_of CHR ''d''"
  "text_lines (sha_of CHR ''a'' @ [newline]) = [sha_of CHR ''a'']"
  "text_words (sha_of CHR ''c'' @ CHR '' '' # sha_of CHR ''a'' @ [newline]) = [sha_of CHR ''c'', sha_of CHR ''a'']"
  by code_simp+

lemma sample_hex: "is_hex CHR ''a''" "is_hex CHR ''b''" "is_hex CHR ''c''" "is_hex CHR ''d''"
  by code_simp+

text \<open>One Git command in the sample world.\<close>

definition sample_world :: world where
  "sample_world = quiet_world\<lparr>git_process := (\<lambda>_. sample_git)\<rparr>"

lemma sample_fields:
  "monotonic sample_world h = 0" "store_shallow sample_world h = False"
  "store_partial sample_world h = False"
  by (simp_all add: sample_world_def quiet_world_def)

lemma sample_queue_git:
  assumes "git_result args (sample_git args) = Inr out" and "0 < limit"
  shows "queue_git limit args sample_world s = (Inr out, s\<lparr>trace := GitRun args # Clock # trace s\<rparr>)"
  using assms by (simp add: queue_git_Inr sample_world_def quiet_world_def)

lemma sample_identity:
  assumes "git_result [''rev-parse'', ''--verify'', commit @ ''^{commit}'']
      (sample_git [''rev-parse'', ''--verify'', commit @ ''^{commit}'']) = Inr out"
    and "py_strip out = commit" and "0 < limit"
  shows "\<exists>t. check_identity limit commit sample_world s = (Inr (), t)"
  using sample_queue_git [OF assms(1,3)] assms(2) by (simp add: check_identity_def)

theorem queue_sources_exact_witness:
  "\<exists>t. matching_queue_sources ''Strukturpiloten/boxferry'' (sha_of CHR ''a'') [sha_of CHR ''b'']
      (sha_of CHR ''c'') 450 sample_world sample_client = (Inr {sha_of CHR ''b''}, t)
   \<and> git_out sample_git (merge_tree_args @ [sha_of CHR ''a'', sha_of CHR ''b''])
       = Inr (sha_of CHR ''d'' @ [nul])"
proof -
  have "\<exists>t. matching_queue_sources ''Strukturpiloten/boxferry'' (sha_of CHR ''a'') [sha_of CHR ''b'']
      (sha_of CHR ''c'') 450 sample_world sample_client = (Inr {sha_of CHR ''b''}, t)"
    by (simp add: matching_queue_sources_def prove_candidate_def check_identity_def source_match_def
        merged_tree_def merge_tree_args_def sample_queue_git sample_git_out sample_git_silent
        sample_texts sample_hex unique_def Let_def REPOSITORIES_def MAX_SOURCES_def MAX_SECONDS_def
        fetch_args_def endswith_def sample_fields now_def requireI_def del: set_filter cong: run_congs)
  then obtain t where run: "matching_queue_sources ''Strukturpiloten/boxferry'' (sha_of CHR ''a'')
      [sha_of CHR ''b''] (sha_of CHR ''c'') 450 sample_world sample_client = (Inr {sha_of CHR ''b''}, t)" ..
  have "stable_git sample_world sample_git" by (simp add: stable_git_def sample_world_def)
  from queue_sources_exact [OF this run] sample_git_out(4) sample_texts(4)
  have "git_out sample_git (merge_tree_args @ [sha_of CHR ''a'', sha_of CHR ''b'']) = Inr (sha_of CHR ''d'' @ [nul])"
    by (auto simp: git_out_def)
  with run show ?thesis by blast
qed

section \<open>Conflict output\<close>

definition render_stage :: "string \<times> string \<times> string \<times> string \<Rightarrow> string" where
  "render_stage e = (case e of (mode, sha, stage, path) \<Rightarrow>
     mode @ '' '' @ sha @ '' '' @ stage @ [CHR 0x09] @ path)"

definition stage_ok :: "string \<times> string \<times> string \<times> string \<Rightarrow> bool" where
  "stage_ok e = (case e of (mode, sha, stage, path) \<Rightarrow>
     mode \<in> {''100644'', ''100755'', ''120000'', ''160000''} \<and> is_sha sha
     \<and> stage \<in> {''1'', ''2'', ''3''} \<and> path \<noteq> [] \<and> nul \<notin> set path)"

lemma sha_plain: "is_sha s \<Longrightarrow> \<not> is_hex c \<Longrightarrow> c \<notin> set s"
  by (auto simp: is_sha_def list_all_iff)

lemma upto_char:
  "c \<notin> set m \<Longrightarrow> takeWhile (\<lambda>x. x \<noteq> c) (m @ c # p) = m"
  "c \<notin> set m \<Longrightarrow> dropWhile (\<lambda>x. x \<noteq> c) (m @ c # p) = c # p"
  by (induction m) auto

lemma stage_metadata:
  assumes "stage_ok (mode, sha, stage, path)"
  shows "CHR 0x09 \<notin> set (mode @ '' '' @ sha @ '' '' @ stage)"
    and "split_on CHR '' '' (mode @ '' '' @ sha @ '' '' @ stage) = [mode, sha, stage]"
    and "nul \<notin> set (render_stage (mode, sha, stage, path))"
proof -
  have plain: "CHR 0x09 \<notin> set sha" "CHR '' '' \<notin> set sha" "nul \<notin> set sha"
    using sha_plain [of sha] assms by (simp_all add: stage_ok_def is_hex_def is_digit_def ord_def nul_def)
  have m: "CHR '' '' \<notin> set mode" "CHR '' '' \<notin> set stage" "CHR 0x09 \<notin> set mode \<union> set stage"
    "nul \<notin> set mode \<union> set stage \<union> set path"
    using assms by (auto simp: stage_ok_def nul_def)
  show "CHR 0x09 \<notin> set (mode @ '' '' @ sha @ '' '' @ stage)" using plain m by auto
  show "split_on CHR '' '' (mode @ '' '' @ sha @ '' '' @ stage) = [mode, sha, stage]"
    using plain m by (simp add: split_on_append_sep split_on_plain)
  show "nul \<notin> set (render_stage (mode, sha, stage, path))"
    using plain m by (auto simp: render_stage_def nul_def)
qed

lemma conflict_entry_render:
  assumes "stage_ok (mode, sha, stage, path)"
  shows "conflict_entry (render_stage (mode, sha, stage, path)) = Some (hd stage, path)"
proof -
  let ?m = "mode @ '' '' @ sha @ '' '' @ stage"
  have "takeWhile (\<lambda>c. c \<noteq> CHR 0x09) (?m @ CHR 0x09 # path) = ?m"
    "dropWhile (\<lambda>c. c \<noteq> CHR 0x09) (?m @ CHR 0x09 # path) = CHR 0x09 # path"
    using upto_char [OF stage_metadata(1) [OF assms]] by simp_all
  moreover have "render_stage (mode, sha, stage, path) = ?m @ CHR 0x09 # path" by (simp add: render_stage_def)
  moreover have "last ?m = hd stage" using assms by (auto simp: stage_ok_def)
  ultimately show ?thesis
    using stage_metadata(2) [OF assms] assms by (auto simp: conflict_entry_def stage_ok_def Let_def)
qed

lemma conflict_entry_Some:
  assumes "conflict_entry entry = Some (c, path)" and "nul \<notin> set entry"
  shows "\<exists>mode sha. stage_ok (mode, sha, [c], path) \<and> entry = render_stage (mode, sha, [c], path)"
proof -
  define metadata where "metadata = takeWhile (\<lambda>c. c \<noteq> CHR 0x09) entry"
  define rest where "rest = dropWhile (\<lambda>c. c \<noteq> CHR 0x09) entry"
  from assms(1) obtain mode sha stage where
    split: "split_on CHR '' '' metadata = [mode, sha, stage]" and rest: "rest \<noteq> []" "tl rest \<noteq> []" "path = tl rest"
    and ok: "mode \<in> {''100644'', ''100755'', ''120000'', ''160000''}" "is_sha sha" "stage \<in> {''1'', ''2'', ''3''}"
    and c: "c = last metadata"
    by (auto simp: conflict_entry_def Let_def metadata_def [symmetric] rest_def [symmetric]
        split: if_splits list.splits)
  from join_split_on [of "CHR '' ''" metadata] split have m: "metadata = mode @ '' '' @ sha @ '' '' @ stage" by simp
  have "hd rest = CHR 0x09" using rest(1) hd_dropWhile [of "\<lambda>c. c \<noteq> CHR 0x09" entry] by (auto simp: rest_def)
  with rest have "rest = CHR 0x09 # path" by (cases rest) auto
  moreover have "entry = metadata @ rest" by (simp add: metadata_def rest_def)
  moreover have "stage = [c]" using ok(3) c m by auto
  ultimately have "entry = render_stage (mode, sha, [c], path)" using m by (simp add: render_stage_def)
  with ok rest \<open>stage = [c]\<close> assms(2) show ?thesis by (auto simp: stage_ok_def render_stage_def)
qed

definition render_conflict :: "string \<Rightarrow> (string \<times> string \<times> string \<times> string) list \<Rightarrow> string" where
  "render_conflict tree es = concat (map (\<lambda>f. f @ [nul]) (tree # map render_stage es))"

definition stage_key :: "string \<times> string \<times> string \<times> string \<Rightarrow> string \<times> string" where
  "stage_key e = (case e of (mode, sha, stage, path) \<Rightarrow> (stage, path))"

lemma stage_key_stage: "stage_ok e \<Longrightarrow> fst (stage_key e) = [hd (fst (stage_key e))]"
  by (cases e) (auto simp: stage_ok_def stage_key_def)

lemma butlast_split_terminated:
  assumes "split_on nul out = fs @ [[]]"
  shows "out = concat (map (\<lambda>f. f @ [nul]) fs)"
proof -
  have "join [c] (fs @ [[]]) = concat (map (\<lambda>f. f @ [c]) fs)" for c :: char
  proof (induction fs)
    case (Cons f fs)
    then show ?case by (cases fs) auto
  qed simp
  with join_split_on [of nul out] assms show ?thesis by simp
qed

lemma conflict_entries:
  assumes "list_all (\<lambda>f. nul \<notin> set f) fs" and "None \<notin> set (map conflict_entry fs)"
  shows "\<exists>es. list_all stage_ok es \<and> fs = map render_stage es
    \<and> map conflict_entry fs = map (\<lambda>e. Some (hd (fst (stage_key e)), snd (stage_key e))) es"
  using assms
proof (induction fs)
  case (Cons f fs)
  then obtain c path where "conflict_entry f = Some (c, path)" by (cases "conflict_entry f") auto
  with Cons.prems conflict_entry_Some [OF this] obtain mode sha where
    "stage_ok (mode, sha, [c], path)" "f = render_stage (mode, sha, [c], path)" by auto
  moreover from Cons obtain es where "list_all stage_ok es" "fs = map render_stage es"
    "map conflict_entry fs = map (\<lambda>e. Some (hd (fst (stage_key e)), snd (stage_key e))) es" by auto
  ultimately show ?case using \<open>conflict_entry f = Some (c, path)\<close>
    by (intro exI [of _ "(mode, sha, [c], path) # es"]) (auto simp: stage_key_def)
qed simp

text \<open>
  A proved conflict is recognised exactly: the output is a tree followed by at least one
  unmerged entry of a known mode, an object name and a stage, with no stage of a path repeated.
\<close>

theorem conflict_output_iff:
  "conflict_output out \<longleftrightarrow>
     (\<exists>tree es. out = render_conflict tree es \<and> is_sha tree \<and> es \<noteq> []
        \<and> list_all stage_ok es \<and> distinct (map stage_key es))"
proof
  assume c: "conflict_output out"
  define fields where "fields = split_on nul out"
  define entries where "entries = butlast (tl fields)"
  from c have len: "3 \<le> length fields" and last: "last fields = []" and tree: "is_sha (hd fields)"
    and es: "None \<notin> set (map conflict_entry entries)" "distinct (map conflict_entry entries)"
    by (auto simp: conflict_output_def Let_def fields_def entries_def not_less split: if_splits)
  have f: "fields = (hd fields # entries) @ [[]]"
  proof -
    from len obtain a b fs where "fields = a # b # fs"
      by (metis One_nat_def Suc_1 length_Cons list.size(3) neq_Nil_conv not_less_eq_eq numeral_3_eq_3 zero_le)
    then have "fields \<noteq> []" "tl fields \<noteq> []" by simp_all
    moreover from this last have "last (tl fields) = []" by (simp add: last_tl)
    ultimately show ?thesis by (metis append_Cons append_butlast_last_id entries_def list.collapse)
  qed
  have "list_all (\<lambda>f. nul \<notin> set f) entries"
    using split_on_no_sep [of _ nul out] unfolding list_all_iff entries_def fields_def
    by (metis in_set_butlastD list.set_sel(2) split_on_nonempty tl_Nil)
  from conflict_entries [OF this es(1)] obtain es' where es': "list_all stage_ok es'"
    "entries = map render_stage es'"
    "map conflict_entry entries = map (\<lambda>e. Some (hd (fst (stage_key e)), snd (stage_key e))) es'" by blast
  have "distinct (map stage_key es')"
    using es(2) unfolding es'(3) by (auto simp: distinct_map inj_on_def)
  moreover have "es' \<noteq> []" using len f es'(2) arg_cong [OF f, of length] by auto
  moreover have "out = render_conflict (hd fields) es'"
    using butlast_split_terminated [OF f [unfolded fields_def]] es'(2)
    by (simp add: render_conflict_def fields_def)
  ultimately show "\<exists>tree es. out = render_conflict tree es \<and> is_sha tree \<and> es \<noteq> []
      \<and> list_all stage_ok es \<and> distinct (map stage_key es)"
    using tree es'(1) by blast
next
  assume "\<exists>tree es. out = render_conflict tree es \<and> is_sha tree \<and> es \<noteq> []
    \<and> list_all stage_ok es \<and> distinct (map stage_key es)"
  then obtain tree es where out: "out = render_conflict tree es" and tree: "is_sha tree" and ne: "es \<noteq> []"
    and ok: "list_all stage_ok es" and d: "distinct (map stage_key es)" by blast
  have "nul \<notin> set tree" using tree by (intro sha_plain) (auto simp: is_hex_def is_digit_def ord_def nul_def)
  moreover have "nul \<notin> set (render_stage e)" if "e \<in> set es" for e
    using ok that stage_metadata(3) by (cases e) (auto simp: list_all_iff)
  ultimately have "list_all (\<lambda>f. nul \<notin> set f) (tree # map render_stage es)" by (auto simp: list_all_iff)
  from split_on_terminated [OF this] out have s: "split_on nul out = (tree # map render_stage es) @ [[]]"
    by (simp add: render_conflict_def)
  have "conflict_entry (render_stage e) = Some (hd (fst (stage_key e)), snd (stage_key e))" if "e \<in> set es" for e
    using ok that conflict_entry_render by (cases e) (auto simp: list_all_iff stage_key_def)
  then have m: "map conflict_entry (map render_stage es)
      = map (\<lambda>e. Some (hd (fst (stage_key e)), snd (stage_key e))) es" by simp
  have inj: "inj_on (\<lambda>e. Some (hd (fst (stage_key e)), snd (stage_key e))) (set es)"
  proof (rule inj_onI)
    fix x y
    assume xy: "x \<in> set es" "y \<in> set es"
      "Some (hd (fst (stage_key x)), snd (stage_key x)) = Some (hd (fst (stage_key y)), snd (stage_key y))"
    moreover from xy(1,2) ok have "stage_ok x" "stage_ok y" by (simp_all add: list_all_iff)
    ultimately have "stage_key x = stage_key y"
      using stage_key_stage [of x] stage_key_stage [of y] by (simp add: prod_eq_iff)
    with xy d show "x = y" by (auto simp: distinct_map inj_on_def)
  qed
  have "distinct (map conflict_entry (map render_stage es))"
    unfolding m using inj d by (simp add: distinct_map)
  moreover have "None \<notin> set (map conflict_entry (map render_stage es))" unfolding m by auto
  ultimately show "conflict_output out"
    using tree ne by (auto simp: conflict_output_def s Let_def Suc_le_eq)
qed


section \<open>The proof only observes\<close>

lemma observe_queue_git: "keeps observe_step (queue_git limit arguments)"
proof -
  have "keeps observe_step (git_effect arguments)"
    by (rule observe_quiet) (force simp: git_effect_def reads_only_def)
  then show ?thesis unfolding queue_git_def by (intro observe_rules)
qed

lemma observe_prove: "keeps observe_step (prove_candidate limit repository base sources candidate)"
proof -
  have "keeps observe_step (\<lambda>w s. (Inr (store_shallow w (trace s), store_partial w (trace s)), s))"
    by (rule observe_quiet) (simp add: reads_only_def)
  then show ?thesis
    unfolding prove_candidate_def check_identity_def
    by (intro observe_rules observe_queue_git)
qed

lemma observe_matching: "keeps observe_step (matching_queue_sources repository base sources candidate limit)"
  unfolding matching_queue_sources_def source_match_def merged_tree_def
  by (intro observe_rules observe_queue_git observe_prove)

lemma observe_verify: "keeps observe_step (verify_queue_tree repository base source candidate limit)"
  unfolding verify_queue_tree_def by (intro observe_rules observe_matching)

end
