(* ===== verification/Candidate.thy ===== *)
theory Candidate
  imports QueueTree
begin

text \<open>
  The candidate bindings of \<open>eligibility.py\<close>: the identity of a pull request, the candidate it
  has at its live target, the queue snapshot and the candidate of a one-entry merge queue. Every
  binding reads its evidence before and after the proof. The log-only resolution diagnostics of
  the module change no result and are left out.
\<close>

section \<open>Refs and ancestry\<close>

definition bad_branch :: "string \<Rightarrow> bool" where
  "bad_branch branch = (branch = [] \<or> startswith branch ''/'' \<or> has_line_break branch)"

definition target_revision :: "string \<Rightarrow> string api" where
  "target_revision branch =
     (if bad_branch branch
      then raiseI (EligibilityError ''PR target branch identity is malformed'' [])
      else
      bindI (get (''git/ref/heads/'' @ quote [] branch)) (\<lambda>v.
      let target = dget v ''object'' in
      if dget v ''ref'' \<noteq> JStr (''refs/heads/'' @ branch) \<or> \<not> is_obj target
         \<or> dget (dict_of target) ''type'' \<noteq> JStr ''commit''
      then raiseI (EligibilityError
             ''target ref does not identify the expected branch commit'' [])
      else liftI (revision (dget (dict_of target) ''sha''))))"

definition require_ancestor :: "string \<Rightarrow> string \<Rightarrow> unit api" where
  "require_ancestor base candidate =
     bindI (get (''compare/'' @ base @ ''...'' @ candidate)) (\<lambda>comparison.
     bindI (liftI (in_strings (dget comparison ''status'') [''ahead'', ''identical''])) (\<lambda>ok.
     let merge_base = dget comparison ''merge_base_commit'' in
     if \<not> ok \<or> \<not> is_obj merge_base \<or> dget (dict_of merge_base) ''sha'' \<noteq> JStr base
     then raiseI (EligibilityError ''live target/source is not an ancestor of the synthetic candidate; retry after recalculation'' [])
     else retI ()))"

section \<open>Pull requests\<close>

text \<open>What a pending or closed pull request still identifies.\<close>

fun unready :: "exn \<Rightarrow> ((string \<times> string \<times> string \<times> string) \<times> string option) option" where
  "unready (CandidateComputationPending n identity merge) = Some (identity, merge)"
| "unready (ClosedPullRequest n identity merge) = Some (identity, merge)"
| "unready _ = None"

definition nonempty_str :: "json \<Rightarrow> bool" where
  "nonempty_str v = (is_str v \<and> str_of v \<noteq> [])"

definition optional_revision :: "json \<Rightarrow> string option res" where
  "optional_revision v =
     (if v = JNull then Inr None else bindR (revision v) (\<lambda>s. Inr (Some s)))"

text \<open>The author of a pull request: login and account type.\<close>

definition author_ok :: "json \<Rightarrow> bool" where
  "author_ok actor = (is_obj actor \<and> nonempty_str (dget (dict_of actor) ''login'')
     \<and> is_str (dget (dict_of actor) ''type'')
     \<and> str_of (dget (dict_of actor) ''type'') \<in> {''User'', ''Bot''})"

definition author :: "json \<Rightarrow> string \<times> string" where
  "author actor = (str_of (dget (dict_of actor) ''login''), str_of (dget (dict_of actor) ''type''))"

definition pr_state_ok :: "dict \<Rightarrow> bool" where
  "pr_state_ok pr = (is_str (dget pr ''state'') \<and> str_of (dget pr ''state'') \<in> {''open'', ''closed''})"

definition in_repository :: "json \<Rightarrow> string \<Rightarrow> bool" where
  "in_repository v repository = (is_obj v \<and> is_obj (dget (dict_of v) ''repo'')
     \<and> dget (dict_of (dget (dict_of v) ''repo'')) ''full_name'' = JStr repository)"

definition pr_identity ::
  "dict \<Rightarrow> string \<Rightarrow> int \<Rightarrow> string option \<Rightarrow> (string \<times> string \<times> string \<times> string \<times> string) res" where
  "pr_identity pr repository number expected_target =
     (let base = dget pr ''base''; head = dget pr ''head''; actor = dget pr ''user'';
          branch = dget (dict_of base) ''ref'' in
      if \<not> py_eq (dget pr ''number'') (JInt number) \<or> \<not> pr_state_ok pr
         \<or> \<not> is_obj base \<or> \<not> is_obj head \<or> \<not> in_repository base repository
      then Inl (EligibilityError ''PR is closed, foreign or malformed'' [])
      else if \<not> is_str branch \<or> bad_branch (str_of branch)
      then Inl (EligibilityError ''PR has no authoritative target branch ref'' [])
      else if expected_target \<noteq> None \<and> expected_target \<noteq> Some (str_of branch)
      then Inl (EligibilityError
             ''queued PR targets a different branch from the reviewed queue'' [])
      else
      bindR (revision (dget (dict_of head) ''sha'')) (\<lambda>source.
      if \<not> author_ok actor
      then Inl (EligibilityError ''PR author metadata is malformed'' [])
      else
      bindR (optional_revision (dget pr ''merge_commit_sha'')) (\<lambda>merge.
      let (login, kind) = author actor;
          identity = (str_of branch, source, login, kind);
          mergeable = dget pr ''mergeable'' in
      if dget pr ''state'' = JStr ''closed'' then
        (if \<not> has_key pr ''mergeable'' \<or> (mergeable \<noteq> JNull \<and> \<not> is_bool mergeable)
         then Inl (EligibilityError ''closed PR mergeability metadata is malformed'' [])
         else Inl (ClosedPullRequest number identity merge))
      else if has_key pr ''mergeable'' \<and> mergeable = JNull
      then Inl (CandidateComputationPending number identity merge)
      else (case merge of
        Some m \<Rightarrow>
          if mergeable \<noteq> JBool True
          then Inl (EligibilityError
                 ''PR is conflicted or its mergeability/candidate metadata is malformed'' [])
          else Inr (str_of branch, m, source, login, kind)
      | None \<Rightarrow> Inl (EligibilityError
                 ''PR is conflicted or its mergeability/candidate metadata is malformed'' [])))))"

definition read_identity ::
  "int \<Rightarrow> string option \<Rightarrow> (string \<times> string \<times> string \<times> string \<times> string) api" where
  "read_identity number expected_target =
     bindI (get (''pulls/'' @ show_int number)) (\<lambda>pr.
     bindI (getI api_repository) (\<lambda>repository.
     liftI (pr_identity pr repository number expected_target)))"

text \<open>The second reading: an unready pull request is bound to the first reading before it is raised.\<close>

definition reread_identity ::
  "int \<Rightarrow> string option \<Rightarrow> string \<Rightarrow> string \<times> string \<times> string \<times> string \<times> string
   \<Rightarrow> (string \<times> string \<times> string \<times> string \<times> string) api" where
  "reread_identity number expected_target base identity =
     (case identity of (branch, merge, source, login, kind) \<Rightarrow>
      catchI (read_identity number expected_target) (\<lambda>e. case unready e of
          None \<Rightarrow> raiseI e
        | Some (pending, pending_merge) \<Rightarrow>
            if pending \<noteq> (branch, source, login, kind) \<or> pending_merge \<notin> {None, Some merge}
            then raiseI (EligibilityError ''PR source or target changed during verification'' [])
            else
            bindI (target_revision branch) (\<lambda>live.
            if live \<noteq> base
            then raiseI (EligibilityError ''PR target branch moved during verification'' [])
            else raiseI e)))"

definition pr_candidate :: "int \<Rightarrow> string option \<Rightarrow> candidate api" where
  "pr_candidate number expected_target =
     bindI (read_identity number expected_target) (\<lambda>identity.
     case identity of (branch, merge, source, login, kind) \<Rightarrow>
     bindI (target_revision branch) (\<lambda>base.
     bindI (require_ancestor base merge) (\<lambda>_.
     bindI (require_ancestor source merge) (\<lambda>_.
     bindI (reread_identity number expected_target base identity) (\<lambda>observed.
     if observed \<noteq> identity
     then raiseI (EligibilityError ''PR source or synthetic candidate changed during verification; next event rechecks'' [])
     else
     bindI (target_revision branch) (\<lambda>live.
     if live \<noteq> base
     then raiseI (EligibilityError
            ''PR target branch moved during verification; next event rechecks'' [])
     else retI \<lparr>cand_base = base, cand_head = merge, cand_number = number,
            source_head = source, actor_login = login, actor_type = kind,
            cand_scope = ''pull_request'', cand_title = [], queue_target = []\<rparr>))))))"

section \<open>The queue snapshot\<close>

definition one_entry :: "dict \<Rightarrow> bool" where
  "one_entry rule = (is_obj (dget rule ''parameters'')
     \<and> list_all (\<lambda>key. dget (dict_of (dget rule ''parameters'')) key = JInt 1)
         [''max_entries_to_build'', ''max_entries_to_merge''])"

definition require_single_entry_queue :: "string \<Rightarrow> dict list api" where
  "require_single_entry_queue default_branch =
     bindI (items (''rules/branches/'' @ quote [] default_branch @ ''?per_page=100&page=1''))
       (\<lambda>rules.
     if 100 \<le> length rules
     then raiseI (EligibilityError
            ''effective branch rules may be truncated or exceed their bound'' [])
     else if \<not> list_all (\<lambda>rule. is_str (dget rule ''type'')) rules
     then raiseI (EligibilityError ''effective branch rule metadata is malformed'' [])
     else (case filter (\<lambda>rule. dget rule ''type'' = JStr ''merge_queue'') rules of
         [queue] \<Rightarrow>
           if \<not> one_entry queue
           then raiseI (EligibilityError
                  ''dependency eligibility requires reviewed one-entry queue limits'' [])
           else retI rules
       | _ \<Rightarrow> raiseI (EligibilityError
              ''effective branch rules require exactly one active merge queue'' [])))"

text \<open>The closed vocabulary an error of the queue query is projected to.\<close>

definition known_types :: "string list" where
  "known_types = [''FORBIDDEN'', ''UNAUTHORIZED'', ''UNAUTHENTICATED'', ''NOT_FOUND'',
     ''RATE_LIMITED'', ''UNPROCESSABLE'', ''GRAPHQL_VALIDATION_FAILED'', ''INTERNAL'']"

definition known_codes :: "string list" where
  "known_codes = known_types @ [''undefinedField'', ''argumentNotAccepted'', ''selectionMismatch'',
     ''missingRequiredArguments'', ''variableMismatch'']"

definition error_fields :: "(string list \<times> string) list" where
  "error_fields =
     (let q = [''repository'', ''mergeQueue'']; e = q @ [''entries'']; n = e @ [''nodes''] in
      [([''repository''], ''REPOSITORY''), (q, ''QUEUE''), (e, ''ENTRIES''),
       (e @ [''totalCount''], ''ENTRY_COUNT''), (n, ''ENTRY''),
       (n @ [''baseCommit''], ''ENTRY_BASE''), (n @ [''baseCommit'', ''oid''], ''ENTRY_BASE''),
       (n @ [''headCommit''], ''ENTRY_HEAD''), (n @ [''headCommit'', ''oid''], ''ENTRY_HEAD''),
       (n @ [''pullRequest''], ''SOURCE_PR''), (n @ [''pullRequest'', ''number''], ''SOURCE_PR''),
       (n @ [''pullRequest'', ''headRefOid''], ''SOURCE_PR'')])"

definition known_or :: "string list \<Rightarrow> json \<Rightarrow> string" where
  "known_or known v = (if is_str v \<and> str_of v \<in> set known then str_of v else ''UNKNOWN'')"

definition error_path_ok :: "json list \<Rightarrow> bool" where
  "error_path_ok path = (1 \<le> length path \<and> length path \<le> 8
     \<and> list_all (\<lambda>p. is_str p \<or> (is_int p \<and> 0 \<le> int_of p \<and> int_of p < 100)) path)"

definition error_field :: "json \<Rightarrow> string" where
  "error_field v = (case v of
     JList path \<Rightarrow>
       if error_path_ok path
       then (case map_of error_fields (map str_of (filter is_str path)) of
               Some field \<Rightarrow> field | None \<Rightarrow> ''UNKNOWN'')
       else ''UNKNOWN''
   | _ \<Rightarrow> ''UNKNOWN'')"

definition graphql_error :: "json \<Rightarrow> string" where
  "graphql_error error =
     (let d = dict_of error in
      ''type='' @ known_or known_types (dget d ''type'')
      @ '',code='' @ known_or known_codes (dget (dict_of (dget d ''extensions'')) ''code'')
      @ '',field='' @ error_field (dget d ''path''))"

definition queue_graphql_errors :: "json \<Rightarrow> string" where
  "queue_graphql_errors response =
     (if \<not> is_obj response then ''graphql=INVALID_RESPONSE''
      else let errors = dget (dict_of response) ''errors'' in
        if \<not> is_list errors \<or> list_of errors = [] then ''graphql=INVALID_ERRORS''
        else join ''; '' (map graphql_error (take 8 (list_of errors))
               @ (if 8 < length (list_of errors) then [''additional_errors=OMITTED''] else [])))"

definition queue_query :: string where
  "queue_query =
     ''query($owner:String!,$name:String!,$branch:String!){repository(owner:$owner,name:$name){''
     @ ''mergeQueue(branch:$branch){entries(first:100){totalCount nodes{baseCommit{oid} ''
     @ ''headCommit{oid} pullRequest{number headRefOid}}}}}}''"

text \<open>The nodes of a complete snapshot in the answer to the queue query.\<close>

definition queue_nodes :: "json \<Rightarrow> dict list res" where
  "queue_nodes data =
     (if \<not> is_obj data \<or> has_key (dict_of data) ''errors''
      then Inl (EligibilityError ''authoritative merge queue metadata is unavailable: {}''
             [queue_graphql_errors data])
      else
      let queue = dget (dict_of (dget (dict_of (dget (dict_of data) ''data'')) ''repository''))
                    ''mergeQueue'' in
      if \<not> is_obj queue
      then Inl (EligibilityError ''authoritative merge queue metadata is absent'' [])
      else
      let entries = dget_or (dict_of queue) ''entries'' (JObj []) in
      if \<not> is_obj entries
      then Inl (EligibilityError ''merge queue entry metadata is malformed'' [])
      else
      let nodes = dget_or (dict_of entries) ''nodes'' (JList []);
          total = dget (dict_of entries) ''totalCount'' in
      if \<not> is_int total \<or> \<not> (0 \<le> int_of total \<and> int_of total \<le> 100) \<or> \<not> is_list nodes
         \<or> int (length (list_of nodes)) \<noteq> int_of total \<or> \<not> list_all is_obj (list_of nodes)
      then Inl (EligibilityError
             ''merge queue entry metadata is truncated or exceeds its bound'' [])
      else Inr (map dict_of (list_of nodes)))"

definition queue_entries :: "string \<Rightarrow> dict list api" where
  "queue_entries default_branch =
     bindI (getI api_repository) (\<lambda>repository.
     case split_on CHR ''/'' repository of
       [owner, name] \<Rightarrow>
         bindI (request ''POST'' ''/graphql'' (Some (JObj
           [(''query'', JStr queue_query),
            (''variables'', JObj [(''owner'', JStr owner), (''name'', JStr name),
               (''branch'', JStr default_branch)])]))) (\<lambda>data.
         liftI (queue_nodes data))
     | _ \<Rightarrow> raiseI (ValueError ''too many values to unpack''))"

section \<open>Candidates of the queue\<close>

type_synonym queue_identity = "string \<times> string \<times> string \<times> string"

definition title_ok :: "json \<Rightarrow> bool" where
  "title_ok title = (is_str title \<and> 1 \<le> py_len (str_of title) \<and> py_len (str_of title) \<le> 512
     \<and> \<not> has_line_break (str_of title))"

definition queue_identity_of ::
  "dict \<Rightarrow> string \<Rightarrow> int \<Rightarrow> string \<Rightarrow> bool \<Rightarrow> queue_identity res" where
  "queue_identity_of pr repository number branch allow_conflicted =
     (let base = dget pr ''base''; head = dget pr ''head''; actor = dget pr ''user'';
          title = dget pr ''title''; mergeable = dget pr ''mergeable'' in
      if \<not> py_eq (dget pr ''number'') (JInt number) \<or> \<not> pr_state_ok pr
         \<or> \<not> is_obj base \<or> dget (dict_of base) ''ref'' \<noteq> JStr branch
         \<or> \<not> in_repository base repository \<or> \<not> in_repository head repository
         \<or> \<not> author_ok actor \<or> \<not> title_ok title
      then Inl (EligibilityError
             ''current queue source PR identity/title is foreign or malformed'' [])
      else
      bindR (revision (dget (dict_of head) ''sha'')) (\<lambda>source.
      bindR (optional_revision (dget pr ''merge_commit_sha'')) (\<lambda>merge.
      let (login, kind) = author actor; pending = (branch, source, login, kind) in
      if dget pr ''state'' = JStr ''closed'' then Inl (ClosedPullRequest number pending merge)
      else if has_key pr ''mergeable'' \<and> mergeable = JNull
      then Inl (CandidateComputationPending number pending merge)
      else if mergeable \<noteq> JBool True \<and> \<not> (allow_conflicted \<and> mergeable = JBool False)
      then Inl (EligibilityError
             ''current queue PR mergeability is conflicted or malformed'' [])
      else Inr (source, login, kind, str_of title))))"

definition queue_pr_identity :: "int \<Rightarrow> string \<Rightarrow> bool \<Rightarrow> queue_identity api" where
  "queue_pr_identity number branch allow_conflicted =
     bindI (get (''pulls/'' @ show_int number)) (\<lambda>pr.
     bindI (getI api_repository) (\<lambda>repository.
     liftI (queue_identity_of pr repository number branch allow_conflicted)))"

text \<open>\<open>QueueTargetMoved(before, after, binding)\<close> with the checks of its constructor.\<close>

definition queue_target_moved :: "string \<Rightarrow> string \<Rightarrow> candidate \<Rightarrow> exn" where
  "queue_target_moved before after binding =
     (if \<not> is_sha before \<or> \<not> is_sha after
      then EligibilityError ''authoritative metadata has an invalid commit revision'' []
      else if before = after \<or> cand_scope binding \<noteq> ''merge_group''
      then EligibilityError ''queue movement has no distinct authenticated target binding'' []
      else QueueTargetMoved before after binding)"

definition same_dicts :: "dict list \<Rightarrow> dict list \<Rightarrow> bool" where
  "same_dicts a b = py_eq (JList (map JObj a)) (JList (map JObj b))"

text \<open>Whether a node names the source head, and a built head among the given ones.\<close>

definition node_names :: "dict \<Rightarrow> string \<Rightarrow> string list \<Rightarrow> bool res" where
  "node_names node source heads =
     bindR (attr_get (dget node ''pullRequest'') ''headRefOid'') (\<lambda>ref.
     if ref \<noteq> JStr source then Inr False
     else bindR (attr_get (dget node ''headCommit'') ''oid'') (\<lambda>oid. in_strings oid heads))"

definition unready_binding :: "dict \<Rightarrow> string \<Rightarrow> string \<Rightarrow> string \<Rightarrow> exn \<Rightarrow> queue_identity api" where
  "unready_binding node head default_branch base e = (case unready e of
     None \<Rightarrow> raiseI e
   | Some ((branch, source, login, kind), merge) \<Rightarrow>
       bindI (liftI (node_names node source [head, source])) (\<lambda>ok.
       bindI (if ok then target_revision default_branch else retI []) (\<lambda>live.
       if \<not> ok \<or> live \<noteq> base
       then raiseI (EligibilityError
              ''unready queue PR does not match its exact source binding'' [])
       else raiseI e)))"

definition bind_node ::
  "string \<Rightarrow> string \<Rightarrow> string \<Rightarrow> bool \<Rightarrow> dict \<Rightarrow> (int \<times> queue_identity) api" where
  "bind_node head default_branch base several node =
     bindI (liftI (attr_get (dget node ''pullRequest'') ''number'')) (\<lambda>number.
     if \<not> positive_int number
     then raiseI (EligibilityError ''queue entry has no authoritative source PR'' [])
     else
     bindI (catchI (queue_pr_identity (int_of number) default_branch several)
              (unready_binding node head default_branch base)) (\<lambda>identity.
     bindI (liftI (node_names node (fst identity) [head, fst identity])) (\<lambda>ok.
     if \<not> ok
     then raiseI (EligibilityError ''current queue source head differs from the live PR'' [])
     else retI (int_of number, identity))))"

definition queue_matches ::
  "string \<Rightarrow> string \<Rightarrow> string list \<Rightarrow> rat \<Rightarrow> string set api" where
  "queue_matches base head sources limit =
     bindI (getI api_repository) (\<lambda>repository.
     catchI
       (case sources of
          [source] \<Rightarrow> bindI (verify_queue_tree repository base source head limit) (\<lambda>_. retI {source})
        | _ \<Rightarrow> matching_queue_sources repository base sources head limit)
       (\<lambda>e. case e of
          QueueTreeError m args \<Rightarrow> raiseI (EligibilityError m args)
        | MergeConflict \<Rightarrow> raiseI (EligibilityError ''queue Git clean-merge proved a conflict'' [])
        | _ \<Rightarrow> raiseI e))"

definition reread_identities ::
  "string \<Rightarrow> string set \<Rightarrow> (int \<times> queue_identity) list \<Rightarrow> string \<Rightarrow> unit api" where
  "reread_identities default_branch matches identities message =
     bindI (mapI (\<lambda>(number, identity).
       bindI (queue_pr_identity number default_branch (fst identity \<notin> matches)) (\<lambda>again.
       requireI (again = identity) (EligibilityError message []))) identities) (\<lambda>_. retI ())"

definition reread_queue :: "string \<Rightarrow> dict list \<Rightarrow> dict list \<Rightarrow> unit api" where
  "reread_queue default_branch rules nodes =
     bindI (require_single_entry_queue default_branch) (\<lambda>again.
     if \<not> same_dicts again rules
     then raiseI (EligibilityError ''queue protection changed during verification'' [])
     else
     bindI (queue_entries default_branch) (\<lambda>again.
     if \<not> same_dicts again nodes
     then raiseI (EligibilityError ''queue composition changed during verification'' [])
     else retI ()))"

definition in_time :: "rat \<Rightarrow> exn \<Rightarrow> unit api" where
  "in_time reserve e =
     bindI now (\<lambda>t. bindI (getI deadline) (\<lambda>d. requireI (t < d - reserve) e))"

definition proof_expired :: exn where
  "proof_expired = EligibilityError
     ''queue proof expired during verification; next event rechecks'' []"

definition target_still ::
  "string \<Rightarrow> string \<Rightarrow> string set \<Rightarrow> (int \<times> queue_identity) list \<Rightarrow> dict list \<Rightarrow> dict list
   \<Rightarrow> candidate \<Rightarrow> candidate api" where
  "target_still default_branch base matches identities rules nodes binding =
     bindI (target_revision default_branch) (\<lambda>first_target.
     bindI (reread_queue default_branch rules nodes) (\<lambda>_.
     bindI (in_time 0 proof_expired) (\<lambda>_.
     bindI (target_revision default_branch) (\<lambda>final_target.
     bindI (in_time 0 proof_expired) (\<lambda>_.
     if first_target \<noteq> base \<or> final_target \<noteq> base then
       bindI (reread_identities default_branch matches identities
                ''current queue source changed while verifying target movement'') (\<lambda>_.
       bindI (reread_queue default_branch rules nodes) (\<lambda>_.
       bindI (in_time 0 proof_expired) (\<lambda>_.
       raiseI (queue_target_moved base
                 (if final_target \<noteq> base then final_target else first_target) binding))))
     else retI binding)))))"

definition current_queue_candidate ::
  "string \<Rightarrow> string \<Rightarrow> string \<Rightarrow> dict list \<Rightarrow> dict list \<Rightarrow> dict list \<Rightarrow> candidate api" where
  "current_queue_candidate head default_branch base nodes rules selected =
     (if \<not> (1 \<le> length selected \<and> length selected \<le> MAX_SOURCES)
      then raiseI (EligibilityError
             ''current queue source selection exceeds its object/request budget'' [])
      else
      bindI (mapI (bind_node head default_branch base (1 < length selected)) selected)
        (\<lambda>identities.
      bindI (in_time 30 (EligibilityError
               ''queue tree proof lacks remaining metadata time budget'' [])) (\<lambda>_.
      bindI (getI deadline) (\<lambda>d.
      bindI (queue_matches base head (map (\<lambda>(n, i). fst i) identities) (d - 30)) (\<lambda>matches.
      case filter (\<lambda>(n, i). fst i \<in> matches) identities of
        [(number, (source, login, kind, title))] \<Rightarrow>
          bindI (reread_identities default_branch matches identities
                   ''current queue PR source/author/title changed during verification'') (\<lambda>_.
          target_still default_branch base matches identities rules nodes
            \<lparr>cand_base = base, cand_head = head, cand_number = number, source_head = source,
             actor_login = login, actor_type = kind, cand_scope = ''merge_group'',
             cand_title = title, queue_target = default_branch\<rparr>)
      | _ \<Rightarrow> raiseI (EligibilityError
             ''queue candidate has no unique source; multi-entry groups unsupported'' []))))))"

text \<open>The nodes built on the live target, and those that may be the tested candidate.\<close>

definition built_node :: "string \<Rightarrow> dict \<Rightarrow> bool" where
  "built_node base node =
     (is_obj (dget node ''baseCommit'') \<and> dget (dict_of (dget node ''baseCommit'')) ''oid'' = JStr base
      \<and> is_obj (dget node ''headCommit'') \<and> is_sha_str (dget (dict_of (dget node ''headCommit'')) ''oid''))"

definition node_head :: "dict \<Rightarrow> json" where
  "node_head node = dget (dict_of (dget node ''headCommit'')) ''oid''"

definition current_nodes :: "string \<Rightarrow> dict list \<Rightarrow> dict list" where
  "current_nodes head built =
     (case filter (\<lambda>node. node_head node = JStr head) built of
        [] \<Rightarrow> filter (\<lambda>node. is_obj (dget node ''pullRequest'')
                \<and> py_eq (node_head node) (dget (dict_of (dget node ''pullRequest'')) ''headRefOid''))
                built
      | exact \<Rightarrow> exact)"

text \<open>The tree of a commit.\<close>

definition commit_tree :: "string \<Rightarrow> string api" where
  "commit_tree commit =
     bindI (get (''git/commits/'' @ commit)) (\<lambda>v.
     bindI (liftI (attr_get (dget_or v ''tree'' (JObj [])) ''sha'')) (\<lambda>sha. liftI (revision sha)))"

definition or_empty :: "json \<Rightarrow> json" where
  "or_empty v = (if truthy v then v else JObj [])"

definition fallback_unready :: "dict \<Rightarrow> string \<Rightarrow> string \<Rightarrow> string \<Rightarrow> string \<Rightarrow> exn \<Rightarrow> candidate api" where
  "fallback_unready node oid head default_branch base e = (case unready e of
     None \<Rightarrow> raiseI e
   | Some ((branch, source, login, kind), merge) \<Rightarrow>
       bindI (liftI (attr_get (dget_or node ''pullRequest'' (JObj [])) ''headRefOid'')) (\<lambda>ref.
       if ref \<noteq> JStr source \<or> (oid \<notin> {head, source} \<and> Some oid \<noteq> merge)
       then raiseI (EligibilityError
              ''unready queue PR does not match the exact source binding'' [])
       else
       bindI (target_revision default_branch) (\<lambda>live.
       if live \<noteq> base
       then raiseI (EligibilityError ''queue target branch moved during verification'' [])
       else raiseI e)))"

text \<open>One node of the historical fallback: the tree of the candidate, once read, and its match.\<close>

definition fallback_node ::
  "string \<Rightarrow> string \<Rightarrow> string \<Rightarrow> candidate list \<times> string option \<Rightarrow> dict
   \<Rightarrow> (candidate list \<times> string option) api" where
  "fallback_node head default_branch base acc node = (case acc of (matching, tree) \<Rightarrow>
     bindI (liftI (attr_get (or_empty (dget node ''baseCommit'')) ''oid'')) (\<lambda>base_oid.
     if base_oid \<noteq> JStr base then retI acc
     else
     bindI (liftI (attr_get (or_empty (dget node ''headCommit'')) ''oid'')) (\<lambda>oid.
     if \<not> is_sha_str oid then retI acc
     else
     bindI (liftI (attr_get (dget_or node ''pullRequest'' (JObj [])) ''number'')) (\<lambda>number.
     if \<not> positive_int number
     then raiseI (EligibilityError ''queue entry has no authoritative source PR'' [])
     else
     bindI (catchI (pr_candidate (int_of number) (Some default_branch))
              (fallback_unready node (str_of oid) head default_branch base)) (\<lambda>pr.
     bindI (liftI (attr_get (dget_or node ''pullRequest'' (JObj [])) ''headRefOid'')) (\<lambda>ref.
     if ref \<noteq> JStr (source_head pr) then retI acc
     else if base \<noteq> cand_base pr \<or> str_of oid \<notin> {head, cand_head pr, source_head pr}
     then retI acc
     else
     bindI (case tree of Some t \<Rightarrow> retI t | None \<Rightarrow> commit_tree head) (\<lambda>t.
     bindI (if cand_head pr = head then retI t else commit_tree (cand_head pr)) (\<lambda>pr_tree.
     retI (if t \<noteq> pr_tree then matching
           else matching @ [pr\<lparr>cand_base := base, cand_head := head, cand_number := int_of number,
                  cand_scope := ''merge_group''\<rparr>], Some t)))))))))"

definition queue_candidate :: "string \<Rightarrow> string \<Rightarrow> candidate api" where
  "queue_candidate head default_branch =
     bindI (liftI (revision (JStr head))) (\<lambda>_.
     bindI (require_single_entry_queue default_branch) (\<lambda>rules.
     bindI (queue_entries default_branch) (\<lambda>nodes.
     bindI (target_revision default_branch) (\<lambda>base.
     bindI (require_ancestor base head) (\<lambda>_.
     let built = filter (built_node base) nodes;
         current = current_nodes head built in
     if 1 < length (filter (\<lambda>node. node_head node = JStr head) built)
     then raiseI (EligibilityError
            ''queue candidate has multiple entries; multi-entry groups unsupported'' [])
     else if current \<noteq> [] then
       (if \<not> list_all (\<lambda>node. is_obj (dget node ''pullRequest'')) current
        then raiseI (EligibilityError ''queue entry has no authoritative source PR'' [])
        else current_queue_candidate head default_branch base nodes rules current)
     else
     bindI (foldI (fallback_node head default_branch base) ([], None) nodes) (\<lambda>(matching, tree).
     case matching of
       [candidate] \<Rightarrow>
         bindI (target_revision default_branch) (\<lambda>live.
         if live \<noteq> base
         then raiseI (EligibilityError ''queue target branch moved during verification; next event rechecks'' [])
         else retI candidate)
     | _ \<Rightarrow> raiseI (EligibilityError ''queue candidate has no unique exact source PR; multi-entry groups are unsupported'' [])))))))"

section \<open>Changed paths and currency\<close>

definition changed_item :: "json \<Rightarrow> string list res" where
  "changed_item v =
     bindR (mapR (\<lambda>key. bindR (attr_get v key) (\<lambda>path.
        if path = JNull then Inr []
        else if \<not> is_str path \<or> startswith (str_of path) ''/''
                \<or> ''..'' \<in> set (split_on CHR ''/'' (str_of path)) \<or> backslash \<in> set (str_of path)
        then Inl (EligibilityError ''candidate metadata contains an unsafe repository path'' [])
        else Inr [str_of path])) [''filename'', ''previous_filename''])
       (\<lambda>ps. Inr (concat ps))"

definition changed_paths :: "candidate \<Rightarrow> string list api" where
  "changed_paths c =
     bindI (get (''compare/'' @ cand_base c @ ''...'' @ cand_head c @ ''?per_page=100'')) (\<lambda>comparison.
     bindI (liftI (attr_get (dget_or comparison ''merge_base_commit'' (JObj [])) ''sha'')) (\<lambda>sha.
     if sha \<noteq> JStr (cand_base c)
     then raiseI (EligibilityError
            ''candidate comparison does not bind the exact expected base'' [])
     else
     let files = dget comparison ''files'' in
     if \<not> is_list files \<or> 300 \<le> length (list_of files)
     then raiseI (EligibilityError
            ''candidate changed-file metadata is missing or may be truncated'' [])
     else
     bindI (liftI (mapR changed_item (list_of files))) (\<lambda>paths.
     retI (sorted_strings (set (concat paths))))))"

definition still_current :: "candidate \<Rightarrow> string \<Rightarrow> bool api" where
  "still_current c default_branch =
     catchI
       (bindI (if cand_scope c = ''merge_group'' then queue_candidate (cand_head c) default_branch
               else pr_candidate (cand_number c) None) (\<lambda>current. retI (current = c)))
       (\<lambda>e. if is_EligibilityError e then retI False else raiseI e)"

definition candidate_run :: "string \<Rightarrow> dict \<Rightarrow> string \<Rightarrow> bool res" where
  "candidate_run repository run candidate_sha =
     bindR (attr_get (dget_or run ''repository'' (JObj [])) ''full_name'') (\<lambda>name.
     if name \<noteq> JStr repository then Inr False
     else
     bindR (attr_get (or_empty (dget run ''head_repository'')) ''full_name'') (\<lambda>head_name.
     if head_name \<noteq> JStr repository then Inr False
     else
     bindR (in_strings (dget run ''event'') [''pull_request'', ''merge_group'']) (\<lambda>ok.
     Inr (ok
       \<and> dget run ''name'' = JStr (if endswith repository ''/docker-lens'' then ''Check'' else ''CI'')
       \<and> dget run ''path'' = JStr (workflow_file repository)
       \<and> dget run ''head_sha'' = JStr candidate_sha))))"

section \<open>What was observed\<close>

text \<open>Between two states the API answered a GET of a path with a value.\<close>

definition observed :: "world \<Rightarrow> client \<Rightarrow> client \<Rightarrow> string \<Rightarrow> json \<Rightarrow> bool" where
  "observed w s t path v \<longleftrightarrow>
     (\<exists>h. suffix (trace s) h \<and> suffix (Request ''GET'' (repo_path (api_repository s) path) None # h) (trace t)
        \<and> answered w h ''GET'' (repo_path (api_repository s) path) None v)"

lemma observed_wider:
  "observed w s' t' path v \<Longrightarrow> frame s s' \<Longrightarrow> frame t' t \<Longrightarrow> observed w s t path v"
  by (auto simp: observed_def frame_def intro: suffix_order.trans)

lemma get_observed:
  assumes "get path w s = (Inr d, t)"
  shows "observed w s t path (JObj d) \<and> frame s t"
proof
  from assms show "observed w s t path (JObj d)"
    unfolding observed_def get_Inr request_Inr
    by (intro exI [of _ "Clock # trace s"]) (auto simp: suffix_ConsI)
  show "frame s t" using frame_get assms by (rule keepsD)
qed

definition names_target :: "string \<Rightarrow> string \<Rightarrow> json \<Rightarrow> bool" where
  "names_target branch sha v \<longleftrightarrow> (\<exists>d target. v = JObj d \<and> dget d ''ref'' = JStr (''refs/heads/'' @ branch)
     \<and> dget d ''object'' = JObj target \<and> dget target ''type'' = JStr ''commit''
     \<and> dget target ''sha'' = JStr sha)"

definition ref_path :: "string \<Rightarrow> string" where
  "ref_path branch = ''git/ref/heads/'' @ quote [] branch"

text \<open>The live target of a branch was this commit, and this commit contains that one.\<close>

definition target_seen :: "world \<Rightarrow> client \<Rightarrow> client \<Rightarrow> string \<Rightarrow> string \<Rightarrow> bool" where
  "target_seen w s t branch sha \<longleftrightarrow>
     is_sha sha \<and> (\<exists>v. observed w s t (ref_path branch) v \<and> names_target branch sha v)"

definition ancestor_seen :: "world \<Rightarrow> client \<Rightarrow> client \<Rightarrow> string \<Rightarrow> string \<Rightarrow> bool" where
  "ancestor_seen w s t base commit \<longleftrightarrow>
     (\<exists>d m. observed w s t (''compare/'' @ base @ ''...'' @ commit) (JObj d)
        \<and> dget d ''status'' \<in> {JStr ''ahead'', JStr ''identical''}
        \<and> dget d ''merge_base_commit'' = JObj m \<and> dget m ''sha'' = JStr base)"

lemma target_seen_wider:
  "target_seen w s' t' branch sha \<Longrightarrow> frame s s' \<Longrightarrow> frame t' t \<Longrightarrow> target_seen w s t branch sha"
  by (auto simp: target_seen_def intro: observed_wider)

lemma ancestor_seen_wider:
  "ancestor_seen w s' t' base commit \<Longrightarrow> frame s s' \<Longrightarrow> frame t' t \<Longrightarrow> ancestor_seen w s t base commit"
  by (auto simp: ancestor_seen_def intro: observed_wider)

lemma target_revision_Inr:
  assumes "target_revision branch w s = (Inr sha, t)"
  shows "target_seen w s t branch sha \<and> frame s t"
proof -
  obtain v s' where g: "get (''git/ref/heads/'' @ quote [] branch) w s = (Inr v, s')"
    and ok: "\<not> (dget v ''ref'' \<noteq> JStr (''refs/heads/'' @ branch) \<or> \<not> is_obj (dget v ''object'')
         \<or> dget (dict_of (dget v ''object'')) ''type'' \<noteq> JStr ''commit'')"
    and r: "revision (dget (dict_of (dget v ''object'')) ''sha'') = Inr sha" and t: "t = s'"
  proof -
    from assms [unfolded target_revision_def Let_def] show thesis by (elim run_elims) (rule that)
  qed
  from ok r have "names_target branch sha (JObj v)"
    by (auto simp: names_target_def revision_Inr is_obj_iff)
  with get_observed [OF g] r t show ?thesis
    unfolding target_seen_def ref_path_def by (auto simp: revision_Inr)
qed

lemma require_ancestor_Inr:
  assumes "require_ancestor base commit w s = (Inr u, t)"
  shows "ancestor_seen w s t base commit \<and> frame s t"
proof -
  obtain d s' ok s'' where g: "get (''compare/'' @ base @ ''...'' @ commit) w s = (Inr d, s')"
    and ok: "\<not> (\<not> ok \<or> \<not> is_obj (dget d ''merge_base_commit'')
        \<or> dget (dict_of (dget d ''merge_base_commit'')) ''sha'' \<noteq> JStr base)"
    and i: "in_strings (dget d ''status'') [''ahead'', ''identical''] = Inr ok"
    and t: "s'' = s'" "() = u" "t = s''"
  proof -
    from assms [unfolded require_ancestor_def Let_def] show thesis
      by (elim run_elims) (rule that)
  qed
  from i ok have "dget d ''status'' \<in> {JStr ''ahead'', JStr ''identical''}" by auto
  with get_observed [OF g] ok t show ?thesis
    unfolding ancestor_seen_def by (auto simp: is_obj_iff; blast)
qed

text \<open>A pull request was read with this identity: branch, merge commit, source, author.\<close>

definition identity_seen ::
  "world \<Rightarrow> client \<Rightarrow> client \<Rightarrow> int \<Rightarrow> string option \<Rightarrow> string \<times> string \<times> string \<times> string \<times> string \<Rightarrow> bool"
where
  "identity_seen w s t number expected identity \<longleftrightarrow>
     (\<exists>pr. observed w s t (''pulls/'' @ show_int number) (JObj pr)
        \<and> pr_identity pr (api_repository s) number expected = Inr identity)"

lemma identity_seen_wider:
  assumes "identity_seen w s' t' number expected identity" and "frame s s'" and "frame t' t"
  shows "identity_seen w s t number expected identity"
proof -
  from assms(2) have "api_repository s' = api_repository s" by (simp add: frame_def)
  with assms show ?thesis by (auto simp: identity_seen_def intro: observed_wider)
qed

lemma read_identity_Inr:
  assumes "read_identity number expected w s = (Inr identity, t)"
  shows "identity_seen w s t number expected identity \<and> frame s t"
proof -
  from assms obtain pr where g: "get (''pulls/'' @ show_int number) w s = (Inr pr, t)"
    and i: "pr_identity pr (api_repository t) number expected = Inr identity"
    by (auto simp: read_identity_def bindI_Inr)
  from get_observed [OF g] have "observed w s t (''pulls/'' @ show_int number) (JObj pr)" "frame s t" by auto
  moreover from this have "api_repository t = api_repository s" by (simp add: frame_def)
  ultimately show ?thesis using i by (auto simp: identity_seen_def)
qed

lemma reread_identity_Inr:
  assumes "reread_identity number expected base identity w s = (Inr again, t)"
  shows "identity_seen w s t number expected again \<and> frame s t"
proof -
  obtain branch merge source login kind where i: "identity = (branch, merge, source, login, kind)"
    by (cases identity)
  have never: "(if b then raiseI e1 else bindI m (\<lambda>live. if live \<noteq> base then raiseI e2 else raiseI e3)) w s'
      \<noteq> (Inr again, t)" for b e1 e2 e3 m s'
    by (simp add: bindI_Inr)
  from assms [unfolded reread_identity_def i prod.case catchI_Inr]
  show ?thesis
  proof (elim disjE exE conjE)
    fix e s'
    assume h: "(case unready e of None \<Rightarrow> raiseI e
        | Some (pending, pending_merge) \<Rightarrow>
            if pending \<noteq> (branch, source, login, kind) \<or> pending_merge \<notin> {None, Some merge}
            then raiseI (EligibilityError ''PR source or target changed during verification'' [])
            else
            bindI (target_revision branch) (\<lambda>live.
            if live \<noteq> base
            then raiseI (EligibilityError ''PR target branch moved during verification'' [])
            else raiseI e)) w s' = (Inr again, t)"
    show ?thesis
    proof (cases "unready e")
      case None
      with h show ?thesis by simp
    next
      case (Some p)
      with h never show ?thesis by (cases p) (simp only: option.case prod.case)
    qed
  qed (rule read_identity_Inr)
qed

lemma pr_identity_shas:
  assumes "pr_identity pr repository number expected = Inr (branch, merge, source, login, kind)"
  shows "is_sha merge \<and> is_sha source \<and> \<not> bad_branch branch \<and> kind \<in> {''User'', ''Bot''} \<and> login \<noteq> []
    \<and> (\<forall>e. expected = Some e \<longrightarrow> branch = e)"
  using assms unfolding pr_identity_def Let_def
  by (elim success_elims)
    (auto simp: optional_revision_def bindR_Inr revision_Inr author_def author_ok_def nonempty_str_def
      split: if_splits option.splits prod.splits)

text \<open>
  C14. A pull request candidate is bound before and after the proof. Its identity was read twice
  with the same result, the live target of its branch was its base both times, and between the
  readings the API confirmed that the base and the source are ancestors of the merge commit.
\<close>

theorem pr_candidate_bound:
  assumes "pr_candidate number expected w s = (Inr c, t)"
  shows "\<exists>u v branch identity.
     identity = (branch, cand_head c, source_head c, actor_login c, actor_type c)
   \<and> identity_seen w s u number expected identity \<and> target_seen w s u branch (cand_base c)
   \<and> ancestor_seen w u v (cand_base c) (cand_head c) \<and> ancestor_seen w u v (source_head c) (cand_head c)
   \<and> identity_seen w v t number expected identity \<and> target_seen w v t branch (cand_base c)
   \<and> cand_number c = number \<and> cand_scope c = ''pull_request''"
proof -
  obtain branch merge source login kind base live observed s1 s2 s3 s4 s5 s6 u1 u2 where
    i: "read_identity number expected w s = (Inr (branch, merge, source, login, kind), s1)"
    and b: "target_revision branch w s1 = (Inr base, s2)"
    and a1: "require_ancestor base merge w s2 = (Inr u1, s3)"
    and a2: "require_ancestor source merge w s3 = (Inr u2, s4)"
    and r: "reread_identity number expected base (branch, merge, source, login, kind) w s4 = (Inr observed, s5)"
    and eq: "\<not> observed \<noteq> (branch, merge, source, login, kind)"
    and l: "target_revision branch w s5 = (Inr live, s6)" and live: "\<not> live \<noteq> base" and t: "t = s6"
    and c: "\<lparr>cand_base = base, cand_head = merge, cand_number = number,
            source_head = source, actor_login = login, actor_type = kind,
            cand_scope = ''pull_request'', cand_title = [], queue_target = []\<rparr> = c"
  proof -
    from assms obtain identity s1 where
      "read_identity number expected w s = (Inr identity, s1)"
      and rest: "(case identity of (branch, merge, source, login, kind) \<Rightarrow>
     bindI (target_revision branch) (\<lambda>base.
     bindI (require_ancestor base merge) (\<lambda>_.
     bindI (require_ancestor source merge) (\<lambda>_.
     bindI (reread_identity number expected base identity) (\<lambda>observed.
     if observed \<noteq> identity
     then raiseI (EligibilityError ''PR source or synthetic candidate changed during verification; next event rechecks'' [])
     else
     bindI (target_revision branch) (\<lambda>live.
     if live \<noteq> base
     then raiseI (EligibilityError
            ''PR target branch moved during verification; next event rechecks'' [])
     else retI \<lparr>cand_base = base, cand_head = merge, cand_number = number,
            source_head = source, actor_login = login, actor_type = kind,
            cand_scope = ''pull_request'', cand_title = [], queue_target = []\<rparr>)))))) w s1 = (Inr c, t)"
      unfolding pr_candidate_def by (elim bindI_InrE)
    moreover obtain branch merge source login kind where "identity = (branch, merge, source, login, kind)"
      by (cases identity)
    ultimately show thesis
      by (simp only: prod.case) (elim run_elims, rule that, assumption+)
  qed
  note obs = read_identity_Inr [OF i] target_revision_Inr [OF b] require_ancestor_Inr [OF a1]
    require_ancestor_Inr [OF a2] reread_identity_Inr [OF r] target_revision_Inr [OF l]
  have fr: "frame x x" for x by (rule frame.none)
  have f12: "frame s s2" and f24: "frame s2 s4" and f46: "frame s4 s6"
    using obs by (meson frame.both)+
  have "identity_seen w s s2 number expected (branch, merge, source, login, kind)"
    "target_seen w s s2 branch base"
    using obs fr by (blast intro: identity_seen_wider target_seen_wider)+
  moreover have "ancestor_seen w s2 s4 base merge" "ancestor_seen w s2 s4 source merge"
    using obs fr by (blast intro: ancestor_seen_wider)+
  moreover have "identity_seen w s4 s6 number expected (branch, merge, source, login, kind)"
    "target_seen w s4 s6 branch base"
    using obs fr eq live by (blast intro: identity_seen_wider target_seen_wider)+
  ultimately show ?thesis using c t by force
qed


text \<open>A world that answers a path of the repository by a table.\<close>

definition table_world :: "(string \<times> json) list \<Rightarrow> world" where
  "table_world table = quiet_world
     \<lparr>answer := (\<lambda>h m path data. Response path),
      decode_json := (\<lambda>path. map_of table (drop 32 path))\<rparr>"

definition got :: "string \<Rightarrow> client \<Rightarrow> client" where
  "got path s = s\<lparr>requests := requests s + 1,
     trace := Request ''GET'' (repo_path (api_repository s) path) None # Clock # trace s\<rparr>"

lemma got_simps [simp]:
  "api_repository (got path s) = api_repository s" "deadline (got path s) = deadline s"
  "requests (got path s) = requests s + 1"
  by (simp_all add: got_def)

lemma table_request:
  assumes "map_of table path = Some v" and "path \<noteq> []" and "length path \<le> 1000"
    and "api_repository s = ''Strukturpiloten/boxferry''" and "requests s < 500" and "0 \<le> deadline s"
  shows "request ''GET'' (repo_path (api_repository s) path) None (table_world table) s = (Inr v, got path s)"
proof -
  have "drop 32 (repo_path ''Strukturpiloten/boxferry'' path) = path"
    using assms(2) by (simp add: repo_path_def)
  moreover have "repo_path ''Strukturpiloten/boxferry'' path \<noteq> []"
    "length (repo_path ''Strukturpiloten/boxferry'' path) \<le> MAX_JSON_BYTES"
    "startswith (repo_path ''Strukturpiloten/boxferry'' path) ''/''"
    "\<not> startswith (repo_path ''Strukturpiloten/boxferry'' path) ''//''"
    using assms(2,3) by (simp_all add: repo_path_def MAX_JSON_BYTES_def startswith_def)
  ultimately show ?thesis
    using assms by (simp add: request_Inr answered_def reply_value_def table_world_def quiet_world_def got_def)
qed

lemma table_get:
  assumes "map_of table path = Some (JObj d)" and "path \<noteq> []" and "length path \<le> 1000"
    and "api_repository s = ''Strukturpiloten/boxferry''" and "requests s < 500" and "0 \<le> deadline s"
  shows "get path (table_world table) s = (Inr d, got path s)"
  using table_request [OF assms] by (simp add: get_Inr)

definition sample_pr :: dict where
  "sample_pr = [(''number'', JInt 7), (''state'', JStr ''open''), (''title'', JStr ''Update''),
     (''mergeable'', JBool True), (''merge_commit_sha'', JStr (sha_of CHR ''c'')),
     (''base'', JObj [(''ref'', JStr ''main''), (''repo'', JObj [(''full_name'', JStr ''Strukturpiloten/boxferry'')])]),
     (''head'', JObj [(''sha'', JStr (sha_of CHR ''b'')), (''repo'', JObj [(''full_name'', JStr ''Strukturpiloten/boxferry'')])]),
     (''user'', JObj [(''login'', JStr ''octocat''), (''type'', JStr ''User'')])]"

definition sample_ref :: dict where
  "sample_ref = [(''ref'', JStr ''refs/heads/main''),
     (''object'', JObj [(''type'', JStr ''commit''), (''sha'', JStr (sha_of CHR ''a''))])]"

definition sample_ahead :: "char \<Rightarrow> dict" where
  "sample_ahead c = [(''status'', JStr ''ahead''), (''merge_base_commit'', JObj [(''sha'', JStr (sha_of c))])]"

definition sample_table :: "(string \<times> json) list" where
  "sample_table =
     [(''pulls/7'', JObj sample_pr), (''git/ref/heads/main'', JObj sample_ref),
      (''compare/'' @ sha_of CHR ''a'' @ ''...'' @ sha_of CHR ''c'', JObj (sample_ahead CHR ''a'')),
      (''compare/'' @ sha_of CHR ''b'' @ ''...'' @ sha_of CHR ''c'', JObj (sample_ahead CHR ''b''))]"

definition sample_pr_candidate :: candidate where
  "sample_pr_candidate = \<lparr>cand_base = sha_of CHR ''a'', cand_head = sha_of CHR ''c'', cand_number = 7,
     source_head = sha_of CHR ''b'', actor_login = ''octocat'', actor_type = ''User'',
     cand_scope = ''pull_request'', cand_title = [], queue_target = []\<rparr>"

lemma sample_names:
  "quote [] ''main'' = ''main''" "show_int 7 = ''7''" "bad_branch ''main'' = False"
  by code_simp+

lemma sample_rows:
  "map_of sample_table ''pulls/7'' = Some (JObj sample_pr)"
  "map_of sample_table ''git/ref/heads/main'' = Some (JObj sample_ref)"
  "map_of sample_table (''compare/'' @ sha_of CHR ''a'' @ ''...'' @ sha_of CHR ''c'') = Some (JObj (sample_ahead CHR ''a''))"
  "map_of sample_table (''compare/'' @ sha_of CHR ''b'' @ ''...'' @ sha_of CHR ''c'') = Some (JObj (sample_ahead CHR ''b''))"
  by (simp_all add: sample_table_def)

text \<open>The state is a sample client: its repository, time left, and requests to spare.\<close>

definition spare :: "nat \<Rightarrow> client \<Rightarrow> bool" where
  "spare n s \<longleftrightarrow> api_repository s = ''Strukturpiloten/boxferry'' \<and> deadline s = 480 \<and> requests s + n \<le> 500"

lemma spare_got [simp]: "spare n (got path s) \<longleftrightarrow> spare (n + 1) s"
  by (simp add: spare_def)

lemma spare_sample [simp]: "spare n sample_client \<longleftrightarrow> n \<le> 500"
  by (simp add: spare_def sample_client_def)

lemma sample_read_identity:
  "spare 1 s \<Longrightarrow> read_identity 7 None (table_world sample_table) s
     = (Inr (''main'', sha_of CHR ''c'', sha_of CHR ''b'', ''octocat'', ''User''), got ''pulls/7'' s)"
  by (simp add: read_identity_def table_get sample_rows sample_names spare_def pr_identity_def sample_pr_def in_repository_def pr_state_ok_def author_ok_def author_def Let_def
      nonempty_str_def revision_def sample_hex optional_revision_def)

lemma sample_target:
  "spare 1 s \<Longrightarrow> target_revision ''main'' (table_world sample_table) s
     = (Inr (sha_of CHR ''a''), got ''git/ref/heads/main'' s)"
  by (simp add: target_revision_def sample_names spare_def table_get sample_rows sample_ref_def
      revision_def sample_hex)

lemma sample_ancestor:
  assumes "spare 1 s" and "c \<in> {CHR ''a'', CHR ''b''}"
  shows "require_ancestor (sha_of c) (sha_of CHR ''c'') (table_world sample_table) s
     = (Inr (), got (''compare/'' @ sha_of c @ ''...'' @ sha_of CHR ''c'') s)"
proof -
  have "get (''compare/'' @ sha_of c @ ''...'' @ sha_of CHR ''c'') (table_world sample_table) s
      = (Inr (sample_ahead c), got (''compare/'' @ sha_of c @ ''...'' @ sha_of CHR ''c'') s)"
    using assms sample_rows(3,4) by (intro table_get) (auto simp: spare_def, simp_all add: sha_of_def)
  then show ?thesis
    by (simp add: require_ancestor_def sample_ahead_def in_strings_def)
qed

lemma sample_pr_run:
  "\<exists>t. pr_candidate 7 None (table_world sample_table) sample_client = (Inr sample_pr_candidate, t)"
proof -
  show ?thesis
    by (simp add: pr_candidate_def reread_identity_def sample_read_identity sample_target sample_ancestor
        sample_pr_candidate_def cong: run_congs)
qed

theorem pr_candidate_bound_witness:
  "\<exists>t. pr_candidate 7 None (table_world sample_table) sample_client = (Inr sample_pr_candidate, t)
   \<and> (\<exists>u v branch. target_seen (table_world sample_table) sample_client u branch (sha_of CHR ''a'')
        \<and> ancestor_seen (table_world sample_table) u v (sha_of CHR ''b'') (sha_of CHR ''c'')
        \<and> target_seen (table_world sample_table) v t branch (sha_of CHR ''a''))"
proof -
  from sample_pr_run obtain t where
    run: "pr_candidate 7 None (table_world sample_table) sample_client = (Inr sample_pr_candidate, t)" ..
  from pr_candidate_bound [OF run] run show ?thesis
    by (auto simp: sample_pr_candidate_def)
qed

section \<open>Candidates are found by reading alone\<close>

lemma observe_target: "keeps observe_step (target_revision branch)"
  unfolding target_revision_def by (intro observe_rules)

lemma observe_ancestor: "keeps observe_step (require_ancestor base commit)"
  unfolding require_ancestor_def by (intro observe_rules)

lemma observe_identity: "keeps observe_step (read_identity number expected)"
  unfolding read_identity_def by (intro observe_rules)

lemma observe_reread: "keeps observe_step (reread_identity number expected base identity)"
  unfolding reread_identity_def by (intro observe_rules observe_identity observe_target)

lemma observe_pr_candidate: "keeps observe_step (pr_candidate number expected)"
  unfolding pr_candidate_def
  by (intro observe_rules observe_identity observe_target observe_ancestor observe_reread)

lemma observe_rule_set: "keeps observe_step (require_single_entry_queue branch)"
proof -
  have "keeps observe_step (case qs of [queue] \<Rightarrow> (if b queue then raiseI e else retI rules) | _ \<Rightarrow> raiseI e')"
    for b e e' rules and qs :: "dict list"
    by (cases qs rule: remdups_adj.cases) (auto intro: observe_rules)
  then show ?thesis unfolding require_single_entry_queue_def by (intro observe_rules)
qed

lemma observe_entries: "keeps observe_step (queue_entries branch)"
proof -
  have q: "reads_only (Request ''POST'' ''/graphql'' (Some (JObj ((''query'', JStr queue_query) # r))))" for r
    by (simp add: reads_only_def query_text_def queue_query_def startswith_def)
  have c: "keeps observe_step (case ps of [owner, name] \<Rightarrow> f owner name | _ \<Rightarrow> raiseI e)"
    if "\<And>owner name. keeps observe_step (f owner name)" for f :: "string \<Rightarrow> string \<Rightarrow> dict list api" and e ps
    using that by (cases ps rule: remdups_adj.cases) (auto intro: observe_rules split: list.splits)
  show ?thesis unfolding queue_entries_def by (intro observe_rules c observe_request q)
qed

lemma observe_queue_identity: "keeps observe_step (queue_pr_identity number branch allow)"
  unfolding queue_pr_identity_def by (intro observe_rules)

lemma observe_bind_node: "keeps observe_step (bind_node head branch base several node)"
  unfolding bind_node_def unready_binding_def
  by (intro observe_rules observe_queue_identity observe_target)

lemma observe_queue_matches: "keeps observe_step (queue_matches base head sources limit)"
proof -
  have h: "keeps observe_step (case e of
          QueueTreeError m args \<Rightarrow> raiseI (EligibilityError m args)
        | MergeConflict \<Rightarrow> raiseI (EligibilityError ''queue Git clean-merge proved a conflict'' [])
        | _ \<Rightarrow> raiseI e)" for e
    by (cases e) (auto intro: observe_rules)
  have s: "keeps observe_step (case sources of
          [source] \<Rightarrow> bindI (verify_queue_tree repository base source head limit) (\<lambda>_. retI {source})
        | _ \<Rightarrow> matching_queue_sources repository base sources head limit)" for repository
    by (cases sources rule: remdups_adj.cases) (auto intro!: observe_rules observe_verify observe_matching)
  show ?thesis unfolding queue_matches_def by (intro observe_rules s h)
qed

lemma observe_reread_identities: "keeps observe_step (reread_identities branch matches identities m)"
  unfolding reread_identities_def by (intro observe_rules observe_queue_identity)

lemma observe_reread_queue: "keeps observe_step (reread_queue branch rules nodes)"
  unfolding reread_queue_def by (intro observe_rules observe_rule_set observe_entries)

lemma observe_in_time: "keeps observe_step (in_time reserve e)"
  unfolding in_time_def by (intro observe_rules)

lemma observe_target_still:
  "keeps observe_step (target_still branch base matches identities rules nodes binding)"
  unfolding target_still_def
  by (intro observe_rules observe_target observe_reread_queue observe_in_time observe_reread_identities)

lemma observe_current: "keeps observe_step (current_queue_candidate head branch base nodes rules selected)"
proof -
  have c: "keeps observe_step (case xs of
        [(number, (source, login, kind, title))] \<Rightarrow> f number source login kind title | _ \<Rightarrow> raiseI e)"
    if "\<And>n s l k t. keeps observe_step (f n s l k t)"
    for f :: "int \<Rightarrow> string \<Rightarrow> string \<Rightarrow> string \<Rightarrow> string \<Rightarrow> candidate api" and e and xs :: "(int \<times> queue_identity) list"
    using that by (cases xs rule: remdups_adj.cases) (auto intro: observe_rules split: prod.splits)
  show ?thesis unfolding current_queue_candidate_def
    by (intro observe_rules observe_bind_node observe_in_time observe_queue_matches c
        observe_reread_identities observe_target_still)
qed

lemma observe_commit_tree: "keeps observe_step (commit_tree commit)"
  unfolding commit_tree_def by (intro observe_rules)

lemma observe_fallback: "keeps observe_step (fallback_node head branch base acc node)"
  unfolding fallback_node_def fallback_unready_def
  by (intro observe_rules observe_pr_candidate observe_target observe_commit_tree)

lemma observe_queue_candidate: "keeps observe_step (queue_candidate head branch)"
proof -
  have c: "keeps observe_step (case xs of [c] \<Rightarrow> f c | _ \<Rightarrow> raiseI e)"
    if "\<And>c. keeps observe_step (f c)" for f :: "candidate \<Rightarrow> candidate api" and e xs
    using that by (cases xs rule: remdups_adj.cases) (auto intro: observe_rules)
  show ?thesis unfolding queue_candidate_def
    by (intro observe_rules c observe_rule_set observe_entries observe_target observe_ancestor
        observe_current observe_fallback)
qed

lemma observe_still_current: "keeps observe_step (still_current c branch)"
  unfolding still_current_def
  by (intro observe_rules observe_queue_candidate observe_pr_candidate)

lemma observe_changed_paths: "keeps observe_step (changed_paths c)"
  unfolding changed_paths_def Let_def by (intro observe_rules)

text \<open>
  C15. Finding and re-checking a candidate only reads. Whatever the API answers and however the
  check ends, every new effect is a read, and the budget of 500 requests holds.
\<close>

theorem still_current_only_reads:
  assumes "still_current c branch w s = (r, t)" and "within_budget s"
  shows "(\<exists>new. trace t = new @ trace s \<and> list_all reads_only new) \<and> within_budget t"
  using keepsD [OF observe_still_current assms(1)] assms(2)
  by (simp add: observe_step_def act_step_def read_step_def budget_step_def)


theorem still_current_only_reads_witness:
  "\<exists>r t. still_current sample_pr_candidate ''main'' (table_world sample_table) sample_client = (r, t)
     \<and> within_budget t"
proof -
  obtain r t where "still_current sample_pr_candidate ''main'' (table_world sample_table) sample_client = (r, t)"
    by (cases "still_current sample_pr_candidate ''main'' (table_world sample_table) sample_client")
  moreover have "within_budget sample_client"
    by (simp add: within_budget_def request_count_def sample_client_def)
  ultimately show ?thesis using still_current_only_reads by blast
qed

section \<open>What a queue candidate is bound to\<close>

lemma foldI_inv:
  assumes "foldI f z xs w s = (Inr y, t)" and "P z s"
    and "\<And>z x s z' t. P z s \<Longrightarrow> x \<in> set xs \<Longrightarrow> f z x w s = (Inr z', t) \<Longrightarrow> P z' t"
  shows "P y t"
  using assms
proof (induction xs arbitrary: z s)
  case (Cons x xs)
  from Cons.prems(1) obtain z' s' where step: "f z x w s = (Inr z', s')" and rest: "foldI f z' xs w s' = (Inr y, t)"
    by (auto simp: bindI_Inr)
  have "P z' s'" by (rule Cons.prems(3) [OF Cons.prems(2) _ step]) simp
  then show ?case by (rule Cons.IH [OF rest]) (rule Cons.prems(3), assumption, rule list.set_intros(2), assumption+)
qed (simp only: foldI.simps retI_run, simp)

text \<open>The effective rules have exactly one merge queue, which builds and merges one entry at a time.\<close>

definition single_entry_rules :: "dict list \<Rightarrow> bool" where
  "single_entry_rules rules \<longleftrightarrow> (\<exists>queue. one_entry queue
     \<and> filter (\<lambda>rule. dget rule ''type'' = JStr ''merge_queue'') rules = [queue])"

definition rules_seen :: "world \<Rightarrow> client \<Rightarrow> client \<Rightarrow> string \<Rightarrow> bool" where
  "rules_seen w s t branch \<longleftrightarrow> (\<exists>vs. observed w s t
      (''rules/branches/'' @ quote [] branch @ ''?per_page=100&page=1'') (JList vs)
      \<and> length vs < 100 \<and> single_entry_rules (map dict_of vs))"

definition tree_seen :: "world \<Rightarrow> client \<Rightarrow> client \<Rightarrow> string \<Rightarrow> string \<Rightarrow> bool" where
  "tree_seen w s t commit tree \<longleftrightarrow> is_sha tree \<and> (\<exists>d. observed w s t (''git/commits/'' @ commit) (JObj d)
      \<and> attr_get (dget_or d ''tree'' (JObj [])) ''sha'' = Inr (JStr tree))"

text \<open>
  How the source of a queue candidate was proved: by the queue tree proof, or, on the fallback,
  as a pull request candidate of the same base whose merge commit is the queue commit or has the
  same tree.
\<close>

definition tree_proved :: "world \<Rightarrow> client \<Rightarrow> client \<Rightarrow> candidate \<Rightarrow> bool" where
  "tree_proved w s t c \<longleftrightarrow> (\<exists>sources limit u v matches. frame s u \<and> frame v t
      \<and> matching_queue_sources (api_repository s) (cand_base c) sources (cand_head c) limit w u = (Inr matches, v)
      \<and> source_head c \<in> matches)"

definition same_tree :: "world \<Rightarrow> client \<Rightarrow> client \<Rightarrow> string \<Rightarrow> candidate \<Rightarrow> bool" where
  "same_tree w s t branch c \<longleftrightarrow> (\<exists>u v pr. frame s u \<and> frame v t
      \<and> pr_candidate (cand_number c) (Some branch) w u = (Inr pr, v)
      \<and> cand_base pr = cand_base c \<and> source_head pr = source_head c
      \<and> (cand_head pr = cand_head c
         \<or> (\<exists>tree. tree_seen w s t (cand_head c) tree \<and> tree_seen w s t (cand_head pr) tree)))"

lemma rules_seen_wider: "rules_seen w s' t' branch \<Longrightarrow> frame s s' \<Longrightarrow> frame t' t \<Longrightarrow> rules_seen w s t branch"
  by (auto simp: rules_seen_def intro: observed_wider)

lemma tree_seen_wider: "tree_seen w s' t' c tree \<Longrightarrow> frame s s' \<Longrightarrow> frame t' t \<Longrightarrow> tree_seen w s t c tree"
  by (auto simp: tree_seen_def intro: observed_wider)

lemma tree_proved_wider:
  "tree_proved w s' t' c \<Longrightarrow> frame s s' \<Longrightarrow> frame t' t \<Longrightarrow> tree_proved w s t c"
proof -
  assume p: "tree_proved w s' t' c" and f: "frame s s'" "frame t' t"
  from f(1) have "api_repository s' = api_repository s" by (simp add: frame_def)
  with p f show ?thesis unfolding tree_proved_def by (metis frame.both)
qed

lemma same_tree_wider:
  "same_tree w s' t' branch c \<Longrightarrow> frame s s' \<Longrightarrow> frame t' t \<Longrightarrow> same_tree w s t branch c"
  unfolding same_tree_def by (meson frame.both tree_seen_wider)

lemma observe_frame: "keeps observe_step m \<Longrightarrow> m w s = (r, t) \<Longrightarrow> frame s t"
  by (auto simp: observe_step_def act_step_def dest: keepsD)

lemma items_observed:
  assumes "items path w s = (Inr ds, t)"
  shows "\<exists>vs. observed w s t path (JList vs) \<and> ds = map dict_of vs"
proof -
  from assms obtain vs where "request ''GET'' (repo_path (api_repository s) path) None w s = (Inr (JList vs), t)"
    "ds = map dict_of vs" by (auto simp: items_Inr)
  then show ?thesis
    unfolding observed_def request_Inr by (auto simp: suffix_ConsI intro!: exI [of _ "Clock # trace s"])
qed

lemma require_single_entry_queue_Inr:
  assumes "require_single_entry_queue branch w s = (Inr rules, t)"
  shows "rules_seen w s t branch"
proof -
  obtain rs s' where i: "items (''rules/branches/'' @ quote [] branch @ ''?per_page=100&page=1'') w s = (Inr rs, s')"
    and small: "\<not> 100 \<le> length rs"
    and c: "(case filter (\<lambda>rule. dget rule ''type'' = JStr ''merge_queue'') rs of
         [queue] \<Rightarrow>
           if \<not> one_entry queue
           then raiseI (EligibilityError
                  ''dependency eligibility requires reviewed one-entry queue limits'' [])
           else retI rs
       | _ \<Rightarrow> raiseI (EligibilityError
              ''effective branch rules require exactly one active merge queue'' [])) w s' = (Inr rules, t)"
  proof -
    from assms [unfolded require_single_entry_queue_def] show thesis by (elim run_elims) (rule that)
  qed
  from c have "single_entry_rules rs \<and> t = s'"
    by (cases "filter (\<lambda>rule. dget rule ''type'' = JStr ''merge_queue'') rs" rule: remdups_adj.cases)
      (auto simp: single_entry_rules_def split: if_splits)
  with items_observed [OF i] small show ?thesis by (auto simp: rules_seen_def)
qed

lemma commit_tree_Inr:
  assumes "commit_tree commit w s = (Inr tree, t)"
  shows "tree_seen w s t commit tree \<and> frame s t"
proof -
  from assms obtain d sha where g: "get (''git/commits/'' @ commit) w s = (Inr d, t)"
    and a: "attr_get (dget_or d ''tree'' (JObj [])) ''sha'' = Inr sha" and r: "revision sha = Inr tree"
    unfolding commit_tree_def by (elim run_elims) simp
  with get_observed [OF g] show ?thesis by (auto simp: tree_seen_def revision_Inr)
qed

lemma queue_matches_Inr:
  assumes "queue_matches base head sources limit w s = (Inr matches, t)" and "source \<in> matches"
  shows "\<exists>v ms. matching_queue_sources (api_repository s) base sources head limit w s = (Inr ms, v)
    \<and> frame v t \<and> source \<in> ms"
proof -
  have never: "(case e of
          QueueTreeError m args \<Rightarrow> raiseI (EligibilityError m args)
        | MergeConflict \<Rightarrow> raiseI (EligibilityError ''queue Git clean-merge proved a conflict'' [])
        | _ \<Rightarrow> raiseI e) w s' \<noteq> (Inr matches, t)" for e s'
    by (cases e) auto
  from assms(1) never have
    "(case sources of
        [source] \<Rightarrow> bindI (verify_queue_tree (api_repository s) base source head limit) (\<lambda>_. retI {source})
      | _ \<Rightarrow> matching_queue_sources (api_repository s) base sources head limit) w s = (Inr matches, t)"
    unfolding queue_matches_def by (auto simp: bindI_Inr catchI_Inr)
  then show ?thesis
    using assms(2) frame.none
    by (cases sources rule: remdups_adj.cases)
      (auto simp: verify_queue_tree_def bindI_Inr split: if_splits)
qed


lemma target_still_Inr:
  assumes "target_still branch base matches identities rules nodes binding w s = (Inr c, t)"
  shows "c = binding \<and> target_seen w s t branch base"
proof -
  obtain first_target last_target s1 s2 s3 s4 s5 u1 u2 u3 where
    f: "target_revision branch w s = (Inr first_target, s1)"
    and q: "reread_queue branch rules nodes w s1 = (Inr u1, s2)"
    and t1: "in_time 0 proof_expired w s2 = (Inr u2, s3)"
    and l: "target_revision branch w s3 = (Inr last_target, s4)"
    and t2: "in_time 0 proof_expired w s4 = (Inr u3, s5)"
    and rest: "(if first_target \<noteq> base \<or> last_target \<noteq> base then
       bindI (reread_identities branch matches identities
                ''current queue source changed while verifying target movement'') (\<lambda>_.
       bindI (reread_queue branch rules nodes) (\<lambda>_.
       bindI (in_time 0 proof_expired) (\<lambda>_.
       raiseI (queue_target_moved base (if last_target \<noteq> base then last_target else first_target) binding))))
     else retI binding) w s5 = (Inr c, t)"
  proof -
    from assms [unfolded target_still_def] show thesis
      by (elim bindI_InrE) (rule that)
  qed
  from rest have c: "last_target = base" "c = binding" "t = s5"
    by (auto simp: bindI_Inr split: if_splits)
  have "frame s s3"
    using f q t1 by (meson frame.both observe_frame observe_target observe_reread_queue observe_in_time)
  moreover have "frame s4 s5" using t2 by (rule observe_frame [OF observe_in_time])
  ultimately show ?thesis
    using target_revision_Inr [OF l] c by (auto intro: target_seen_wider)
qed

lemma current_queue_candidate_Inr:
  assumes "current_queue_candidate head branch base nodes rules selected w s = (Inr c, t)"
  shows "cand_base c = base \<and> cand_head c = head \<and> cand_scope c = ''merge_group''
    \<and> (\<exists>v. frame v t \<and> tree_proved w s v c \<and> target_seen w v t branch base)"
proof -
  obtain identities d matches s1 s2 s3 s4 u where
    b: "mapI (bind_node head branch base (1 < length selected)) selected w s = (Inr identities, s1)"
    and i: "in_time 30 (EligibilityError
               ''queue tree proof lacks remaining metadata time budget'' []) w s1 = (Inr u, s2)"
    and d: "getI deadline w s2 = (Inr d, s3)"
    and m: "queue_matches base head (map (\<lambda>(n, i). fst i) identities) (d - 30) w s3 = (Inr matches, s4)"
    and rest: "(case filter (\<lambda>(n, i). fst i \<in> matches) identities of
        [(number, (source, login, kind, title))] \<Rightarrow>
          bindI (reread_identities branch matches identities
                   ''current queue PR source/author/title changed during verification'') (\<lambda>_.
          target_still branch base matches identities rules nodes
            \<lparr>cand_base = base, cand_head = head, cand_number = number, source_head = source,
             actor_login = login, actor_type = kind, cand_scope = ''merge_group'',
             cand_title = title, queue_target = branch\<rparr>)
      | _ \<Rightarrow> raiseI (EligibilityError
             ''queue candidate has no unique source; multi-entry groups unsupported'' [])) w s4 = (Inr c, t)"
  proof -
    from assms [unfolded current_queue_candidate_def] show thesis
      by (elim if_raiseE bindI_InrE) (rule that)
  qed
  obtain number source login kind title where
    one: "filter (\<lambda>(n, i). fst i \<in> matches) identities = [(number, (source, login, kind, title))]"
    using rest by (cases "filter (\<lambda>(n, i). fst i \<in> matches) identities" rule: remdups_adj.cases) auto
  then have "(number, (source, login, kind, title)) \<in> set (filter (\<lambda>(n, i). fst i \<in> matches) identities)"
    by simp
  then have source: "source \<in> matches" by simp
  from rest one obtain s5 u' where
    r: "reread_identities branch matches identities
                   ''current queue PR source/author/title changed during verification'' w s4 = (Inr u', s5)"
    and k: "target_still branch base matches identities rules nodes
            \<lparr>cand_base = base, cand_head = head, cand_number = number, source_head = source,
             actor_login = login, actor_type = kind, cand_scope = ''merge_group'',
             cand_title = title, queue_target = branch\<rparr> w s5 = (Inr c, t)"
    by (auto elim: bindI_InrE)
  have "keeps observe_step (mapI (bind_node head branch base (1 < length selected)) selected)"
    by (intro observe.keeps_map observe_bind_node)
  then have "frame s s1" using b by (rule observe_frame)
  moreover from observe_in_time i have "frame s1 s2" by (rule observe_frame)
  ultimately have "frame s s2" by (rule frame.both)
  then have f: "frame s s3" using d by simp
  then have repo: "api_repository s3 = api_repository s" by (simp add: frame_def)
  from queue_matches_Inr [OF m source] obtain v ms where
    "matching_queue_sources (api_repository s) base (map (\<lambda>(n, i). fst i) identities) head (d - 30) w s3 = (Inr ms, v)"
    "frame v s4" "source \<in> ms" unfolding repo by blast
  with f target_still_Inr [OF k] have "tree_proved w s s4 c"
    unfolding tree_proved_def
    by (intro exI [of _ "map (\<lambda>(n, i). fst i) identities"] exI [of _ "d - 30"] exI [of _ s3] exI [of _ v]
        exI [of _ ms]) auto
  moreover have "frame s4 s5" using r by (rule observe_frame [OF observe_reread_identities])
  moreover have "frame s5 t" using k by (rule observe_frame [OF observe_target_still])
  ultimately show ?thesis
    using target_still_Inr [OF k] by (auto intro: target_seen_wider frame.none frame.both)
qed



lemma if_retE:
  assumes "(if b then retI x else m) w s = (Inr y, t)"
  obtains b and "x = y" and "t = s" | "\<not> b" and "m w s = (Inr y, t)"
  using assms by (auto split: if_splits)

text \<open>A node of the fallback changes nothing, or adds the candidate of its pull request.\<close>

lemma fallback_node_Inr:
  assumes "fallback_node head branch base (matching, tree) node w s = (Inr acc', t)"
    and "acc' \<noteq> (matching, tree)"
  obtains pr number tr pr_tree s2 s3 where
    "pr_candidate number (Some branch) w s = (Inr pr, s2)" "cand_base pr = base"
    "(case tree of Some t \<Rightarrow> retI t | None \<Rightarrow> commit_tree head) w s2 = (Inr tr, s3)"
    "(if cand_head pr = head then retI tr else commit_tree (cand_head pr)) w s3 = (Inr pr_tree, t)"
    "acc' = (if tr \<noteq> pr_tree then matching
           else matching @ [pr\<lparr>cand_base := base, cand_head := head, cand_number := number,
                  cand_scope := ''merge_group''\<rparr>], Some tr)"
proof -
  have never: "fallback_unready node oid head branch base e w s' \<noteq> (Inr pr, t')" for oid e s' pr t'
    by (auto simp: fallback_unready_def bindI_Inr split: option.splits if_splits prod.splits)
  have catch: "pr_candidate number (Some branch) w s' = (Inr pr, t')"
    if "catchI (pr_candidate number (Some branch)) (fallback_unready node oid head branch base) w s' = (Inr pr, t')"
    for number oid s' pr t'
    using that never unfolding catchI_Inr by blast
  from assms [unfolded fallback_node_def prod.case] show thesis
  proof (elim bindI_InrE if_retE if_raiseE liftI_InrE retI_InrE, goal_cases)
    case (5 base_oid s1 oid s2 number s3 pr s4 ref s5 tr s6 pr_tree s7)
    from catch [OF 5(5)] 5(7-) show thesis by (intro that [of "int_of number" pr s4 tr s6 pr_tree]) simp_all
  next
    case (6 base_oid s1 oid s2 number s3 pr s4 ref s5 tr s6 pr_tree s7)
    from catch [OF 6(5)] 6(7-) show thesis by (intro that [of "int_of number" pr s4 tr s6 pr_tree]) simp_all
  qed simp_all
qed


text \<open>What the fallback has established of its matches and of the tree of the queue commit.\<close>

definition fallback_inv ::
  "world \<Rightarrow> client \<Rightarrow> string \<Rightarrow> string \<Rightarrow> string \<Rightarrow> candidate list \<times> string option \<Rightarrow> client \<Rightarrow> bool" where
  "fallback_inv w s head branch base acc t \<longleftrightarrow> frame s t
     \<and> (\<forall>c \<in> set (fst acc). cand_base c = base \<and> cand_head c = head \<and> cand_scope c = ''merge_group''
          \<and> same_tree w s t branch c)
     \<and> (\<forall>tree. snd acc = Some tree \<longrightarrow> tree_seen w s t head tree)"

lemma fallback_inv_step:
  assumes inv: "fallback_inv w s head branch base acc u"
    and step: "fallback_node head branch base acc node w u = (Inr acc', t)"
  shows "fallback_inv w s head branch base acc' t"
proof (cases "acc' = acc")
  case True
  have ut: "frame u t" using step by (rule observe_frame [OF observe_fallback])
  from inv have "frame s u" by (simp add: fallback_inv_def)
  from frame.both [OF this ut] same_tree_wider [OF _ frame.none ut] tree_seen_wider [OF _ frame.none ut]
  show ?thesis using inv True by (auto simp: fallback_inv_def)
next
  case False
  obtain matching tree where acc: "acc = (matching, tree)" by (cases acc)
  obtain pr number tr pr_tree s2 s3 where
    pr: "pr_candidate number (Some branch) w u = (Inr pr, s2)" "cand_base pr = base"
    and tr: "(case tree of Some t \<Rightarrow> retI t | None \<Rightarrow> commit_tree head) w s2 = (Inr tr, s3)"
    and pt: "(if cand_head pr = head then retI tr else commit_tree (cand_head pr)) w s3 = (Inr pr_tree, t)"
    and acc': "acc' = (if tr \<noteq> pr_tree then matching
           else matching @ [pr\<lparr>cand_base := base, cand_head := head, cand_number := number,
                  cand_scope := ''merge_group''\<rparr>], Some tr)"
    by (rule fallback_node_Inr [OF step [unfolded acc] False [unfolded acc]])
  let ?c = "pr\<lparr>cand_base := base, cand_head := head, cand_number := number, cand_scope := ''merge_group''\<rparr>"
  have su: "frame s u" using inv by (simp add: fallback_inv_def)
  have u2: "frame u s2" using pr(1) by (rule observe_frame [OF observe_pr_candidate])
  have f23: "frame s2 s3" using tr commit_tree_Inr by (auto split: option.splits simp: frame.none)
  have f3t: "frame s3 t" using pt commit_tree_Inr by (auto split: if_splits simp: frame.none)
  have s2: "frame s s2" by (rule frame.both [OF su u2])
  have s3: "frame s s3" by (rule frame.both [OF s2 f23])
  have t2: "frame s2 t" by (rule frame.both [OF f23 f3t])
  have ut: "frame u t" by (rule frame.both [OF u2 t2])
  have st: "frame s t" by (rule frame.both [OF s3 f3t])
  have tree: "tree_seen w s t head tr"
  proof (cases tree)
    case None
    with tr commit_tree_Inr have "tree_seen w s2 s3 head tr" by simp
    then show ?thesis using s2 f3t by (rule tree_seen_wider)
  next
    case (Some x)
    with tr inv have "tree_seen w s u head tr" by (simp add: fallback_inv_def acc)
    then show ?thesis using frame.none ut by (rule tree_seen_wider)
  qed
  have new: "same_tree w s t branch ?c" if "tr = pr_tree"
  proof -
    have "cand_head pr = head \<or> tree_seen w s t (cand_head pr) tr"
      using pt commit_tree_Inr tree_seen_wider [OF _ s3 frame.none] that by (auto split: if_splits)
    with pr tree su t2 show ?thesis
      unfolding same_tree_def by (intro exI [of _ u] exI [of _ s2] exI [of _ pr]) auto
  qed
  have old: "same_tree w s t branch c" if "same_tree w s u branch c" for c
    using that frame.none ut by (rule same_tree_wider)
  from inv st tree new old acc acc' show ?thesis by (auto simp: fallback_inv_def)
qed

text \<open>
  C12. A queue candidate is fully bound. The rules allowed one entry at a time, the live target of
  the branch was the base and an ancestor of the queue commit, the source was proved by the queue
  tree or by an equal tree, and only then the live target was read again and was still the base.
\<close>

theorem queue_candidate_bound:
  assumes "queue_candidate head branch w s = (Inr c, t)"
  shows "\<exists>u v. is_sha head \<and> cand_head c = head \<and> cand_scope c = ''merge_group''
    \<and> rules_seen w s u branch \<and> target_seen w s u branch (cand_base c)
    \<and> ancestor_seen w s u (cand_base c) head
    \<and> (tree_proved w u v c \<or> same_tree w u v branch c)
    \<and> target_seen w v t branch (cand_base c)"
proof -
  obtain rules nodes base s1 s2 s3 u u0 where
    sha: "is_sha head"
    and r: "require_single_entry_queue branch w s = (Inr rules, s1)"
    and n: "queue_entries branch w s1 = (Inr nodes, s2)"
    and b: "target_revision branch w s2 = (Inr base, s3)"
    and a: "require_ancestor base head w s3 = (Inr u0, u)"
    and rest: "(if current_nodes head (filter (built_node base) nodes) \<noteq> [] then
       (if \<not> list_all (\<lambda>node. is_obj (dget node ''pullRequest'')) (current_nodes head (filter (built_node base) nodes))
        then raiseI (EligibilityError ''queue entry has no authoritative source PR'' [])
        else current_queue_candidate head branch base nodes rules (current_nodes head (filter (built_node base) nodes)))
     else
     bindI (foldI (fallback_node head branch base) ([], None) nodes) (\<lambda>(matching, tree).
     case matching of
       [candidate] \<Rightarrow>
         bindI (target_revision branch) (\<lambda>live.
         if live \<noteq> base
         then raiseI (EligibilityError ''queue target branch moved during verification; next event rechecks'' [])
         else retI candidate)
     | _ \<Rightarrow> raiseI (EligibilityError ''queue candidate has no unique exact source PR; multi-entry groups are unsupported'' []))) w u = (Inr c, t)"
  proof -
    from assms [unfolded queue_candidate_def Let_def] show thesis
      by (elim if_raiseE bindI_InrE liftI_InrE) (rule that, simp_all add: revision_Inr)
  qed
  have f: "frame s s1" "frame s1 s2" "frame s2 s3" "frame s3 u"
    using observe_frame [OF observe_rule_set r] observe_frame [OF observe_entries n]
      target_revision_Inr [OF b] require_ancestor_Inr [OF a] by auto
  have s2: "frame s s2" by (rule frame.both [OF f(1,2)])
  have s3: "frame s s3" by (rule frame.both [OF s2 f(3)])
  have u1: "frame s1 u" by (rule frame.both [OF f(2) frame.both [OF f(3,4)]])
  have start: "rules_seen w s u branch" "target_seen w s u branch base" "ancestor_seen w s u base head"
    using rules_seen_wider [OF require_single_entry_queue_Inr [OF r] frame.none u1]
      target_seen_wider [OF conjunct1 [OF target_revision_Inr [OF b]] s2 f(4)]
      ancestor_seen_wider [OF conjunct1 [OF require_ancestor_Inr [OF a]] s3 frame.none] by auto
  show ?thesis
  proof (cases "current_nodes head (filter (built_node base) nodes) = []")
    case False
    with rest have "current_queue_candidate head branch base nodes rules
        (current_nodes head (filter (built_node base) nodes)) w u = (Inr c, t)" by (simp split: if_splits)
    from current_queue_candidate_Inr [OF this] start sha show ?thesis by blast
  next
    case True
    with rest obtain matching tree v where
      fo: "foldI (fallback_node head branch base) ([], None) nodes w u = (Inr (matching, tree), v)"
      and m: "(case matching of
       [candidate] \<Rightarrow>
         bindI (target_revision branch) (\<lambda>live.
         if live \<noteq> base
         then raiseI (EligibilityError ''queue target branch moved during verification; next event rechecks'' [])
         else retI candidate)
     | _ \<Rightarrow> raiseI (EligibilityError ''queue candidate has no unique exact source PR; multi-entry groups are unsupported'' [])) w v = (Inr c, t)"
      by (auto elim!: bindI_InrE)
    from m have one: "matching = [c]" and l: "target_revision branch w v = (Inr base, t)"
      by (cases matching rule: remdups_adj.cases, auto simp: bindI_Inr split: if_splits)+
    have "fallback_inv w u head branch base ([], None) u"
      by (simp add: fallback_inv_def frame.none)
    with fo have "fallback_inv w u head branch base (matching, tree) v"
      by (rule foldI_inv [where P = "fallback_inv w u head branch base"]) (rule fallback_inv_step)
    with one start sha target_revision_Inr [OF l] show ?thesis
      by (intro exI [of _ u] exI [of _ v]) (auto simp: fallback_inv_def)
  qed
qed

subsection \<open>A queue candidate in a sample world\<close>

definition sample_rules :: "json list" where
  "sample_rules = [JObj [(''type'', JStr ''merge_queue''),
     (''parameters'', JObj [(''max_entries_to_build'', JInt 1), (''max_entries_to_merge'', JInt 1)])]]"

definition sample_node :: dict where
  "sample_node = [(''baseCommit'', JObj [(''oid'', JStr (sha_of CHR ''a''))]),
     (''headCommit'', JObj [(''oid'', JStr (sha_of CHR ''c''))]),
     (''pullRequest'', JObj [(''number'', JInt 7), (''headRefOid'', JStr (sha_of CHR ''b''))])]"

definition sample_queue :: json where
  "sample_queue = JObj [(''data'', JObj [(''repository'', JObj [(''mergeQueue'', JObj [(''entries'',
     JObj [(''totalCount'', JInt 1), (''nodes'', JList [JObj sample_node])])])])])]"

definition queue_table :: "(string \<times> json) list" where
  "queue_table = ([], sample_queue)
     # (''rules/branches/main?per_page=100&page=1'', JList sample_rules) # sample_table"

definition queue_world :: world where
  "queue_world = table_world queue_table\<lparr>git_process := (\<lambda>_. sample_git)\<rparr>"

definition sample_queue_candidate :: candidate where
  "sample_queue_candidate = \<lparr>cand_base = sha_of CHR ''a'', cand_head = sha_of CHR ''c'', cand_number = 7,
     source_head = sha_of CHR ''b'', actor_login = ''octocat'', actor_type = ''User'',
     cand_scope = ''merge_group'', cand_title = ''Update'', queue_target = ''main''\<rparr>"

lemma request_git: "request m p d (w\<lparr>git_process := g\<rparr>) s = request m p d w s"
  by (simp add: request_def bindI_def bump_def now_def http_def)

lemma get_git: "get p (w\<lparr>git_process := g\<rparr>) s = get p w s"
  by (simp add: get_def bindI_def request_git split: prod.splits sum.splits)

lemma queue_world_get:
  assumes "map_of sample_table path = Some (JObj d)" and "path \<noteq> []" and "hd path \<noteq> CHR ''r''"
    and "length path \<le> 1000" and "spare 1 s"
  shows "get path queue_world s = (Inr d, got path s)"
proof -
  have "map_of queue_table path = Some (JObj d)" using assms(1-3) by (auto simp: queue_table_def)
  from table_get [OF this assms(2,4)] assms(5) show ?thesis
    by (simp add: queue_world_def get_git spare_def)
qed

lemma queue_world_fields:
  "monotonic queue_world h = 0" "store_shallow queue_world h = False" "store_partial queue_world h = False"
  by (simp_all add: queue_world_def table_world_def quiet_world_def)

text \<open>What a request of the sample world leaves behind.\<close>

definition after :: "nat \<Rightarrow> client \<Rightarrow> client \<Rightarrow> bool" where
  "after n s t \<longleftrightarrow> api_repository t = api_repository s \<and> deadline t = deadline s \<and> requests t = requests s + n"

definition takes :: "world \<Rightarrow> nat \<Rightarrow> 'a api \<Rightarrow> 'a \<Rightarrow> bool" where
  "takes w n m v \<longleftrightarrow> (\<forall>s. spare n s \<longrightarrow> (\<exists>t. after n s t \<and> m w s = (Inr v, t)))"

lemma takesI: "(\<And>s. spare n s \<Longrightarrow> \<exists>t. after n s t \<and> m w s = (Inr v, t)) \<Longrightarrow> takes w n m v"
  by (simp add: takes_def)

text \<open>The state it leaves, as a term that keeps concrete runs small.\<close>

definition left :: "'a api \<Rightarrow> world \<Rightarrow> client \<Rightarrow> client" where
  "left m w s = snd (m w s)"

lemma takes_run:
  assumes "takes w n m v" and "spare n s"
  shows "m w s = (Inr v, left m w s)" and "spare k (left m w s) \<longleftrightarrow> spare (k + n) s"
    and "api_repository (left m w s) = ''Strukturpiloten/boxferry''" and "deadline (left m w s) = 480"
proof -
  from assms obtain t where t: "after n s t" "m w s = (Inr v, t)" by (auto simp: takes_def)
  then show "m w s = (Inr v, left m w s)" by (simp add: left_def)
  show "spare k (left m w s) \<longleftrightarrow> spare (k + n) s"
    "api_repository (left m w s) = ''Strukturpiloten/boxferry''" "deadline (left m w s) = 480"
    using t assms(2) by (simp_all add: left_def after_def spare_def add.commute add.left_commute)
qed

lemma sample_rule_set:
  "takes queue_world 1 (require_single_entry_queue ''main'') ((map dict_of sample_rules))"
proof (rule takesI)
  fix s
  assume assms: "spare 1 s"
  let ?p = "''rules/branches/main?per_page=100&page=1''"
  have "map_of queue_table ?p = Some (JList sample_rules)" by (simp add: queue_table_def)
  from table_request [OF this, of s] assms
  have "request ''GET'' (repo_path (api_repository s) ?p) None queue_world s = (Inr (JList sample_rules), got ?p s)"
    by (simp add: queue_world_def request_git spare_def)
  moreover have "list_all is_obj sample_rules" by (simp add: sample_rules_def)
  ultimately have i: "items ?p queue_world s = (Inr (map dict_of sample_rules), got ?p s)"
    unfolding items_Inr by blast
  then have "require_single_entry_queue ''main'' queue_world s = (Inr (map dict_of sample_rules), got ?p s)"
    by (simp add: require_single_entry_queue_def sample_names, simp add: sample_rules_def one_entry_def)
  moreover have "after 1 s (got ?p s)" by (simp add: after_def)
  ultimately show "\<exists>t. after 1 s t \<and> require_single_entry_queue ''main'' queue_world s = (Inr ((map dict_of sample_rules)), t)" by blast
qed

lemma sample_entries:
  "takes queue_world 1 (queue_entries ''main'') ([sample_node])"
proof (rule takesI)
  fix s
  assume assms: "spare 1 s"
  let ?d = "Some (JObj [(''query'', JStr queue_query), (''variables'', JObj [(''owner'', JStr ''Strukturpiloten''),
      (''name'', JStr ''boxferry''), (''branch'', JStr ''main'')])])"
  let ?t = "s\<lparr>requests := requests s + 1, trace := Request ''POST'' ''/graphql'' ?d # Clock # trace s\<rparr>"
  have "request ''POST'' ''/graphql'' ?d queue_world s = (Inr sample_queue, ?t)"
    using assms by (simp add: request_Inr answered_def queue_world_def table_world_def quiet_world_def
        reply_value_def queue_table_def MAX_JSON_BYTES_def startswith_def spare_def)
  moreover have "queue_nodes sample_queue = Inr [sample_node]"
    by (simp add: queue_nodes_def sample_queue_def)
  moreover have "split_on CHR ''/'' ''Strukturpiloten/boxferry'' = [''Strukturpiloten'', ''boxferry'']" by simp
  ultimately have "queue_entries ''main'' queue_world s = (Inr [sample_node], ?t)"
    using assms by (simp add: queue_entries_def spare_def)
  moreover have "after 1 s ?t" by (simp add: after_def)
  ultimately show "\<exists>t. after 1 s t \<and> queue_entries ''main'' queue_world s = (Inr ([sample_node]), t)" by blast
qed

lemma sample_queue_identity:
  "takes queue_world 1 (queue_pr_identity 7 ''main'' b) ((sha_of CHR ''b'', ''octocat'', ''User'', ''Update''))"
proof (rule takesI)
  fix s
  assume assms: "spare 1 s"
  have "get ''pulls/7'' queue_world s = (Inr sample_pr, got ''pulls/7'' s)"
    using assms by (intro queue_world_get) (simp_all add: sample_rows)
  moreover have "queue_identity_of sample_pr ''Strukturpiloten/boxferry'' 7 ''main'' b
      = Inr (sha_of CHR ''b'', ''octocat'', ''User'', ''Update'')"
    by (simp add: queue_identity_of_def sample_pr_def pr_state_ok_def in_repository_def author_ok_def author_def
        title_ok_def nonempty_str_def has_line_break_def revision_def sample_hex optional_revision_def Let_def
        py_len_def continuation_def ord_def carriage_def newline_def nul_def)
  moreover have "after 1 s (got ''pulls/7'' s)" by (simp add: after_def)
  ultimately show "\<exists>t. after 1 s t \<and> queue_pr_identity 7 ''main'' b queue_world s = (Inr ((sha_of CHR ''b'', ''octocat'', ''User'', ''Update'')), t)" using assms by (auto simp: queue_pr_identity_def sample_names spare_def)
qed

lemma queue_world_target:
  "takes queue_world 1 (target_revision ''main'') ((sha_of CHR ''a''))"
proof (rule takesI)
  fix s
  assume assms: "spare 1 s"
  have "get ''git/ref/heads/main'' queue_world s = (Inr sample_ref, got ''git/ref/heads/main'' s)"
    using assms by (intro queue_world_get) (simp_all add: sample_rows)
  moreover have "after 1 s (got ''git/ref/heads/main'' s)" by (simp add: after_def)
  ultimately show "\<exists>t. after 1 s t \<and> target_revision ''main'' queue_world s = (Inr ((sha_of CHR ''a'')), t)"
    by (auto simp: target_revision_def sample_names sample_ref_def revision_def sample_hex)
qed

lemma queue_world_ancestor:
  "takes queue_world 1 (require_ancestor (sha_of CHR ''a'') (sha_of CHR ''c'')) ()"
proof (rule takesI)
  fix s
  assume assms: "spare 1 s"
  let ?p = "''compare/'' @ sha_of CHR ''a'' @ ''...'' @ sha_of CHR ''c''"
  have "get ?p queue_world s = (Inr (sample_ahead CHR ''a''), got ?p s)"
    using assms sample_rows(3) by (intro queue_world_get) (simp_all, simp_all add: sha_of_def)
  moreover have "after 1 s (got ?p s)" by (simp add: after_def)
  ultimately show "\<exists>t. after 1 s t \<and> require_ancestor (sha_of CHR ''a'') (sha_of CHR ''c'') queue_world s = (Inr (), t)" by (auto simp: require_ancestor_def sample_ahead_def in_strings_def)
qed

lemma sample_time:
  assumes "reserve < 480"
  shows "takes queue_world 0 (in_time reserve e) ()"
proof (rule takesI)
  fix s
  assume spare: "spare 0 s"
  have "in_time reserve e queue_world s = (Inr (), s\<lparr>trace := Clock # trace s\<rparr>)"
    using assms spare by (simp add: in_time_def now_def bindI_def requireI_def queue_world_fields spare_def)
  moreover have "after 0 s (s\<lparr>trace := Clock # trace s\<rparr>)" by (simp add: after_def)
  ultimately show "\<exists>t. after 0 s t \<and> in_time reserve e queue_world s = (Inr (), t)" by blast
qed

lemma queue_world_git:
  assumes "git_result args (sample_git args) = Inr out" and "0 < limit"
  shows "queue_git limit args queue_world s = (Inr out, s\<lparr>trace := GitRun args # Clock # trace s\<rparr>)"
  using assms by (simp add: queue_git_Inr queue_world_fields) (simp add: queue_world_def)

lemma queue_world_matches:
  "\<exists>tr. matching_queue_sources ''Strukturpiloten/boxferry'' (sha_of CHR ''a'') [sha_of CHR ''b'']
      (sha_of CHR ''c'') 450 queue_world s = (Inr {sha_of CHR ''b''}, s\<lparr>trace := tr\<rparr>)"
  by (simp add: matching_queue_sources_def prove_candidate_def check_identity_def source_match_def
      merged_tree_def merge_tree_args_def queue_world_git sample_git_out sample_git_silent
      sample_texts sample_hex unique_def Let_def REPOSITORIES_def MAX_SOURCES_def MAX_SECONDS_def
      fetch_args_def endswith_def queue_world_fields now_def requireI_def del: set_filter cong: run_congs)
    (rule exI, rule refl)


lemma queue_world_proof:
  "takes queue_world 0 (queue_matches (sha_of CHR ''a'') (sha_of CHR ''c'') [sha_of CHR ''b''] 450) {sha_of CHR ''b''}"
proof (rule takesI)
  fix s
  assume s: "spare 0 s"
  obtain tr where "matching_queue_sources ''Strukturpiloten/boxferry'' (sha_of CHR ''a'') [sha_of CHR ''b'']
      (sha_of CHR ''c'') 450 queue_world s = (Inr {sha_of CHR ''b''}, s\<lparr>trace := tr\<rparr>)"
    using queue_world_matches ..
  then have "queue_matches (sha_of CHR ''a'') (sha_of CHR ''c'') [sha_of CHR ''b''] 450 queue_world s
      = (Inr {sha_of CHR ''b''}, s\<lparr>trace := tr\<rparr>)"
    using s by (simp add: queue_matches_def verify_queue_tree_def spare_def)
  moreover have "after 0 s (s\<lparr>trace := tr\<rparr>)" by (simp add: after_def)
  ultimately show "\<exists>t. after 0 s t \<and> queue_matches (sha_of CHR ''a'') (sha_of CHR ''c'') [sha_of CHR ''b''] 450
      queue_world s = (Inr {sha_of CHR ''b''}, t)" by blast
qed

lemmas queue_world_runs =
  takes_run [OF sample_rule_set] takes_run [OF sample_entries] takes_run [OF sample_queue_identity]
  takes_run [OF queue_world_target] takes_run [OF queue_world_ancestor] takes_run [OF sample_time]
  takes_run [OF queue_world_proof]

lemma sample_dicts:
  "same_dicts (map dict_of sample_rules) (map dict_of sample_rules)" "same_dicts [sample_node] [sample_node]"
  by (simp_all add: same_dicts_def sample_rules_def sample_node_def)

lemma sample_nodes:
  "built_node (sha_of CHR ''a'') sample_node"
  "node_head sample_node = JStr (sha_of CHR ''c'')"
  "current_nodes (sha_of CHR ''c'') [sample_node] = [sample_node]"
  "is_obj (dget sample_node ''pullRequest'')"
  "attr_get (dget sample_node ''pullRequest'') ''number'' = Inr (JInt 7)"
  "node_names sample_node (sha_of CHR ''b'') [sha_of CHR ''c'', sha_of CHR ''b''] = Inr True"
  by (simp_all add: sample_node_def built_node_def node_head_def current_nodes_def sample_hex node_names_def
      in_strings_def)

lemma sample_bind_node:
  "spare 1 s \<Longrightarrow> bind_node (sha_of CHR ''c'') ''main'' (sha_of CHR ''a'') False sample_node queue_world s
     = (Inr (7, sha_of CHR ''b'', ''octocat'', ''User'', ''Update''), left (queue_pr_identity 7 ''main'' False) queue_world s)"
  by (simp add: bind_node_def queue_world_runs sample_nodes cong: run_congs)

lemma takes_count: "takes w n m v \<Longrightarrow> spare n s \<Longrightarrow> requests (left m w s) = requests s + n"
  by (auto simp: takes_def left_def after_def) 

lemmas queue_world_counts =
  takes_count [OF sample_rule_set] takes_count [OF sample_entries] takes_count [OF sample_queue_identity]
  takes_count [OF queue_world_target] takes_count [OF queue_world_ancestor] takes_count [OF sample_time]
  takes_count [OF queue_world_proof]

lemma takesI_run: "(\<And>s. spare n s \<Longrightarrow> \<exists>t. m w s = (Inr v, t) \<and> after n s t) \<Longrightarrow> takes w n m v"
  by (auto simp: takes_def)

lemma spare_fields: "spare n s \<Longrightarrow> api_repository s = ''Strukturpiloten/boxferry'' \<and> deadline s = 480"
  by (simp add: spare_def)

lemma sample_target_takes:
  "takes queue_world 4 (target_still ''main'' (sha_of CHR ''a'') matches identities (map dict_of sample_rules) [sample_node]
     binding) binding"
proof (rule takesI_run)
  fix s :: client
  assume assms: "spare 4 s"
  have sp: "spare k s" if "k \<le> 4" for k using that assms by (simp add: spare_def)
  show "\<exists>t. target_still ''main'' (sha_of CHR ''a'') matches identities (map dict_of sample_rules) [sample_node]
     binding queue_world s = (Inr binding, t) \<and> after 4 s t"
    by (simp add: target_still_def reread_queue_def queue_world_runs queue_world_counts sp sample_dicts after_def
       spare_fields [OF assms] cong: run_congs)
qed

lemma sample_current_takes:
  "takes queue_world 6 (current_queue_candidate (sha_of CHR ''c'') ''main'' (sha_of CHR ''a'') [sample_node]
     (map dict_of sample_rules) [sample_node]) sample_queue_candidate"
proof (rule takesI_run)
  fix s :: client
  assume assms: "spare 6 s"
  have sp: "spare k s" if "k \<le> 6" for k using that assms by (simp add: spare_def)
  let ?s = "left (queue_pr_identity 7 ''main'' False) queue_world s"
  let ?i = "[(7, sha_of CHR ''b'', ''octocat'', ''User'', ''Update'')]"
  have "mapI (bind_node (sha_of CHR ''c'') ''main'' (sha_of CHR ''a'') (1 < length [sample_node])) [sample_node] queue_world s
     = (Inr ?i, ?s)" by (simp add: sample_bind_node sp cong: run_congs)
  moreover have "reread_identities ''main'' {sha_of CHR ''b''} ?i m queue_world u
      = (Inr (), left (queue_pr_identity 7 ''main'' False) queue_world u)" if "spare 1 u" for u m
    using that by (simp add: reread_identities_def queue_world_runs cong: run_congs)
  ultimately show "\<exists>t. current_queue_candidate (sha_of CHR ''c'') ''main'' (sha_of CHR ''a'') [sample_node]
     (map dict_of sample_rules) [sample_node] queue_world s = (Inr sample_queue_candidate, t) \<and> after 6 s t"
    by (simp add: current_queue_candidate_def MAX_SOURCES_def queue_world_runs queue_world_counts sp
        sample_queue_candidate_def [symmetric] takes_run [OF sample_target_takes] takes_count [OF sample_target_takes] after_def spare_fields [OF assms]
        del: mapI.simps cong: run_congs)
qed

lemma sample_queue_takes:
  "takes queue_world 10 (queue_candidate (sha_of CHR ''c'') ''main'') sample_queue_candidate"
proof (rule takesI_run)
  fix s :: client
  assume assms: "spare 10 s"
  have sp: "spare k s" if "k \<le> 10" for k using that assms by (simp add: spare_def)
  show "\<exists>t. queue_candidate (sha_of CHR ''c'') ''main'' queue_world s = (Inr sample_queue_candidate, t) \<and> after 10 s t"
    by (simp add: queue_candidate_def queue_world_runs queue_world_counts takes_run [OF sample_current_takes]
       takes_count [OF sample_current_takes] after_def spare_fields [OF assms] revision_def sample_hex sample_nodes Let_def sp cong: run_congs)
qed

lemma sample_queue_run:
  "\<exists>t. queue_candidate (sha_of CHR ''c'') ''main'' queue_world sample_client = (Inr sample_queue_candidate, t)"
  using takes_run(1) [OF sample_queue_takes, of sample_client] by auto

theorem queue_candidate_bound_witness:
  "\<exists>t. queue_candidate (sha_of CHR ''c'') ''main'' queue_world sample_client = (Inr sample_queue_candidate, t)
   \<and> (\<exists>u v. rules_seen queue_world sample_client u ''main''
        \<and> target_seen queue_world v t ''main'' (sha_of CHR ''a''))"
proof -
  from sample_queue_run obtain t where run: "queue_candidate (sha_of CHR ''c'') ''main'' queue_world sample_client
      = (Inr sample_queue_candidate, t)" ..
  from queue_candidate_bound [OF run] run show ?thesis
    by (auto simp: sample_queue_candidate_def)
qed


section \<open>Changed paths and error texts\<close>

definition safe_changed_path :: "string \<Rightarrow> bool" where
  "safe_changed_path path \<longleftrightarrow> \<not> startswith path ''/'' \<and> ''..'' \<notin> set (split_on CHR ''/'' path)
     \<and> backslash \<notin> set path"

lemma changed_item_safe:
  assumes "changed_item v = Inr ps"
  shows "length ps \<le> 2 \<and> (\<forall>p \<in> set ps. safe_changed_path p)"
proof -
  have key: "length xs \<le> 1 \<and> (\<forall>p \<in> set xs. safe_changed_path p)"
    if "(if path = JNull then Inr []
        else if \<not> is_str path \<or> startswith (str_of path) ''/''
                \<or> ''..'' \<in> set (split_on CHR ''/'' (str_of path)) \<or> backslash \<in> set (str_of path)
        then Inl (EligibilityError ''candidate metadata contains an unsafe repository path'' [])
        else Inr [str_of path]) = Inr xs" for path xs
    using that by (auto simp: safe_changed_path_def split: if_splits)
  from assms obtain a b where "ps = a @ b" and a: "length a \<le> 1 \<and> (\<forall>p \<in> set a. safe_changed_path p)"
    and b: "length b \<le> 1 \<and> (\<forall>p \<in> set b. safe_changed_path p)"
    unfolding changed_item_def mapR.simps by (elim bindR_InrE) (drule key, drule key, auto)
  then show ?thesis by auto
qed

lemma concat_bounded: "(\<And>x. x \<in> set xs \<Longrightarrow> length x \<le> k) \<Longrightarrow> length (concat xs) \<le> k * length xs"
  by (induction xs) (auto, force)

text \<open>
  The changed paths of a candidate are sorted without repetition, at most two for each of
  fewer than 300 files, and none leaves the repository; the comparison they come from was made
  against the exact base of the candidate.
\<close>

theorem changed_paths_safe:
  assumes "changed_paths c w s = (Inr ps, t)"
  shows "sorted ps \<and> distinct ps \<and> length ps \<le> 598 \<and> (\<forall>p \<in> set ps. safe_changed_path p)
    \<and> (\<exists>d. observed w s t (''compare/'' @ cand_base c @ ''...'' @ cand_head c @ ''?per_page=100'') (JObj d)
         \<and> attr_get (dget_or d ''merge_base_commit'' (JObj [])) ''sha'' = Inr (JStr (cand_base c)))"
proof -
  obtain d paths s' sha where g: "get (''compare/'' @ cand_base c @ ''...'' @ cand_head c @ ''?per_page=100'') w s = (Inr d, s')"
    and sha: "\<not> sha \<noteq> JStr (cand_base c)"
    and files: "\<not> (\<not> is_list (dget d ''files'') \<or> 300 \<le> length (list_of (dget d ''files'')))"
    and a: "attr_get (dget_or d ''merge_base_commit'' (JObj [])) ''sha'' = Inr sha"
    and m: "mapR changed_item (list_of (dget d ''files'')) = Inr paths"
    and ps: "sorted_strings (set (concat paths)) = ps" and t: "t = s'"
    using assms unfolding changed_paths_def Let_def
    by (elim bindI_InrE if_raiseE liftI_InrE retI_InrE) simp
  have item: "length x \<le> 2 \<and> (\<forall>p \<in> set x. safe_changed_path p)" if "x \<in> set paths" for x
    using mapR_in_set [OF m that] changed_item_safe by blast
  have "length paths < 300" using mapR_length [OF m] files by simp
  then have "length (concat paths) \<le> 598" using concat_bounded [of paths 2] item by force
  moreover have "length ps = card (set (concat paths))" using ps by auto
  ultimately have "length ps \<le> 598" by (metis card_length le_trans)
  with ps item get_observed [OF g] a sha t show ?thesis by auto
qed

definition files_table :: "(string \<times> json) list" where
  "files_table = [(''compare/'' @ sha_of CHR ''a'' @ ''...'' @ sha_of CHR ''c'' @ ''?per_page=100'',
     JObj [(''merge_base_commit'', JObj [(''sha'', JStr (sha_of CHR ''a''))]),
       (''files'', JList [JObj [(''filename'', JStr ''b.rs''), (''previous_filename'', JStr ''a.rs'')],
          JObj [(''filename'', JStr ''a.rs'')]])])]"

theorem changed_paths_safe_witness:
  "\<exists>t. changed_paths sample_pr_candidate (table_world files_table) sample_client = (Inr [''a.rs'', ''b.rs''], t)
     \<and> safe_changed_path ''b.rs''"
proof -
  let ?p = "''compare/'' @ sha_of CHR ''a'' @ ''...'' @ sha_of CHR ''c'' @ ''?per_page=100''"
  let ?d = "[(''merge_base_commit'', JObj [(''sha'', JStr (sha_of CHR ''a''))]),
       (''files'', JList [JObj [(''filename'', JStr ''b.rs''), (''previous_filename'', JStr ''a.rs'')],
          JObj [(''filename'', JStr ''a.rs'')]])]"
  have "get ?p (table_world files_table) sample_client = (Inr ?d, got ?p sample_client)"
    by (rule table_get) (simp_all add: files_table_def sample_client_def, simp add: sha_of_def)
  moreover have "mapR changed_item (list_of (dget ?d ''files'')) = Inr [[''b.rs'', ''a.rs''], [''a.rs'']]"
    by code_simp
  moreover have "sorted_strings {''a.rs'', ''b.rs'', ''a.rs''} = [''a.rs'', ''b.rs'']"
    by code_simp
  ultimately have "changed_paths sample_pr_candidate (table_world files_table) sample_client
      = (Inr [''a.rs'', ''b.rs''], got ?p sample_client)"
    by (simp add: changed_paths_def sample_pr_candidate_def del: sorted_list_of_set_insert_remove sorted_list_of_set_insert)
  from changed_paths_safe [OF this] this show ?thesis by auto
qed

text \<open>What a GraphQL error may be reported as: closed words, whatever the server sent.\<close>

definition error_vocabulary :: "string set" where
  "error_vocabulary = insert ''graphql=INVALID_RESPONSE'' (insert ''graphql=INVALID_ERRORS''
     (insert ''additional_errors=OMITTED''
       {''type='' @ a @ '',code='' @ b @ '',field='' @ f | a b f. a \<in> insert ''UNKNOWN'' (set known_types)
          \<and> b \<in> insert ''UNKNOWN'' (set known_codes) \<and> f \<in> insert ''UNKNOWN'' (snd ` set error_fields)}))"

lemma known_or_closed: "known_or known v \<in> insert ''UNKNOWN'' (set known)"
  by (simp add: known_or_def)

lemma error_field_closed: "error_field v \<in> insert ''UNKNOWN'' (snd ` set error_fields)"
  by (auto simp: error_field_def split: json.splits option.splits dest!: map_of_SomeD) force

text \<open>
  The report of a failed queue query is at most nine entries of a closed vocabulary: no text
  the server sent reaches a diagnostic.
\<close>

theorem queue_errors_closed:
  "\<exists>ps. queue_graphql_errors v = join ''; '' ps \<and> length ps \<le> 9 \<and> set ps \<subseteq> error_vocabulary"
proof -
  have one: "graphql_error e \<in> error_vocabulary" for e
    unfolding graphql_error_def error_vocabulary_def Let_def
    using known_or_closed error_field_closed by blast
  define es where "es = list_of (dget (dict_of v) ''errors'')"
  define ps where "ps = map graphql_error (take 8 es) @ (if 8 < length es then [''additional_errors=OMITTED''] else [])"
  have "length ps \<le> 9" "set ps \<subseteq> error_vocabulary"
    using one by (auto simp: ps_def error_vocabulary_def)
  moreover have "queue_graphql_errors v = join ''; '' ps
      \<or> queue_graphql_errors v \<in> {''graphql=INVALID_RESPONSE'', ''graphql=INVALID_ERRORS''}"
    by (auto simp: queue_graphql_errors_def Let_def ps_def es_def)
  moreover have "join ''; '' [x] = x" for x by simp
  ultimately show ?thesis
    by (elim disjE) (blast, rule exI [of _ "[queue_graphql_errors v]"], auto simp: error_vocabulary_def)
qed

end
