(* ===== verification/EligState.thy ===== *)
theory EligState
  imports Candidate
begin

text \<open>
  The persisted state of the eligibility service (\<open>eligibility.py\<close>, \<open>service_revision\<close> to
  \<open>previous_state\<close>): which runs are trusted, how their artifact is decoded, the validation of the
  state in it, and the search for the newest usable one.
\<close>

section \<open>Iteration and comparison of JSON values\<close>

text \<open>\<open>for x in v\<close>: the items of a list, the keys of a dictionary, the characters of a string.\<close>

fun iter_items :: "json \<Rightarrow> json list res" where
  "iter_items (JList xs) = Inr xs"
| "iter_items (JObj d) = Inr (map (\<lambda>(k, v). JStr k) d)"
| "iter_items (JStr s) = Inr (map JStr (utf8_chars s))"
| "iter_items _ = Inl TypeError"

text \<open>\<open>v[:n]\<close> and \<open>v > n\<close>.\<close>

fun take_items :: "nat \<Rightarrow> json \<Rightarrow> json list res" where
  "take_items n (JList xs) = Inr (take n xs)"
| "take_items n (JStr s) = Inr (take n (map JStr (utf8_chars s)))"
| "take_items n (JObj d) = Inl (KeyError ''slice'')"
| "take_items n _ = Inl TypeError"

fun json_gt :: "json \<Rightarrow> int \<Rightarrow> bool res" where
  "json_gt (JInt i) n = Inr (n < i)"
| "json_gt (JBool b) n = Inr (n < of_bool b)"
| "json_gt (JFloat (Finite r)) n = Inr (of_int n < r)"
| "json_gt (JFloat PosInf) n = Inr True"
| "json_gt (JFloat NegInf) n = Inr False"
| "json_gt (JFloat NaN) n = Inr False"
| "json_gt _ n = Inl TypeError"

section \<open>Trusted runs\<close>

definition WORKFLOW_PATH :: string where
  "WORKFLOW_PATH = ''.github/workflows/dependency-eligibility.yml''"

definition SHARED_WORKFLOW_PATH :: string where
  "SHARED_WORKFLOW_PATH =
     ''Strukturpiloten/boxferry/.github/workflows/shared-dependency-eligibility.yml''"

definition ARTIFACT_NAME :: string where "ARTIFACT_NAME = ''dependency-eligibility-state-v1''"
definition STATE_FILE :: string where "STATE_FILE = ''eligibility-state.json''"
definition ALLOWED_EVENTS :: "string list" where "ALLOWED_EVENTS = [''schedule'', ''workflow_run'']"

text \<open>The sources of the references to the shared workflow; \<open>None\<close> for a malformed one.\<close>

fun shared_sources :: "json list \<Rightarrow> string list option" where
  "shared_sources [] = Some []"
| "shared_sources (ref # refs) =
     (if \<not> is_obj ref then None
      else let path = dget (dict_of ref) ''path''; pre = SHARED_WORKFLOW_PATH @ ''@'' in
        if \<not> is_str path \<or> \<not> startswith (str_of path) pre then shared_sources refs
        else let source = removeprefix (str_of path) pre in
          if \<not> is_sha source \<or> dget (dict_of ref) ''sha'' \<noteq> JStr source then None
          else map_option (Cons source) (shared_sources refs))"

definition service_revision :: "dict \<Rightarrow> string option" where
  "service_revision run =
     (let references = dget run ''referenced_workflows'' in
      if \<not> is_list references then None
      else (case shared_sources (list_of references) of
          None \<Rightarrow> None
        | Some sources \<Rightarrow> (case remdups sources of [source] \<Rightarrow> Some source | _ \<Rightarrow> None)))"

text \<open>The comparison \<open>base...head\<close> of a repository confirms the base as an ancestor.\<close>

definition source_ancestor :: "string \<Rightarrow> string \<Rightarrow> bool api" where
  "source_ancestor source implementation =
     (if \<not> is_sha source \<or> \<not> is_sha implementation then retI False
      else if source = implementation then retI True
      else
      bindI (request ''GET'' (''/repos/Strukturpiloten/boxferry/compare/'' @ source @ ''...'' @ implementation)
               None) (\<lambda>comparison.
      if \<not> is_obj comparison then retI False
      else let merge_base = dget (dict_of comparison) ''merge_base_commit'' in
      bindI (liftI (in_strings (dget (dict_of comparison) ''status'') [''ahead'', ''identical''])) (\<lambda>ok.
      retI (ok \<and> is_obj merge_base \<and> dget (dict_of merge_base) ''sha'' = JStr source))))"

definition expected_run :: "dict \<Rightarrow> string \<Rightarrow> string \<Rightarrow> bool res" where
  "expected_run run repository default_branch =
     bindR (attr_get (dget_or run ''repository'' (JObj [])) ''full_name'') (\<lambda>name.
     if name \<noteq> JStr repository then Inr False
     else
     bindR (in_strings (dget run ''event'') ALLOWED_EVENTS) (\<lambda>ok.
     Inr (ok \<and> dget run ''path'' = JStr WORKFLOW_PATH
       \<and> dget run ''head_branch'' = JStr default_branch
       \<and> dget run ''conclusion'' = JStr ''success'' \<and> dget run ''status'' = JStr ''completed'')))"

definition trusted_run :: "dict \<Rightarrow> string \<Rightarrow> string \<Rightarrow> bool \<Rightarrow> bool api" where
  "trusted_run run implementation default_branch allow_ancestor_observations =
     bindI (getI api_repository) (\<lambda>repository.
     bindI (liftI (expected_run run repository default_branch)) (\<lambda>ok.
     if \<not> ok then retI False
     else (case service_revision run of
         None \<Rightarrow> retI False
       | Some source \<Rightarrow>
           bindI (if source = implementation then retI True
                  else if \<not> allow_ancestor_observations then retI False
                  else source_ancestor source implementation) (\<lambda>known.
           if \<not> known then retI False
           else let head = dget run ''head_sha'' in
             if \<not> is_sha_str head then retI False
             else
             bindI (get (''compare/'' @ str_of head @ ''...'' @ quote [] default_branch)) (\<lambda>comparison.
             liftI (in_strings (dget comparison ''status'') [''ahead'', ''identical'']))))))"

section \<open>The artifact\<close>

definition decode_artifact ::
  "(string \<Rightarrow> (string \<times> nat \<times> bool \<times> string option) list option) \<Rightarrow> (string \<Rightarrow> json option)
   \<Rightarrow> string \<Rightarrow> dict res" where
  "decode_artifact members decode raw =
     (let undecodable = EligibilityError ''trusted artifact cannot be decoded'' [] in
      case members raw of
        None \<Rightarrow> Inl undecodable
      | Some [(filename, file_size, encrypted, content)] \<Rightarrow>
          if filename \<noteq> STATE_FILE
          then Inl (EligibilityError ''trusted artifact has unexpected archive members'' [])
          else if MAX_STATE_BYTES < file_size \<or> encrypted
          then Inl (EligibilityError ''trusted artifact is oversized or encrypted'' [])
          else (case content of
              None \<Rightarrow> Inl undecodable
            | Some bytes \<Rightarrow> (case decode bytes of
                None \<Rightarrow> Inl undecodable
              | Some v \<Rightarrow>
                  if \<not> is_obj v then Inl (EligibilityError ''trusted artifact JSON is not an object'' [])
                  else Inr (dict_of v)))
      | Some _ \<Rightarrow> Inl (EligibilityError ''trusted artifact has unexpected archive members'' []))"

definition run_artifact :: "int \<Rightarrow> dict api" where
  "run_artifact run_id =
     bindI (get (''actions/runs/'' @ show_int run_id @ ''/artifacts?per_page=100'')) (\<lambda>artifacts.
     bindI (liftI (iter_items (dget_or artifacts ''artifacts'' (JList [])))) (\<lambda>xs.
     bindI (liftI (mapR (\<lambda>x. attr_get x ''name'') xs)) (\<lambda>names.
     let missing = EligibilityError ''trusted service run has no unique live state artifact'' [] in
     case filter (\<lambda>(x, name). name = JStr ARTIFACT_NAME) (zip xs names) of
       [(x, name)] \<Rightarrow>
         let d = dict_of x in
         if truthy (dget d ''expired'') then raiseI missing
         else if \<not> is_int (dget d ''id'')
         then raiseI (EligibilityError ''trusted state artifact metadata exceeds its bounds'' [])
         else
         bindI (liftI (json_gt (dget_or d ''size_in_bytes'' (JInt (int MAX_STATE_BYTES + 1)))
                  (int MAX_STATE_BYTES))) (\<lambda>large.
         if large
         then raiseI (EligibilityError ''trusted state artifact metadata exceeds its bounds'' [])
         else
         bindI (artifact (int_of (dget d ''id''))) (\<lambda>raw.
         bindI (askI (\<lambda>w. (zip_members w, decode_json w))) (\<lambda>(members, decode).
         liftI (decode_artifact members decode raw))))
     | _ \<Rightarrow> raiseI missing)))"

section \<open>Validation of a persisted state\<close>

type_synonym clock_reader = "string \<Rightarrow> (rat option \<times> bool) option"

definition is_sha256_str :: "json \<Rightarrow> bool" where
  "is_sha256_str v = (is_str v \<and> is_sha256 (str_of v))"

definition check_provenance :: "dict \<Rightarrow> string \<Rightarrow> int \<Rightarrow> string \<Rightarrow> unit res" where
  "check_provenance v repository run_id implementation =
     (if dget v ''schema'' \<noteq> JInt 1 \<or> dget v ''repository'' \<noteq> JStr repository
         \<or> \<not> py_eq (dget v ''run_id'') (JInt run_id)
         \<or> dget v ''implementation_revision'' \<noteq> JStr implementation
         \<or> dget v ''workflow_path'' \<noteq> JStr WORKFLOW_PATH
      then Inl (EligibilityError ''trusted artifact provenance does not match the verified run'' [])
      else require (\<not> has_key v ''run_attempt'' \<or> positive_int (dget v ''run_attempt''))
        (EligibilityError ''trusted service artifact has an invalid run attempt'' []))"

definition check_first_seen :: "clock_reader \<Rightarrow> rat \<Rightarrow> string \<times> json \<Rightarrow> unit res" where
  "check_first_seen fromiso seen_until kv =
     (if \<not> is_sha256 (fst kv)
      then Inl (EligibilityError ''trusted first-seen key is not an immutable artifact identity'' [])
      else bindR (utc fromiso (snd kv)) (\<lambda>t. require (t \<le> seen_until)
        (EligibilityError ''trusted first-seen time is later than its observation'' [])))"

definition check_dependency_state :: "clock_reader \<Rightarrow> rat \<Rightarrow> json \<Rightarrow> unit res" where
  "check_dependency_state fromiso seen_until dependency =
     (let first_seen = dget (dict_of dependency) ''first_seen'' in
      if \<not> is_obj dependency \<or> dget (dict_of dependency) ''schema_version'' \<noteq> JInt 1
      then Inl (EligibilityError ''trusted dependency state schema is invalid'' [])
      else if \<not> is_obj first_seen \<or> 4096 < length (dict_of first_seen)
      then Inl (EligibilityError ''trusted first-seen state exceeds its bounds'' [])
      else checkR (check_first_seen fromiso seen_until) (dict_of first_seen))"

definition movement_keys :: "string list" where
  "movement_keys = [''kind'', ''stage'', ''target_branch'', ''before_sha'', ''after_sha'',
     ''tested_sha'', ''source_run_attempt'']"

definition movement_ok :: "string \<Rightarrow> json \<Rightarrow> bool" where
  "movement_ok metadata_key movement =
     (let d = dict_of movement; branch = dget d ''target_branch'' in
      metadata_key = ''deferred_candidates'' \<and> is_obj movement
      \<and> keys d = set movement_keys
      \<and> dget d ''kind'' = JStr ''queue-target-moved'' \<and> dget d ''stage'' = JStr ''queue-current''
      \<and> is_str branch \<and> 1 \<le> py_len (str_of branch) \<and> py_len (str_of branch) \<le> 512
      \<and> \<not> startswith (str_of branch) ''/'' \<and> \<not> has_line_break (str_of branch)
      \<and> positive_int (dget d ''source_run_attempt''))"

definition check_revision :: "json \<Rightarrow> unit res" where
  "check_revision v = bindR (revision v) (\<lambda>_. Inr ())"

definition check_movement :: "string \<Rightarrow> json \<Rightarrow> unit res" where
  "check_movement metadata_key movement =
     (if \<not> movement_ok metadata_key movement
      then Inl (EligibilityError ''trusted queue movement metadata is malformed'' [])
      else
      bindR (checkR (\<lambda>key. check_revision (dget (dict_of movement) key))
               [''before_sha'', ''after_sha'', ''tested_sha'']) (\<lambda>_.
      require (dget (dict_of movement) ''before_sha'' \<noteq> dget (dict_of movement) ''after_sha'')
        (EligibilityError ''trusted queue movement has no changed target'' [])))"

definition check_noncandidate :: "string \<Rightarrow> json \<Rightarrow> unit res" where
  "check_noncandidate metadata_key v =
     (let d = dict_of v in
      if \<not> is_obj v \<or> \<not> positive_int (dget d ''pull_request'') \<or> \<not> positive_int (dget d ''source_run_id'')
         \<or> \<not> is_str (dget d ''reason'') \<or> \<not> is_str (dget d ''next_action'')
      then Inl (EligibilityError ''trusted noncandidate metadata is malformed'' [])
      else
      bindR (check_revision (dget d ''source_head_sha'')) (\<lambda>_.
      if has_key d ''queue_movement'' then check_movement metadata_key (dget d ''queue_movement'')
      else Inr ()))"

definition check_noncandidates :: "dict \<Rightarrow> string \<Rightarrow> unit res" where
  "check_noncandidates v metadata_key =
     (let xs = dget_or v metadata_key (JList []) in
      if \<not> is_list xs \<or> 1 < length (list_of xs)
      then Inl (EligibilityError ''trusted noncandidate metadata exceeds its bound'' [])
      else checkR (check_noncandidate metadata_key) (list_of xs))"

definition check_rerun :: "string \<times> json \<Rightarrow> unit res" where
  "check_rerun kv =
     bindR (check_revision (JStr (fst kv))) (\<lambda>_. require (positive_int (snd kv))
       (EligibilityError ''trusted rerun ledger has an invalid run identifier'' []))"

definition check_reruns :: "json \<Rightarrow> unit res" where
  "check_reruns reruns =
     (if \<not> is_obj reruns \<or> 4096 < length (dict_of reruns)
      then Inl (EligibilityError ''trusted rerun ledger is malformed'' [])
      else checkR check_rerun (dict_of reruns))"

text \<open>The recovery frontier; a missing one needs no check.\<close>

definition frontier_ok :: "json \<Rightarrow> bool" where
  "frontier_ok frontier =
     (let d = dict_of frontier; fence = dget d ''fence''; pending = dget_or d ''pending'' (JList []) in
      is_obj frontier \<and> dget d ''protocol'' = JInt 1 \<and> is_bool (dget d ''authority'')
      \<and> (fence = JNull \<or> is_str fence) \<and> py_len (str_of fence) \<le> 2000
      \<and> is_list pending \<and> length (list_of pending) \<le> 100)"

definition pending_ok :: "json \<Rightarrow> bool" where
  "pending_ok pending = (is_obj pending \<and> positive_int (dget (dict_of pending) ''run_id'')
     \<and> positive_int (dget (dict_of pending) ''run_attempt''))"

definition check_frontier :: "clock_reader \<Rightarrow> json \<Rightarrow> unit res" where
  "check_frontier fromiso frontier =
     (let d = dict_of frontier in
      if frontier = JNull then Inr ()
      else if \<not> frontier_ok frontier
      then Inl (EligibilityError ''trusted recovery frontier is malformed'' [])
      else
      bindR (utc fromiso (dget d ''service_created_at'')) (\<lambda>_.
      bindR (if dget d ''floor'' \<noteq> JNull then bindR (utc fromiso (dget d ''floor'')) (\<lambda>_. Inr ())
             else require (dget d ''authority'' \<noteq> JBool True)
               (EligibilityError ''trusted recovery frontier has no immutable effect floor'' [])) (\<lambda>_.
      bindR (require (dget d ''predecessor_run_id'' = JNull \<or> positive_int (dget d ''predecessor_run_id''))
               (EligibilityError ''trusted recovery frontier predecessor is malformed'' [])) (\<lambda>_.
      require (list_all pending_ok (list_of (dget_or d ''pending'' (JList []))))
        (EligibilityError ''trusted recovery frontier attempt fence is malformed'' [])))))"

definition recovery_phases :: "string list" where
  "recovery_phases = [''prepared'', ''attempted'', ''uncertain'', ''suspended'']"

definition recovery_kinds :: "string list" where
  "recovery_kinds = [''retained-graph'', ''handoff'', ''native-legacy-handoff'', ''retained-original'']"

text \<open>The bindings of a reservation by its kind.\<close>

definition check_recovery_proof :: "dict \<Rightarrow> unit res" where
  "check_recovery_proof entry =
     bindR (require (dget entry ''kind'' \<noteq> JStr ''retained-original''
                     \<or> is_sha256_str (dget entry ''original_identity_sha256''))
              (EligibilityError ''retained-original reservation lacks exact PR identity'' [])) (\<lambda>_.
     if dget entry ''kind'' = JStr ''native-legacy-handoff'' then
       bindR (check_revision (dget entry ''merge_base_sha'')) (\<lambda>_.
       require (is_sha256_str (dget entry ''transition_fingerprint'')
                \<and> \<not> has_key entry ''hinted_candidate_sha'' \<and> \<not> has_key entry ''hinted_base_sha'')
         (EligibilityError ''native handoff reservation has invalid current-only proof'' []))
     else checkR (\<lambda>key. check_revision (dget entry key)) [''hinted_candidate_sha'', ''hinted_base_sha''])"

definition recovery_bound :: "string \<Rightarrow> json \<Rightarrow> bool res" where
  "recovery_bound key v =
     (let d = dict_of v in
      if \<not> is_sha256 key \<or> \<not> is_obj v then Inr False
      else
      bindR (in_strings (dget d ''phase'') recovery_phases) (\<lambda>phase.
      if \<not> phase then Inr False
      else
      bindR (in_strings (dget d ''kind'') recovery_kinds) (\<lambda>kind.
      Inr (kind \<and> positive_int (dget d ''original_run_id'') \<and> positive_int (dget d ''original_attempt'')
        \<and> positive_int (dget d ''prepared_service_run'')))))"

definition check_recovery :: "clock_reader \<Rightarrow> rat \<Rightarrow> string \<times> json \<Rightarrow> unit res" where
  "check_recovery fromiso seen_until kv =
     (let d = dict_of (snd kv) in
      bindR (recovery_bound (fst kv) (snd kv)) (\<lambda>ok.
      if \<not> ok
      then Inl (EligibilityError ''trusted recovery reservation has invalid bindings'' [])
      else
      bindR (checkR (\<lambda>key. check_revision (dget d key)) [''source_head_sha'', ''authority'']) (\<lambda>_.
      bindR (check_recovery_proof d) (\<lambda>_.
      bindR (utc fromiso (dget d ''prepared_at'')) (\<lambda>t. require (t \<le> seen_until)
        (EligibilityError ''trusted recovery reservation is from the future'' []))))))"

definition check_recoveries :: "clock_reader \<Rightarrow> rat \<Rightarrow> json \<Rightarrow> unit res" where
  "check_recoveries fromiso seen_until recoveries =
     (if \<not> is_obj recoveries \<or> 4096 < length (dict_of recoveries)
      then Inl (EligibilityError ''trusted recovery reservation ledger is malformed'' [])
      else checkR (check_recovery fromiso seen_until) (dict_of recoveries))"

definition validate_state ::
  "clock_reader \<Rightarrow> dict \<Rightarrow> string \<Rightarrow> int \<Rightarrow> string \<Rightarrow> rat \<Rightarrow> dict res" where
  "validate_state fromiso v repository run_id implementation at_time =
     bindR (check_provenance v repository run_id implementation) (\<lambda>_.
     bindR (utc fromiso (dget v ''observed_at'')) (\<lambda>seen_until.
     if at_time < seen_until
     then Inl (EligibilityError ''trusted artifact observation is in the future'' [])
     else
     bindR (check_dependency_state fromiso seen_until (dget v ''dependency_state'')) (\<lambda>_.
     if \<not> is_obj (dget v ''reports'') \<or> 100 < length (dict_of (dget v ''reports''))
     then Inl (EligibilityError ''trusted candidate reports are malformed'' [])
     else
     bindR (checkR (check_noncandidates v) [''deferred_candidates'', ''no_action_candidates'']) (\<lambda>_.
     let cursor = dget_or v ''scan_cursor'' (JInt 0) in
     if \<not> is_int cursor \<or> int_of cursor < 0
     then Inl (EligibilityError ''trusted scheduled scan cursor is malformed'' [])
     else
     bindR (check_reruns (dget v ''reruns'')) (\<lambda>_.
     bindR (check_frontier fromiso (dget v ''recovery_frontier'')) (\<lambda>_.
     bindR (check_recoveries fromiso seen_until (dget_or v ''recoveries'' (JObj []))) (\<lambda>_.
     Inr v)))))))"

section \<open>The newest usable state\<close>

definition migrated_state :: "int \<Rightarrow> string \<Rightarrow> dict \<Rightarrow> dict" where
  "migrated_state run_id source state =
     [(''run_id'', JInt run_id), (''implementation_revision'', JStr source),
      (''dependency_state'', JObj [(''schema_version'', JInt 1),
         (''first_seen'', dget (dict_of (dget state ''dependency_state'')) ''first_seen'')]),
      (''reports'', JObj []), (''reruns'', JObj []), (''scan_cursor'', JInt 0),
      (''observations_migrated'', JBool True)]"

definition state_of_run :: "string \<Rightarrow> string \<Rightarrow> rat \<Rightarrow> int \<Rightarrow> dict option api" where
  "state_of_run implementation default_branch at_time run_id =
     catchI
       (bindI (get (''actions/runs/'' @ show_int run_id)) (\<lambda>run.
        bindI (trusted_run run implementation default_branch True) (\<lambda>trusted.
        if \<not> trusted then retI None
        else (case service_revision run of
            None \<Rightarrow> retI None
          | Some source \<Rightarrow>
              bindI (run_artifact run_id) (\<lambda>v.
              bindI (getI api_repository) (\<lambda>repository.
              bindI (askI fromisoformat) (\<lambda>fromiso.
              bindI (liftI (validate_state fromiso v repository run_id source at_time)) (\<lambda>state.
              retI (Some (if source = implementation then state
                          else migrated_state run_id source state))))))))))
       (\<lambda>e. if is_EligibilityError e then retI None else raiseI e)"

fun first_state :: "string \<Rightarrow> string \<Rightarrow> rat \<Rightarrow> json list \<Rightarrow> dict option api" where
  "first_state implementation default_branch at_time [] = retI None"
| "first_state implementation default_branch at_time (summary # summaries) =
     bindI (liftI (attr_get summary ''id'')) (\<lambda>run_id.
     if \<not> is_int run_id then first_state implementation default_branch at_time summaries
     else
     bindI (state_of_run implementation default_branch at_time (int_of run_id)) (\<lambda>r. case r of
         Some state \<Rightarrow> retI (Some state)
       | None \<Rightarrow> first_state implementation default_branch at_time summaries))"

definition previous_state :: "string \<Rightarrow> string \<Rightarrow> rat \<Rightarrow> dict option api" where
  "previous_state implementation default_branch at_time =
     bindI (catchI
       (bindI (get ''actions/workflows/dependency-eligibility.yml/runs?per_page=30&status=success'')
          (\<lambda>runs. retI (Some runs)))
       (\<lambda>e. case e of MissingResource _ \<Rightarrow> retI None | _ \<Rightarrow> raiseI e)) (\<lambda>r. case r of
         None \<Rightarrow> retI None
       | Some runs \<Rightarrow>
           bindI (liftI (take_items 30 (dget_or runs ''workflow_runs'' (JList [])))) (\<lambda>summaries.
           first_state implementation default_branch at_time summaries))"

section \<open>What an accepted state guarantees\<close>

lemma utc_Inr: "utc fromiso v = Inr t \<longleftrightarrow> (\<exists>s. v = JStr s \<and> fromiso (replace_z s) = Some (Some t, True))"
  by (cases v) (auto simp: utc_def split: option.splits)

lemma check_revision_Inr [simp]: "check_revision v = Inr u \<longleftrightarrow> (\<exists>s. v = JStr s \<and> is_sha s)"
  by (auto simp: check_revision_def res_simps)

text \<open>The times a state records: when it was observed, first seen and prepared.\<close>

definition timed :: "clock_reader \<Rightarrow> json \<Rightarrow> rat \<Rightarrow> bool" where
  "timed fromiso v t \<longleftrightarrow> utc fromiso v = Inr t"

definition first_seen_of :: "dict \<Rightarrow> dict" where
  "first_seen_of v = dict_of (dget (dict_of (dget v ''dependency_state'')) ''first_seen'')"

definition recoveries_of :: "dict \<Rightarrow> dict" where
  "recoveries_of v = dict_of (dget_or v ''recoveries'' (JObj []))"

definition reruns_of :: "dict \<Rightarrow> dict" where
  "reruns_of v = dict_of (dget v ''reruns'')"

text \<open>
  The invariant of a trusted state at a time: what it observed lies in the past, everything it
  recorded lies before its observation, and every ledger is bounded and keyed by digests.
\<close>

definition state_wf :: "clock_reader \<Rightarrow> rat \<Rightarrow> dict \<Rightarrow> bool" where
  "state_wf fromiso at_time v \<longleftrightarrow> (\<exists>seen_until. seen_until \<le> at_time
     \<and> timed fromiso (dget v ''observed_at'') seen_until
     \<and> length (first_seen_of v) \<le> 4096 \<and> length (recoveries_of v) \<le> 4096 \<and> length (reruns_of v) \<le> 4096
     \<and> (\<forall>(key, instant) \<in> set (first_seen_of v). is_sha256 key
          \<and> (\<exists>t. timed fromiso instant t \<and> t \<le> seen_until))
     \<and> (\<forall>(key, run) \<in> set (reruns_of v). is_sha key \<and> (\<exists>n. run = JInt n \<and> 1 \<le> n))
     \<and> (\<forall>(key, entry) \<in> set (recoveries_of v). is_sha256 key
          \<and> (\<exists>d t. entry = JObj d \<and> timed fromiso (dget d ''prepared_at'') t \<and> t \<le> seen_until
               \<and> is_sha_str (dget d ''source_head_sha'') \<and> is_sha_str (dget d ''authority''))))"

lemma check_first_seen_Inr [simp]:
  "check_first_seen fromiso seen_until (key, instant) = Inr u \<longleftrightarrow>
     is_sha256 key \<and> (\<exists>t. timed fromiso instant t \<and> t \<le> seen_until)"
  by (auto simp: check_first_seen_def timed_def res_simps)

lemma check_dependency_state_Inr:
  assumes "check_dependency_state fromiso seen_until (dget v ''dependency_state'') = Inr u"
  shows "length (first_seen_of v) \<le> 4096 \<and> (\<forall>(key, instant) \<in> set (first_seen_of v). is_sha256 key
          \<and> (\<exists>t. timed fromiso instant t \<and> t \<le> seen_until))"
proof -
  from assms have n: "length (first_seen_of v) \<le> 4096"
    and c: "checkR (check_first_seen fromiso seen_until) (first_seen_of v) = Inr ()"
    unfolding check_dependency_state_def Let_def first_seen_of_def by (elim success_elims, simp)+
  from c have "check_first_seen fromiso seen_until kv = Inr ()" if "kv \<in> set (first_seen_of v)" for kv
    using that by simp
  with n show ?thesis by fastforce
qed

lemma check_reruns_Inr:
  assumes "check_reruns (dget v ''reruns'') = Inr u"
  shows "length (reruns_of v) \<le> 4096 \<and>
    (\<forall>(key, run) \<in> set (reruns_of v). is_sha key \<and> (\<exists>n. run = JInt n \<and> 1 \<le> n))"
  using assms unfolding check_reruns_def
  by (elim success_elims) (auto simp: reruns_of_def check_rerun_def res_simps positive_int_iff; fast)

lemma check_recovery_Inr:
  assumes "check_recovery fromiso seen_until (key, entry) = Inr u"
  shows "is_sha256 key \<and> (\<exists>d t. entry = JObj d \<and> timed fromiso (dget d ''prepared_at'') t \<and> t \<le> seen_until
               \<and> is_sha_str (dget d ''source_head_sha'') \<and> is_sha_str (dget d ''authority''))"
proof -
  from assms obtain t where b: "recovery_bound key entry = Inr True"
    and r: "checkR (\<lambda>key. check_revision (dget (dict_of entry) key)) [''source_head_sha'', ''authority''] = Inr ()"
    and t: "utc fromiso (dget (dict_of entry) ''prepared_at'') = Inr t" "t \<le> seen_until"
    unfolding check_recovery_def Let_def by (elim success_elims) auto
  from b have "is_sha256 key" "is_obj entry"
    by (auto simp: recovery_bound_def Let_def split: if_splits)
  with r t show ?thesis by (auto simp: is_obj_iff timed_def res_simps)
qed

lemma check_recoveries_Inr:
  assumes "check_recoveries fromiso seen_until (dget_or v ''recoveries'' (JObj [])) = Inr u"
  shows "length (recoveries_of v) \<le> 4096 \<and> (\<forall>(key, entry) \<in> set (recoveries_of v). is_sha256 key
          \<and> (\<exists>d t. entry = JObj d \<and> timed fromiso (dget d ''prepared_at'') t \<and> t \<le> seen_until
               \<and> is_sha_str (dget d ''source_head_sha'') \<and> is_sha_str (dget d ''authority'')))"
proof -
  from assms have n: "length (recoveries_of v) \<le> 4096"
    and c: "checkR (check_recovery fromiso seen_until) (recoveries_of v) = Inr ()"
    unfolding check_recoveries_def recoveries_of_def by (elim success_elims, simp)+
  from c have "check_recovery fromiso seen_until kv = Inr ()" if "kv \<in> set (recoveries_of v)" for kv
    using that by simp
  with n check_recovery_Inr show ?thesis by fast
qed

text \<open>
  C18. A state is only restored when it is well formed: validation returns the state unchanged,
  bound to its repository, run and implementation, with all of its times ordered and in the past.
\<close>

theorem validate_state_wf:
  assumes "validate_state fromiso v repository run_id implementation at_time = Inr state"
  shows "state = v \<and> state_wf fromiso at_time state \<and> dget v ''repository'' = JStr repository
    \<and> py_eq (dget v ''run_id'') (JInt run_id) \<and> dget v ''implementation_revision'' = JStr implementation"
proof -
  obtain seen_until u1 u2 u3 u4 where p: "check_provenance v repository run_id implementation = Inr u1"
    and o: "utc fromiso (dget v ''observed_at'') = Inr seen_until" "\<not> at_time < seen_until"
    and d: "check_dependency_state fromiso seen_until (dget v ''dependency_state'') = Inr u2"
    and r: "check_reruns (dget v ''reruns'') = Inr u3"
    and c: "check_recoveries fromiso seen_until (dget_or v ''recoveries'' (JObj [])) = Inr u4"
    and s: "v = state"
    using assms unfolding validate_state_def Let_def by (elim success_elims) (rule that, assumption+, simp)
  from p have "dget v ''repository'' = JStr repository" "py_eq (dget v ''run_id'') (JInt run_id)"
    "dget v ''implementation_revision'' = JStr implementation"
    by (auto simp: check_provenance_def split: if_splits)
  with o check_dependency_state_Inr [OF d] check_reruns_Inr [OF r] check_recoveries_Inr [OF c] s
  show ?thesis by (auto simp: state_wf_def timed_def not_less)
qed

definition sample_clock :: clock_reader where
  "sample_clock = map_of [(''t1'', (Some 1, True)), (''t2'', (Some 2, True))]"

definition digest_of :: "char \<Rightarrow> string" where "digest_of c = replicate 64 c"

definition sample_report :: dict where
  "sample_report = [(''status'', JStr ''pass''), (''candidate_sha'', JStr (sha_of CHR ''b'')),
     (''base_sha'', JStr (sha_of CHR ''a''))]"

definition sample_state :: dict where
  "sample_state = [(''schema'', JInt 1), (''repository'', JStr ''Strukturpiloten/boxferry''), (''run_id'', JInt 5),
     (''implementation_revision'', JStr (sha_of CHR ''c'')), (''workflow_path'', JStr WORKFLOW_PATH),
     (''observed_at'', JStr ''t2''),
     (''dependency_state'', JObj [(''schema_version'', JInt 1),
        (''first_seen'', JObj [(digest_of CHR ''e'', JStr ''t1'')])]),
     (''reports'', JObj [(sha_of CHR ''b'', JObj sample_report)]), (''reruns'', JObj [(sha_of CHR ''b'', JInt 3)]),
     (''recoveries'', JObj [(digest_of CHR ''f'', JObj [(''phase'', JStr ''prepared''), (''kind'', JStr ''handoff''),
        (''original_run_id'', JInt 3), (''original_attempt'', JInt 1), (''prepared_service_run'', JInt 4),
        (''source_head_sha'', JStr (sha_of CHR ''b'')), (''authority'', JStr (sha_of CHR ''c'')),
        (''hinted_candidate_sha'', JStr (sha_of CHR ''c'')), (''hinted_base_sha'', JStr (sha_of CHR ''a'')),
        (''prepared_at'', JStr ''t1'')])])]"

theorem validate_state_wf_witness:
  "validate_state sample_clock sample_state ''Strukturpiloten/boxferry'' 5 (sha_of CHR ''c'') 3 = Inr sample_state
   \<and> state_wf sample_clock 3 sample_state"
proof -
  have run: "validate_state sample_clock sample_state ''Strukturpiloten/boxferry'' 5 (sha_of CHR ''c'') 3
      = Inr sample_state"
    by code_simp
  with validate_state_wf [OF run] show ?thesis by simp
qed

section \<open>Where a restored state comes from\<close>

lemma observe_source_ancestor: "keeps observe_step (source_ancestor source implementation)"
  unfolding source_ancestor_def Let_def
  by (intro observe_rules observe_request) (simp_all add: reads_only_def)

lemma observe_trusted_run: "keeps observe_step (trusted_run run implementation branch allow)"
  unfolding trusted_run_def Let_def by (intro observe_rules observe_source_ancestor)

lemma observe_run_artifact: "keeps observe_step (run_artifact run_id)"
proof -
  have "keeps observe_step (case xs of [p] \<Rightarrow> f p | _ \<Rightarrow> raiseI e)"
    if "\<And>p. keeps observe_step (f p)" for f :: "json \<times> json \<Rightarrow> dict api" and e xs
    using that by (cases xs rule: remdups_adj.cases) (auto intro: observe_rules)
  note one = this
  have "keeps observe_step (case xs of [(x, name)] \<Rightarrow> f x name | _ \<Rightarrow> raiseI e)"
    if "\<And>x name. keeps observe_step (f x name)" for f :: "json \<Rightarrow> json \<Rightarrow> dict api" and e xs
    using that by (cases xs rule: remdups_adj.cases) (auto intro: observe_rules split: prod.splits)
  note two = this
  show ?thesis unfolding run_artifact_def Let_def by (intro observe_rules two)
qed

lemma observe_state_of_run: "keeps observe_step (state_of_run implementation branch at_time run_id)"
  unfolding state_of_run_def by (intro observe_rules observe_trusted_run observe_run_artifact)

lemma observe_first_state: "keeps observe_step (first_state implementation branch at_time summaries)"
proof (induction summaries)
  case Nil
  show ?case unfolding first_state.simps by (rule observe.keeps_ret)
next
  case (Cons summary summaries)
  show ?case unfolding first_state.simps by (intro observe_rules observe_state_of_run Cons.IH)
qed

lemma observe_previous_state: "keeps observe_step (previous_state implementation branch at_time)"
proof -
  have "keeps observe_step (case e of MissingResource m \<Rightarrow> retI None | _ \<Rightarrow> raiseI e)"
    for e :: exn
    by (cases e; simp only: exn.case; rule observe.keeps_ret observe.keeps_raise)
  then show ?thesis unfolding previous_state_def by (intro observe_rules observe_first_state)
qed

text \<open>BoxFerry's API confirmed the shared source as an ancestor of the implementation.\<close>

definition source_seen :: "world \<Rightarrow> client \<Rightarrow> client \<Rightarrow> string \<Rightarrow> string \<Rightarrow> bool" where
  "source_seen w s t source implementation \<longleftrightarrow>
     (\<exists>h d m. let path = ''/repos/Strukturpiloten/boxferry/compare/'' @ source @ ''...'' @ implementation in
        suffix (trace s) h \<and> suffix (Request ''GET'' path None # h) (trace t)
        \<and> answered w h ''GET'' path None (JObj d)
        \<and> dget d ''status'' \<in> {JStr ''ahead'', JStr ''identical''}
        \<and> dget d ''merge_base_commit'' = JObj m \<and> dget m ''sha'' = JStr source)"

lemma source_seen_wider:
  "source_seen w s' t' source implementation \<Longrightarrow> frame s s' \<Longrightarrow> frame t' t \<Longrightarrow> source_seen w s t source implementation"
  unfolding source_seen_def Let_def frame_def by (meson suffix_order.trans)

lemma source_ancestor_Inr:
  assumes "source_ancestor source implementation w s = (Inr True, t)"
  shows "source = implementation \<or> source_seen w s t source implementation"
proof (cases "source = implementation")
  case False
  then have ne: "source \<noteq> implementation" .
  let ?p = "''/repos/Strukturpiloten/boxferry/compare/'' @ source @ ''...'' @ implementation"
  from assms ne obtain v where r: "request ''GET'' ?p None w s = (Inr v, t)"
    and v: "is_obj v" "is_obj (dget (dict_of v) ''merge_base_commit'')"
      "dget (dict_of (dget (dict_of v) ''merge_base_commit'')) ''sha'' = JStr source"
      "dget (dict_of v) ''status'' \<in> {JStr ''ahead'', JStr ''identical''}"
    unfolding source_ancestor_def Let_def by (auto simp: bindI_Inr split: if_splits)
  from r have "answered w (Clock # trace s) ''GET'' ?p None v" "trace t = Request ''GET'' ?p None # Clock # trace s"
    unfolding request_Inr by simp_all
  with v have "source_seen w s t source implementation"
    unfolding source_seen_def Let_def by (intro exI [of _ "Clock # trace s"]) (auto simp: is_obj_iff suffix_ConsI)
  then show ?thesis ..
qed simp

text \<open>A run of this service on the default branch whose shared source is known.\<close>

definition run_trusted :: "world \<Rightarrow> client \<Rightarrow> client \<Rightarrow> dict \<Rightarrow> string \<Rightarrow> string \<Rightarrow> string \<Rightarrow> bool" where
  "run_trusted w s t run source implementation branch \<longleftrightarrow>
     expected_run run (api_repository s) branch = Inr True \<and> service_revision run = Some source
     \<and> (source = implementation \<or> source_seen w s t source implementation)
     \<and> (\<exists>head d. dget run ''head_sha'' = JStr head \<and> is_sha head
          \<and> observed w s t (''compare/'' @ head @ ''...'' @ quote [] branch) (JObj d)
          \<and> dget d ''status'' \<in> {JStr ''ahead'', JStr ''identical''})"

lemma run_trusted_wider:
  assumes "run_trusted w s' t' run source implementation branch" and "frame s s'" and "frame t' t"
  shows "run_trusted w s t run source implementation branch"
proof -
  from assms(2) have "api_repository s' = api_repository s" by (simp add: frame_def)
  from assms(1) [unfolded run_trusted_def this] source_seen_wider [OF _ assms(2,3)] observed_wider [OF _ assms(2,3)]
  show ?thesis unfolding run_trusted_def by blast
qed

lemma trusted_run_Inr:
  assumes "trusted_run run implementation branch allow w s = (Inr True, t)"
  shows "\<exists>source. run_trusted w s t run source implementation branch"
proof -
  from assms obtain source s1 where e: "expected_run run (api_repository s) branch = Inr True"
    and src: "service_revision run = Some source"
    and k: "(if source = implementation then retI True else if \<not> allow then retI False
             else source_ancestor source implementation) w s = (Inr True, s1)"
    and rest: "(if \<not> is_sha_str (dget run ''head_sha'') then retI False
             else bindI (get (''compare/'' @ str_of (dget run ''head_sha'') @ ''...'' @ quote [] branch))
               (\<lambda>comparison. liftI (in_strings (dget comparison ''status'') [''ahead'', ''identical'']))) w s1
             = (Inr True, t)"
    unfolding trusted_run_def Let_def
    by (auto simp: bindI_Inr split: if_splits option.splits)
  from rest obtain head d where h: "dget run ''head_sha'' = JStr head" "is_sha head"
    and g: "get (''compare/'' @ head @ ''...'' @ quote [] branch) w s1 = (Inr d, t)"
    and st: "dget d ''status'' \<in> {JStr ''ahead'', JStr ''identical''}"
    by (cases "dget run ''head_sha''") (auto simp: bindI_Inr split: if_splits)
  have f1: "frame s s1" using k observe_frame [OF observe_source_ancestor] frame.none
    by (auto split: if_splits)
  have "source = implementation \<or> source_seen w s s1 source implementation"
    using k source_ancestor_Inr [of source implementation w s s1] by (auto split: if_splits)
  moreover from get_observed [OF g] have f2: "frame s1 t" by simp
  ultimately have "source = implementation \<or> source_seen w s t source implementation"
    using source_seen_wider [OF _ frame.none f2] by blast
  moreover have "observed w s t (''compare/'' @ head @ ''...'' @ quote [] branch) (JObj d)"
    using get_observed [OF g] observed_wider [OF _ f1 frame.none] by blast
  ultimately show ?thesis using e src h st unfolding run_trusted_def by blast
qed


text \<open>A restored state comes from an artifact of a trusted run, and is well formed.\<close>

definition artifact_seen :: "world \<Rightarrow> client \<Rightarrow> client \<Rightarrow> int \<Rightarrow> dict \<Rightarrow> bool" where
  "artifact_seen w s t run_id v \<longleftrightarrow>
     (\<exists>u u'. frame s u \<and> frame u' t \<and> run_artifact run_id w u = (Inr v, u'))"

lemma artifact_seen_wider:
  assumes "artifact_seen w s' t' run_id v" and "frame s s'" and "frame t' t"
  shows "artifact_seen w s t run_id v"
proof -
  from assms(1) obtain u u' where u: "frame s' u" "frame u' t'" "run_artifact run_id w u = (Inr v, u')"
    unfolding artifact_seen_def by blast
  show ?thesis
    unfolding artifact_seen_def
    using u(3) frame.both [OF assms(2) u(1)] frame.both [OF u(2) assms(3)] by blast
qed

definition restored :: "world \<Rightarrow> client \<Rightarrow> client \<Rightarrow> string \<Rightarrow> string \<Rightarrow> rat \<Rightarrow> dict \<Rightarrow> bool" where
  "restored w s t implementation branch at_time state \<longleftrightarrow> (\<exists>run_id run source v.
     observed w s t (''actions/runs/'' @ show_int run_id) (JObj run)
     \<and> run_trusted w s t run source implementation branch \<and> artifact_seen w s t run_id v
     \<and> state_wf (fromisoformat w) at_time v \<and> dget v ''implementation_revision'' = JStr source
     \<and> py_eq (dget v ''run_id'') (JInt run_id)
     \<and> state = (if source = implementation then v else migrated_state run_id source v))"

lemma restored_wider:
  assumes "restored w s' t' implementation branch at_time state" and "frame s s'" and "frame t' t"
  shows "restored w s t implementation branch at_time state"
  using assms(1) observed_wider [OF _ assms(2,3)] run_trusted_wider [OF _ assms(2,3)]
    artifact_seen_wider [OF _ assms(2,3)]
  unfolding restored_def by blast

text \<open>How a program that found something is taken apart.\<close>

lemma catch_SomeE:
  assumes "catchI m (\<lambda>e. if is_EligibilityError e then retI None else raiseI e) w s = (Inr (Some x), t)"
  obtains "m w s = (Inr (Some x), t)"
  using assms by (auto simp: catchI_Inr split: if_splits)

lemma if_SomeE:
  assumes "(if b then retI None else m) w s = (Inr (Some x), t)"
  obtains "\<not> b" and "m w s = (Inr (Some x), t)"
  using assms by (auto split: if_splits)

lemma option_SomeE:
  assumes "(case r of None \<Rightarrow> retI None | Some y \<Rightarrow> f y) w s = (Inr (Some x), t)"
  obtains y where "r = Some y" and "f y w s = (Inr (Some x), t)"
  using assms by (cases r) auto

lemma getI_InrE: "getI f w s = (Inr y, t) \<Longrightarrow> (f s = y \<Longrightarrow> s = t \<Longrightarrow> P) \<Longrightarrow> P"
  unfolding getI_run prod.inject sum.inject by blast

lemma askI_InrE: "askI f w s = (Inr y, t) \<Longrightarrow> (f w = y \<Longrightarrow> s = t \<Longrightarrow> P) \<Longrightarrow> P"
  unfolding askI_run prod.inject sum.inject by blast

lemmas some_elims = catch_SomeE if_SomeE option_SomeE bindI_InrE liftI_InrE getI_InrE askI_InrE retI_InrE

lemma state_of_run_Inr:
  assumes "state_of_run implementation branch at_time run_id w s = (Inr (Some state), t)"
  shows "restored w s t implementation branch at_time state"
proof -
  obtain run s1 ok s2 source v s3 st0 r fromiso s4 s5 where
    g: "get (''actions/runs/'' @ show_int run_id) w s = (Inr run, s1)"
    and tr: "trusted_run run implementation branch True w s1 = (Inr ok, s2)" "\<not> \<not> ok"
    and src: "service_revision run = Some source"
    and art: "run_artifact run_id w s2 = (Inr v, s3)"
    and val: "validate_state fromiso v r run_id source at_time = Inr st0"
    and iso: "fromisoformat w = fromiso"
    and st0: "Some (if source = implementation then st0 else migrated_state run_id source st0) = Some state"
    and t: "s4 = s5" "s5 = s3" "t = s4"
  proof -
    from assms show thesis unfolding state_of_run_def
      by (elim some_elims) (rule that, assumption+, simp_all only:)
  qed
  from tr have trust: "trusted_run run implementation branch True w s1 = (Inr True, s2)" by simp
  from validate_state_wf [OF val] st0 iso have st: "state_wf (fromisoformat w) at_time v"
    "dget v ''implementation_revision'' = JStr source" "py_eq (dget v ''run_id'') (JInt run_id)"
    "state = (if source = implementation then v else migrated_state run_id source v)" by auto
  from trusted_run_Inr [OF trust] src obtain source' where
    tr': "run_trusted w s1 s2 run source' implementation branch" by blast
  with src have "source' = source" by (simp add: run_trusted_def)
  have f: "frame s1 s2" "frame s2 t"
    using observe_frame [OF observe_trusted_run trust] observe_frame [OF observe_run_artifact art] t by auto
  have "run_trusted w s t run source implementation branch"
    using run_trusted_wider [OF tr' conjunct2 [OF get_observed [OF g]] f(2)] \<open>source' = source\<close> by simp
  moreover have "observed w s t (''actions/runs/'' @ show_int run_id) (JObj run)"
    using get_observed [OF g] observed_wider [OF _ frame.none frame.both [OF f]] by blast
  moreover have "artifact_seen w s t run_id v"
    using art frame.both [OF conjunct2 [OF get_observed [OF g]] f(1)]
      observe_frame [OF observe_run_artifact art] t frame.none
    unfolding artifact_seen_def by blast
  ultimately show ?thesis using st unfolding restored_def by blast
qed

lemma first_state_Inr:
  "first_state implementation branch at_time summaries w s = (Inr (Some state), t) \<Longrightarrow>
     restored w s t implementation branch at_time state"
proof (induction summaries arbitrary: s)
  case (Cons summary summaries)
  from Cons.prems obtain v where v: "attr_get summary ''id'' = Inr v"
    and run: "(if \<not> is_int v then first_state implementation branch at_time summaries
     else
     bindI (state_of_run implementation branch at_time (int_of v)) (\<lambda>r. case r of
         Some state \<Rightarrow> retI (Some state)
       | None \<Rightarrow> first_state implementation branch at_time summaries)) w s = (Inr (Some state), t)"
    by (auto simp: bindI_Inr)
  show ?case
  proof (cases "is_int v")
    case True
    with run obtain r s1 where r: "state_of_run implementation branch at_time (int_of v) w s = (Inr r, s1)"
      and rest: "(case r of Some state \<Rightarrow> retI (Some state)
       | None \<Rightarrow> first_state implementation branch at_time summaries) w s1 = (Inr (Some state), t)"
      by (auto simp: bindI_Inr)
    show ?thesis
    proof (cases r)
      case None
      with rest Cons.IH have "restored w s1 t implementation branch at_time state" by simp
      then show ?thesis using observe_frame [OF observe_state_of_run r] frame.none by (rule restored_wider)
    next
      case (Some st)
      with rest r state_of_run_Inr show ?thesis by simp
    qed
  next
    case False
    with run Cons.IH show ?thesis by simp
  qed
qed simp

text \<open>
  C19. Only trusted state is restored. A restored state is the artifact of a successful run of this
  service on the default branch, its shared source is the running implementation or a confirmed
  ancestor of it, and it is well formed; of an older source only the first-seen times survive.
\<close>

theorem previous_state_trusted:
  assumes "previous_state implementation branch at_time w s = (Inr (Some state), t)"
  shows "restored w s t implementation branch at_time state"
proof -
  let ?m = "get ''actions/workflows/dependency-eligibility.yml/runs?per_page=30&status=success''"
  have never: "(case e of MissingResource _ \<Rightarrow> retI None | _ \<Rightarrow> raiseI e) w s' \<noteq> (Inr (Some runs), t')"
    for e s' t' and runs :: dict
    by (cases e) simp_all
  from assms obtain r s1 where
    "catchI (bindI ?m (\<lambda>runs. retI (Some runs)))
       (\<lambda>e. case e of MissingResource _ \<Rightarrow> retI None | _ \<Rightarrow> raiseI e) w s = (Inr r, s1)"
    and rest: "(case r of
         None \<Rightarrow> retI None
       | Some runs \<Rightarrow>
           bindI (liftI (take_items 30 (dget_or runs ''workflow_runs'' (JList [])))) (\<lambda>summaries.
           first_state implementation branch at_time summaries)) w s1 = (Inr (Some state), t)"
    unfolding previous_state_def by (elim bindI_InrE)
  moreover from rest obtain runs where runs: "r = Some runs" by (cases r) auto
  ultimately have "catchI (bindI ?m (\<lambda>runs. retI (Some runs)))
       (\<lambda>e. case e of MissingResource _ \<Rightarrow> retI None | _ \<Rightarrow> raiseI e) w s = (Inr (Some runs), s1)" by simp
  then have "bindI ?m (\<lambda>runs. retI (Some runs)) w s = (Inr (Some runs), s1)"
    unfolding catchI_Inr by (elim disjE exE conjE) (simp_all only: never)
  then have "?m w s = (Inr runs, s1)" by (auto simp: bindI_Inr)
  then have f: "frame s s1" by (rule conjunct2 [OF get_observed])
  from rest runs obtain summaries where "first_state implementation branch at_time summaries w s1 = (Inr (Some state), t)"
    by (auto simp: bindI_Inr)
  then show ?thesis using first_state_Inr f frame.none by (blast intro: restored_wider)
qed

subsection \<open>A restored state in a sample world\<close>

lemma serves_get:
  assumes "answer w = answer (table_world table)" and "decode_json w = decode_json (table_world table)"
    and "monotonic w = monotonic (table_world table)"
    and "map_of table path = Some (JObj d)" and "path \<noteq> []" and "length path \<le> 1000" and "spare 1 s"
  shows "get path w s = (Inr d, got path s)"
proof -
  have "request ''GET'' p None w s = request ''GET'' p None (table_world table) s" for p
    using assms(1-3) by (simp add: request_def bindI_def bump_def now_def http_def)
  then have "get path w s = get path (table_world table) s"
    by (simp add: get_def bindI_def split: prod.splits sum.splits)
  with table_get [OF assms(4-6)] assms(7) show ?thesis by (simp add: spare_def)
qed

definition sample_service_run :: dict where
  "sample_service_run = [(''id'', JInt 5), (''repository'', JObj [(''full_name'', JStr ''Strukturpiloten/boxferry'')]),
     (''event'', JStr ''schedule''), (''path'', JStr WORKFLOW_PATH), (''head_branch'', JStr ''main''),
     (''conclusion'', JStr ''success''), (''status'', JStr ''completed''), (''head_sha'', JStr (sha_of CHR ''a'')),
     (''referenced_workflows'', JList [JObj [(''path'', JStr (SHARED_WORKFLOW_PATH @ ''@'' @ sha_of CHR ''c'')),
        (''sha'', JStr (sha_of CHR ''c''))]])]"

definition sample_status :: dict where
  "sample_status = [(''context'', JStr ''Dependency eligibility''), (''state'', JStr ''success''),
     (''creator'', JObj [(''login'', JStr ''github-actions[bot]'')]),
     (''target_url'', JStr ''https://github.com/Strukturpiloten/boxferry/actions/runs/5'')]"

definition state_table :: "(string \<times> json) list" where
  "state_table =
     [(''actions/workflows/dependency-eligibility.yml/runs?per_page=30&status=success'',
         JObj [(''workflow_runs'', JList [JObj [(''id'', JInt 5)]])]),
      (''actions/runs/5'', JObj sample_service_run),
      (''compare/'' @ sha_of CHR ''a'' @ ''...main'', JObj [(''status'', JStr ''ahead'')]),
      (''actions/runs/5/artifacts?per_page=100'', JObj [(''artifacts'', JList [JObj [(''id'', JInt 9),
         (''name'', JStr ARTIFACT_NAME), (''size_in_bytes'', JInt 100)]])]),
      (''state'', JObj sample_state),
      ([], JObj [(''default_branch'', JStr ''main'')]),
      (''commits/'' @ sha_of CHR ''b'' @ ''/statuses?per_page=100'', JList [JObj sample_status])]"

definition state_world :: world where
  "state_world = table_world state_table\<lparr>artifact_answer := (\<lambda>_ _ _. ArtifactBody ''zip''),
     zip_members := (\<lambda>_. Some [(STATE_FILE, 10, False, Some (replicate 32 CHR ''x'' @ ''state''))]),
     fromisoformat := sample_clock, utc_now := (\<lambda>_. 3)\<rparr>"

lemma state_world_get:
  assumes "map_of state_table path = Some (JObj d)" and "path \<noteq> []" and "length path \<le> 1000" and "spare 1 s"
  shows "get path state_world s = (Inr d, got path s)"
  using assms by (intro serves_get) (simp_all add: state_world_def)

lemma state_rows:
  "map_of state_table ''actions/workflows/dependency-eligibility.yml/runs?per_page=30&status=success''
     = Some (JObj [(''workflow_runs'', JList [JObj [(''id'', JInt 5)]])])"
  "map_of state_table ''actions/runs/5'' = Some (JObj sample_service_run)"
  "map_of state_table (''compare/'' @ sha_of CHR ''a'' @ ''...main'') = Some (JObj [(''status'', JStr ''ahead'')])"
  "map_of state_table ''actions/runs/5/artifacts?per_page=100'' = Some (JObj [(''artifacts'', JList [JObj [(''id'', JInt 9),
         (''name'', JStr ARTIFACT_NAME), (''size_in_bytes'', JInt 100)]])])"
  by (simp_all add: state_table_def)

lemma bindI_lift: "bindI (liftI (Inr x)) f w s = f x w s"
  by (simp add: bindI_def)

lemma sample_run_fields:
  "service_revision sample_service_run = Some (sha_of CHR ''c'')"
  "expected_run sample_service_run ''Strukturpiloten/boxferry'' ''main'' = Inr True"
  "dget sample_service_run ''head_sha'' = JStr (sha_of CHR ''a'')"
  "show_int 5 = ''5''"
  by code_simp+

lemma state_world_trusted:
  assumes "spare 1 s"
  shows "trusted_run sample_service_run (sha_of CHR ''c'') ''main'' True state_world s
     = (Inr True, got (''compare/'' @ sha_of CHR ''a'' @ ''...main'') s)"
proof -
  have "get (''compare/'' @ sha_of CHR ''a'' @ ''...main'') state_world s
      = (Inr [(''status'', JStr ''ahead'')], got (''compare/'' @ sha_of CHR ''a'' @ ''...main'') s)"
    using assms by (intro state_world_get state_rows) (simp_all, simp add: sha_of_def)
  moreover have "api_repository s = ''Strukturpiloten/boxferry''" using assms by (simp add: spare_def)
  ultimately show ?thesis
    by (simp add: trusted_run_def sample_run_fields sample_names sample_hex in_strings_def cong: run_congs)
qed

lemma state_world_artifact:
  assumes "spare 1 s"
  shows "\<exists>tr. run_artifact 5 state_world s
     = (Inr sample_state, (got ''actions/runs/5/artifacts?per_page=100'' s)\<lparr>trace := tr\<rparr>)"
proof -
  let ?p = "''actions/runs/5/artifacts?per_page=100''"
  have "get ?p state_world s = (Inr [(''artifacts'', JList [JObj [(''id'', JInt 9),
         (''name'', JStr ARTIFACT_NAME), (''size_in_bytes'', JInt 100)]])], got ?p s)"
    using assms by (intro state_world_get state_rows) simp_all
  moreover have "artifact 9 state_world u = (Inr ''zip'', u\<lparr>trace := Download 9 # trace u\<rparr>)" for u
    by (simp add: artifact_def artifact_request_def bindI_def state_world_def MAX_STATE_BYTES_def)
  moreover have "decode_artifact (zip_members state_world) (decode_json state_world) ''zip'' = Inr sample_state"
    by (simp add: decode_artifact_def state_world_def table_world_def state_table_def MAX_STATE_BYTES_def)
  ultimately show ?thesis
    by (simp add: run_artifact_def sample_run_fields MAX_STATE_BYTES_def cong: run_congs)
      (simp add: bindI_lift cong: run_congs, rule exI, rule refl)
qed

lemma sample_previous_state:
  "\<exists>t. previous_state (sha_of CHR ''c'') ''main'' 3 state_world sample_client = (Inr (Some sample_state), t)"
proof -
  let ?p = "''actions/workflows/dependency-eligibility.yml/runs?per_page=30&status=success''"
  let ?s = "got ?p sample_client"
  have "get ?p state_world sample_client = (Inr [(''workflow_runs'', JList [JObj [(''id'', JInt 5)]])], ?s)"
    by (intro state_world_get state_rows) simp_all
  moreover have "get ''actions/runs/5'' state_world ?s = (Inr sample_service_run, got ''actions/runs/5'' ?s)"
    by (intro state_world_get state_rows) simp_all
  moreover obtain tr where "run_artifact 5 state_world (got (''compare/'' @ sha_of CHR ''a'' @ ''...main'') (got ''actions/runs/5'' ?s))
     = (Inr sample_state, (got ''actions/runs/5/artifacts?per_page=100''
          (got (''compare/'' @ sha_of CHR ''a'' @ ''...main'') (got ''actions/runs/5'' ?s)))\<lparr>trace := tr\<rparr>)"
    by (rule exE [OF state_world_artifact, rotated]) (assumption, simp)
  moreover have "validate_state (fromisoformat state_world) sample_state ''Strukturpiloten/boxferry'' 5 (sha_of CHR ''c'') 3
      = Inr sample_state"
    unfolding state_world_def by (simp, code_simp)
  ultimately show ?thesis
    by (simp add: previous_state_def state_of_run_def state_world_trusted sample_run_fields
        sample_client_def [THEN arg_cong [of _ _ api_repository]] cong: run_congs)
qed

theorem previous_state_trusted_witness:
  "\<exists>t. previous_state (sha_of CHR ''c'') ''main'' 3 state_world sample_client = (Inr (Some sample_state), t)
     \<and> restored state_world sample_client t (sha_of CHR ''c'') ''main'' 3 sample_state"
  using sample_previous_state previous_state_trusted by blast

end
