(* ===== verification/Distribution.thy ===== *)
theory Distribution
  imports EligState
begin

text \<open>
  \<open>distribution.py\<close>: the service that advances the branch \<open>automation-v1\<close> to a tested commit of
  main. Its client is the GitHub client with a budget of 40 requests that reads one repository and
  can send one kind of write, the non-forced update of that branch.
\<close>

section \<open>The client\<close>

definition REPOSITORY :: string where "REPOSITORY = ''Strukturpiloten/boxferry''"
definition WORKFLOW :: string where "WORKFLOW = ''.github/workflows/distribute-automation.yml''"
definition CI_WORKFLOW :: string where "CI_WORKFLOW = ''.github/workflows/ci.yml''"
definition BRANCH :: string where "BRANCH = ''automation-v1''"
definition REF :: string where "REF = ''git/refs/heads/'' @ BRANCH"
definition MAX_REQUESTS :: nat where "MAX_REQUESTS = 40"

definition new_api :: "rat \<Rightarrow> client res" where
  "new_api t = bindR (new_client REPOSITORY t) (\<lambda>api. Inr (api\<lparr>deadline := t + 180\<rparr>))"

definition dist_prefix :: string where "dist_prefix = ''/repos/'' @ REPOSITORY @ ''/''"

text \<open>The one write: \<open>{"sha": ..., "force": false}\<close> to the reference.\<close>

definition ref_update :: "string \<Rightarrow> string \<Rightarrow> json option \<Rightarrow> bool" where
  "ref_update m path data = (m = ''PATCH'' \<and> path = dist_prefix @ REF \<and> (case data of
     Some (JObj d) \<Rightarrow> keys d = {''sha'', ''force''} \<and> dget d ''force'' = JBool False
   | _ \<Rightarrow> False))"

definition update_sha :: "json option \<Rightarrow> json" where
  "update_sha data = (case data of Some (JObj d) \<Rightarrow> dget d ''sha'' | _ \<Rightarrow> JNull)"

definition dist_request :: "string \<Rightarrow> string \<Rightarrow> json option \<Rightarrow> json api" where
  "dist_request m path data =
     bindI (getI requests) (\<lambda>n.
     if MAX_REQUESTS \<le> n
     then raiseI (DistributionError ''distribution API request budget exhausted'' [])
     else if path \<noteq> butlast dist_prefix \<and> \<not> startswith path dist_prefix
     then raiseI (DistributionError ''distribution only reads the canonical repository'' [])
     else if m \<noteq> ''GET'' \<and> \<not> ref_update m path data
     then raiseI (DistributionError ''only a non-forced automation-v1 update is permitted'' [])
     else
     bindI (if m = ''PATCH'' then liftI (bindR (revision (update_sha data)) (\<lambda>_. Inr ())) else retI ())
       (\<lambda>_. request m path data))"

definition dist_get :: "string \<Rightarrow> dict api" where
  "dist_get rest =
     bindI (getI api_repository) (\<lambda>repository.
     bindI (dist_request ''GET'' (repo_path repository rest) None) (\<lambda>v.
     liftI (if is_obj v then Inr (dict_of v)
            else Inl (EligibilityError ''GitHub metadata response must be an object'' []))))"

section \<open>Readers\<close>

record outcome =
  out_status :: string
  out_candidate :: string
  out_previous :: string
  out_reason :: string

definition number_of :: "json \<Rightarrow> string \<Rightarrow> int res" where
  "number_of v label =
     (if \<not> positive_int v then Inl (DistributionError ''{} must be a positive integer'' [label])
      else Inr (int_of v))"

definition canonical :: "json \<Rightarrow> bool" where
  "canonical v = (is_obj v \<and> dget (dict_of v) ''full_name'' = JStr REPOSITORY)"

definition compare_refs :: "string \<Rightarrow> string \<Rightarrow> dict api" where
  "compare_refs base head =
     bindI (liftI (revision (JStr base))) (\<lambda>_.
     bindI (liftI (revision (JStr head))) (\<lambda>_.
     bindI (dist_get (''compare/'' @ base @ ''...'' @ head @ ''?per_page=1'')) (\<lambda>v.
     bindI (liftI (in_strings (dget v ''status'') [''ahead'', ''behind'', ''identical'', ''diverged'']))
       (\<lambda>known.
     if \<not> known
     then raiseI (DistributionError ''GitHub returned an unknown ancestry relationship'' [])
     else retI v))))"

definition ancestor_of :: "string \<Rightarrow> string \<Rightarrow> bool api" where
  "ancestor_of base head =
     (if base = head then retI True
      else bindI (compare_refs base head) (\<lambda>v.
        retI (dget v ''status'' \<in> {JStr ''ahead'', JStr ''identical''})))"

definition branch_tip :: "string \<Rightarrow> string api" where
  "branch_tip branch =
     bindI (catchI (dist_get (''git/ref/heads/'' @ branch)) (\<lambda>e. case e of
         MissingResource _ \<Rightarrow> raiseI (DistributionError ''branch {} is absent; the maintainer must bootstrap its verified initial commit after the foundation merge; this service never creates branches'' [branch])
       | _ \<Rightarrow> raiseI e)) (\<lambda>v.
     let malformed = DistributionError ''branch {} does not identify a commit ref'' [branch] in
     if dget v ''ref'' \<noteq> JStr (''refs/heads/'' @ branch) then raiseI malformed
     else
     bindI (liftI (attr_get (dget_or v ''object'' (JObj [])) ''type'')) (\<lambda>kind.
     if kind \<noteq> JStr ''commit'' then raiseI malformed
     else liftI (revision (dget (dict_of (dget v ''object'')) ''sha''))))"

definition shared_path :: "string \<Rightarrow> bool" where
  "shared_path path =
     (startswith path ''automation/'' \<or> startswith path ''renovate-presets/''
      \<or> startswith path ''templates/'' \<or> startswith path ''.github/workflows/shared-''
      \<or> startswith path ''.github/actions/shared-'' \<or> path = ''.devcontainer/Dockerfile''
      \<or> path = WORKFLOW)"

definition changed_file :: "json \<Rightarrow> bool res" where
  "changed_file file =
     (let d = dict_of file in
      if \<not> is_obj file \<or> \<not> is_str (dget d ''filename'')
      then Inl (DistributionError ''changed-file metadata is malformed'' [])
      else if has_key d ''previous_filename'' \<and> \<not> is_str (dget d ''previous_filename'')
      then Inl (DistributionError ''renamed-file metadata is malformed'' [])
      else Inr (shared_path (str_of (dget d ''filename''))
             \<or> (has_key d ''previous_filename'' \<and> shared_path (str_of (dget d ''previous_filename'')))))"

definition shared_changes :: "dict \<Rightarrow> bool res" where
  "shared_changes comparison =
     (let files = dget comparison ''files'' in
      if \<not> is_list files \<or> 300 \<le> length (list_of files)
      then Inl (DistributionError ''changed-file evidence is absent or reaches the 300-file cap'' [])
      else bindR (mapR changed_file (list_of files)) (\<lambda>relevant. Inr (True \<in> set relevant)))"

text \<open>The source run of the event: canonical, successful and not superseded.\<close>

definition source_ok :: "dict \<Rightarrow> int \<Rightarrow> int \<Rightarrow> bool" where
  "source_ok run source_id workflow_id =
     (py_eq (dget run ''id'') (JInt source_id) \<and> py_eq (dget run ''workflow_id'') (JInt workflow_id)
      \<and> dget run ''name'' = JStr ''CI'' \<and> dget run ''path'' = JStr CI_WORKFLOW
      \<and> canonical (dget run ''repository'') \<and> canonical (dget run ''head_repository'')
      \<and> dget run ''head_branch'' = JStr ''main'' \<and> dget run ''event'' = JStr ''push''
      \<and> dget run ''status'' = JStr ''completed'' \<and> dget run ''conclusion'' = JStr ''success''
      \<and> dget run ''pull_requests'' = JList [])"

definition source_run :: "dict \<Rightarrow> int \<Rightarrow> dict api" where
  "source_run expected workflow_id =
     bindI (liftI (number_of (dget expected ''id'') ''source run id'')) (\<lambda>source_id.
     bindI (dist_get (''actions/runs/'' @ show_int source_id)) (\<lambda>run.
     if \<not> source_ok run source_id workflow_id
     then raiseI (DistributionError ''source must be successful canonical push-main CI'' [])
     else
     bindI (liftI (revision (dget run ''head_sha''))) (\<lambda>_.
     bindI (liftI (number_of (dget run ''run_attempt'') ''source run attempt'')) (\<lambda>_.
     if \<not> list_all (\<lambda>key. py_eq (dget run key) (dget expected key)) [''id'', ''head_sha'', ''run_attempt'']
     then raiseI (DistributionError ''source event was superseded by another CI head or attempt'' [])
     else retI run))))"

text \<open>
  A number in a formatted path: an identifier is an integer; \<open>True\<close> and an integral float below
  \<open>10 ^ 16\<close>, which compare equal to one, print as Python prints them.
\<close>

fun format_number :: "json \<Rightarrow> string" where
  "format_number (JInt i) = show_int i"
| "format_number (JBool b) = (if b then ''True'' else ''False'')"
| "format_number (JFloat (Finite r)) = show_int \<lfloor>r\<rfloor> @ ''.0''"
| "format_number _ = []"

definition job_ok :: "dict \<Rightarrow> json \<Rightarrow> bool" where
  "job_ok source job = (is_obj job \<and> (let d = dict_of job in
     py_eq (dget d ''run_id'') (dget source ''id'')
     \<and> py_eq (dget d ''run_attempt'') (dget source ''run_attempt'')
     \<and> py_eq (dget d ''head_sha'') (dget source ''head_sha'')
     \<and> dget d ''status'' = JStr ''completed'' \<and> dget d ''conclusion'' = JStr ''success''))"

definition check_jobs_of :: "dict \<Rightarrow> unit api" where
  "check_jobs_of source =
     bindI (dist_get (''actions/runs/'' @ format_number (dget source ''id'') @ ''/attempts/''
              @ format_number (dget source ''run_attempt'') @ ''/jobs?per_page=100'')) (\<lambda>listing.
     let jobs = dget listing ''jobs'' in
     if \<not> is_list jobs \<or> list_of jobs = [] \<or> 100 < length (list_of jobs)
        \<or> dget listing ''total_count'' \<noteq> JInt (int (length (list_of jobs)))
     then raiseI (DistributionError
            ''complete current-attempt CI jobs exceed or lack bounded evidence'' [])
     else if \<not> list_all (job_ok source) (list_of jobs)
     then raiseI (DistributionError ''every current-attempt main CI job must succeed'' [])
     else
     requireI (length (filter (\<lambda>job. dget (dict_of job) ''name'' = JStr ''Required CI'') (list_of jobs)) = 1)
       (DistributionError ''exactly one successful Required CI job must admit this main run'' []))"

section \<open>The update\<close>

definition service_ok :: "dict \<Rightarrow> int \<Rightarrow> int \<Rightarrow> string \<Rightarrow> bool" where
  "service_ok service run_id run_attempt implementation =
     (py_eq (dget service ''id'') (JInt run_id) \<and> py_eq (dget service ''run_attempt'') (JInt run_attempt)
      \<and> dget service ''event'' = JStr ''workflow_run'' \<and> dget service ''path'' = JStr WORKFLOW
      \<and> dget service ''head_branch'' = JStr ''main'' \<and> dget service ''head_sha'' = JStr implementation
      \<and> canonical (dget service ''repository'') \<and> canonical (dget service ''head_repository''))"

definition main_is_default :: "exn \<Rightarrow> unit api" where
  "main_is_default e =
     bindI (dist_get []) (\<lambda>repository. requireI (dget repository ''default_branch'' = JStr ''main'') e)"

text \<open>\<open>held\<close>: the tip lies in main, and the candidate in the tip.\<close>

definition held :: "string \<Rightarrow> string \<Rightarrow> string \<Rightarrow> bool api" where
  "held candidate tip current_main =
     bindI (ancestor_of tip current_main) (\<lambda>inside.
     if \<not> inside
     then raiseI (DistributionError ''distribution branch is outside canonical main history'' [])
     else ancestor_of candidate tip)"

text \<open>The event and the executing service are trusted: the current tip of main.\<close>

definition trusted_service :: "string \<Rightarrow> dict \<Rightarrow> string \<Rightarrow> int \<Rightarrow> int \<Rightarrow> string api" where
  "trusted_service event_name event implementation run_id run_attempt =
     bindI (liftI (revision (JStr implementation))) (\<lambda>_.
     bindI (liftI (number_of (JInt run_id) ''service run id'')) (\<lambda>_.
     bindI (liftI (number_of (JInt run_attempt) ''service run attempt'')) (\<lambda>_.
     bindI (getI api_repository) (\<lambda>repository.
     if repository \<noteq> REPOSITORY \<or> event_name \<noteq> ''workflow_run''
        \<or> dget event ''action'' \<noteq> JStr ''completed'' \<or> \<not> canonical (dget event ''repository'')
     then raiseI (DistributionError ''distribution requires canonical workflow_run.completed'' [])
     else
     bindI (main_is_default (DistributionError
              ''default branch changed; review the explicit main-only contract'' [])) (\<lambda>_.
     bindI (dist_get (''actions/runs/'' @ show_int run_id)) (\<lambda>service.
     if \<not> service_ok service run_id run_attempt implementation
     then raiseI (DistributionError
            ''executing service is not the trusted exact default-branch code'' [])
     else
     bindI (branch_tip ''main'') (\<lambda>main.
     bindI (ancestor_of implementation main) (\<lambda>inside.
     if \<not> inside
     then raiseI (DistributionError ''service implementation is outside canonical main history'' [])
     else retI main))))))))"

text \<open>The evidence before the branch is looked at: workflow id, event run, candidate and main.\<close>

definition verified_candidate ::
  "string \<Rightarrow> dict \<Rightarrow> string \<Rightarrow> int \<Rightarrow> int \<Rightarrow> (int \<times> dict \<times> string \<times> string) api" where
  "verified_candidate event_name event implementation run_id run_attempt =
     bindI (trusted_service event_name event implementation run_id run_attempt) (\<lambda>main.
     bindI (dist_get ''actions/workflows/ci.yml'') (\<lambda>workflow.
     bindI (liftI (number_of (dget workflow ''id'') ''canonical CI workflow id'')) (\<lambda>workflow_id.
     if dget workflow ''path'' \<noteq> JStr CI_WORKFLOW \<or> dget workflow ''state'' \<noteq> JStr ''active''
     then raiseI (DistributionError ''canonical CI workflow is absent or inactive'' [])
     else if \<not> is_obj (dget event ''workflow_run'')
     then raiseI (DistributionError ''completed event lacks its source workflow run'' [])
     else
     bindI (source_run (dict_of (dget event ''workflow_run'')) workflow_id) (\<lambda>source.
     let candidate = str_of (dget source ''head_sha'') in
     bindI (ancestor_of candidate main) (\<lambda>inside.
     if \<not> inside
     then raiseI (DistributionError ''CI candidate is outside current canonical main history'' [])
     else
     bindI (check_jobs_of source) (\<lambda>_.
     retI (workflow_id, dict_of (dget event ''workflow_run''), candidate, main)))))))"

text \<open>All mutable authority is read again just before the write.\<close>

definition reverified :: "string \<Rightarrow> int \<times> dict \<times> string \<times> string \<Rightarrow> string api" where
  "reverified implementation v = (case v of (workflow_id, expected, candidate, main) \<Rightarrow>
     bindI (source_run expected workflow_id) (\<lambda>_.
     bindI (branch_tip ''main'') (\<lambda>main.
     bindI (main_is_default (DistributionError
              ''default branch changed before update; review the main-only contract'' [])) (\<lambda>_.
     bindI (ancestor_of implementation main) (\<lambda>a.
     bindI (if a then ancestor_of candidate main else retI False) (\<lambda>b.
     if \<not> b
     then raiseI (DistributionError
            ''service or candidate left canonical main history before update'' [])
     else retI main))))))"

definition retained :: "string \<Rightarrow> string \<Rightarrow> outcome" where
  "retained candidate current = \<lparr>out_status = ''unchanged'', out_candidate = candidate,
     out_previous = current, out_reason = ''concurrent verified newer branch retained''\<rparr>"

definition update_value :: "string \<Rightarrow> json" where
  "update_value candidate = JObj [(''sha'', JStr candidate), (''force'', JBool False)]"

text \<open>The write, its races and its readback.\<close>

definition update_branch :: "string \<Rightarrow> string \<Rightarrow> outcome api" where
  "update_branch candidate previous =
     bindI (catchI
       (bindI (dist_request ''PATCH'' (dist_prefix @ REF) (Some (update_value candidate)))
          (\<lambda>_. retI None))
       (\<lambda>e. if \<not> is_EligibilityError e then raiseI e
            else
            bindI (branch_tip BRANCH) (\<lambda>current.
            bindI (branch_tip ''main'') (\<lambda>main.
            bindI (if current \<noteq> previous then held candidate current main else retI False) (\<lambda>newer.
            if newer then retI (Some (retained candidate current)) else raiseI e))))) (\<lambda>r. case r of
       Some result \<Rightarrow> retI result
     | None \<Rightarrow>
         bindI (branch_tip BRANCH) (\<lambda>current.
         bindI (branch_tip ''main'') (\<lambda>main.
         bindI (held candidate current main) (\<lambda>ok.
         if \<not> ok
         then raiseI (DistributionError
                ''updated branch readback does not contain the tested candidate'' [])
         else retI \<lparr>out_status = ''advanced'', out_candidate = candidate, out_previous = previous,
                out_reason = ''verified non-forced automation-v1 update''\<rparr>))))"

text \<open>What is decided before the write: a result, or the tip the update starts from.\<close>

definition decide :: "string \<Rightarrow> int \<times> dict \<times> string \<times> string \<Rightarrow> (outcome option \<times> string) api" where
  "decide implementation v = (case v of (workflow_id, expected, candidate, main) \<Rightarrow>
     bindI (branch_tip BRANCH) (\<lambda>previous.
     bindI (held candidate previous main) (\<lambda>done.
     if done
     then retI (Some \<lparr>out_status = ''unchanged'', out_candidate = candidate, out_previous = previous,
            out_reason = ''candidate already distributed or superseded''\<rparr>, previous)
     else
     bindI (compare_refs previous candidate) (\<lambda>comparison.
     if dget comparison ''status'' \<noteq> JStr ''ahead''
     then raiseI (DistributionError
            ''distribution branch must be an ancestor of the tested candidate'' [])
     else
     bindI (liftI (shared_changes comparison)) (\<lambda>relevant.
     if \<not> relevant
     then retI (Some \<lparr>out_status = ''unchanged'', out_candidate = candidate, out_previous = previous,
            out_reason = ''no producer-owned automation changes''\<rparr>, previous)
     else
     bindI (reverified implementation v) (\<lambda>main.
     bindI (branch_tip BRANCH) (\<lambda>current.
     if current = previous then retI (None, previous)
     else
     bindI (held candidate current main) (\<lambda>newer.
     if newer then retI (Some (retained candidate current), previous)
     else raiseI (DistributionError
            ''distribution branch changed; retry this exact source event safely'' [])))))))))"

definition distribute ::
  "string \<Rightarrow> dict \<Rightarrow> string \<Rightarrow> int \<Rightarrow> int \<Rightarrow> outcome api" where
  "distribute event_name event implementation run_id run_attempt =
     bindI (verified_candidate event_name event implementation run_id run_attempt) (\<lambda>v.
     bindI (decide implementation v) (\<lambda>(result, previous). case result of
       Some r \<Rightarrow> retI r
     | None \<Rightarrow> update_branch (fst (snd (snd v))) previous))"

section \<open>What the service may do\<close>

definition dist_event :: "event \<Rightarrow> bool" where
  "dist_event e = (case e of
     Request m path data \<Rightarrow>
       (path = butlast dist_prefix \<or> startswith path dist_prefix)
       \<and> (m = ''GET'' \<or> (ref_update m path data \<and> is_sha_str (update_sha data)))
   | Clock \<Rightarrow> True | _ \<Rightarrow> False)"

definition is_write :: "event \<Rightarrow> bool" where
  "is_write e = (case e of Request m path data \<Rightarrow> m \<noteq> ''GET'' | _ \<Rightarrow> False)"

definition in_dist_budget :: "client \<Rightarrow> bool" where
  "in_dist_budget s \<longleftrightarrow> request_count s \<le> requests s \<and> requests s \<le> MAX_REQUESTS"

text \<open>Permitted effects only, with at most so many writes, within the budget.\<close>

definition may_write :: "nat \<Rightarrow> client \<Rightarrow> client \<Rightarrow> bool" where
  "may_write n s t \<longleftrightarrow> frame s t \<and> (in_dist_budget s \<longrightarrow> in_dist_budget t)
     \<and> (\<exists>new. trace t = new @ trace s \<and> list_all dist_event new \<and> length (filter is_write new) \<le> n)"

lemma may_write_add: "may_write a s t \<Longrightarrow> may_write b t u \<Longrightarrow> may_write (a + b) s u"
  unfolding may_write_def using frame.both by (fastforce intro: add_mono)

lemma may_write_mono: "may_write a s t \<Longrightarrow> a \<le> b \<Longrightarrow> may_write b s t"
  unfolding may_write_def by (meson le_trans)

interpretation quiet: step_rule "may_write 0"
proof
  show "may_write 0 s s" for s by (auto simp: may_write_def frame.none)
  show "may_write 0 s u" if "may_write 0 s t" "may_write 0 t u" for s t u
    using may_write_add [OF that] by simp
qed

text \<open>A program that writes nothing, before or after one that may write once.\<close>

lemma once_after:
  assumes "keeps (may_write 0) m" and "\<And>x. keeps (may_write 1) (f x)"
  shows "keeps (may_write 1) (bindI m f)"
proof (rule keepsI)
  fix w s r t
  assume run: "bindI m f w s = (r, t)"
  obtain q u where q: "m w s = (q, u)" by (cases "m w s")
  show "may_write 1 s t"
  proof (cases q)
    case (Inl e)
    with q run keepsD [OF assms(1) q] show ?thesis by (auto intro: may_write_mono)
  next
    case (Inr x)
    with q run have "f x w u = (r, t)" by simp
    from may_write_add [OF keepsD [OF assms(1) q] keepsD [OF assms(2) this]] show ?thesis by simp
  qed
qed

lemma once_before:
  assumes "keeps (may_write 1) m" and "\<And>x. keeps (may_write 0) (f x)"
  shows "keeps (may_write 1) (bindI m f)"
proof (rule keepsI)
  fix w s r t
  assume run: "bindI m f w s = (r, t)"
  obtain q u where q: "m w s = (q, u)" by (cases "m w s")
  show "may_write 1 s t"
  proof (cases q)
    case (Inl e)
    with q run keepsD [OF assms(1) q] show ?thesis by auto
  next
    case (Inr x)
    with q run have "f x w u = (r, t)" by simp
    from may_write_add [OF keepsD [OF assms(1) q] keepsD [OF assms(2) this]] show ?thesis by simp
  qed
qed

lemma once_catch:
  assumes "keeps (may_write 1) m" and "\<And>e. keeps (may_write 0) (h e)"
  shows "keeps (may_write 1) (catchI m h)"
proof (rule keepsI)
  fix w s r t
  assume run: "catchI m h w s = (r, t)"
  obtain q u where q: "m w s = (q, u)" by (cases "m w s")
  show "may_write 1 s t"
  proof (cases q)
    case (Inl e)
    with q run have "h e w u = (r, t)" by simp
    from may_write_add [OF keepsD [OF assms(1) q] keepsD [OF assms(2) this]] show ?thesis by simp
  next
    case (Inr x)
    with q run keepsD [OF assms(1) q] show ?thesis by auto
  qed
qed

lemma may_write_once: "keeps (may_write 0) m \<Longrightarrow> keeps (may_write 1) m"
  by (erule keeps_mono) (erule may_write_mono, simp)

lemma dist_request_within: "keeps (may_write (if m = ''GET'' then 0 else 1)) (dist_request m path data)"
proof (rule keepsI)
  fix w s r t
  assume run: "dist_request m path data w s = (r, t)"
  have stay: "may_write (if m = ''GET'' then 0 else 1) s s"
    using may_write_mono [OF quiet.none] by simp
  show "may_write (if m = ''GET'' then 0 else 1) s t"
  proof (cases "t = s")
    case True
    with stay show ?thesis by simp
  next
    case False
    then have ok: "requests s < MAX_REQUESTS" "path = butlast dist_prefix \<or> startswith path dist_prefix"
      "m = ''GET'' \<or> (ref_update m path data \<and> is_sha_str (update_sha data))"
      and req: "request m path data w s = (r, t)"
      using run unfolding dist_request_def
      by (auto simp: bindI_def ref_update_def res_simps split: if_splits sum.splits)
    from keepsD [OF frame_request req] have "frame s t" .
    moreover from req consider "trace t = trace s" "requests t = requests s + 1"
      | "trace t = Clock # trace s" "requests t = requests s + 1"
      | "trace t = Request m path data # Clock # trace s" "requests t = requests s + 1"
      by (auto simp: request_def bindI_def bump_def now_def http_def split: prod.splits sum.splits if_splits)
    then have "(in_dist_budget s \<longrightarrow> in_dist_budget t)
       \<and> (\<exists>new. trace t = new @ trace s \<and> list_all dist_event new
            \<and> length (filter is_write new) \<le> (if m = ''GET'' then 0 else 1))"
      using ok by cases (auto simp: in_dist_budget_def request_count_def dist_event_def is_write_def)
    ultimately show ?thesis by (simp add: may_write_def)
  qed
qed

lemma quiet_dist_get: "keeps (may_write 0) (dist_get rest)"
proof -
  have "keeps (may_write 0) (dist_request ''GET'' path None)" for path
    using dist_request_within [of "''GET''"] by simp
  then show ?thesis unfolding dist_get_def by (intro quiet.keeps_rules)
qed

lemmas quiet_rules = quiet.keeps_rules quiet_dist_get

lemma quiet_compare: "keeps (may_write 0) (compare_refs base head)"
  unfolding compare_refs_def by (intro quiet_rules)

lemma quiet_ancestor: "keeps (may_write 0) (ancestor_of base head)"
  unfolding ancestor_of_def by (intro quiet_rules quiet_compare)

lemma quiet_tip: "keeps (may_write 0) (branch_tip branch)"
proof -
  have "keeps (may_write 0) (case e of MissingResource m \<Rightarrow> raiseI a | _ \<Rightarrow> raiseI e)" for e a
    by (cases e) (simp_all only: exn.case quiet.keeps_raise)
  then show ?thesis unfolding branch_tip_def Let_def by (intro quiet_rules)
qed

lemma quiet_source: "keeps (may_write 0) (source_run expected workflow_id)"
  unfolding source_run_def by (intro quiet_rules)

lemma quiet_jobs: "keeps (may_write 0) (check_jobs_of source)"
  unfolding check_jobs_of_def Let_def by (intro quiet_rules)

lemma quiet_default: "keeps (may_write 0) (main_is_default e)"
  unfolding main_is_default_def by (intro quiet_rules)

lemma quiet_held: "keeps (may_write 0) (held candidate tip main)"
  unfolding held_def by (intro quiet_rules quiet_ancestor)

lemma quiet_service: "keeps (may_write 0) (trusted_service event_name event implementation run_id run_attempt)"
  unfolding trusted_service_def by (intro quiet_rules quiet_default quiet_tip quiet_ancestor)

lemma quiet_verified: "keeps (may_write 0) (verified_candidate event_name event implementation run_id run_attempt)"
  unfolding verified_candidate_def Let_def
  by (intro quiet_rules quiet_service quiet_ancestor quiet_source quiet_jobs)

lemma quiet_reverified: "keeps (may_write 0) (reverified implementation v)"
  unfolding reverified_def
  by (intro quiet_rules quiet_default quiet_tip quiet_ancestor quiet_source)

lemma quiet_decide: "keeps (may_write 0) (decide implementation v)"
  unfolding decide_def by (intro quiet_rules quiet_tip quiet_held quiet_compare quiet_reverified)

lemma update_branch_once: "keeps (may_write 1) (update_branch candidate previous)"
proof -
  have p: "keeps (may_write 1) (dist_request ''PATCH'' path data)" for path data
    using dist_request_within [of "''PATCH''"] by simp
  show ?thesis unfolding update_branch_def
    by (rule once_before, rule once_catch, rule once_before, rule p)
      (intro quiet_rules quiet_tip quiet_held)+
qed

text \<open>
  C17. Distribution is confined. Whatever GitHub answers and however the run ends, every effect is
  a read of the canonical repository or the non-forced update of \<open>automation-v1\<close> to a full commit
  name, there is at most one such update, and at most 40 requests are sent.
\<close>

theorem distribute_confined:
  assumes "distribute event_name event implementation run_id run_attempt w s = (r, t)"
    and "trace s = []" and "requests s = 0"
  shows "list_all dist_event (trace t) \<and> length (filter is_write (trace t)) \<le> 1 \<and> request_count t \<le> 40"
proof -
  have "keeps (may_write 1) (distribute event_name event implementation run_id run_attempt)"
  proof -
    have "keeps (may_write 1) (case p of (result, previous) \<Rightarrow> (case result of
       Some r \<Rightarrow> retI r | None \<Rightarrow> update_branch candidate previous))" for p candidate
      using may_write_once [OF quiet.keeps_ret] update_branch_once by (auto split: prod.splits option.splits)
    then show ?thesis unfolding distribute_def
      by (intro once_after quiet_verified quiet_decide)
  qed
  from keepsD [OF this assms(1)] assms(2,3) show ?thesis
    by (auto simp: may_write_def in_dist_budget_def request_count_def MAX_REQUESTS_def)
qed

section \<open>What an advance has established\<close>

lemma dist_get_Inr:
  assumes "dist_get rest w s = (Inr d, t)"
  shows "observed w s t rest (JObj d) \<and> frame s t"
proof -
  from assms have "request ''GET'' (repo_path (api_repository s) rest) None w s = (Inr (JObj d), t)"
    unfolding dist_get_def dist_request_def by (auto simp: bindI_Inr is_obj_iff split: if_splits)
  then have "get rest w s = (Inr d, t)" by (simp add: get_Inr)
  then show ?thesis by (rule get_observed)
qed

lemma quiet_frame: "keeps (may_write 0) m \<Longrightarrow> m w s = (r, t) \<Longrightarrow> frame s t"
  by (auto simp: may_write_def dest: keepsD)

text \<open>The comparison of two commits was read, and one is an ancestor of the other.\<close>

definition comparison_seen :: "world \<Rightarrow> client \<Rightarrow> client \<Rightarrow> string \<Rightarrow> string \<Rightarrow> dict \<Rightarrow> bool" where
  "comparison_seen w s t base head d \<longleftrightarrow> is_sha base \<and> is_sha head
     \<and> observed w s t (''compare/'' @ base @ ''...'' @ head @ ''?per_page=1'') (JObj d)"

definition ancestry_seen :: "world \<Rightarrow> client \<Rightarrow> client \<Rightarrow> string \<Rightarrow> string \<Rightarrow> bool" where
  "ancestry_seen w s t base head \<longleftrightarrow> base = head
     \<or> (\<exists>d. comparison_seen w s t base head d \<and> dget d ''status'' \<in> {JStr ''ahead'', JStr ''identical''})"

definition tip_seen :: "world \<Rightarrow> client \<Rightarrow> client \<Rightarrow> string \<Rightarrow> string \<Rightarrow> bool" where
  "tip_seen w s t branch sha \<longleftrightarrow> is_sha sha \<and> (\<exists>d. observed w s t (''git/ref/heads/'' @ branch) (JObj d)
     \<and> dget d ''ref'' = JStr (''refs/heads/'' @ branch)
     \<and> attr_get (dget d ''object'') ''type'' = Inr (JStr ''commit'')
     \<and> attr_get (dget d ''object'') ''sha'' = Inr (JStr sha))"

lemma comparison_seen_wider:
  "comparison_seen w s' t' base head d \<Longrightarrow> frame s s' \<Longrightarrow> frame t' t \<Longrightarrow> comparison_seen w s t base head d"
  by (auto simp: comparison_seen_def intro: observed_wider)

lemma ancestry_seen_wider:
  "ancestry_seen w s' t' base head \<Longrightarrow> frame s s' \<Longrightarrow> frame t' t \<Longrightarrow> ancestry_seen w s t base head"
  by (auto simp: ancestry_seen_def intro: comparison_seen_wider)

lemma tip_seen_wider: "tip_seen w s' t' branch sha \<Longrightarrow> frame s s' \<Longrightarrow> frame t' t \<Longrightarrow> tip_seen w s t branch sha"
  by (auto simp: tip_seen_def intro: observed_wider)

lemma compare_refs_Inr:
  assumes "compare_refs base head w s = (Inr d, t)"
  shows "comparison_seen w s t base head d"
proof -
  from assms have "is_sha base" "is_sha head"
    "dist_get (''compare/'' @ base @ ''...'' @ head @ ''?per_page=1'') w s = (Inr d, t)"
    unfolding compare_refs_def by (auto simp: bindI_Inr revision_Inr split: if_splits)
  with dist_get_Inr show ?thesis by (auto simp: comparison_seen_def)
qed

lemma ancestor_of_Inr: "ancestor_of base head w s = (Inr True, t) \<Longrightarrow> ancestry_seen w s t base head"
  by (auto simp: ancestor_of_def ancestry_seen_def bindI_Inr dest: compare_refs_Inr split: if_splits)

lemma branch_tip_Inr:
  assumes "branch_tip branch w s = (Inr sha, t)"
  shows "tip_seen w s t branch sha"
proof -
  have never: "(case e of MissingResource m \<Rightarrow> raiseI a | _ \<Rightarrow> raiseI e) w u \<noteq> (Inr d, v)" for e a u v and d :: dict
    by (cases e) auto
  obtain d s1 kind where c: "catchI (dist_get (''git/ref/heads/'' @ branch)) (\<lambda>e. case e of
         MissingResource _ \<Rightarrow> raiseI (DistributionError ''branch {} is absent; the maintainer must bootstrap its verified initial commit after the foundation merge; this service never creates branches'' [branch])
       | _ \<Rightarrow> raiseI e) w s = (Inr d, s1)"
    and r: "\<not> dget d ''ref'' \<noteq> JStr (''refs/heads/'' @ branch)" "\<not> kind \<noteq> JStr ''commit''"
      "revision (dget (dict_of (dget d ''object'')) ''sha'') = Inr sha"
      "attr_get (dget_or d ''object'' (JObj [])) ''type'' = Inr kind" and t: "t = s1"
    using assms unfolding branch_tip_def Let_def by (elim run_elims) (rule that, assumption+, simp)
  from c have g: "dist_get (''git/ref/heads/'' @ branch) w s = (Inr d, s1)"
    unfolding catchI_Inr by (elim disjE exE conjE) (simp_all only: never)
  have o: "dget_or d ''object'' (JObj []) = dget d ''object''"
    using r(2,4) by (auto simp: dget_or_def dget_def split: option.splits)
  from dist_get_Inr [OF g] r t show ?thesis
    unfolding tip_seen_def by (auto simp: o attr_get_Inr revision_Inr)
qed

lemma held_Inr:
  assumes "held candidate tip main w s = (Inr True, t)"
  shows "ancestry_seen w s t tip main \<and> ancestry_seen w s t candidate tip"
proof -
  from assms obtain s1 where a: "ancestor_of tip main w s = (Inr True, s1)" "ancestor_of candidate tip w s1 = (Inr True, t)"
    unfolding held_def by (auto simp: bindI_Inr split: if_splits)
  from quiet_frame [OF quiet_ancestor a(1)] quiet_frame [OF quiet_ancestor a(2)] ancestor_of_Inr [OF a(1)] ancestor_of_Inr [OF a(2)]
  show ?thesis using ancestry_seen_wider [OF _ frame.none] ancestry_seen_wider [OF _ _ frame.none] by blast
qed

text \<open>A tested candidate: its main run and every job of the current attempt succeeded.\<close>

definition tested :: "world \<Rightarrow> client \<Rightarrow> client \<Rightarrow> string \<Rightarrow> bool" where
  "tested w s t candidate \<longleftrightarrow> is_sha candidate \<and> (\<exists>source source_id workflow_id listing path.
     observed w s t (''actions/runs/'' @ show_int source_id) (JObj source)
     \<and> source_ok source source_id workflow_id \<and> dget source ''head_sha'' = JStr candidate
     \<and> observed w s t path (JObj listing)
     \<and> (\<exists>jobs. dget listing ''jobs'' = JList jobs \<and> jobs \<noteq> [] \<and> list_all (job_ok source) jobs
          \<and> length (filter (\<lambda>job. dget (dict_of job) ''name'' = JStr ''Required CI'') jobs) = 1))"

lemma tested_wider: "tested w s' t' candidate \<Longrightarrow> frame s s' \<Longrightarrow> frame t' t \<Longrightarrow> tested w s t candidate"
  unfolding tested_def by (meson observed_wider)

lemma source_run_Inr:
  assumes "source_run expected workflow_id w s = (Inr run, t)"
  shows "\<exists>source_id candidate. observed w s t (''actions/runs/'' @ show_int source_id) (JObj run)
    \<and> source_ok run source_id workflow_id \<and> dget run ''head_sha'' = JStr candidate \<and> is_sha candidate"
proof -
  from assms obtain source_id where "dist_get (''actions/runs/'' @ show_int source_id) w s = (Inr run, t)"
    "source_ok run source_id workflow_id" "\<exists>h. dget run ''head_sha'' = JStr h \<and> is_sha h"
    unfolding source_run_def by (auto simp: bindI_Inr revision_Inr split: if_splits)
  with dist_get_Inr show ?thesis by blast
qed

lemma check_jobs_of_Inr:
  assumes "check_jobs_of source w s = (Inr u, t)"
  shows "\<exists>path listing jobs. observed w s t path (JObj listing) \<and> dget listing ''jobs'' = JList jobs
     \<and> jobs \<noteq> [] \<and> list_all (job_ok source) jobs
     \<and> length (filter (\<lambda>job. dget (dict_of job) ''name'' = JStr ''Required CI'') jobs) = 1"
proof -
  from assms obtain path listing where "dist_get path w s = (Inr listing, t)"
    "is_list (dget listing ''jobs'')" "list_of (dget listing ''jobs'') \<noteq> []"
    "list_all (job_ok source) (list_of (dget listing ''jobs''))"
    "length (filter (\<lambda>job. dget (dict_of job) ''name'' = JStr ''Required CI'') (list_of (dget listing ''jobs''))) = 1"
    unfolding check_jobs_of_def Let_def by (auto simp: bindI_Inr split: if_splits)
  with dist_get_Inr show ?thesis by (metis is_list_iff list_of.simps(1))
qed

lemma verified_candidate_Inr:
  assumes "verified_candidate event_name event implementation run_id run_attempt w s = (Inr v, t)"
  shows "tested w s t (fst (snd (snd v))) \<and> frame s t"
proof
  show "frame s t" by (rule quiet_frame [OF quiet_verified assms])
  obtain main s1 workflow s2 wid source s3 i s4 where
    a: "trusted_service event_name event implementation run_id run_attempt w s = (Inr main, s1)"
      "dist_get ''actions/workflows/ci.yml'' w s1 = (Inr workflow, s2)"
      "source_run (dict_of (dget event ''workflow_run'')) wid w s2 = (Inr source, s3)"
      "ancestor_of (str_of (dget source ''head_sha'')) main w s3 = (Inr i, s4)"
      "check_jobs_of source w s4 = (Inr (), t)"
    and v: "fst (snd (snd v)) = str_of (dget source ''head_sha'')"
    using assms unfolding verified_candidate_def Let_def
    by (auto simp: bindI_Inr split: if_splits)
  note f = quiet_frame [OF quiet_service, OF a(1)] quiet_frame [OF quiet_dist_get, OF a(2)]
    quiet_frame [OF quiet_source, OF a(3)] quiet_frame [OF quiet_ancestor, OF a(4)] quiet_frame [OF quiet_jobs, OF a(5)]
  note before = frame.both [OF f(1) f(2)] and later = frame.both [OF f(4) f(5)] and upto = frame.both [OF frame.both [OF f(1) f(2)] frame.both [OF f(3) f(4)]]
  from source_run_Inr [OF a(3)] obtain sid c where src: "observed w s2 s3 (''actions/runs/'' @ show_int sid) (JObj source)"
    "source_ok source sid wid" "dget source ''head_sha'' = JStr c" "is_sha c" by blast
  from check_jobs_of_Inr [OF a(5)] obtain path listing jobs where js: "observed w s4 t path (JObj listing)"
    "dget listing ''jobs'' = JList jobs" "jobs \<noteq> []" "list_all (job_ok source) jobs"
    "length (filter (\<lambda>job. dget (dict_of job) ''name'' = JStr ''Required CI'') jobs) = 1" by blast
  from observed_wider [OF src(1) before later] observed_wider [OF js(1) upto frame.none] src(2-4) js(2-5) v
  show "tested w s t (fst (snd (snd v)))" unfolding tested_def by (metis str_of.simps(1))
qed

text \<open>Everything an update rests on, read between two states of the client.\<close>

definition update_justified :: "world \<Rightarrow> client \<Rightarrow> client \<Rightarrow> string \<Rightarrow> string \<Rightarrow> bool" where
  "update_justified w s t candidate previous \<longleftrightarrow>
     tested w s t candidate \<and> tip_seen w s t BRANCH previous
     \<and> (\<exists>d. comparison_seen w s t previous candidate d \<and> dget d ''status'' = JStr ''ahead''
          \<and> shared_changes d = Inr True)
     \<and> (\<exists>main. tip_seen w s t ''main'' main \<and> ancestry_seen w s t candidate main)"

definition readback_holds :: "world \<Rightarrow> client \<Rightarrow> client \<Rightarrow> string \<Rightarrow> bool" where
  "readback_holds w s t candidate \<longleftrightarrow> (\<exists>current main. tip_seen w s t BRANCH current
     \<and> tip_seen w s t ''main'' main \<and> ancestry_seen w s t current main \<and> ancestry_seen w s t candidate current)"

lemma reverified_Inr:
  assumes "reverified implementation (wid, expected, candidate, i) w s = (Inr main, t)"
  shows "tip_seen w s t ''main'' main \<and> ancestry_seen w s t candidate main \<and> frame s t"
proof -
  obtain src s1 s2 s3 s4 where
    a: "source_run expected wid w s = (Inr src, s1)" "branch_tip ''main'' w s1 = (Inr main, s2)"
      "main_is_default (DistributionError
              ''default branch changed before update; review the main-only contract'' []) w s2 = (Inr (), s3)"
      "ancestor_of implementation main w s3 = (Inr True, s4)" "ancestor_of candidate main w s4 = (Inr True, t)"
    using assms unfolding reverified_def prod.case
    by (auto simp: bindI_Inr split: if_splits)
  note f = quiet_frame [OF quiet_source, OF a(1)] quiet_frame [OF quiet_tip, OF a(2)]
    quiet_frame [OF quiet_default, OF a(3)] quiet_frame [OF quiet_ancestor, OF a(4)] quiet_frame [OF quiet_ancestor, OF a(5)]
  note rest = frame.both [OF frame.both [OF f(3) f(4)] f(5)]
    and front = frame.both [OF frame.both [OF f(1) f(2)] frame.both [OF f(3) f(4)]]
  from tip_seen_wider [OF branch_tip_Inr [OF a(2)] f(1) rest]
    ancestry_seen_wider [OF ancestor_of_Inr [OF a(5)] front frame.none] frame.both [OF front f(5)]
  show ?thesis by blast
qed

lemma decide_Inr:
  assumes "decide implementation (wid, expected, candidate, i) w s = (Inr (None, previous), t)"
  shows "frame s t \<and> tip_seen w s t BRANCH previous
     \<and> (\<exists>d. comparison_seen w s t previous candidate d \<and> dget d ''status'' = JStr ''ahead''
          \<and> shared_changes d = Inr True)
     \<and> (\<exists>main. tip_seen w s t ''main'' main \<and> ancestry_seen w s t candidate main)"
proof -
  obtain s1 s2 d s3 main s4 current s5 where
    a: "branch_tip BRANCH w s = (Inr previous, s1)" "held candidate previous i w s1 = (Inr False, s2)"
      "compare_refs previous candidate w s2 = (Inr d, s3)"
      "reverified implementation (wid, expected, candidate, i) w s3 = (Inr main, s4)"
      "branch_tip BRANCH w s4 = (Inr current, t)"
    and d: "dget d ''status'' = JStr ''ahead''" "shared_changes d = Inr True"
    using assms unfolding decide_def prod.case
    by (auto simp: bindI_Inr split: if_splits)
  note f = quiet_frame [OF quiet_tip, OF a(1)] quiet_frame [OF quiet_held, OF a(2)]
    quiet_frame [OF quiet_compare, OF a(3)] quiet_frame [OF quiet_reverified, OF a(4)] quiet_frame [OF quiet_tip, OF a(5)]
  note r2 = frame.both [OF f(4) f(5)]
  note r1 = frame.both [OF frame.both [OF f(2) f(3)] r2]
  note p2 = frame.both [OF f(1) f(2)]
  note p3 = frame.both [OF p2 f(3)]
  note rv = reverified_Inr [OF a(4)]
  from tip_seen_wider [OF branch_tip_Inr [OF a(1)] frame.none r1] comparison_seen_wider [OF compare_refs_Inr [OF a(3)] p2 r2]
    tip_seen_wider [OF conjunct1 [OF rv] p3 f(5)] ancestry_seen_wider [OF conjunct1 [OF conjunct2 [OF rv]] p3 f(5)]
    frame.both [OF p3 r2] d
  show ?thesis by blast
qed

lemma decide_status:
  "decide implementation v w s = (Inr (Some r, previous), t) \<Longrightarrow> out_status r = ''unchanged''"
  unfolding decide_def
  by (auto simp: bindI_Inr retained_def split: if_splits prod.splits)

lemma update_branch_Inr:
  assumes "update_branch candidate previous w s = (Inr r, t)" and "out_status r = ''advanced''"
  shows "out_candidate r = candidate \<and> out_previous r = previous
    \<and> (\<exists>u x. dist_request ''PATCH'' (dist_prefix @ REF) (Some (update_value candidate)) w s = (Inr x, u)
         \<and> readback_holds w u t candidate)"
proof -
  let ?h = "\<lambda>e. if \<not> is_EligibilityError e then raiseI e
            else
            bindI (branch_tip BRANCH) (\<lambda>current.
            bindI (branch_tip ''main'') (\<lambda>main.
            bindI (if current \<noteq> previous then held candidate current main else retI False) (\<lambda>newer.
            if newer then retI (Some (retained candidate current)) else raiseI e)))"
  define h where "h = ?h"
  have handler: "out_status r' = ''unchanged''" if "h e w a = (Inr (Some r'), b)" for e a b r'
    using that by (auto simp: h_def bindI_Inr retained_def split: if_splits)
  have never: "h e w a \<noteq> (Inr None, b)" for e a b
    by (auto simp: h_def bindI_Inr split: if_splits)
  obtain q u where c: "catchI (bindI (dist_request ''PATCH'' (dist_prefix @ REF) (Some (update_value candidate)))
          (\<lambda>_. retI None)) h w s = (Inr q, u)"
    and k: "(case q of Some result \<Rightarrow> retI result | None \<Rightarrow>
         bindI (branch_tip BRANCH) (\<lambda>current.
         bindI (branch_tip ''main'') (\<lambda>main.
         bindI (held candidate current main) (\<lambda>ok.
         if \<not> ok
         then raiseI (DistributionError
                ''updated branch readback does not contain the tested candidate'' [])
         else retI \<lparr>out_status = ''advanced'', out_candidate = candidate, out_previous = previous,
                out_reason = ''verified non-forced automation-v1 update''\<rparr>)))) w u = (Inr r, t)"
    using assms(1) unfolding update_branch_def h_def by (rule bindI_InrE)
  have q: "q = None"
  proof (rule ccontr)
    assume "q \<noteq> None"
    then obtain r' where "q = Some r'" by auto
    with k have r: "r' = r" by simp
    have "bindI (dist_request ''PATCH'' (dist_prefix @ REF) (Some (update_value candidate)))
          (\<lambda>_. retI None) w s \<noteq> (Inr (Some r'), u)"
      by (simp add: bindI_Inr)
    with c \<open>q = Some r'\<close> obtain e a where "h e w a = (Inr (Some r'), u)" unfolding catchI_Inr by blast
    from handler [OF this] assms(2) r show False by simp
  qed
  from c never have "bindI (dist_request ''PATCH'' (dist_prefix @ REF) (Some (update_value candidate)))
          (\<lambda>_. retI None) w s = (Inr q, u)" unfolding catchI_Inr q by blast
  then obtain x where p: "dist_request ''PATCH'' (dist_prefix @ REF) (Some (update_value candidate)) w s = (Inr x, u)"
    by (auto simp: bindI_Inr)
  from k q obtain current s1 main s2 where
    a: "branch_tip BRANCH w u = (Inr current, s1)" "branch_tip ''main'' w s1 = (Inr main, s2)"
      "held candidate current main w s2 = (Inr True, t)"
    and r: "r = \<lparr>out_status = ''advanced'', out_candidate = candidate, out_previous = previous,
                out_reason = ''verified non-forced automation-v1 update''\<rparr>"
    by (auto simp: bindI_Inr split: if_splits)
  note f = quiet_frame [OF quiet_tip, OF a(1)] quiet_frame [OF quiet_tip, OF a(2)] quiet_frame [OF quiet_held, OF a(3)]
  have "readback_holds w u t candidate"
    using tip_seen_wider [OF branch_tip_Inr [OF a(1)] frame.none frame.both [OF f(2) f(3)]]
      tip_seen_wider [OF branch_tip_Inr [OF a(2)] f(1) f(3)]
      ancestry_seen_wider [OF conjunct1 [OF held_Inr [OF a(3)]] frame.both [OF f(1) f(2)] frame.none]
      ancestry_seen_wider [OF conjunct2 [OF held_Inr [OF a(3)]] frame.both [OF f(1) f(2)] frame.none]
    unfolding readback_holds_def by blast
  with p r show ?thesis by auto
qed
text \<open>
  C16. An advance is earned. When the service reports an advance, it had read before the write: the
  candidate's successful main run with every job of its current attempt, the candidate inside main,
  and the old tip strictly behind the candidate with a producer-owned change between them; the
  write moved \<open>automation-v1\<close> to exactly the candidate and was answered; and the tips read back
  after it contain the candidate and lie in main.
\<close>

theorem distribute_advanced:
  assumes "distribute event_name event implementation run_id run_attempt w s = (Inr r, t)"
    and "out_status r = ''advanced''"
  shows "\<exists>u v x. update_justified w s u (out_candidate r) (out_previous r)
    \<and> dist_request ''PATCH'' (dist_prefix @ REF) (Some (update_value (out_candidate r))) w u = (Inr x, v)
    \<and> readback_holds w v t (out_candidate r)"
proof -
  obtain wid expected c main s1 q previous s2 where
    v: "verified_candidate event_name event implementation run_id run_attempt w s = (Inr (wid, expected, c, main), s1)"
    and d: "decide implementation (wid, expected, c, main) w s1 = (Inr (q, previous), s2)"
    and k: "(case q of Some r \<Rightarrow> retI r | None \<Rightarrow> update_branch c previous) w s2 = (Inr r, t)"
    using assms(1) unfolding distribute_def by (auto simp: bindI_Inr cong: option.case_cong)
  have q: "q = None"
    using d k assms(2) decide_status by (cases q) auto
  note vc = verified_candidate_Inr [OF v, simplified] and dc = decide_Inr [OF d [unfolded q]]
  from dc obtain cmp m2 where cmp: "comparison_seen w s1 s2 previous c cmp" "dget cmp ''status'' = JStr ''ahead''"
    "shared_changes cmp = Inr True" and m2: "tip_seen w s1 s2 ''main'' m2" "ancestry_seen w s1 s2 c m2"
    and dtip: "tip_seen w s1 s2 BRANCH previous" and f2: "frame s1 s2" by blast
  have "update_justified w s s2 c previous"
    using tested_wider [OF conjunct1 [OF vc] frame.none f2] tip_seen_wider [OF dtip conjunct2 [OF vc] frame.none]
      comparison_seen_wider [OF cmp(1) conjunct2 [OF vc] frame.none] cmp(2,3)
      tip_seen_wider [OF m2(1) conjunct2 [OF vc] frame.none] ancestry_seen_wider [OF m2(2) conjunct2 [OF vc] frame.none]
    unfolding update_justified_def by blast
  moreover have ub: "update_branch c previous w s2 = (Inr r, t)" using k q by simp
  obtain v x where "dist_request ''PATCH'' (dist_prefix @ REF) (Some (update_value c)) w s2 = (Inr x, v)"
    "readback_holds w v t c" and r: "out_candidate r = c" "out_previous r = previous"
    using update_branch_Inr [OF ub assms(2)] by (elim conjE exE) (rule that)
  ultimately show ?thesis unfolding r by blast
qed

section \<open>An advance\<close>

text \<open>
  A history in which the service of run 9 advances \<open>automation-v1\<close> from one commit to the next, which
  is also the tip of main: the tip of the branch is answered by the row with \<open>!\<close> once written.
\<close>

definition tip_path :: string where "tip_path = ''git/ref/heads/automation-v1''"

definition repo_row :: json where
  "repo_row = JObj [(''full_name'', JStr REPOSITORY)]"

definition tip_row :: "string \<Rightarrow> char \<Rightarrow> dict" where
  "tip_row branch c = [(''ref'', JStr (''refs/heads/'' @ branch)),
     (''object'', JObj [(''type'', JStr ''commit''), (''sha'', JStr (sha_of c))])]"

definition service_row :: dict where
  "service_row = [(''id'', JInt 9), (''run_attempt'', JInt 1), (''event'', JStr ''workflow_run''),
     (''path'', JStr WORKFLOW), (''head_branch'', JStr ''main''), (''head_sha'', JStr (sha_of CHR ''b'')),
     (''repository'', repo_row), (''head_repository'', repo_row)]"

definition source_row :: dict where
  "source_row = [(''id'', JInt 5), (''workflow_id'', JInt 3), (''name'', JStr ''CI''), (''path'', JStr CI_WORKFLOW),
     (''repository'', repo_row), (''head_repository'', repo_row), (''head_branch'', JStr ''main''),
     (''event'', JStr ''push''), (''status'', JStr ''completed''), (''conclusion'', JStr ''success''),
     (''pull_requests'', JList []), (''head_sha'', JStr (sha_of CHR ''b'')), (''run_attempt'', JInt 1)]"

definition jobs_row :: dict where
  "jobs_row = [(''total_count'', JInt 1), (''jobs'', JList [JObj [(''run_id'', JInt 5), (''run_attempt'', JInt 1),
     (''head_sha'', JStr (sha_of CHR ''b'')), (''status'', JStr ''completed''),
     (''conclusion'', JStr ''success''), (''name'', JStr ''Required CI'')]])]"

definition compare_row :: "string \<Rightarrow> dict" where
  "compare_row status = [(''status'', JStr status), (''files'', JList [JObj [(''filename'', JStr ''automation/a.py'')]])]"

definition compare_path :: "char \<Rightarrow> char \<Rightarrow> string" where
  "compare_path a b = ''compare/'' @ sha_of a @ ''...'' @ sha_of b @ ''?per_page=1''"

definition dist_table :: "(string \<times> json) list" where
  "dist_table = [([], JObj [(''default_branch'', JStr ''main'')]),
     (''actions/runs/9'', JObj service_row),
     (''git/ref/heads/main'', JObj (tip_row ''main'' CHR ''b'')),
     (''actions/workflows/ci.yml'', JObj [(''id'', JInt 3), (''path'', JStr CI_WORKFLOW), (''state'', JStr ''active'')]),
     (''actions/runs/5'', JObj source_row),
     (''actions/runs/5/attempts/1/jobs?per_page=100'', JObj jobs_row),
     (tip_path, JObj (tip_row BRANCH CHR ''a'')),
     (tip_path @ ''!'', JObj (tip_row BRANCH CHR ''b'')),
     (REF, JObj []),
     (compare_path CHR ''a'' CHR ''b'', JObj (compare_row ''ahead'')),
     (compare_path CHR ''b'' CHR ''a'', JObj (compare_row ''behind''))]"

definition wrote :: "client \<Rightarrow> bool" where
  "wrote s \<longleftrightarrow> list_ex is_write (trace s)"

definition dist_world :: world where
  "dist_world = (table_world dist_table)\<lparr>answer := (\<lambda>h m path data.
     Response (if path = dist_prefix @ tip_path \<and> list_ex is_write h then path @ ''!'' else path))\<rparr>"

definition room :: "nat \<Rightarrow> client \<Rightarrow> bool" where
  "room n s \<longleftrightarrow> requests s + n \<le> 40 \<and> api_repository s = REPOSITORY \<and> deadline s = 180"

lemma room_got [simp]: "room n (got path s) \<longleftrightarrow> room (n + 1) s"
  by (auto simp: room_def)

lemma wrote_got [simp]: "wrote (got path s) \<longleftrightarrow> wrote s"
  by (simp add: wrote_def got_def is_write_def)

lemma path_rows: "drop 32 (repo_path REPOSITORY path) = path" "startswith (repo_path REPOSITORY path) ''/''"
  "\<not> startswith (repo_path REPOSITORY path) ''//''" "repo_path REPOSITORY path \<noteq> []"
  "repo_path REPOSITORY path = butlast dist_prefix \<or> startswith (repo_path REPOSITORY path) dist_prefix"
  "drop 32 (repo_path REPOSITORY path @ ''!'') = (if path = [] then [] else path @ ''!'')"
  "repo_path REPOSITORY path = dist_prefix @ tip_path \<longleftrightarrow> path = tip_path"
  by (auto simp: repo_path_def REPOSITORY_def startswith_def dist_prefix_def tip_path_def)

lemma dist_world_get:
  assumes "map_of dist_table (if path = tip_path \<and> wrote s then path @ ''!'' else path) = Some (JObj d)"
    and "length path \<le> 1000" and "room 1 s"
  shows "dist_get path dist_world s = (Inr d, got path s)"
proof -
  have len: "length (repo_path REPOSITORY path @ ''!'') \<le> MAX_JSON_BYTES"
    using assms(2) by (simp add: repo_path_def REPOSITORY_def MAX_JSON_BYTES_def)
  have w: "list_ex is_write (Clock # trace s) \<longleftrightarrow> wrote s" by (simp add: wrote_def is_write_def)
  let ?p = "repo_path REPOSITORY path"
  define q where "q = (if path = tip_path \<and> wrote s then ?p @ ''!'' else ?p)"
  have q: "drop 32 q = (if path = tip_path \<and> wrote s then path @ ''!'' else path)" "q \<noteq> []" "length q \<le> MAX_JSON_BYTES"
    using len path_rows(1,4,6) [of path] by (auto simp: q_def tip_path_def)
  have "answer dist_world (Clock # trace s) ''GET'' ?p None = Response q"
    using w by (simp add: dist_world_def q_def path_rows(7))
  then have "answered dist_world (Clock # trace s) ''GET'' ?p None (JObj d)"
    using q assms(1) by (simp add: answered_def reply_value_def dist_world_def table_world_def quiet_world_def)
  then have "request ''GET'' ?p None dist_world s = (Inr (JObj d), got path s)"
    using assms(3) path_rows(2,3) by (simp add: request_Inr got_def room_def dist_world_def table_world_def quiet_world_def)
  with assms(3) path_rows(5) show ?thesis
    by (simp add: dist_get_def dist_request_def room_def MAX_REQUESTS_def bindI_def)
qed
lemma dist_rows:
  "map_of dist_table [] = Some (JObj [(''default_branch'', JStr ''main'')])"
  "map_of dist_table ''actions/runs/9'' = Some (JObj service_row)"
  "map_of dist_table ''git/ref/heads/main'' = Some (JObj (tip_row ''main'' CHR ''b''))"
  "map_of dist_table ''actions/workflows/ci.yml'' = Some (JObj [(''id'', JInt 3), (''path'', JStr CI_WORKFLOW), (''state'', JStr ''active'')])"
  "map_of dist_table ''actions/runs/5'' = Some (JObj source_row)"
  "map_of dist_table ''actions/runs/5/attempts/1/jobs?per_page=100'' = Some (JObj jobs_row)"
  "map_of dist_table tip_path = Some (JObj (tip_row BRANCH CHR ''a''))"
  "map_of dist_table (tip_path @ ''!'') = Some (JObj (tip_row BRANCH CHR ''b''))"
  "map_of dist_table REF = Some (JObj [])"
  "map_of dist_table (compare_path CHR ''a'' CHR ''b'') = Some (JObj (compare_row ''ahead''))"
  "map_of dist_table (compare_path CHR ''b'' CHR ''a'') = Some (JObj (compare_row ''behind''))"
  by code_simp+

lemma dist_names: "''git/ref/heads/automation-v1'' = tip_path" "''git/ref/heads/main'' \<noteq> tip_path"
  "''actions/runs/9'' \<noteq> tip_path" "''actions/runs/5'' \<noteq> tip_path" "[] \<noteq> tip_path"
  "''actions/workflows/ci.yml'' \<noteq> tip_path" "compare_path a b \<noteq> tip_path"
  "''actions/runs/5/attempts/1/jobs?per_page=100'' \<noteq> tip_path" "length tip_path \<le> 1000"
  "length (compare_path a b) \<le> 1000" "show_int 5 = ''5''" "show_int 9 = ''9''" "show_int 1 = ''1''"
  "sha_of CHR ''a'' \<noteq> sha_of CHR ''b''"
  by (simp_all add: tip_path_def BRANCH_def compare_path_def sha_of_def, code_simp+)

lemma dist_tip:
  "room 1 s \<Longrightarrow> branch_tip BRANCH dist_world s
     = (Inr (if wrote s then sha_of CHR ''b'' else sha_of CHR ''a''), got tip_path s)"
  "room 1 s \<Longrightarrow> branch_tip ''main'' dist_world s = (Inr (sha_of CHR ''b''), got ''git/ref/heads/main'' s)"
  by (cases "wrote s")
    (simp_all add: branch_tip_def dist_names dist_world_get dist_rows tip_row_def revision_def sample_hex Let_def
       dget_or_def BRANCH_def cong: run_congs)

lemma dist_sample_compare:
  "room 1 s \<Longrightarrow> compare_refs (sha_of CHR ''a'') (sha_of CHR ''b'') dist_world s
     = (Inr (compare_row ''ahead''), got (compare_path CHR ''a'' CHR ''b'') s)"
  "room 1 s \<Longrightarrow> compare_refs (sha_of CHR ''b'') (sha_of CHR ''a'') dist_world s
     = (Inr (compare_row ''behind''), got (compare_path CHR ''b'' CHR ''a'') s)"
  using dist_world_get [of "compare_path CHR ''a'' CHR ''b''" s] dist_world_get [of "compare_path CHR ''b'' CHR ''a''" s]
  by (simp_all add: compare_refs_def revision_def sample_hex dist_names dist_rows compare_row_def in_strings_def
      cong: run_congs) (simp_all add: compare_path_def)

lemma dist_default: "room 1 s \<Longrightarrow> main_is_default e dist_world s = (Inr (), got [] s)"
  using dist_world_get [of "[]" s]
  by (simp add: main_is_default_def dist_names dist_rows requireI_def cong: run_congs)

lemma dist_source:
  "room 1 s \<Longrightarrow> source_run source_row 3 dist_world s = (Inr source_row, got ''actions/runs/5'' s)"
proof -
  assume "room 1 s"
  moreover have "source_ok source_row 5 3"
    by (simp add: source_ok_def source_row_def canonical_def repo_row_def)
  moreover have "number_of (dget source_row ''id'') e = Inr 5" "number_of (dget source_row ''run_attempt'') e = Inr 1"
    "revision (dget source_row ''head_sha'') = Inr (sha_of CHR ''b'')" for e
    by (simp_all add: source_row_def number_of_def revision_def sample_hex)
  moreover have "list_all (\<lambda>key. py_eq (dget source_row key) (dget source_row key)) [''id'', ''head_sha'', ''run_attempt'']"
    by (simp add: source_row_def)
  ultimately show ?thesis
    using dist_world_get [of "''actions/runs/5''" s]
    by (simp add: source_run_def dist_names dist_rows cong: run_congs)
qed

lemma dist_jobs:
  "room 1 s \<Longrightarrow> check_jobs_of source_row dist_world s
     = (Inr (), got ''actions/runs/5/attempts/1/jobs?per_page=100'' s)"
proof -
  assume "room 1 s"
  moreover have "format_number (dget source_row ''id'') = ''5''" "format_number (dget source_row ''run_attempt'') = ''1''"
    by (simp_all add: source_row_def dist_names)
  moreover have "list_all (job_ok source_row) (list_of (dget jobs_row ''jobs''))"
    by (simp add: job_ok_def jobs_row_def source_row_def)
  ultimately show ?thesis
    using dist_world_get [of "''actions/runs/5/attempts/1/jobs?per_page=100''" s]
    by (simp add: check_jobs_of_def dist_names dist_rows requireI_def cong: run_congs) (simp add: jobs_row_def)
qed

definition sample_event :: dict where
  "sample_event = [(''action'', JStr ''completed''), (''repository'', repo_row), (''workflow_run'', JObj source_row)]"

definition dist_client :: client where
  "dist_client = \<lparr>api_repository = REPOSITORY, deadline = 180, requests = 0, trace = []\<rparr>"

lemma dist_service_run:
  assumes "room 3 s"
  shows "trusted_service ''workflow_run'' sample_event (sha_of CHR ''b'') 9 1 dist_world s
     = (Inr (sha_of CHR ''b''), got ''git/ref/heads/main'' (got ''actions/runs/9'' (got [] s)))"
proof -
  have rm: "room k s" if "k \<le> 3" for k using that assms by (simp add: room_def)
  have "api_repository s = REPOSITORY" using assms by (simp add: room_def)
  moreover have "service_ok service_row 9 1 (sha_of CHR ''b'')"
    by (simp add: service_ok_def service_row_def canonical_def repo_row_def)
  moreover have "canonical (dget sample_event ''repository'')" "dget sample_event ''action'' = JStr ''completed''"
    by (simp_all add: sample_event_def canonical_def repo_row_def)
  ultimately show ?thesis
    using dist_world_get [of "''actions/runs/9''" "got [] s"]
    by (simp add: trusted_service_def rm dist_default dist_tip dist_names dist_rows revision_def sample_hex
        number_of_def ancestor_of_def cong: run_congs)
qed

lemma dist_verified_run:
  assumes "room 6 s"
  shows "\<exists>t. room 0 t \<and> requests t = requests s + 6 \<and> wrote t = wrote s
    \<and> verified_candidate ''workflow_run'' sample_event (sha_of CHR ''b'') 9 1 dist_world s
        = (Inr (3, source_row, sha_of CHR ''b'', sha_of CHR ''b''), t)"
proof -
  have rm: "room k s" if "k \<le> 6" for k using that assms by (simp add: room_def)
  let ?s = "got ''git/ref/heads/main'' (got ''actions/runs/9'' (got [] s))"
  have "dget source_row ''head_sha'' = JStr (sha_of CHR ''b'')" "dget sample_event ''workflow_run'' = JObj source_row"
    by (simp_all add: sample_event_def source_row_def)
  then have "verified_candidate ''workflow_run'' sample_event (sha_of CHR ''b'') 9 1 dist_world s
        = (Inr (3, source_row, sha_of CHR ''b'', sha_of CHR ''b''),
           got ''actions/runs/5/attempts/1/jobs?per_page=100'' (got ''actions/runs/5'' (got ''actions/workflows/ci.yml'' ?s)))"
    using dist_world_get [of "''actions/workflows/ci.yml''" ?s]
    by (simp add: verified_candidate_def dist_service_run rm dist_source dist_jobs dist_names dist_rows number_of_def Let_def
        ancestor_of_def cong: run_congs)
  then show ?thesis using rm by simp
qed

lemma dist_held:
  "room 2 s \<Longrightarrow> held (sha_of CHR ''b'') (sha_of CHR ''a'') (sha_of CHR ''b'') dist_world s
     = (Inr False, got (compare_path CHR ''b'' CHR ''a'') (got (compare_path CHR ''a'' CHR ''b'') s))"
  "held (sha_of CHR ''b'') (sha_of CHR ''b'') (sha_of CHR ''b'') dist_world s = (Inr True, s)"
proof -
  assume "room 2 s"
  then have "room 1 s" "room (Suc (Suc 0)) s" by (simp_all add: room_def)
  then show "held (sha_of CHR ''b'') (sha_of CHR ''a'') (sha_of CHR ''b'') dist_world s
     = (Inr False, got (compare_path CHR ''b'' CHR ''a'') (got (compare_path CHR ''a'' CHR ''b'') s))"
    using dist_names(14) by (simp add: held_def ancestor_of_def dist_sample_compare compare_row_def cong: run_congs)
qed (simp add: held_def ancestor_of_def cong: run_congs)

lemma dist_decide_run:
  assumes "room 8 s" and "\<not> wrote s"
  shows "\<exists>t. room 0 t \<and> requests t = requests s + 8 \<and> \<not> wrote t
    \<and> decide (sha_of CHR ''b'') (3, source_row, sha_of CHR ''b'', sha_of CHR ''b'') dist_world s
        = (Inr (None, sha_of CHR ''a''), t)"
proof -
  have rm: "room k s" if "k \<le> 8" for k using that assms by (simp add: room_def)
  have "shared_changes (compare_row ''ahead'') = Inr True" "dget (compare_row ''ahead'') ''status'' = JStr ''ahead''"
    by (simp_all add: compare_row_def, code_simp)
  then show ?thesis
    using assms rm
    by (simp add: decide_def reverified_def dist_tip dist_held dist_sample_compare dist_source dist_default ancestor_of_def
        cong: run_congs)
qed

lemma dist_world_fields: "decode_json dist_world x = map_of dist_table (drop 32 x)" "monotonic dist_world h = 0"
  by (simp_all add: dist_world_def table_world_def quiet_world_def)

lemma dist_patch:
  assumes "room 1 s"
  shows "\<exists>t. dist_request ''PATCH'' (dist_prefix @ REF) (Some (update_value (sha_of CHR ''b''))) dist_world s = (Inr (JObj []), t)
     \<and> wrote t \<and> room 0 t \<and> requests t = requests s + 1"
proof -
  have upd: "ref_update ''PATCH'' (dist_prefix @ REF) (Some (update_value (sha_of CHR ''b'')))"
    "revision (update_sha (Some (update_value (sha_of CHR ''b'')))) = Inr (sha_of CHR ''b'')"
    by (simp_all add: ref_update_def update_value_def update_sha_def revision_def sample_hex)
  moreover have "dist_prefix @ REF = repo_path REPOSITORY REF" "dist_prefix @ REF \<noteq> dist_prefix @ tip_path"
    "length (dist_prefix @ REF) \<le> MAX_JSON_BYTES" "drop 32 (dist_prefix @ REF) = REF"
    by (simp_all add: repo_path_def dist_prefix_def REF_def BRANCH_def REPOSITORY_def tip_path_def MAX_JSON_BYTES_def)
  moreover have "answer dist_world h ''PATCH'' (dist_prefix @ REF) d = Response (dist_prefix @ REF)" for h d
    using calculation(4) by (simp add: dist_world_def)
  ultimately have "request ''PATCH'' (dist_prefix @ REF) (Some (update_value (sha_of CHR ''b''))) dist_world s
     = (Inr (JObj []), s\<lparr>requests := requests s + 1,
          trace := Request ''PATCH'' (dist_prefix @ REF) (Some (update_value (sha_of CHR ''b''))) # Clock # trace s\<rparr>)"
    using assms dist_rows(9) path_rows(2,3,4) [of REF] dist_world_fields
    by (simp add: request_Inr answered_def reply_value_def room_def Let_def)
  moreover have "dist_prefix @ REF = butlast dist_prefix \<or> startswith (dist_prefix @ REF) dist_prefix"
    by (simp add: dist_prefix_def REF_def startswith_def)
  ultimately show ?thesis
    using assms upd by (simp add: dist_request_def room_def MAX_REQUESTS_def wrote_def is_write_def cong: run_congs)
qed

lemma dist_update_run:
  assumes "room 3 s"
  shows "\<exists>t. update_branch (sha_of CHR ''b'') (sha_of CHR ''a'') dist_world s
     = (Inr \<lparr>out_status = ''advanced'', out_candidate = sha_of CHR ''b'', out_previous = sha_of CHR ''a'',
          out_reason = ''verified non-forced automation-v1 update''\<rparr>, t)"
proof -
  have "room 1 s" using assms by (simp add: room_def)
  from dist_patch [OF this] obtain t where
    p: "dist_request ''PATCH'' (dist_prefix @ REF) (Some (update_value (sha_of CHR ''b''))) dist_world s = (Inr (JObj []), t)"
    and "wrote t" "room 0 t" "requests t = requests s + 1" by blast
  moreover from this assms have "room (Suc 0) t" "room (Suc (Suc 0)) t" by (simp_all add: room_def)
  ultimately show ?thesis
    by (simp add: update_branch_def dist_tip dist_held cong: run_congs)
qed

lemma dist_advances:
  "\<exists>r t. distribute ''workflow_run'' sample_event (sha_of CHR ''b'') 9 1 dist_world dist_client = (Inr r, t)
     \<and> out_status r = ''advanced'' \<and> out_candidate r = sha_of CHR ''b'' \<and> out_previous r = sha_of CHR ''a''"
proof -
  have "room 6 dist_client" by (simp add: room_def dist_client_def)
  from dist_verified_run [OF this] obtain s1 where s1: "room 0 s1" "requests s1 = requests dist_client + 6"
    "wrote s1 = wrote dist_client" "verified_candidate ''workflow_run'' sample_event (sha_of CHR ''b'') 9 1 dist_world dist_client
        = (Inr (3, source_row, sha_of CHR ''b'', sha_of CHR ''b''), s1)" by blast
  then have "room 8 s1" "\<not> wrote s1" by (simp_all add: room_def dist_client_def wrote_def)
  from dist_decide_run [OF this] obtain s2 where s2: "room 0 s2" "requests s2 = requests s1 + 8"
    "decide (sha_of CHR ''b'') (3, source_row, sha_of CHR ''b'', sha_of CHR ''b'') dist_world s1
        = (Inr (None, sha_of CHR ''a''), s2)" by blast
  with s1 have "room 3 s2" by (simp add: room_def dist_client_def)
  from dist_update_run [OF this] s1(4) s2(3) show ?thesis
    by (auto simp: distribute_def)
qed

theorem distribute_confined_witness:
  "\<exists>r t. distribute ''workflow_run'' sample_event (sha_of CHR ''b'') 9 1 dist_world dist_client = (Inr r, t)
     \<and> out_status r = ''advanced'' \<and> list_all dist_event (trace t) \<and> request_count t \<le> 40"
proof -
  from dist_advances obtain r t where
    run: "distribute ''workflow_run'' sample_event (sha_of CHR ''b'') 9 1 dist_world dist_client = (Inr r, t)"
      "out_status r = ''advanced''" by blast
  have "trace dist_client = []" "requests dist_client = 0" by (simp_all add: dist_client_def)
  from distribute_confined [OF run(1) this] run show ?thesis by blast
qed

theorem distribute_advanced_witness:
  "\<exists>t. update_justified dist_world dist_client t (sha_of CHR ''b'') (sha_of CHR ''a'')"
proof -
  from dist_advances obtain r t where
    run: "distribute ''workflow_run'' sample_event (sha_of CHR ''b'') 9 1 dist_world dist_client = (Inr r, t)"
      "out_status r = ''advanced''" and r: "out_candidate r = sha_of CHR ''b''" "out_previous r = sha_of CHR ''a''" by blast
  from distribute_advanced [OF run] show ?thesis unfolding r by blast
qed


end
