(* ===== verification/Admission.thy ===== *)
theory Admission
  imports Contracts
begin

text \<open>
  \<open>admission.py\<close>: which policy revision decides on dependency admission. The facts of the event
  are checked, the policy is read from the exact trusted base through Git, and the selection binds
  the proposed code to it. Running Git is a parameter; \<open>json.loads\<close> with its object hook is a
  parameter that lists the objects it completed, in order, and the value, if the text was JSON.
\<close>

section \<open>Facts and selections\<close>

definition SHARED_REPOSITORY :: string where "SHARED_REPOSITORY = ''Strukturpiloten/boxferry''"

definition CALLER_REPOSITORIES :: "string list" where
  "CALLER_REPOSITORIES = map (\<lambda>name. ''Strukturpiloten/'' @ name)
     [''boxferry'', ''compose-lens'', ''podman-lens'', ''quadlet-lens'', ''docker-lens'',
      ''kubernetes-lens'', ''boxferry-website'']"

definition ADMISSION_EVENTS :: "string list" where
  "ADMISSION_EVENTS = [''pull_request'', ''merge_group'']"

definition FULL_EVENTS :: "string list" where
  "FULL_EVENTS = [''push'', ''workflow_dispatch'', ''workflow_call'']"

definition MANIFEST_PATH :: string where "MANIFEST_PATH = ''.github/automation.json''"

definition MANIFEST_KEYS :: "string set" where
  "MANIFEST_KEYS = {''schema'', ''repository'', ''revision'', ''policy'', ''interface''}"

definition MAX_MANIFEST_BYTES :: nat where "MAX_MANIFEST_BYTES = 8192"
definition MAX_POLICY_BYTES :: nat where "MAX_POLICY_BYTES = 65536"

record admission_context =
  ctx_event :: string
  ctx_repository :: string
  ctx_candidate :: string
  ctx_automation :: string
  ctx_policy :: string
  ctx_tested :: string
  pr_base_sha :: string
  queue_base_sha :: string

datatype admission_status = Required | NotApplicable

record admission_selection =
  sel_status :: admission_status
  sel_candidate :: string
  sel_policy :: string
  sel_proposed :: string
  policy_automation :: "string option"
  policy_path :: "string option"

definition outputs :: "admission_selection \<Rightarrow> (string \<times> string) list" where
  "outputs sel =
     [(''required'', if sel_status sel = Required then ''true'' else ''false''),
      (''candidate_sha'', sel_candidate sel), (''policy_sha'', sel_policy sel),
      (''proposed_automation_sha'', sel_proposed sel),
      (''policy_automation_sha'', case policy_automation sel of None \<Rightarrow> [] | Some s \<Rightarrow> s),
      (''policy_path'', case policy_path sel of None \<Rightarrow> [] | Some s \<Rightarrow> s)]"

definition sha_of_label :: "string \<Rightarrow> string \<Rightarrow> string res" where
  "sha_of_label v label =
     (if \<not> is_sha v
      then Inl (AdmissionError ''{} must be an exact lowercase 40-character commit SHA'' [label])
      else Inr v)"

definition expected_policy :: "admission_context \<Rightarrow> string res" where
  "expected_policy c =
     (if ctx_event c = ''pull_request'' then sha_of_label (pr_base_sha c) ''GitHub pull-request base SHA''
      else if ctx_event c = ''merge_group'' then sha_of_label (queue_base_sha c) ''GitHub merge-group base SHA''
      else if ctx_event c \<in> set FULL_EVENTS then Inr (ctx_candidate c)
      else Inl (AdmissionError ''event {!r} cannot select dependency admission policy'' [ctx_event c]))"

definition validate_context :: "admission_context \<Rightarrow> bool res" where
  "validate_context c =
     (if ctx_repository c \<notin> set CALLER_REPOSITORIES
      then Inl (AdmissionError ''caller repository is outside the reviewed automation allowlist'' [])
      else
      bindR (checkR (\<lambda>(label, v). bindR (sha_of_label v label) (\<lambda>_. Inr ()))
        [(''candidate SHA'', ctx_candidate c), (''proposed automation SHA'', ctx_automation c),
         (''policy SHA'', ctx_policy c), (''GitHub tested SHA'', ctx_tested c)]) (\<lambda>_.
      if ctx_candidate c \<noteq> ctx_tested c
      then Inl (AdmissionError ''candidate SHA does not match GitHub's exact tested SHA'' [])
      else
      bindR (expected_policy c) (\<lambda>expected.
      if ctx_policy c \<noteq> expected
      then Inl (AdmissionError
             ''policy SHA does not match the independently trusted event revision'' [])
      else Inr (ctx_event c \<in> set ADMISSION_EVENTS))))"

section \<open>Reading Git\<close>

text \<open>A process that did not run or timed out, or that ended with a status and its output.\<close>

datatype process_reply = NotRun | Ran int string

type_synonym git_reader = "string \<Rightarrow> string list \<Rightarrow> nat \<Rightarrow> string res"

definition git_environment :: "(string \<times> string) list \<Rightarrow> (string \<times> string) list" where
  "git_environment inherited =
     filter (\<lambda>(key, v). \<not> startswith key ''GIT_'') inherited
     @ [(''GIT_CONFIG_NOSYSTEM'', ''1''), (''GIT_CONFIG_GLOBAL'', ''/dev/null''),
        (''GIT_CONFIG_SYSTEM'', ''/dev/null''), (''GIT_TERMINAL_PROMPT'', ''0''),
        (''GIT_NO_REPLACE_OBJECTS'', ''1'')]"

definition git_command :: "string \<Rightarrow> string list \<Rightarrow> string list" where
  "git_command dir arguments =
     [''git'', ''--no-replace-objects'', ''--literal-pathspecs'', ''-c'', ''core.hooksPath=/dev/null'',
      ''-c'', ''core.fsmonitor=false'', ''-C'', dir] @ arguments"

definition read_git ::
  "((string \<times> string) list \<Rightarrow> string list \<Rightarrow> process_reply) \<Rightarrow> (string \<times> string) list \<Rightarrow> git_reader" where
  "read_git process inherited dir arguments limit =
     (case process (git_environment inherited) (git_command dir arguments) of
       NotRun \<Rightarrow> Inl (AdmissionError ''cannot read trusted Git data during {}: {}'' [hd arguments])
     | Ran status stdout \<Rightarrow>
         if status \<noteq> 0
         then Inl (AdmissionError
                ''trusted Git {} read failed; check the exact checkout and tracked policy'' [hd arguments])
         else if limit < length stdout
         then Inl (AdmissionError ''trusted Git {} output exceeds its size budget'' [hd arguments])
         else Inr stdout)"

definition head_of :: "git_reader \<Rightarrow> string \<Rightarrow> string res" where
  "head_of reader dir =
     bindR (reader dir [''rev-parse'', ''HEAD''] 128) (\<lambda>raw.
     case decode_ascii raw of
       Inl _ \<Rightarrow> Inl (AdmissionError ''checkout HEAD is not an ASCII revision'' [])
     | Inr v \<Rightarrow> sha_of_label (py_strip v) ''checkout HEAD'')"

text \<open>
  \<open>int(data)\<close> of bytes: surrounding whitespace, a sign, and decimal digits with single
  underscores between them.
\<close>

definition ascii_space :: "char \<Rightarrow> bool" where
  "ascii_space c = (ord c \<in> {9, 10, 11, 12, 13, 32})"

definition py_int :: "string \<Rightarrow> int option" where
  "py_int data =
     (let v = rev (dropWhile ascii_space (rev (dropWhile ascii_space data)));
          digits = (if v \<noteq> [] \<and> hd v \<in> set ''+-'' then tl v else v);
          groups = split_on CHR ''_'' digits
      in if list_all (\<lambda>g. g \<noteq> [] \<and> list_all is_digit g) groups
         then Some ((if v \<noteq> [] \<and> hd v = CHR ''-'' then - 1 else 1) * int (parse_nat (concat groups)))
         else None)"

text \<open>The entry \<open>mode kind object TAB name\<close> of the listing without its final NUL.\<close>

definition tree_entry :: "string \<Rightarrow> (string \<times> string \<times> string \<times> string) option" where
  "tree_entry entry =
     (case split_on (CHR 0x09) entry of
       header # n # ns \<Rightarrow>
         (case split_on CHR '' '' header of
           [mode, kind, oid] \<Rightarrow>
             (if list_all (\<lambda>c. ord c < 128) oid then Some (mode, kind, oid, join [CHR 0x09] (n # ns))
              else None)
         | _ \<Rightarrow> None)
     | _ \<Rightarrow> None)"

text \<open>
  The blob of a path in a commit. An exception of the reader while the size is read is a
  \<open>ValueError\<close> too, so it is reported as a malformed size.
\<close>

definition tracked_blob :: "git_reader \<Rightarrow> string \<Rightarrow> string \<Rightarrow> string \<Rightarrow> nat \<Rightarrow> string res" where
  "tracked_blob reader dir revn path limit =
     bindR (reader dir [''ls-tree'', ''-z'', revn, ''--'', path] 1024) (\<lambda>tree.
     if tree = []
     then Inl (AdmissionError ''trusted base lacks {}; merge the service/manifest prerequisite before the waiter'' [path])
     else if last tree \<noteq> nul \<or> length (filter (\<lambda>c. c = nul) tree) \<noteq> 1
     then Inl (AdmissionError ''trusted policy path must identify exactly one tracked file'' [])
     else (case tree_entry (butlast tree) of
       None \<Rightarrow> Inl (AdmissionError ''trusted policy Git tree entry is malformed'' [])
     | Some (mode, kind, oid, name) \<Rightarrow>
         if mode \<notin> {''100644'', ''100755''} \<or> kind \<noteq> ''blob'' \<or> name \<noteq> path
         then Inl (AdmissionError
                ''trusted policy path must be a regular tracked file, not a link or tree'' [])
         else
         bindR (sha_of_label oid ''tracked policy blob'') (\<lambda>_.
         (case reader dir [''cat-file'', ''-s'', oid] 32 of
           Inl e \<Rightarrow>
             Inl (if is_ValueError e then AdmissionError ''trusted policy blob size is malformed'' [] else e)
         | Inr raw \<Rightarrow> (case py_int raw of
             None \<Rightarrow> Inl (AdmissionError ''trusted policy blob size is malformed'' [])
           | Some n \<Rightarrow>
               if \<not> (0 \<le> n \<and> n \<le> int limit)
               then Inl (AdmissionError ''trusted {} exceeds its {}-byte size budget''
                      [path, show_nat limit])
               else
               bindR (reader dir [''cat-file'', ''blob'', oid] limit) (\<lambda>content.
               if int (length content) \<noteq> n
               then Inl (AdmissionError ''trusted policy blob changed size while being read'' [])
               else Inr content))))))"

section \<open>The manifest\<close>

type_synonym pairs_reader = "string \<Rightarrow> dict list \<times> json option"

text \<open>The object hook: the object of the pairs, each key once.\<close>

fun unique_object :: "string list \<Rightarrow> dict \<Rightarrow> dict res" where
  "unique_object seen [] = Inr []"
| "unique_object seen ((key, v) # pairs) =
     (if key \<in> set seen then Inl (AdmissionError ''automation manifest repeats key {!r}'' [key])
      else bindR (unique_object (key # seen) pairs) (\<lambda>rest. Inr ((key, v) # rest)))"

definition load_unique :: "pairs_reader \<Rightarrow> string \<Rightarrow> json res" where
  "load_unique loads content =
     (let malformed = AdmissionError ''trusted automation manifest is not valid UTF-8 JSON'' [] in
      case decode_utf8 content of
        Inl _ \<Rightarrow> Inl malformed
      | Inr t \<Rightarrow>
          bindR (mapR (unique_object []) (fst (loads t))) (\<lambda>_.
          case snd (loads t) of None \<Rightarrow> Inl malformed | Some v \<Rightarrow> Inr v))"

text \<open>
  The path test of the manifest. A decoded string with a lone surrogate cannot be encoded; its
  model has the three bytes of the surrogate, which are not UTF-8.
\<close>

definition policy_path_ok :: "string \<Rightarrow> bool" where
  "policy_path_ok p =
     (p \<noteq> [] \<and> length p \<le> 512 \<and> backslash \<notin> set p
      \<and> list_all (\<lambda>c. \<not> (ord c < 32 \<or> ord c = 127)) p \<and> \<not> startswith p ''/''
      \<and> list_all (\<lambda>part. part \<notin> {[], ''.'', ''..'', ''.git''}) (split_on CHR ''/'' p)
      \<and> endswith p ''.json'')"

definition manifest_policy :: "json \<Rightarrow> string res" where
  "manifest_policy v =
     (let unsafe = AdmissionError ''manifest policy must be a safe repository-relative JSON path'' [] in
      if \<not> is_str v \<or> str_of v = [] then Inl unsafe
      else bindR (decode_utf8 (str_of v)) (\<lambda>p. if policy_path_ok p then Inr p else Inl unsafe))"

definition parse_manifest :: "pairs_reader \<Rightarrow> string \<Rightarrow> (string \<times> string) res" where
  "parse_manifest loads content =
     (if MAX_MANIFEST_BYTES < length content
      then Inl (AdmissionError ''automation manifest exceeds its size budget'' [])
      else
      bindR (load_unique loads content) (\<lambda>v.
      let d = dict_of v in
      if \<not> is_obj v \<or> keys d \<noteq> MANIFEST_KEYS
      then Inl (AdmissionError ''automation manifest must contain exactly the interface-1 keys'' [])
      else if dget d ''schema'' \<noteq> JInt 1
      then Inl (AdmissionError ''automation manifest schema must be integer 1'' [])
      else if dget d ''interface'' \<noteq> JInt 1
      then Inl (AdmissionError ''automation manifest interface must be integer 1'' [])
      else if dget d ''repository'' \<noteq> JStr SHARED_REPOSITORY
      then Inl (AdmissionError ''automation manifest must select Strukturpiloten/boxferry'' [])
      else if \<not> is_str (dget d ''revision'')
      then Inl (AdmissionError ''automation manifest revision must be a commit SHA string'' [])
      else
      bindR (sha_of_label (str_of (dget d ''revision'')) ''trusted automation revision'') (\<lambda>revn.
      bindR (manifest_policy (dget d ''policy'')) (\<lambda>policy. Inr (revn, policy)))))"

section \<open>The selection\<close>

definition not_applicable :: "admission_context \<Rightarrow> admission_selection" where
  "not_applicable c = \<lparr>sel_status = NotApplicable, sel_candidate = ctx_candidate c,
     sel_policy = ctx_policy c, sel_proposed = ctx_automation c,
     policy_automation = None, policy_path = None\<rparr>"

definition required_from :: "admission_context \<Rightarrow> string \<Rightarrow> string \<Rightarrow> admission_selection" where
  "required_from c revn policy = \<lparr>sel_status = Required, sel_candidate = ctx_candidate c,
     sel_policy = ctx_policy c, sel_proposed = ctx_automation c,
     policy_automation = Some revn, policy_path = Some policy\<rparr>"

definition resolve_admission ::
  "pairs_reader \<Rightarrow> git_reader \<Rightarrow> admission_context \<Rightarrow> string \<Rightarrow> string \<Rightarrow> admission_selection res" where
  "resolve_admission loads reader c implementation_root policy_root =
     bindR (validate_context c) (\<lambda>needed.
     bindR (head_of reader implementation_root) (\<lambda>head.
     if head \<noteq> ctx_automation c
     then Inl (AdmissionError ''proposed automation checkout does not match its immutable SHA'' [])
     else if \<not> needed then Inr (not_applicable c)
     else
     bindR (head_of reader policy_root) (\<lambda>base.
     if base \<noteq> ctx_policy c
     then Inl (AdmissionError ''trusted policy checkout does not match its exact event base SHA'' [])
     else
     bindR (tracked_blob reader policy_root (ctx_policy c) MANIFEST_PATH MAX_MANIFEST_BYTES) (\<lambda>manifest.
     bindR (parse_manifest loads manifest) (\<lambda>(revn, policy).
     bindR (tracked_blob reader policy_root (ctx_policy c) policy MAX_POLICY_BYTES) (\<lambda>_.
     Inr (required_from c revn policy)))))))"

definition summary_lines :: "admission_selection \<Rightarrow> string list" where
  "summary_lines sel =
     [''### Dependency admission policy'', []] @
     (if sel_status sel = Required then
        [''Reader policy: `'' @ SHARED_REPOSITORY @ ''@''
           @ (case policy_automation sel of None \<Rightarrow> ''None'' | Some s \<Rightarrow> s) @ ''`.'',
         ''Trusted consumer base: `'' @ sel_policy sel @ ''`.'',
         ''Exact tested candidate: `'' @ sel_candidate sel @ ''`.'',
         ''Proposed shared code `'' @ sel_proposed sel @ ''` is validated separately; ''
           @ ''it does not replace admission policy before merge.'']
      else
        [''Age admission is not applicable to this complete validation event. ''
           @ ''Integrity, audit and compatibility checks remain required.''])"

definition admission_summary :: "admission_selection \<Rightarrow> string" where
  "admission_summary sel = join [newline] (summary_lines sel) @ [newline]"

section \<open>What is accepted\<close>

lemma sha_of_label_Inr [res_simps]: "sha_of_label v label = Inr s \<longleftrightarrow> is_sha v \<and> s = v"
  by (auto simp: sha_of_label_def)

definition event_base :: "admission_context \<Rightarrow> string option" where
  "event_base c =
     (if ctx_event c = ''pull_request'' then Some (pr_base_sha c)
      else if ctx_event c = ''merge_group'' then Some (queue_base_sha c)
      else if ctx_event c \<in> set FULL_EVENTS then Some (ctx_candidate c) else None)"

definition context_bound :: "admission_context \<Rightarrow> bool" where
  "context_bound c \<longleftrightarrow> ctx_repository c \<in> set CALLER_REPOSITORIES
     \<and> is_sha (ctx_candidate c) \<and> is_sha (ctx_automation c) \<and> is_sha (ctx_policy c)
     \<and> ctx_candidate c = ctx_tested c \<and> event_base c = Some (ctx_policy c)"

lemma full_events: "''pull_request'' \<notin> set FULL_EVENTS" "''merge_group'' \<notin> set FULL_EVENTS"
  by (simp_all add: FULL_EVENTS_def)

lemma validate_context_Inr:
  "validate_context c = Inr needed \<longleftrightarrow> context_bound c \<and> needed = (ctx_event c \<notin> set FULL_EVENTS)"
proof -
  have "expected_policy c = Inr (ctx_policy c) \<longleftrightarrow> event_base c = Some (ctx_policy c)" if "is_sha (ctx_policy c)"
    using that by (auto simp: expected_policy_def event_base_def res_simps)
  then show ?thesis
    by (auto simp: validate_context_def context_bound_def res_simps ADMISSION_EVENTS_def full_events event_base_def
        split: if_splits)
qed

text \<open>The manifest: what its text must decode to.\<close>

definition manifest_of :: "pairs_reader \<Rightarrow> string \<Rightarrow> string \<Rightarrow> string \<Rightarrow> bool" where
  "manifest_of loads content revn policy \<longleftrightarrow>
     length content \<le> 8192 \<and> utf8_ok (map ord content)
     \<and> (\<forall>pairs \<in> set (fst (loads content)). distinct (map fst pairs))
     \<and> (\<exists>d. snd (loads content) = Some (JObj d) \<and> keys d = MANIFEST_KEYS
          \<and> dget d ''schema'' = JInt 1 \<and> dget d ''interface'' = JInt 1
          \<and> dget d ''repository'' = JStr SHARED_REPOSITORY
          \<and> dget d ''revision'' = JStr revn \<and> is_sha revn
          \<and> dget d ''policy'' = JStr policy \<and> policy_path_ok policy \<and> utf8_ok (map ord policy))"

lemma unique_object_Inr:
  "unique_object seen pairs = Inr d \<longleftrightarrow> d = pairs \<and> distinct (map fst pairs) \<and> (\<forall>p \<in> set pairs. fst p \<notin> set seen)"
proof (induction pairs arbitrary: seen d)
  case (Cons p pairs)
  obtain k v where p: "p = (k, v)" by (cases p)
  have "unique_object seen (p # pairs) = Inr d
      \<longleftrightarrow> k \<notin> set seen \<and> (\<exists>rest. unique_object (k # seen) pairs = Inr rest \<and> d = (k, v) # rest)"
    by (auto simp: p bindR_Inr)
  also have "\<dots> \<longleftrightarrow> d = p # pairs \<and> distinct (map fst (p # pairs)) \<and> (\<forall>p \<in> set (p # pairs). fst p \<notin> set seen)"
    unfolding Cons.IH by (auto simp: p)
  finally show ?case .
qed auto

lemma load_unique_Inr:
  "load_unique loads content = Inr v \<longleftrightarrow> utf8_ok (map ord content)
     \<and> (\<forall>pairs \<in> set (fst (loads content)). distinct (map fst pairs)) \<and> snd (loads content) = Some v"
proof -
  have m: "mapR (unique_object []) ps = Inr ds \<longleftrightarrow> ds = ps \<and> (\<forall>pairs \<in> set ps. distinct (map fst pairs))" for ps ds
    by (induction ps arbitrary: ds) (auto simp: res_simps unique_object_Inr)
  show ?thesis
    by (auto simp: load_unique_def Let_def decode_utf8_def res_simps m split: option.splits)
qed

lemma manifest_policy_Inr:
  "manifest_policy v = Inr p \<longleftrightarrow> v = JStr p \<and> policy_path_ok p \<and> utf8_ok (map ord p)"
  by (cases v) (auto simp: manifest_policy_def Let_def res_simps policy_path_ok_def)

lemma parse_manifest_Inr: "parse_manifest loads content = Inr (revn, policy) \<longleftrightarrow> manifest_of loads content revn policy"
proof
  assume "parse_manifest loads content = Inr (revn, policy)"
  then obtain v r p where "load_unique loads content = Inr v" "length content \<le> MAX_MANIFEST_BYTES"
    "is_obj v" "keys (dict_of v) = MANIFEST_KEYS" "dget (dict_of v) ''schema'' = JInt 1"
    "dget (dict_of v) ''interface'' = JInt 1" "dget (dict_of v) ''repository'' = JStr SHARED_REPOSITORY"
    "is_str (dget (dict_of v) ''revision'')"
    "sha_of_label (str_of (dget (dict_of v) ''revision'')) ''trusted automation revision'' = Inr r"
    "manifest_policy (dget (dict_of v) ''policy'') = Inr p" "r = revn" "p = policy"
    unfolding parse_manifest_def Let_def by (elim success_elims) (rule that, assumption, simp_all)
  then show "manifest_of loads content revn policy"
    by (auto simp: manifest_of_def MAX_MANIFEST_BYTES_def load_unique_Inr manifest_policy_Inr is_obj_iff is_str_iff
        sha_of_label_Inr)
next
  assume "manifest_of loads content revn policy"
  then obtain d where "length content \<le> 8192" "load_unique loads content = Inr (JObj d)" "keys d = MANIFEST_KEYS"
    "dget d ''schema'' = JInt 1" "dget d ''interface'' = JInt 1" "dget d ''repository'' = JStr SHARED_REPOSITORY"
    "dget d ''revision'' = JStr revn" "sha_of_label revn ''trusted automation revision'' = Inr revn"
    "manifest_policy (dget d ''policy'') = Inr policy"
    unfolding manifest_of_def load_unique_Inr manifest_policy_Inr sha_of_label_Inr by blast
  then show "parse_manifest loads content = Inr (revn, policy)"
    by (simp add: parse_manifest_def MAX_MANIFEST_BYTES_def)
qed

text \<open>
  The path of the policy stays inside the repository: resolved from the directory of a
  checkout it names a file below it, through no component that is empty, a dot, two dots or
  \<open>.git\<close>, and the policy is a JSON file.
\<close>

theorem manifest_policy_confined:
  assumes "parse_manifest loads content = Inr (revn, policy)"
  shows "walk dir (split_on CHR ''/'' policy) = dir @ split_on CHR ''/'' policy
    \<and> ''.git'' \<notin> set (split_on CHR ''/'' policy) \<and> endswith policy ''.json'' \<and> is_sha revn"
proof -
  from assms have ok: "policy_path_ok policy" and "is_sha revn"
    unfolding parse_manifest_Inr manifest_of_def by auto
  then have parts: "part \<notin> {[], ''.'', ''..'', ''.git''}" if "part \<in> set (split_on CHR ''/'' policy)" for part
    using that unfolding policy_path_ok_def list_all_iff by blast
  then have "''..'' \<notin> set (split_on CHR ''/'' policy)" by blast
  then have "walk dir (split_on CHR ''/'' policy) = dir @ filter (\<lambda>c. c \<noteq> [] \<and> c \<noteq> ''.'') (split_on CHR ''/'' policy)"
    by (rule walk_descends)
  moreover have "filter (\<lambda>c. c \<noteq> [] \<and> c \<noteq> ''.'') (split_on CHR ''/'' policy) = split_on CHR ''/'' policy"
    using parts by (intro filter_True) blast
  moreover have "''.git'' \<notin> set (split_on CHR ''/'' policy)" using parts by blast
  ultimately show ?thesis using ok \<open>is_sha revn\<close> by (simp add: policy_path_ok_def)
qed
section \<open>Admission against an abstract store\<close>

text \<open>
  What a repository holds, without the text formats of Git: the commit a checkout has at \<open>HEAD\<close>, if it is
  one; the entry of a path in the tree of a commit, if the path is in it; and the contents of the blob objects
  that are present. An entry whose mode says that it is a blob may be missing from the objects.
\<close>

record tracked =
  tr_mode :: string
  tr_kind :: string
  tr_object :: string

record store =
  checkout :: "string \<Rightarrow> string option"
  entries :: "string \<Rightarrow> string \<Rightarrow> string \<Rightarrow> tracked option"
  contents :: "string \<Rightarrow> string \<Rightarrow> string option"

definition listing_of :: "tracked \<Rightarrow> string \<Rightarrow> string" where
  "listing_of f path = tr_mode f @ '' '' @ tr_kind f @ '' '' @ tr_object f @ [CHR 0x09] @ path @ [nul]"

definition plain_word :: "string \<Rightarrow> bool" where
  "plain_word s \<longleftrightarrow> list_all is_alnum s"

text \<open>Object names of either hash; modes and kinds of tree entries.\<close>

definition object_name :: "string \<Rightarrow> bool" where
  "object_name s \<longleftrightarrow> s \<noteq> [] \<and> length s \<le> 64 \<and> list_all is_hex s"

definition git_entry :: "tracked \<Rightarrow> bool" where
  "git_entry f \<longleftrightarrow> length (tr_mode f) = 6 \<and> list_all is_digit (tr_mode f)
     \<and> tr_kind f \<in> {''blob'', ''tree'', ''commit''} \<and> object_name (tr_object f)"

definition git_store :: "store \<Rightarrow> bool" where
  "git_store st \<longleftrightarrow> (\<forall>dir. case checkout st dir of None \<Rightarrow> True | Some commit \<Rightarrow> object_name commit)
     \<and> (\<forall>dir commit path. case entries st dir commit path of None \<Rightarrow> True | Some f \<Rightarrow> git_entry f)"

text \<open>A path of a repository as \<open>ls-tree\<close> takes it, with literal pathspecs.\<close>

definition repository_path :: "string \<Rightarrow> bool" where
  "repository_path path \<longleftrightarrow> length path \<le> 512 \<and> nul \<notin> set path
     \<and> list_all (\<lambda>part. part \<notin> {[], ''.'', ''..''}) (split_on CHR ''/'' path)"

text \<open>
  What is assumed of the Git process: when it ends with success, it printed what the repository holds. It may
  fail or time out at any time. \<open>rev-parse HEAD\<close> only succeeds in a checkout; \<open>ls-tree\<close> prints the entry of
  the path, or nothing; \<open>cat-file blob\<close> of an object that a tree lists as a blob succeeds if it is present.
\<close>

definition git_agrees :: "(string list \<Rightarrow> process_reply) \<Rightarrow> store \<Rightarrow> bool" where
  "git_agrees git st \<longleftrightarrow> git_store st
     \<and> (\<forall>dir out. git (git_command dir [''rev-parse'', ''HEAD'']) = Ran 0 out
          \<longrightarrow> (\<exists>commit. checkout st dir = Some commit \<and> out = commit @ [newline]))
     \<and> (\<forall>dir commit path out. is_sha commit \<and> repository_path path
          \<and> git (git_command dir [''ls-tree'', ''-z'', commit, ''--'', path]) = Ran 0 out
          \<longrightarrow> out = (case entries st dir commit path of None \<Rightarrow> [] | Some f \<Rightarrow> listing_of f path))
     \<and> (\<forall>dir commit path f out. entries st dir commit path = Some f \<and> tr_kind f = ''blob''
          \<and> git (git_command dir [''cat-file'', ''blob'', tr_object f]) = Ran 0 out
          \<longrightarrow> contents st dir (tr_object f) = Some out)"

text \<open>That it does not fail where the repository has the answer, for blobs within the bounds.\<close>

definition git_answers :: "(string list \<Rightarrow> process_reply) \<Rightarrow> store \<Rightarrow> bool" where
  "git_answers git st \<longleftrightarrow>
     (\<forall>dir commit. checkout st dir = Some commit
          \<longrightarrow> git (git_command dir [''rev-parse'', ''HEAD'']) = Ran 0 (commit @ [newline]))
     \<and> (\<forall>dir commit path f. is_sha commit \<and> repository_path path \<and> entries st dir commit path = Some f
          \<longrightarrow> git (git_command dir [''ls-tree'', ''-z'', commit, ''--'', path]) = Ran 0 (listing_of f path))
     \<and> (\<forall>dir commit path f data. entries st dir commit path = Some f \<and> tr_kind f = ''blob''
          \<and> contents st dir (tr_object f) = Some data \<and> length data \<le> 65536
          \<longrightarrow> git (git_command dir [''cat-file'', ''-s'', tr_object f]) = Ran 0 (show_nat (length data) @ [newline])
            \<and> git (git_command dir [''cat-file'', ''blob'', tr_object f]) = Ran 0 data)"

definition regular_blob :: "store \<Rightarrow> string \<Rightarrow> string \<Rightarrow> string \<Rightarrow> nat \<Rightarrow> string \<Rightarrow> bool" where
  "regular_blob st dir commit path limit content \<longleftrightarrow> (\<exists>f. entries st dir commit path = Some f
     \<and> tr_mode f \<in> {''100644'', ''100755''} \<and> tr_kind f = ''blob'' \<and> is_sha (tr_object f)
     \<and> contents st dir (tr_object f) = Some content \<and> length content \<le> limit)"

text \<open>The specification: what may be selected, in terms of the store.\<close>

definition admits :: "pairs_reader \<Rightarrow> store \<Rightarrow> admission_context \<Rightarrow> string \<Rightarrow> string \<Rightarrow> admission_selection \<Rightarrow> bool" where
  "admits loads st c implementation_dir policy_dir sel \<longleftrightarrow>
     context_bound c \<and> checkout st implementation_dir = Some (ctx_automation c)
     \<and> (if ctx_event c \<in> set FULL_EVENTS then sel = not_applicable c
        else checkout st policy_dir = Some (ctx_policy c)
          \<and> (\<exists>manifest revn policy content.
               regular_blob st policy_dir (ctx_policy c) MANIFEST_PATH 8192 manifest
               \<and> manifest_of loads manifest revn policy
               \<and> regular_blob st policy_dir (ctx_policy c) policy 65536 content
               \<and> sel = required_from c revn policy))"

lemma hex_facts: "is_hex c \<Longrightarrow> ord c < 128 \<and> \<not> continuation c \<and> \<not> is_space [c] \<and> c \<noteq> CHR 0x09 \<and> c \<noteq> CHR '' '' \<and> c \<noteq> nul"
  by (auto simp: is_hex_def is_digit_def continuation_def is_space_def ord_def nul_def)

lemma alnum_facts: "is_alnum c \<Longrightarrow> c \<noteq> CHR 0x09 \<and> c \<noteq> CHR '' '' \<and> c \<noteq> nul"
  by (auto simp: char_class_defs nul_def)

lemma newline_plain: "\<not> continuation newline"
  by code_simp

lemma utf8_chars_ascii: "list_all (\<lambda>c. \<not> continuation c) s \<Longrightarrow> utf8_chars s = map (\<lambda>c. [c]) s"
proof (induction s)
  case (Cons x s)
  then show ?case by (cases s) (auto simp: list_all_iff)
qed simp

lemma py_strip_name:
  assumes "object_name s"
  shows "py_strip (s @ [newline]) = s"
proof -
  have hex: "list_all is_hex s" "s \<noteq> []" using assms by (auto simp: object_name_def)
  then have plain: "utf8_chars (s @ [newline]) = map (\<lambda>c. [c]) (s @ [newline])"
    by (intro utf8_chars_ascii) (auto simp: list_all_iff hex_facts newline_plain)
  have keep: "dropWhile is_space (map (\<lambda>c. [c]) t) = map (\<lambda>c. [c]) t" if "t \<noteq> []" "list_all is_hex t" for t
    using that by (cases t) (auto simp: hex_facts)
  have sp: "is_space [newline]" by (simp add: is_space_def newline_def ord_def)
  have a: "dropWhile is_space (map (\<lambda>c. [c]) (s @ [newline])) = map (\<lambda>c. [c]) (s @ [newline])"
    using hex by (cases s) (auto simp: hex_facts)
  have "rev (map (\<lambda>c. [c]) (s @ [newline])) = [newline] # map (\<lambda>c. [c]) (rev s)"
    by (simp add: rev_map)
  then show ?thesis
    unfolding py_strip_def plain a
    using keep [of "rev s"] hex sp by (simp add: rev_map [symmetric] list_all_iff)
qed

lemma py_int_show: "py_int (show_nat n @ [newline]) = Some (int n)"
proof -
  let ?s = "show_nat n"
  have digits: "list_all is_digit ?s" "?s \<noteq> []" by (rule show_nat_digits, rule show_nat_nonempty)
  have digit: "is_digit c \<Longrightarrow> \<not> ascii_space c \<and> c \<noteq> CHR ''+'' \<and> c \<noteq> CHR ''-'' \<and> c \<noteq> CHR ''_''" for c
    by (auto simp: is_digit_def ascii_space_def ord_def)
  have nl: "ascii_space newline" by code_simp
  have keep: "dropWhile ascii_space t = t" if "t \<noteq> []" "list_all is_digit t" for t
    using that digit by (cases t) auto
  obtain c r where cr: "?s = c # r" using digits(2) by (cases ?s) auto
  with digits(1) have c: "is_digit c" by simp
  have "dropWhile ascii_space (?s @ [newline]) = ?s @ [newline]"
    using c digit by (simp add: cr)
  moreover have "dropWhile ascii_space (rev (?s @ [newline])) = rev ?s"
    using keep [of "rev ?s"] digits nl by (simp add: list_all_iff)
  moreover have "split_on CHR ''_'' ?s = [?s]"
    using digits(1) digit by (intro split_on_plain) (auto simp: list_all_iff)
  moreover have "hd ?s = c" using cr by simp
  ultimately show ?thesis
    using digits c digit by (simp add: py_int_def Let_def parse_show_nat)
qed

lemma read_git_Inr [res_simps]: "read_git process inherited dir arguments limit = Inr out \<longleftrightarrow>
    process (git_environment inherited) (git_command dir arguments) = Ran 0 out \<and> length out \<le> limit"
  by (auto simp: read_git_def split: process_reply.splits)

lemma head_of_printed:
  assumes "object_name commit" and "process (git_environment inherited) (git_command dir [''rev-parse'', ''HEAD'']) = Ran 0 (commit @ [newline])"
  shows "head_of (read_git process inherited) dir = sha_of_label commit ''checkout HEAD''"
proof -
  have "decode_ascii (commit @ [newline]) = Inr (commit @ [newline])"
    using assms(1) hex_facts by (auto simp: decode_ascii_def object_name_def list_all_iff newline_def ord_def)
  moreover have "read_git process inherited dir [''rev-parse'', ''HEAD''] 128 = Inr (commit @ [newline])"
    using assms by (simp add: read_git_Inr object_name_def)
  ultimately show ?thesis using assms(1) by (simp add: head_of_def py_strip_name)
qed

lemma head_of_sound:
  assumes "git_agrees (process (git_environment inherited)) st" and "head_of (read_git process inherited) dir = Inr commit"
  shows "checkout st dir = Some commit"
proof -
  from assms(2) obtain raw where raw: "process (git_environment inherited) (git_command dir [''rev-parse'', ''HEAD'']) = Ran 0 raw"
    by (auto simp: head_of_def read_git_Inr elim!: bindR_InrE)
  with assms(1) obtain c where c: "checkout st dir = Some c" "raw = c @ [newline]"
    unfolding git_agrees_def by blast
  moreover have "object_name c"
    using assms(1) c(1) unfolding git_agrees_def git_store_def by (metis option.case(2))
  ultimately have "sha_of_label c ''checkout HEAD'' = Inr commit"
    using head_of_printed raw assms(2) by metis
  with c(1) show ?thesis by (simp add: sha_of_label_Inr)
qed

lemma head_of_complete:
  assumes "git_agrees (process (git_environment inherited)) st" and "git_answers (process (git_environment inherited)) st"
    and "checkout st dir = Some commit" and "is_sha commit"
  shows "head_of (read_git process inherited) dir = Inr commit"
proof -
  have "object_name commit"
    using assms(1,3) unfolding git_agrees_def git_store_def by (metis option.case(2))
  moreover have "process (git_environment inherited) (git_command dir [''rev-parse'', ''HEAD'']) = Ran 0 (commit @ [newline])"
    using assms(2,3) unfolding git_answers_def by blast
  ultimately show ?thesis using head_of_printed assms(4) by (simp add: sha_of_label_Inr)
qed

lemma tree_entry_listing:
  assumes "object_name oid" and "plain_word mode" and "plain_word kind"
  shows "tree_entry (mode @ '' '' @ kind @ '' '' @ oid @ [CHR 0x09] @ path) = Some (mode, kind, oid, path)"
proof -
  have words: "CHR 0x09 \<notin> set w \<and> CHR '' '' \<notin> set w" if "plain_word w" for w
    using that alnum_facts by (auto simp: plain_word_def list_all_iff)
  have oid: "CHR 0x09 \<notin> set oid" "CHR '' '' \<notin> set oid" "list_all (\<lambda>c. ord c < 128) oid"
    using assms(1) hex_facts by (auto simp: object_name_def list_all_iff)
  have "split_on (CHR 0x09) ((mode @ '' '' @ kind @ '' '' @ oid) @ CHR 0x09 # path)
      = (mode @ '' '' @ kind @ '' '' @ oid) # split_on (CHR 0x09) path"
    using words assms(2,3) oid by (intro split_on_append_sep) auto
  moreover have "split_on CHR '' '' (mode @ '' '' @ kind @ '' '' @ oid) = [mode, kind, oid]"
    using words assms(2,3) oid by (simp add: split_on_append_sep split_on_plain)
  moreover obtain n ns where "split_on (CHR 0x09) path = n # ns" by (cases "split_on (CHR 0x09) path") auto
  moreover have "join [CHR 0x09] (split_on (CHR 0x09) path) = path" by (rule join_split_on)
  ultimately show ?thesis using oid(3) by (simp add: tree_entry_def)
qed

lemma git_entry_words: "git_entry f \<Longrightarrow> object_name (tr_object f) \<and> plain_word (tr_mode f) \<and> plain_word (tr_kind f)"
  by (auto simp: git_entry_def plain_word_def list_all_iff char_class_defs)

lemma store_entry: "git_agrees git st \<Longrightarrow> entries st dir commit path = Some f \<Longrightarrow> git_entry f"
  unfolding git_agrees_def git_store_def by (metis option.case(2))

lemma listing_shape:
  assumes "git_entry f" and "nul \<notin> set path"
  shows "listing_of f path \<noteq> []" "last (listing_of f path) = nul"
    "length (filter (\<lambda>c. c = nul) (listing_of f path)) = 1"
    "tree_entry (butlast (listing_of f path)) = Some (tr_mode f, tr_kind f, tr_object f, path)"
proof -
  note w = git_entry_words [OF assms(1)]
  have none: "filter (\<lambda>c. c = nul) s = []" if "nul \<notin> set s" for s using that by (auto simp: filter_empty_conv)
  have "nul \<notin> set (tr_mode f)" "nul \<notin> set (tr_kind f)" "nul \<notin> set (tr_object f)"
    using w unfolding plain_word_def object_name_def list_all_iff by (blast dest: alnum_facts hex_facts)+
  with assms(2) have l: "listing_of f path \<noteq> [] \<and> last (listing_of f path) = nul
    \<and> length (filter (\<lambda>c. c = nul) (listing_of f path)) = 1
    \<and> butlast (listing_of f path) = tr_mode f @ '' '' @ tr_kind f @ '' '' @ tr_object f @ [CHR 0x09] @ path"
    by (auto simp: listing_of_def none butlast_append, simp_all add: nul_def)
  then show "listing_of f path \<noteq> []" "last (listing_of f path) = nul"
    "length (filter (\<lambda>c. c = nul) (listing_of f path)) = 1" by blast+
  show "tree_entry (butlast (listing_of f path)) = Some (tr_mode f, tr_kind f, tr_object f, path)"
    using l tree_entry_listing w by simp
qed

lemma listing_short: "git_entry f \<Longrightarrow> length path \<le> 512 \<Longrightarrow> length (listing_of f path) \<le> 1024"
  by (auto simp: listing_of_def git_entry_def object_name_def)

lemma show_nat_length: "n < 10 ^ k \<Longrightarrow> 0 < k \<Longrightarrow> length (show_nat n) \<le> k"
proof (induction k arbitrary: n)
  case (Suc k)
  show ?case
  proof (cases "n < 10")
    case False
    with Suc.prems have "0 < k" "n div 10 < 10 ^ k" by (cases k; simp)+
    with Suc.IH [of "n div 10"] False show ?thesis by (subst show_nat.simps) simp
  qed (subst show_nat.simps, simp)
qed simp

lemma show_nat_short: "n \<le> 65536 \<Longrightarrow> length (show_nat n) \<le> 5"
  by (rule show_nat_length) simp_all

lemma tracked_blob_sound:
  assumes git: "git_agrees (process (git_environment inherited)) st" and args: "is_sha commit" "repository_path path"
    and run: "tracked_blob (read_git process inherited) dir commit path limit = Inr content"
  shows "regular_blob st dir commit path limit content"
proof -
  let ?git = "process (git_environment inherited)"
  obtain tree where ls: "?git (git_command dir [''ls-tree'', ''-z'', commit, ''--'', path]) = Ran 0 tree"
    and rest: "tree \<noteq> []" "tracked_blob (read_git process inherited) dir commit path limit = Inr content"
      "read_git process inherited dir [''ls-tree'', ''-z'', commit, ''--'', path] 1024 = Inr tree"
    using run by (auto simp: tracked_blob_def read_git_Inr elim!: bindR_InrE split: if_splits)
  have "tree = (case entries st dir commit path of None \<Rightarrow> [] | Some f \<Rightarrow> listing_of f path)"
    using git ls args unfolding git_agrees_def by blast
  with rest(1) obtain f where f: "entries st dir commit path = Some f" "tree = listing_of f path"
    by (auto split: option.splits)
  have e: "git_entry f" using git f(1) by (rule store_entry)
  have n: "nul \<notin> set path" using args(2) by (simp add: repository_path_def)
  note shape = listing_shape [OF e n]
  have m: "tr_mode f \<in> {''100644'', ''100755''}" "tr_kind f = ''blob''" "is_sha (tr_object f)"
    and b: "?git (git_command dir [''cat-file'', ''blob'', tr_object f]) = Ran 0 content" "length content \<le> limit"
    using rest(2) unfolding tracked_blob_def rest(3) f(2)
    by (auto simp: shape sha_of_label_Inr read_git_Inr elim!: bindR_InrE split: if_splits sum.splits option.splits)
  have "contents st dir (tr_object f) = Some content"
    using git f(1) m(2) b(1) unfolding git_agrees_def by blast
  with f(1) m b(2) show ?thesis unfolding regular_blob_def by blast
qed

lemma tracked_blob_complete:
  assumes git: "git_agrees (process (git_environment inherited)) st" "git_answers (process (git_environment inherited)) st"
    and args: "is_sha commit" "repository_path path" "limit \<le> 65536"
    and blob: "regular_blob st dir commit path limit content"
  shows "tracked_blob (read_git process inherited) dir commit path limit = Inr content"
proof -
  let ?git = "process (git_environment inherited)"
  obtain f where f: "entries st dir commit path = Some f" "tr_mode f \<in> {''100644'', ''100755''}" "tr_kind f = ''blob''"
    "is_sha (tr_object f)" "contents st dir (tr_object f) = Some content" "length content \<le> limit"
    using blob unfolding regular_blob_def by blast
  have e: "git_entry f" using git(1) f(1) by (rule store_entry)
  have n: "nul \<notin> set path" "length path \<le> 512" using args(2) by (simp_all add: repository_path_def)
  have "?git (git_command dir [''ls-tree'', ''-z'', commit, ''--'', path]) = Ran 0 (listing_of f path)"
    using git(2) args(1,2) f(1) unfolding git_answers_def by blast
  then have ls: "read_git process inherited dir [''ls-tree'', ''-z'', commit, ''--'', path] 1024 = Inr (listing_of f path)"
    using listing_short [OF e n(2)] by (simp add: read_git_Inr)
  have small: "length content \<le> 65536" using f(6) args(3) by simp
  have "?git (git_command dir [''cat-file'', ''-s'', tr_object f]) = Ran 0 (show_nat (length content) @ [newline])
      \<and> ?git (git_command dir [''cat-file'', ''blob'', tr_object f]) = Ran 0 content"
    using git(2) f(1,3,5) small unfolding git_answers_def by blast
  then have sz: "read_git process inherited dir [''cat-file'', ''-s'', tr_object f] 32 = Inr (show_nat (length content) @ [newline])"
    and bl: "read_git process inherited dir [''cat-file'', ''blob'', tr_object f] limit = Inr content"
    using f(6) show_nat_short [OF small] by (simp_all add: read_git_Inr)
  show ?thesis
    using f(2,3,4,6) by (auto simp: tracked_blob_def ls listing_shape [OF e n(1)] sz bl sha_of_label_def py_int_show)
qed

lemma manifest_path_plain: "repository_path MANIFEST_PATH"
  by code_simp

lemma policy_path_plain: "policy_path_ok p \<Longrightarrow> repository_path p"
  by (auto simp: policy_path_ok_def repository_path_def list_all_iff nul_def ord_def)

lemma context_bound_sha: "context_bound c \<Longrightarrow> is_sha (ctx_policy c) \<and> is_sha (ctx_automation c)"
  by (simp add: context_bound_def)

lemma resolve_admission_sound:
  assumes git: "git_agrees (process (git_environment inherited)) st"
    and run: "resolve_admission loads (read_git process inherited) c implementation_dir policy_dir = Inr sel"
  shows "admits loads st c implementation_dir policy_dir sel"
proof -
  let ?reader = "read_git process inherited"
  obtain needed where v: "context_bound c" "needed = (ctx_event c \<notin> set FULL_EVENTS)"
    and i: "head_of ?reader implementation_dir = Inr (ctx_automation c)"
    and rest: "\<not> needed \<and> sel = not_applicable c \<or> needed \<and> head_of ?reader policy_dir = Inr (ctx_policy c)
      \<and> (\<exists>m r p x. tracked_blob ?reader policy_dir (ctx_policy c) MANIFEST_PATH MAX_MANIFEST_BYTES = Inr m
           \<and> parse_manifest loads m = Inr (r, p)
           \<and> tracked_blob ?reader policy_dir (ctx_policy c) p MAX_POLICY_BYTES = Inr x \<and> sel = required_from c r p)"
    using run unfolding resolve_admission_def
    by (auto simp: validate_context_Inr elim!: bindR_InrE split: if_splits)
  note sha = context_bound_sha [OF v(1)]
  have i': "checkout st implementation_dir = Some (ctx_automation c)" using head_of_sound [OF git i] .
  show ?thesis
  proof (cases needed)
    case False
    with v rest i' show ?thesis by (simp add: admits_def)
  next
    case True
    with rest obtain m r p x where h: "head_of ?reader policy_dir = Inr (ctx_policy c)"
      and m: "tracked_blob ?reader policy_dir (ctx_policy c) MANIFEST_PATH MAX_MANIFEST_BYTES = Inr m"
      and p: "manifest_of loads m r p"
      and x: "tracked_blob ?reader policy_dir (ctx_policy c) p MAX_POLICY_BYTES = Inr x" and sel: "sel = required_from c r p"
      by (auto simp: parse_manifest_Inr)
    have "repository_path p" using p policy_path_plain by (auto simp: manifest_of_def)
    with tracked_blob_sound [OF git _ manifest_path_plain m] tracked_blob_sound [OF git _ _ x] sha
    have "regular_blob st policy_dir (ctx_policy c) MANIFEST_PATH 8192 m"
      "regular_blob st policy_dir (ctx_policy c) p 65536 x"
      by (auto simp: MAX_MANIFEST_BYTES_def MAX_POLICY_BYTES_def)
    with True v i' head_of_sound [OF git h] p sel show ?thesis unfolding admits_def by auto
  qed
qed

lemma resolve_admission_complete:
  assumes git: "git_agrees (process (git_environment inherited)) st" "git_answers (process (git_environment inherited)) st"
    and adm: "admits loads st c implementation_dir policy_dir sel"
  shows "resolve_admission loads (read_git process inherited) c implementation_dir policy_dir = Inr sel"
proof -
  let ?reader = "read_git process inherited"
  have c: "context_bound c" using adm by (simp add: admits_def)
  then have v: "validate_context c = Inr (ctx_event c \<notin> set FULL_EVENTS)" by (simp add: validate_context_Inr)
  note sha = context_bound_sha [OF c]
  have i: "head_of ?reader implementation_dir = Inr (ctx_automation c)"
    using adm sha by (intro head_of_complete [where process = process and inherited = inherited, OF git]) (simp_all add: admits_def)
  show ?thesis
  proof (cases "ctx_event c \<in> set FULL_EVENTS")
    case True
    with adm v i show ?thesis by (simp add: resolve_admission_def admits_def)
  next
    case False
    with adm obtain m r p x where p: "checkout st policy_dir = Some (ctx_policy c)"
      and m: "regular_blob st policy_dir (ctx_policy c) MANIFEST_PATH 8192 m" "manifest_of loads m r p"
      and x: "regular_blob st policy_dir (ctx_policy c) p 65536 x" and sel: "sel = required_from c r p"
      unfolding admits_def by auto
    have "repository_path p" using m(2) policy_path_plain by (auto simp: manifest_of_def)
    with sha x have "tracked_blob ?reader policy_dir (ctx_policy c) p MAX_POLICY_BYTES = Inr x"
      by (intro tracked_blob_complete [where process = process and inherited = inherited, OF git]) (simp_all add: MAX_POLICY_BYTES_def)
    moreover have "tracked_blob ?reader policy_dir (ctx_policy c) MANIFEST_PATH MAX_MANIFEST_BYTES = Inr m"
      using sha m(1) by (intro tracked_blob_complete [where process = process and inherited = inherited, OF git _ manifest_path_plain]) (simp_all add: MAX_MANIFEST_BYTES_def)
    moreover have "head_of ?reader policy_dir = Inr (ctx_policy c)"
      using p sha by (intro head_of_complete [where process = process and inherited = inherited, OF git]) simp_all
    moreover have "parse_manifest loads m = Inr (r, p)" using m(2) by (simp add: parse_manifest_Inr)
    ultimately show ?thesis using False v i sel by (simp add: resolve_admission_def)
  qed
qed

text \<open>
  C20. Admission refines its specification. With a Git process that prints what the repositories hold when it
  succeeds, whatever is selected is what the specification admits: the facts of the event name the tested
  commit and its trusted base, the checkouts are at the proposed code and at that base, and the policy is the
  regular file the manifest of that very base selects. Where Git also answers, the code that reads its text
  formats selects everything the specification admits.
\<close>

theorem resolve_admission_refines:
  assumes "git_agrees (process (git_environment inherited)) st"
  shows "(resolve_admission loads (read_git process inherited) c implementation_dir policy_dir = Inr sel
      \<longrightarrow> admits loads st c implementation_dir policy_dir sel)
    \<and> (git_answers (process (git_environment inherited)) st \<and> admits loads st c implementation_dir policy_dir sel
      \<longrightarrow> resolve_admission loads (read_git process inherited) c implementation_dir policy_dir = Inr sel)"
  using resolve_admission_sound [where process = process and inherited = inherited, OF assms] resolve_admission_complete [where process = process and inherited = inherited, OF assms] by blast

text \<open>A Git process over a store: it fails where there is no checkout, no such commit or no such object.\<close>

definition git_of :: "store \<Rightarrow> string list \<Rightarrow> (string \<times> string) list \<Rightarrow> string list \<Rightarrow> process_reply" where
  "git_of st commits environment command =
     (let dir = command ! 8 in
      case drop 9 command of
       [a, b] \<Rightarrow> (case checkout st dir of Some commit \<Rightarrow> Ran 0 (commit @ [newline]) | None \<Rightarrow> Ran 128 [])
     | [a, b, commit, d, path] \<Rightarrow>
         if commit \<notin> set commits then Ran 128 []
         else Ran 0 (case entries st dir commit path of None \<Rightarrow> [] | Some f \<Rightarrow> listing_of f path)
     | [a, b, oid] \<Rightarrow> (case contents st dir oid of None \<Rightarrow> Ran 128 []
         | Some data \<Rightarrow> Ran 0 (if b = ''-s'' then show_nat (length data) @ [newline] else data))
     | _ \<Rightarrow> Ran 129 [])"

lemma git_of_command: "git_command dir arguments ! 8 = dir" "drop 9 (git_command dir arguments) = arguments"
  by (simp_all add: git_command_def)

lemma git_of_agrees: "git_store st \<Longrightarrow> git_agrees (git_of st commits environment) st"
  unfolding git_agrees_def git_of_def git_of_command Let_def
  by (auto split: option.splits if_splits)

lemma git_of_answers:
  assumes "\<And>dir commit path f. entries st dir commit path = Some f \<Longrightarrow> commit \<in> set commits"
  shows "git_answers (git_of st commits environment) st"
proof -
  have "entries st dir commit path = None" if "commit \<notin> set commits" for dir commit path
    using assms [of dir commit path] that by (cases "entries st dir commit path") auto
  then show ?thesis
    unfolding git_answers_def git_of_def git_of_command Let_def using assms by auto
qed

text \<open>A repository whose base commit has a manifest and a policy, next to a link and a directory.\<close>

definition sample_store :: store where
  "sample_store = \<lparr>checkout = (\<lambda>dir. if dir = ''code'' then Some (replicate 40 CHR ''b'')
       else if dir = ''base'' then Some (replicate 40 CHR ''a'') else None),
     entries = (\<lambda>dir commit path.
       if dir \<noteq> ''base'' \<or> commit \<noteq> replicate 40 CHR ''a'' then None
       else if path = MANIFEST_PATH then Some \<lparr>tr_mode = ''100644'', tr_kind = ''blob'', tr_object = replicate 40 CHR ''1''\<rparr>
       else if path = ''ci/policy.json'' then Some \<lparr>tr_mode = ''100644'', tr_kind = ''blob'', tr_object = replicate 40 CHR ''2''\<rparr>
       else if path = ''ci'' then Some \<lparr>tr_mode = ''040000'', tr_kind = ''tree'', tr_object = replicate 40 CHR ''3''\<rparr>
       else if path = ''link'' then Some \<lparr>tr_mode = ''120000'', tr_kind = ''blob'', tr_object = replicate 40 CHR ''4''\<rparr>
       else None),
     contents = (\<lambda>dir oid.
       if dir \<noteq> ''base'' then None
       else if oid = replicate 40 CHR ''1'' then Some ''M''
       else if oid = replicate 40 CHR ''2'' then Some ''P'' else None)\<rparr>"

definition admission_git :: "(string \<times> string) list \<Rightarrow> string list \<Rightarrow> process_reply" where
  "admission_git = git_of sample_store [replicate 40 CHR ''a'', replicate 40 CHR ''b'']"

definition sample_loads :: pairs_reader where
  "sample_loads content =
     (let d = [(''schema'', JInt 1), (''interface'', JInt 1), (''repository'', JStr SHARED_REPOSITORY),
               (''revision'', JStr (replicate 40 CHR ''d'')), (''policy'', JStr ''ci/policy.json'')]
      in ([d], Some (JObj d)))"

definition sample_context :: admission_context where
  "sample_context = \<lparr>ctx_event = ''pull_request'', ctx_repository = ''Strukturpiloten/docker-lens'',
     ctx_candidate = replicate 40 CHR ''c'', ctx_automation = replicate 40 CHR ''b'',
     ctx_policy = replicate 40 CHR ''a'', ctx_tested = replicate 40 CHR ''c'',
     pr_base_sha = replicate 40 CHR ''a'', queue_base_sha = []\<rparr>"

lemma sample_store_git: "git_store sample_store"
proof -
  have ids: "object_name (replicate 40 CHR ''a'')" "object_name (replicate 40 CHR ''b'')"
    "git_entry \<lparr>tr_mode = ''100644'', tr_kind = ''blob'', tr_object = replicate 40 CHR ''1''\<rparr>"
    "git_entry \<lparr>tr_mode = ''100644'', tr_kind = ''blob'', tr_object = replicate 40 CHR ''2''\<rparr>"
    "git_entry \<lparr>tr_mode = ''040000'', tr_kind = ''tree'', tr_object = replicate 40 CHR ''3''\<rparr>"
    "git_entry \<lparr>tr_mode = ''120000'', tr_kind = ''blob'', tr_object = replicate 40 CHR ''4''\<rparr>"
    by code_simp+
  then show ?thesis by (simp add: git_store_def sample_store_def)
qed

lemma sample_git_agrees: "git_agrees (admission_git environment) sample_store"
  unfolding admission_git_def by (rule git_of_agrees) (rule sample_store_git)

lemma sample_git_answers: "git_answers (admission_git environment) sample_store"
  unfolding admission_git_def by (rule git_of_answers) (simp add: sample_store_def split: if_splits)

theorem manifest_policy_confined_witness:
  "parse_manifest sample_loads ''M'' = Inr (replicate 40 CHR ''d'', ''ci/policy.json'')
   \<and> walk [''repo''] (split_on CHR ''/'' ''ci/policy.json'') = [''repo'', ''ci'', ''policy.json'']"
proof -
  have run: "parse_manifest sample_loads ''M'' = Inr (replicate 40 CHR ''d'', ''ci/policy.json'')" by code_simp
  have "split_on CHR ''/'' ''ci/policy.json'' = [''ci'', ''policy.json'']" by code_simp
  with manifest_policy_confined [OF run, of "[''repo'']"] run show ?thesis by simp
qed

theorem resolve_admission_refines_witness:
  "admits sample_loads sample_store sample_context ''code'' ''base''
       (required_from sample_context (replicate 40 CHR ''d'') ''ci/policy.json'')
   \<and> resolve_admission sample_loads (read_git admission_git []) sample_context ''code'' ''base''
       = Inr (required_from sample_context (replicate 40 CHR ''d'') ''ci/policy.json'')"
proof -
  have "resolve_admission sample_loads (read_git admission_git []) sample_context ''code'' ''base''
     = Inr (required_from sample_context (replicate 40 CHR ''d'') ''ci/policy.json'')"
    by code_simp
  with resolve_admission_refines [where process = admission_git and inherited = "[]" and loads = sample_loads
      and c = sample_context and implementation_dir = "''code''" and policy_dir = "''base''", OF sample_git_agrees]
    sample_git_answers show ?thesis by blast
qed

end
