(* ===== verification/PinUpgrade.thy ===== *)
theory PinUpgrade
  imports Prelude
begin

text \<open>
  \<open>expected_ci_upgrade\<close> of \<open>eligibility.py\<close>: what a workflow file becomes when every owned pin of the
  shared automation moves from one commit to another. The regular expressions are matchers that
  return the named groups; the open mappings are a stack with the innermost first, and the step or
  job that owns a \<open>with\<close> mapping is the frame below it.
\<close>

section \<open>Lines and their parts\<close>

definition tab :: char where "tab = CHR 0x09"

text \<open>\<open>s.lstrip()\<close>, and \<open>source.splitlines(keepends=True)\<close> on the characters of a string.\<close>

definition py_lstrip :: "string \<Rightarrow> string" where
  "py_lstrip s = concat (dropWhile is_space (utf8_chars s))"

definition line_end :: "string \<Rightarrow> bool" where
  "line_end u = (map ord u \<in> set [[10], [11], [12], [13], [28], [29], [30], [0xC2, 0x85],
     [0xE2, 0x80, 0xA8], [0xE2, 0x80, 0xA9]])"

fun cut_line :: "string list \<Rightarrow> string list \<times> string list" where
  "cut_line [] = ([], [])"
| "cut_line (c # cs) =
     (if c = [carriage] \<and> startswith cs [[newline]] then ([c, [newline]], tl cs)
      else if line_end c then ([c], cs)
      else (case cut_line cs of (l, r) \<Rightarrow> (c # l, r)))"

lemma cut_line_shorter: "length (snd (cut_line (c # cs))) \<le> length cs"
proof (induction cs arbitrary: c)
  case (Cons d cs)
  from Cons.IH [of d] show ?case by (cases "cut_line (d # cs)") (auto split: prod.splits)
qed simp

function split_lines :: "string list \<Rightarrow> string list" where
  "split_lines [] = []"
| "split_lines (c # cs) = (case cut_line (c # cs) of (l, r) \<Rightarrow> concat l # split_lines r)"
  by pat_completeness auto

termination
  by (relation "measure length") (simp_all del: cut_line.simps, metis cut_line_shorter le_imp_less_Suc snd_conv)

text \<open>
  The mapping pattern: leading spaces, an optional \<open>- \<close>, a key and a colon; the value up to the line
  break. \<open>m_head\<close> is everything before the value.
\<close>

record mapping_line =
  m_head :: string
  m_sequence :: bool
  m_key :: string
  m_value :: string
  m_ending :: string

definition key_start :: "char \<Rightarrow> bool" where
  "key_start c = (is_lower c \<or> is_upper c \<or> c = CHR ''_'')"

definition key_char :: "char \<Rightarrow> bool" where
  "key_char c = (is_alnum c \<or> c = CHR ''_'' \<or> c = CHR ''-'')"

definition mapping_of :: "string \<Rightarrow> mapping_line option" where
  "mapping_of line =
     (let indent = takeWhile (\<lambda>c. c = CHR '' '') line;
          rest = drop (length indent) line;
          sequence = startswith rest ''- '';
          body = (if sequence then drop 2 rest else rest);
          key = takeWhile key_char body;
          after = drop (length key) body;
          value = takeWhile (\<lambda>c. c \<noteq> carriage \<and> c \<noteq> newline) (tl after);
          ending = drop (length value) (tl after)
      in if key \<noteq> [] \<and> key_start (hd key) \<and> startswith after '':''
            \<and> ending \<in> {[], [newline], [carriage, newline]}
         then Some \<lparr>m_head = indent @ (if sequence then ''- '' else []) @ key @ '':'',
                m_sequence = sequence, m_key = key, m_value = value, m_ending = ending\<rparr>
         else None)"

text \<open>The scalar pattern: what precedes the token, the token, what follows it.\<close>

definition blank :: "char \<Rightarrow> bool" where "blank c = (c = CHR '' '' \<or> c = tab)"

definition token_char :: "string \<Rightarrow> bool" where
  "token_char u = (u \<noteq> [CHR 0x27] \<and> u \<noteq> [CHR 0x22] \<and> \<not> is_space u \<and> u \<noteq> ''#'')"

definition comment_end :: "string \<Rightarrow> bool" where
  "comment_end s = (let rest = dropWhile blank s in rest = [] \<or> startswith rest ''#'')"

definition scalar_of :: "string \<Rightarrow> (string \<times> string \<times> string) option" where
  "scalar_of value =
     (let blanks = takeWhile blank value;
          rest = drop (length blanks) value;
          quot = (if rest \<noteq> [] \<and> hd rest \<in> {CHR 0x27, CHR 0x22} then [hd rest] else []);
          body = drop (length quot) rest;
          token = concat (takeWhile token_char (utf8_chars body));
          tail = drop (length token) body
      in if token \<noteq> [] \<and> startswith tail quot \<and> comment_end (drop (length quot) tail)
         then Some (blanks @ quot, token, tail) else None)"

text \<open>The block scalar pattern on a stripped value: tags and anchors, then the indicator.\<close>

fun block_tags :: "nat \<Rightarrow> string list \<Rightarrow> string list" where
  "block_tags 0 cs = cs"
| "block_tags (Suc n) cs =
     (case cs of
       c # r \<Rightarrow>
         (let name = takeWhile (\<lambda>u. \<not> is_space u) r;
              gap = takeWhile (\<lambda>u. u = '' '' \<or> u = [tab]) (drop (length name) r)
          in if c \<in> {''!'', ''&''} \<and> name \<noteq> [] \<and> gap \<noteq> []
             then block_tags n (drop (length name + length gap) r) else cs)
     | [] \<Rightarrow> [])"

definition block_scalar :: "string \<Rightarrow> bool" where
  "block_scalar value =
     (case concat (block_tags (length value) (utf8_chars value)) of
       c # r \<Rightarrow> c \<in> set ''|>'' \<and> comment_end (dropWhile (\<lambda>d. d \<in> set ''123456789+-'') r)
     | [] \<Rightarrow> False)"

text \<open>\<open>quoted_line\<close>: a value that opens a quote closes it, and only a comment follows.\<close>

fun quoted_rest :: "char \<Rightarrow> string \<Rightarrow> bool" where
  "quoted_rest q [] = False"
| "quoted_rest q (c # s) =
     (if q = CHR 0x22 \<and> c = backslash then quoted_rest q (drop 1 s)
      else if c = q then
        (if q = CHR 0x27 \<and> startswith s [CHR 0x27] then quoted_rest q (drop 1 s)
         else py_strip s = [] \<or> startswith (py_strip s) ''#'')
      else quoted_rest q s)"

definition quoted_line :: "string \<Rightarrow> bool" where
  "quoted_line value =
     (case py_lstrip value of
       c # s \<Rightarrow> if c \<in> {CHR 0x27, CHR 0x22} then quoted_rest c s else True
     | [] \<Rightarrow> True)"

section \<open>Tokens\<close>

definition shared_pin :: "string \<Rightarrow> string \<Rightarrow> bool" where
  "shared_pin before token =
     (let prefix = ''Strukturpiloten/boxferry/.github/workflows/shared-'';
          name = takeWhile (\<lambda>c. is_lower c \<or> is_digit c \<or> c = CHR ''-'') (drop (length prefix) token)
      in startswith token prefix \<and> name \<noteq> []
         \<and> drop (length prefix + length name) token = ''.yml@'' @ before)"

definition local_action :: string where
  "local_action = ''./_automation/.github/actions/shared-source''"

definition local_step_actions :: "string list" where
  "local_step_actions = [''./_automation/.github/actions/shared-node'',
     ''./_automation/.github/actions/shared-crate-publish'']"

definition checkout_pin :: "string \<Rightarrow> bool" where
  "checkout_pin token =
     (startswith token ''actions/checkout@'' \<and> is_sha (drop (length ''actions/checkout@'') token))"

text \<open>The annotation prior a \<open>ref\<close>: its indent.\<close>

definition annotation_of :: "string \<Rightarrow> nat option" where
  "annotation_of line =
     (let indent = takeWhile (\<lambda>c. c = CHR '' '') line;
          marker = ''# renovate: datasource=github-digest depName=Strukturpiloten/boxferry currentValue=automation-v1'';
          rest = drop (length indent) line
      in if startswith rest marker
            \<and> dropWhile blank (drop (length marker) rest) \<in> {[], [newline], [carriage, newline]}
         then Some (length indent) else None)"

section \<open>The open mappings\<close>

datatype frame_kind = Jobs | Job | Steps | Step | Env | With | Other

record pin_frame =
  pf_indent :: nat
  pf_kind :: frame_kind
  pf_uses :: string
  pf_repository :: bool
  pf_keys :: "string list"

record pin_state =
  frames :: "pin_frame list"
  root_keys :: "string list"
  block_indent :: "nat option"
  replacements :: nat

definition new_frame :: "nat \<Rightarrow> frame_kind \<Rightarrow> pin_frame" where
  "new_frame indent kind = \<lparr>pf_indent = indent, pf_kind = kind, pf_uses = [], pf_repository = False, pf_keys = []\<rparr>"

text \<open>\<open>key_indent == parent.indent + 2\<close>, and \<open>direct_owner\<close>.\<close>

definition inside :: "pin_frame list \<Rightarrow> nat \<Rightarrow> bool" where
  "inside fs key_indent = (case fs of [] \<Rightarrow> False | f # r \<Rightarrow> key_indent = pf_indent f + 2)"

definition direct_owner :: "pin_frame list \<Rightarrow> nat \<Rightarrow> bool" where
  "direct_owner fs key_indent = (inside fs key_indent \<and> pf_kind (hd fs) \<in> {Job, Step})"

text \<open>A sequence entry opens a step directly below \<open>steps\<close>.\<close>

definition enter :: "bool \<Rightarrow> nat \<Rightarrow> pin_frame list \<Rightarrow> pin_frame list option" where
  "enter sequence indent fs =
     (if \<not> sequence then Some fs
      else if fs = [] \<or> pf_kind (hd fs) \<noteq> Steps \<or> indent \<noteq> pf_indent (hd fs) + 2 then None
      else Some (new_frame indent Step # fs))"

text \<open>The key joins the keys of its mapping; a repeated one makes ownership ambiguous.\<close>

definition note_key :: "nat \<Rightarrow> string \<Rightarrow> pin_state \<Rightarrow> pin_state option" where
  "note_key key_indent key st =
     (case frames st of
       [] \<Rightarrow>
         if key_indent \<noteq> 0 then Some st
         else if key \<in> set (root_keys st) then None
         else Some (st\<lparr>root_keys := key # root_keys st\<rparr>)
     | f # r \<Rightarrow>
         if key_indent \<noteq> pf_indent f + 2 then Some st
         else if key \<in> set (pf_keys f) then None
         else Some (st\<lparr>frames := f\<lparr>pf_keys := key # pf_keys f\<rparr> # r\<rparr>))"

text \<open>Whether the token of a key is an owned pin.\<close>

definition with_pin :: "string option \<Rightarrow> nat \<Rightarrow> string \<Rightarrow> string \<Rightarrow> pin_frame \<Rightarrow> pin_frame \<Rightarrow> bool" where
  "with_pin prior indent before key parent own =
     (if key \<in> {''automation_sha'', ''automation-sha''}
      then shared_pin before (pf_uses own) \<or> pf_uses own = local_action
           \<or> (key = ''automation-sha'' \<and> pf_kind own = Step \<and> pf_uses own \<in> set local_step_actions)
      else key = ''ref'' \<and> pf_repository parent \<and> checkout_pin (pf_uses own)
           \<and> (case prior of None \<Rightarrow> False | Some l \<Rightarrow> annotation_of l = Some indent))"

definition owned_pin :: "string option \<Rightarrow> nat \<Rightarrow> nat \<Rightarrow> string \<Rightarrow> string \<Rightarrow> string option \<Rightarrow> pin_frame list \<Rightarrow> bool" where
  "owned_pin prior indent key_indent before key token fs =
     (if key = ''uses'' \<and> direct_owner fs key_indent \<and> token \<noteq> None
      then shared_pin before (the token)
      else token = Some before \<and> inside fs key_indent \<and>
        (case pf_kind (hd fs) of
          Env \<Rightarrow> key = ''AUTOMATION_SHA''
        | With \<Rightarrow> tl fs \<noteq> [] \<and> with_pin prior indent before key (hd fs) (hd (tl fs))
        | _ \<Rightarrow> False))"

text \<open>What a key records in its mapping: the action it uses, and the repository it checks out.\<close>

definition record_key :: "nat \<Rightarrow> string \<Rightarrow> string option \<Rightarrow> pin_frame list \<Rightarrow> pin_frame list" where
  "record_key key_indent key token fs =
     (case fs of
       [] \<Rightarrow> []
     | f # r \<Rightarrow>
         if key = ''uses'' \<and> direct_owner fs key_indent \<and> token \<noteq> None
         then f\<lparr>pf_uses := the token\<rparr> # r
         else if pf_kind f = With \<and> r \<noteq> [] \<and> pf_kind (hd r) = Step \<and> checkout_pin (pf_uses (hd r))
                 \<and> inside fs key_indent \<and> key = ''repository''
         then f\<lparr>pf_repository := (token = Some ''Strukturpiloten/boxferry'')\<rparr> # r
         else fs)"

definition child_kind :: "nat \<Rightarrow> string \<Rightarrow> pin_frame list \<Rightarrow> frame_kind" where
  "child_kind key_indent key fs =
     (if key = ''jobs'' \<and> fs = [] \<and> key_indent = 0 then Jobs
      else if inside fs key_indent \<and> pf_kind (hd fs) = Jobs then Job
      else if key = ''steps'' \<and> direct_owner fs key_indent \<and> pf_kind (hd fs) = Job then Steps
      else if key = ''env'' \<and> (direct_owner fs key_indent \<or> (fs = [] \<and> key_indent = 0)) then Env
      else if key = ''with'' \<and> direct_owner fs key_indent then With
      else Other)"

definition removesuffix :: "string \<Rightarrow> string \<Rightarrow> string" where
  "removesuffix s e = (if e \<noteq> [] \<and> endswith s e then take (length s - length e) s else s)"

section \<open>The upgrade\<close>

text \<open>One key whose mapping line matched, in its mapping: the line to write and the new state.\<close>

definition pin_value ::
  "string \<Rightarrow> string \<Rightarrow> string option \<Rightarrow> string \<Rightarrow> nat \<Rightarrow> nat \<Rightarrow> mapping_line \<Rightarrow> pin_state \<Rightarrow> string \<times> pin_state" where
  "pin_value before after prior line indent key_indent m st =
     (let fs = frames st;
          literal = scalar_of (m_value m);
          token = map_option (\<lambda>(lead, t, tail). t) literal;
          replace = owned_pin prior indent key_indent before (m_key m) token fs;
          line' = (case literal of
              Some (lead, t, tail) \<Rightarrow>
                if replace then m_head m @ lead @ removesuffix t before @ after @ tail @ m_ending m else line
            | None \<Rightarrow> line);
          fs' = record_key key_indent (m_key m) token fs;
          opens = py_strip (m_value m) = [] \<or> startswith (py_lstrip (m_value m)) ''#''
      in (line', st\<lparr>frames := (if opens then new_frame key_indent (child_kind key_indent (m_key m) fs) # fs' else fs'),
              replacements := replacements st + (if replace then 1 else 0)\<rparr>))"

definition pin_key ::
  "string \<Rightarrow> string \<Rightarrow> string option \<Rightarrow> string \<Rightarrow> nat \<Rightarrow> mapping_line \<Rightarrow> pin_state \<Rightarrow> (string \<times> pin_state) option" where
  "pin_key before after prior line indent m st =
     (let key_indent = indent + (if m_sequence m then 2 else 0) in
      case note_key key_indent (m_key m) st of
        None \<Rightarrow> None
      | Some st \<Rightarrow>
          if \<not> quoted_line (m_value m) then None
          else if block_scalar (py_strip (m_value m)) then Some (line, st\<lparr>block_indent := Some indent\<rparr>)
          else Some (pin_value before after prior line indent key_indent m st))"

definition pin_line ::
  "string \<Rightarrow> string \<Rightarrow> string option \<Rightarrow> string \<Rightarrow> pin_state \<Rightarrow> (string \<times> pin_state) option" where
  "pin_line before after prior line st =
     (let stripped = dropWhile (\<lambda>c. c = CHR '' '') line;
          indent = length line - length stripped
      in if py_strip stripped = [] \<or> startswith stripped ''#'' then Some (line, st)
         else if (case block_indent st of None \<Rightarrow> False | Some b \<Rightarrow> b < indent) then Some (line, st)
         else if startswith stripped [tab] then None
         else
           let fs = dropWhile (\<lambda>f. indent \<le> pf_indent f) (frames st);
               st = st\<lparr>block_indent := None, frames := fs\<rparr>
           in case mapping_of line of
                None \<Rightarrow> Some (line, st)
              | Some m \<Rightarrow> (case enter (m_sequence m) indent fs of
                  None \<Rightarrow> Some (line, st)
                | Some fs \<Rightarrow> pin_key before after prior line indent m (st\<lparr>frames := fs\<rparr>)))"

fun pin_lines ::
  "string \<Rightarrow> string \<Rightarrow> string option \<Rightarrow> string list \<Rightarrow> pin_state \<Rightarrow> (string list \<times> pin_state) option" where
  "pin_lines before after prior [] st = Some ([], st)"
| "pin_lines before after prior (line # ls) st =
     (case pin_line before after prior line st of
       None \<Rightarrow> None
     | Some (out, st) \<Rightarrow> (case pin_lines before after (Some line) ls st of
         None \<Rightarrow> None
       | Some (outs, st) \<Rightarrow> Some (out # outs, st)))"

definition no_mappings :: pin_state where
  "no_mappings = \<lparr>frames = [], root_keys = [], block_indent = None, replacements = 0\<rparr>"

definition expected_ci_upgrade :: "string \<Rightarrow> string \<Rightarrow> string \<Rightarrow> string option" where
  "expected_ci_upgrade trusted before after =
     (if \<not> utf8_ok (map ord trusted) then None
      else if nul \<in> set trusted \<or> \<not> is_sha before \<or> \<not> is_sha after \<or> before = after then None
      else (case pin_lines before after None (split_lines (utf8_chars trusted)) no_mappings of
        None \<Rightarrow> None
      | Some (outs, st) \<Rightarrow> if replacements st \<noteq> 0 then Some (concat outs) else None))"

section \<open>Only pins move\<close>

lemma concat_cut_line: "fst (cut_line cs) @ snd (cut_line cs) = cs"
proof (induction cs)
  case (Cons c cs)
  then show ?case
    by (cases "cut_line cs") (auto simp: startswith_def prefix_def)
qed simp

lemma concat_split_lines: "concat (split_lines cs) = concat cs"
proof (induction cs rule: split_lines.induct)
  case (2 c cs)
  obtain l r where lr: "cut_line (c # cs) = (l, r)" by (cases "cut_line (c # cs)")
  with concat_cut_line [of "c # cs"] have "c # cs = l @ r" by simp
  then have "concat (c # cs) = concat l @ concat r" by (metis concat_append)
  with 2 [OF lr [symmetric]] lr show ?case by (simp del: cut_line.simps)
qed simp

lemma mapping_of_parts: "mapping_of line = Some m \<Longrightarrow> line = m_head m @ m_value m @ m_ending m"
proof -
  assume m: "mapping_of line = Some m"
  define indent where "indent = takeWhile (\<lambda>c. c = CHR '' '') line"
  define rest where "rest = drop (length indent) line"
  define body where "body = (if startswith rest ''- '' then drop 2 rest else rest)"
  define key where "key = takeWhile key_char body"
  define after where "after = drop (length key) body"
  define v where "v = takeWhile (\<lambda>c. c \<noteq> carriage \<and> c \<noteq> newline) (tl after)"
  have take_drop: "takeWhile P s @ drop (length (takeWhile P s)) s = s" for P and s :: string
    by (metis append_eq_conv_conj takeWhile_dropWhile_id)
  have a: "startswith after '':''" and
    mm: "m = \<lparr>m_head = indent @ (if startswith rest ''- '' then ''- '' else []) @ key @ '':'',
                m_sequence = startswith rest ''- '', m_key = key, m_value = v, m_ending = drop (length v) (tl after)\<rparr>"
    using m unfolding mapping_of_def Let_def indent_def rest_def body_def key_def after_def v_def
    by (auto split: if_splits)
  have "after = '':'' @ v @ drop (length v) (tl after)"
    using a take_drop by (cases after) (auto simp: v_def startswith_def)
  moreover have "body = key @ after" unfolding after_def key_def by (simp only: take_drop)
  moreover have "rest = (if startswith rest ''- '' then ''- '' else []) @ body"
    by (auto simp: body_def startswith_def prefix_def)
  moreover have "line = indent @ rest" unfolding rest_def indent_def by (simp only: take_drop)
  ultimately show ?thesis by (simp add: mm)
qed

lemma concat_takeWhile_prefix:
  "concat (takeWhile P cs) @ drop (length (concat (takeWhile P cs))) (concat cs) = concat cs"
  by (metis append_eq_conv_conj concat_append takeWhile_dropWhile_id)

lemma scalar_of_parts: "scalar_of v = Some (lead, token, tail) \<Longrightarrow> v = lead @ token @ tail"
proof -
  assume s: "scalar_of v = Some (lead, token, tail)"
  define blanks where "blanks = takeWhile blank v"
  define rest where "rest = drop (length blanks) v"
  define quot where "quot = (if rest \<noteq> [] \<and> hd rest \<in> {CHR 0x27, CHR 0x22} then [hd rest] else [])"
  define body where "body = drop (length quot) rest"
  have t: "lead = blanks @ quot" "token = concat (takeWhile token_char (utf8_chars body))"
    "tail = drop (length token) body"
    using s unfolding scalar_of_def Let_def blanks_def rest_def quot_def body_def by (auto split: if_splits)
  have "token @ tail = body"
    using concat_takeWhile_prefix [of token_char "utf8_chars body"] t by (simp add: concat_utf8_chars)
  moreover have "rest = quot @ body" by (auto simp: body_def quot_def neq_Nil_conv)
  moreover have "v = blanks @ rest" by (metis rest_def blanks_def append_eq_conv_conj takeWhile_dropWhile_id)
  ultimately show ?thesis using t by simp
qed

lemma shared_pin_suffix: "shared_pin before t \<Longrightarrow> \<exists>p. t = p @ before"
proof -
  assume "shared_pin before t"
  then obtain n where "drop n t = ''.yml@'' @ before" unfolding shared_pin_def Let_def by blast
  then have "t = (take n t @ ''.yml@'') @ before" using append_take_drop_id [of n t] by simp
  then show ?thesis by blast
qed

lemma removesuffix_append: "removesuffix (p @ e) e = p"
  by (simp add: removesuffix_def endswith_def)

definition pin_names :: "string set" where
  "pin_names = {''uses'', ''AUTOMATION_SHA'', ''automation_sha'', ''automation-sha'', ''ref''}"

lemma owned_pin_token:
  assumes "owned_pin prior indent key_indent before key token fs"
  obtains p where "token = Some (p @ before)" and "key \<in> pin_names"
    and "p = [] \<or> (key = ''uses'' \<and> shared_pin before (p @ before))"
proof (cases "key = ''uses'' \<and> direct_owner fs key_indent \<and> token \<noteq> None")
  case True
  with assms obtain t where "token = Some t" "shared_pin before t" by (auto simp: owned_pin_def)
  with True that shared_pin_suffix [of before t] show ?thesis by (auto simp: pin_names_def)
next
  case False
  with assms have "token = Some before" "key \<in> pin_names"
    by (auto simp: owned_pin_def with_pin_def pin_names_def split: frame_kind.splits if_splits)
  with that [of "[]"] show ?thesis by simp
qed

text \<open>A line whose pin moved: a mapping whose scalar token ended in the old commit.\<close>

definition repinned :: "string \<Rightarrow> string \<Rightarrow> string \<Rightarrow> string \<Rightarrow> bool" where
  "repinned before after line out \<longleftrightarrow> (\<exists>m lead p tail.
     mapping_of line = Some m \<and> m_key m \<in> pin_names
     \<and> scalar_of (m_value m) = Some (lead, p @ before, tail)
     \<and> (p = [] \<or> (m_key m = ''uses'' \<and> shared_pin before (p @ before)))
     \<and> out = m_head m @ lead @ p @ after @ tail @ m_ending m)"

section \<open>Who owns a pin, on the lines of the file\<close>

text \<open>
  The roles of lines, without the scan that finds them: a line is at the column of its first character that is
  no space; blank lines and comments have no column. A line is under another when all lines from there on are
  deeper than its column. The contents of a block scalar are no keys.
\<close>

definition indent_of :: "string \<Rightarrow> nat" where
  "indent_of line = length line - length (dropWhile (\<lambda>c. c = CHR '' '') line)"

definition significant :: "string \<Rightarrow> bool" where
  "significant line = (let stripped = dropWhile (\<lambda>c. c = CHR '' '') line in
     py_strip stripped \<noteq> [] \<and> \<not> startswith stripped ''#'')"

definition deeper :: "string list \<Rightarrow> nat \<Rightarrow> nat \<Rightarrow> nat \<Rightarrow> bool" where
  "deeper ls n j i \<longleftrightarrow> (\<forall>l. j < l \<and> l < i \<and> significant (ls ! l) \<longrightarrow> n < indent_of (ls ! l))"

definition under :: "string list \<Rightarrow> nat \<Rightarrow> nat \<Rightarrow> nat \<Rightarrow> bool" where
  "under ls n j k \<longleftrightarrow> j < k \<and> deeper ls n j (Suc k)"

definition block_header :: "string \<Rightarrow> bool" where
  "block_header line \<longleftrightarrow> significant line
     \<and> (\<exists>m. mapping_of line = Some m \<and> \<not> m_sequence m \<and> block_scalar (py_strip (m_value m)))"

definition live :: "string list \<Rightarrow> nat \<Rightarrow> bool" where
  "live ls k \<longleftrightarrow> \<not> (\<exists>b. block_header (ls ! b) \<and> under ls (indent_of (ls ! b)) b k)"

definition key_at :: "string list \<Rightarrow> nat \<Rightarrow> nat \<Rightarrow> string \<Rightarrow> bool" where
  "key_at ls k col key \<longleftrightarrow> k < length ls \<and> live ls k
     \<and> (\<exists>m. mapping_of (ls ! k) = Some m \<and> m_key m = key \<and> col = indent_of (ls ! k) + (if m_sequence m then 2 else 0))"

definition opens_at :: "string list \<Rightarrow> nat \<Rightarrow> nat \<Rightarrow> string \<Rightarrow> bool" where
  "opens_at ls k col key \<longleftrightarrow> key_at ls k col key
     \<and> (\<exists>m. mapping_of (ls ! k) = Some m \<and> (py_strip (m_value m) = [] \<or> startswith (py_lstrip (m_value m)) ''#''))"

definition token_at :: "string list \<Rightarrow> nat \<Rightarrow> string option" where
  "token_at ls k = (case mapping_of (ls ! k) of None \<Rightarrow> None
     | Some m \<Rightarrow> map_option (\<lambda>(lead, t, tail). t) (scalar_of (m_value m)))"

text \<open>The mapping \<open>jobs\<close>, a job in it, its \<open>steps\<close>, a step in them; jobs and steps own keys two columns deeper.\<close>

definition jobs_at :: "string list \<Rightarrow> nat \<Rightarrow> bool" where
  "jobs_at ls j \<longleftrightarrow> opens_at ls j 0 ''jobs''"

definition job_at :: "string list \<Rightarrow> nat \<Rightarrow> bool" where
  "job_at ls j \<longleftrightarrow> (\<exists>key. opens_at ls j 2 key) \<and> (\<exists>h. jobs_at ls h \<and> under ls 0 h j)"

definition steps_at :: "string list \<Rightarrow> nat \<Rightarrow> bool" where
  "steps_at ls j \<longleftrightarrow> opens_at ls j 4 ''steps'' \<and> (\<exists>h. job_at ls h \<and> under ls 2 h j)"

definition step_at :: "string list \<Rightarrow> nat \<Rightarrow> bool" where
  "step_at ls j \<longleftrightarrow> (\<exists>key. key_at ls j 8 key) \<and> indent_of (ls ! j) = 6 \<and> (\<exists>h. steps_at ls h \<and> under ls 4 h j)"

definition owner_at :: "string list \<Rightarrow> nat \<Rightarrow> nat \<Rightarrow> bool" where
  "owner_at ls own w \<longleftrightarrow> w = 2 \<and> job_at ls own \<or> w = 6 \<and> step_at ls own"

definition own_key :: "string list \<Rightarrow> nat \<Rightarrow> nat \<Rightarrow> nat \<Rightarrow> string \<Rightarrow> bool" where
  "own_key ls own w k key \<longleftrightarrow> key_at ls k (w + 2) key \<and> (own = k \<or> under ls w own k)"

definition uses_before :: "string list \<Rightarrow> nat \<Rightarrow> nat \<Rightarrow> nat \<Rightarrow> string \<Rightarrow> bool" where
  "uses_before ls own w i t \<longleftrightarrow> (\<exists>k < i. own_key ls own w k ''uses'' \<and> token_at ls k = Some t)"

text \<open>An environment is the one of the file or of a job or step; inputs are those of a job or step.\<close>

definition env_at :: "string list \<Rightarrow> nat \<Rightarrow> nat \<Rightarrow> bool" where
  "env_at ls j n \<longleftrightarrow> opens_at ls j n ''env''
     \<and> (n = 0 \<or> (\<exists>own w. owner_at ls own w \<and> n = w + 2 \<and> own_key ls own w j ''env''))"

definition with_at :: "string list \<Rightarrow> nat \<Rightarrow> nat \<Rightarrow> nat \<Rightarrow> bool" where
  "with_at ls own w j \<longleftrightarrow> owner_at ls own w \<and> opens_at ls j (w + 2) ''with'' \<and> own_key ls own w j ''with''"

definition repository_before :: "string list \<Rightarrow> nat \<Rightarrow> nat \<Rightarrow> nat \<Rightarrow> bool" where
  "repository_before ls j n i \<longleftrightarrow> (\<exists>k < i. key_at ls k (n + 2) ''repository'' \<and> under ls n j k
     \<and> token_at ls k = Some ''Strukturpiloten/boxferry'')"

definition owned_uses :: "string \<Rightarrow> string list \<Rightarrow> nat \<Rightarrow> bool" where
  "owned_uses before ls i \<longleftrightarrow> (\<exists>own w t. owner_at ls own w \<and> own_key ls own w i ''uses''
     \<and> token_at ls i = Some t \<and> shared_pin before t)"

definition owned_env :: "string \<Rightarrow> string list \<Rightarrow> nat \<Rightarrow> bool" where
  "owned_env before ls i \<longleftrightarrow> token_at ls i = Some before
     \<and> (\<exists>j n. env_at ls j n \<and> under ls n j i \<and> key_at ls i (n + 2) ''AUTOMATION_SHA'')"

definition owned_input :: "string \<Rightarrow> string list \<Rightarrow> nat \<Rightarrow> bool" where
  "owned_input before ls i \<longleftrightarrow> token_at ls i = Some before
     \<and> (\<exists>own w j t key. with_at ls own w j \<and> under ls (w + 2) j i \<and> uses_before ls own w i t \<and> key_at ls i (w + 4) key
          \<and> (key \<in> {''automation_sha'', ''automation-sha''}
               \<and> (shared_pin before t \<or> t = local_action \<or> key = ''automation-sha'' \<and> w = 6 \<and> t \<in> set local_step_actions)
             \<or> key = ''ref'' \<and> w = 6 \<and> checkout_pin t \<and> repository_before ls j (w + 2) i
               \<and> 0 < i \<and> annotation_of (ls ! (i - 1)) = Some (indent_of (ls ! i))))"

definition owned_line :: "string \<Rightarrow> string list \<Rightarrow> nat \<Rightarrow> bool" where
  "owned_line before ls i \<longleftrightarrow> owned_uses before ls i \<or> owned_env before ls i \<or> owned_input before ls i"

section \<open>The open mappings are lines of the file\<close>

text \<open>A frame with the line that opened it, above the frames that were open there.\<close>

definition role_tied :: "string list \<Rightarrow> pin_frame \<Rightarrow> nat \<Rightarrow> (pin_frame \<times> nat) list \<Rightarrow> bool" where
  "role_tied ls f j zs = (case pf_kind f of
     Jobs \<Rightarrow> pf_indent f = 0 \<and> jobs_at ls j
   | Job \<Rightarrow> pf_indent f = 2 \<and> job_at ls j
   | Steps \<Rightarrow> pf_indent f = 4 \<and> steps_at ls j
   | Step \<Rightarrow> pf_indent f = 6 \<and> step_at ls j
   | Env \<Rightarrow> env_at ls j (pf_indent f)
   | With \<Rightarrow> (case zs of [] \<Rightarrow> False | (g, own) # _ \<Rightarrow> pf_indent f = pf_indent g + 2 \<and> with_at ls own (pf_indent g) j)
   | Other \<Rightarrow> True)"

definition facts_tied :: "string list \<Rightarrow> nat \<Rightarrow> pin_frame \<Rightarrow> nat \<Rightarrow> (pin_frame \<times> nat) list \<Rightarrow> bool" where
  "facts_tied ls i f j zs \<longleftrightarrow> (pf_uses f \<noteq> [] \<longrightarrow> uses_before ls j (pf_indent f) i (pf_uses f))
     \<and> (pf_repository f \<longrightarrow> repository_before ls j (pf_indent f) i
          \<and> (case zs of [] \<Rightarrow> False | (g, own) # _ \<Rightarrow> pf_indent g = 6))"

fun tied :: "string list \<Rightarrow> nat \<Rightarrow> (pin_frame \<times> nat) list \<Rightarrow> bool" where
  "tied ls i [] = True"
| "tied ls i ((f, j) # zs) \<longleftrightarrow> j < i \<and> deeper ls (pf_indent f) j i \<and> role_tied ls f j zs \<and> facts_tied ls i f j zs
     \<and> list_all (\<lambda>z. pf_indent (fst z) < pf_indent f) zs \<and> tied ls i zs"

lemma key_at_unique: "key_at ls k col key \<Longrightarrow> key_at ls k col' key' \<Longrightarrow> col = col' \<and> key = key'"
  by (auto simp: key_at_def)

lemma opens_at_key: "opens_at ls k col key \<Longrightarrow> key_at ls k col key"
  by (simp add: opens_at_def)

lemma deeper_Suc: "deeper ls n j i \<Longrightarrow> (significant (ls ! i) \<Longrightarrow> n < indent_of (ls ! i)) \<Longrightarrow> deeper ls n j (Suc i)"
  by (auto simp: deeper_def less_Suc_eq)

lemma before_mono:
  "uses_before ls own w i t \<Longrightarrow> uses_before ls own w (Suc i) t"
  "repository_before ls j n i \<Longrightarrow> repository_before ls j n (Suc i)"
  unfolding uses_before_def repository_before_def by (meson less_SucI)+

lemma facts_tied_Suc: "facts_tied ls i f j zs \<Longrightarrow> facts_tied ls (Suc i) f j zs"
  by (auto simp: facts_tied_def before_mono split: list.splits)

lemma tied_Suc:
  "tied ls i zs \<Longrightarrow> (significant (ls ! i) \<Longrightarrow> list_all (\<lambda>z. pf_indent (fst z) < indent_of (ls ! i)) zs) \<Longrightarrow> tied ls (Suc i) zs"
proof (induction zs)
  case (Cons z zs)
  obtain f j where z: "z = (f, j)" by (cases z)
  from Cons have "tied ls (Suc i) zs" by (auto simp: z)
  with Cons.prems show ?case by (simp add: z deeper_Suc facts_tied_Suc)
qed simp

lemma tied_drop:
  "tied ls i zs \<Longrightarrow> tied ls (Suc i) (dropWhile (\<lambda>z. indent_of (ls ! i) \<le> pf_indent (fst z)) zs)
     \<and> list_all (\<lambda>z. pf_indent (fst z) < indent_of (ls ! i)) (dropWhile (\<lambda>z. indent_of (ls ! i) \<le> pf_indent (fst z)) zs)"
proof (induction zs)
  case (Cons z zs)
  show ?case
  proof (cases "indent_of (ls ! i) \<le> pf_indent (fst z)")
    case False
    obtain f j where z: "z = (f, j)" by (cases z)
    with Cons.prems False have "list_all (\<lambda>z. pf_indent (fst z) < indent_of (ls ! i)) (z # zs)"
      by (auto simp: list_all_iff)
    with tied_Suc [OF Cons.prems] False show ?thesis by simp
  qed (use Cons in \<open>cases z; simp\<close>)
qed simp

lemma tied_keys: "tied ls i ((f\<lparr>pf_keys := ks\<rparr>, j) # zs) = tied ls i ((f, j) # zs)"
  by (cases zs) (auto simp: role_tied_def facts_tied_def split: frame_kind.splits)

lemma tied_own_key:
  assumes "tied ls (Suc i) ((f, j) # zs)" and "key_at ls i (pf_indent f + 2) key"
  shows "own_key ls j (pf_indent f) i key"
  using assms by (auto simp: own_key_def under_def less_Suc_eq)

lemma tied_under:
  assumes "tied ls (Suc i) ((f, j) # zs)" and "key_at ls i c key" and "key_at ls j c' key'" and "c \<noteq> c'"
  shows "under ls (pf_indent f) j i"
  using assms key_at_unique [of ls i c key c' key'] by (auto simp: under_def less_Suc_eq)

lemma tied_owner:
  "tied ls i ((f, j) # zs) \<Longrightarrow> pf_kind f \<in> {Job, Step} \<Longrightarrow> owner_at ls j (pf_indent f)"
  by (auto simp: role_tied_def owner_at_def)

text \<open>Where the scan finds an owned pin, the line owns it.\<close>

lemma owned_pin_line:
  assumes t: "tied ls (Suc i) zs" and m: "mapping_of (ls ! i) = Some m"
    and k: "key_at ls i key_indent (m_key m)"
    and prior: "prior = (if i = 0 then None else Some (ls ! (i - 1)))"
    and own: "owned_pin prior (indent_of (ls ! i)) key_indent before (m_key m)
      (map_option (\<lambda>(lead, t, tail). t) (scalar_of (m_value m))) (map fst zs)"
  shows "owned_line before ls i"
proof -
  let ?key = "m_key m" and ?token = "map_option (\<lambda>(lead, t, tail). t) (scalar_of (m_value m))"
  have tok: "token_at ls i = ?token" by (simp add: token_at_def m)
  have "inside (map fst zs) key_indent"
    using own by (auto simp: owned_pin_def direct_owner_def split: if_splits)
  then obtain f j r where z: "zs = (f, j) # r" "key_indent = pf_indent f + 2"
    by (auto simp: inside_def split: list.splits)
  note t = t [unfolded z(1)] and k = k [unfolded z(2)]
  note role = t [simplified, THEN conjunct2, THEN conjunct2, THEN conjunct1]
  show ?thesis
  proof (cases "?key = ''uses'' \<and> direct_owner (map fst zs) key_indent \<and> ?token \<noteq> None")
    case True
    then have "owned_uses before ls i"
      unfolding owned_uses_def tok using own tied_owner [OF t] tied_own_key [OF t k]
      by (fastforce simp: owned_pin_def direct_owner_def z)
    then show ?thesis by (simp add: owned_line_def)
  next
    case False
    with own have b: "?token = Some before" and c: "(case pf_kind f of Env \<Rightarrow> ?key = ''AUTOMATION_SHA''
        | With \<Rightarrow> r \<noteq> [] \<and> with_pin prior (indent_of (ls ! i)) before ?key f (hd (map fst r)) | _ \<Rightarrow> False)"
      by (auto simp: owned_pin_def z split: frame_kind.splits)
    show ?thesis
    proof (cases "pf_kind f")
      case Env
      then have e: "env_at ls j (pf_indent f)" using role by (simp add: role_tied_def)
      then have "under ls (pf_indent f) j i"
        using tied_under [OF t k opens_at_key, of "pf_indent f" "''env''"] by (simp add: env_at_def)
      with e b c k Env have "owned_env before ls i" unfolding owned_env_def tok by auto
      then show ?thesis by (simp add: owned_line_def)
    next
      case With
      with role obtain g own r' where r: "r = (g, own) # r'" and w: "pf_indent f = pf_indent g + 2"
        and wa: "with_at ls own (pf_indent g) j" by (auto simp: role_tied_def split: list.splits)
      have u: "under ls (pf_indent g + 2) j i"
        using tied_under [OF t k opens_at_key, of "pf_indent f" "''with''"] wa w by (simp add: with_at_def)
      have tg: "tied ls (Suc i) ((g, own) # r')" using t r by simp
      have six: "pf_indent g = 6" if "pf_kind g = Step" using tg that by (simp add: role_tied_def)
      have pin: "with_pin prior (indent_of (ls ! i)) before ?key f g" using c With r by simp
      have ne: "pf_uses g \<noteq> []"
        using pin by (auto simp: with_pin_def shared_pin_def Let_def startswith_def checkout_pin_def local_action_def
            local_step_actions_def split: if_splits)
      have "uses_before ls own (pf_indent g) (Suc i) (pf_uses g)" using tg ne by (simp add: facts_tied_def)
      have notuses: "?key \<noteq> ''uses''" "?key \<noteq> ''repository''" using pin by (auto simp: with_pin_def split: if_splits)
      have ub: "uses_before ls own (pf_indent g) i (pf_uses g)"
        using \<open>uses_before ls own (pf_indent g) (Suc i) (pf_uses g)\<close> notuses(1) key_at_unique [OF k]
        unfolding uses_before_def own_key_def less_Suc_eq by blast
      have rb: "repository_before ls j (pf_indent g + 2) i \<and> pf_indent g = 6" if "pf_repository f"
        using t that r w notuses(2) key_at_unique [OF k]
        unfolding repository_before_def facts_tied_def tied.simps less_Suc_eq by auto
      have alt: "?key \<in> {''automation_sha'', ''automation-sha''}
               \<and> (shared_pin before (pf_uses g) \<or> pf_uses g = local_action
                  \<or> ?key = ''automation-sha'' \<and> pf_indent g = 6 \<and> pf_uses g \<in> set local_step_actions)
             \<or> ?key = ''ref'' \<and> pf_indent g = 6 \<and> checkout_pin (pf_uses g) \<and> repository_before ls j (pf_indent g + 2) i
               \<and> 0 < i \<and> annotation_of (ls ! (i - 1)) = Some (indent_of (ls ! i))"
      proof (cases "?key \<in> {''automation_sha'', ''automation-sha''}")
        case True
        with pin have "shared_pin before (pf_uses g) \<or> pf_uses g = local_action
            \<or> ?key = ''automation-sha'' \<and> pf_kind g = Step \<and> pf_uses g \<in> set local_step_actions"
          by (simp only: with_pin_def if_True)
        with True six show ?thesis by blast
      next
        case False
        with pin have r: "?key = ''ref''" "pf_repository f" "checkout_pin (pf_uses g)"
          "case prior of None \<Rightarrow> False | Some l \<Rightarrow> annotation_of l = Some (indent_of (ls ! i))"
          by (simp_all only: with_pin_def if_False)
        from r(4) prior have "0 < i \<and> annotation_of (ls ! (i - 1)) = Some (indent_of (ls ! i))"
          by (cases "i = 0") simp_all
        with r(1,3) rb [OF r(2)] show ?thesis by blast
      qed
      have key4: "key_at ls i (pf_indent g + 4) ?key" 
      proof -
        have "pf_indent f + 2 = pf_indent g + 4" using w by simp
        with k show ?thesis by (simp only:)
      qed
      have "owned_input before ls i"
        unfolding owned_input_def tok
        by (intro conjI exI, rule b, rule wa, rule u, rule ub, rule key4, rule alt)
      then show ?thesis by (simp add: owned_line_def)
    qed (use c in simp_all)
  qed
qed

text \<open>What a key records, and the mapping it opens.\<close>

lemma record_tied:
  assumes t: "tied ls (Suc i) zs" and m: "mapping_of (ls ! i) = Some m" and k: "key_at ls i key_indent (m_key m)"
    and tok: "token = map_option (\<lambda>(lead, t, tail). t) (scalar_of (m_value m))"
  obtains zs' where "map fst zs' = record_key key_indent (m_key m) token (map fst zs)" and "tied ls (Suc i) zs'"
    and "map (\<lambda>(f, j). (pf_indent f, j)) zs' = map (\<lambda>(f, j). (pf_indent f, j)) zs"
proof (cases zs)
  case Nil
  with that [of "[]"] show ?thesis by (simp add: record_key_def)
next
  case (Cons z r)
  obtain f j where z: "zs = (f, j) # r" using Cons by (cases z) simp
  note t = t [unfolded z]
  have ta: "token_at ls i = token" by (simp add: token_at_def m tok)
  show ?thesis
  proof (cases "m_key m = ''uses'' \<and> direct_owner (map fst zs) key_indent \<and> token \<noteq> None")
    case True
    then have ki: "key_indent = pf_indent f + 2" and kd: "pf_kind f \<in> {Job, Step}"
      by (auto simp: direct_owner_def inside_def z)
    have "own_key ls j (pf_indent f) i ''uses''" using tied_own_key [OF t] k ki True by simp
    then have "uses_before ls j (pf_indent f) (Suc i) (the token)"
      unfolding uses_before_def using True ta by (intro exI [of _ i]) simp
    then have "tied ls (Suc i) ((f\<lparr>pf_uses := the token\<rparr>, j) # r)"
      using t kd by (auto simp: role_tied_def facts_tied_def)
    moreover have "record_key key_indent (m_key m) token (map fst zs) = f\<lparr>pf_uses := the token\<rparr> # map fst r"
      using True by (simp add: record_key_def z)
    ultimately show ?thesis using that [of "(f\<lparr>pf_uses := the token\<rparr>, j) # r"] by (simp add: z)
  next
    case notuses: False
    show ?thesis
    proof (cases "pf_kind f = With \<and> r \<noteq> [] \<and> pf_kind (hd (map fst r)) = Step \<and> checkout_pin (pf_uses (hd (map fst r)))
        \<and> inside (map fst zs) key_indent \<and> m_key m = ''repository''")
      case True
      let ?f = "f\<lparr>pf_repository := (token = Some ''Strukturpiloten/boxferry'')\<rparr>"
      have ki: "key_indent = pf_indent f + 2" using True by (auto simp: inside_def z)
      obtain g own r' where r: "r = (g, own) # r'" using True by (cases r) auto
      have w: "with_at ls own (pf_indent g) j" "pf_indent f = pf_indent g + 2"
        using t True r by (auto simp: role_tied_def)
      have "pf_indent g = 6" using t True r by (simp add: role_tied_def)
      moreover have "under ls (pf_indent f) j i"
        using tied_under [OF t k opens_at_key, of "pf_indent f" "''with''"] w ki by (simp add: with_at_def)
      then have "repository_before ls j (pf_indent f) (Suc i)" if "token = Some ''Strukturpiloten/boxferry''"
        unfolding repository_before_def using that ta k ki True by (intro exI [of _ i]) simp
      ultimately have "tied ls (Suc i) ((?f, j) # r)"
        using t True r by (auto simp: role_tied_def facts_tied_def)
      moreover have "record_key key_indent (m_key m) token (map fst zs) = ?f # map fst r"
        using True notuses by (simp add: record_key_def z)
      ultimately show ?thesis using that [of "(?f, j) # r"] by (simp add: z)
    next
      case False
      with notuses have "record_key key_indent (m_key m) token (map fst zs) = map fst zs"
        by (auto simp: record_key_def z)
      with that [of zs] t z show ?thesis by simp
    qed
  qed
qed

lemma child_tied:
  assumes t: "tied ls (Suc i) zs" and k: "opens_at ls i key_indent key"
    and same: "map (\<lambda>(f, j). (pf_indent f, j)) zs' = map (\<lambda>(f, j). (pf_indent f, j)) zs"
  shows "role_tied ls (new_frame key_indent (child_kind key_indent key (map fst zs))) i zs'"
proof (cases zs)
  case Nil
  then show ?thesis using k
    by (auto simp: role_tied_def new_frame_def child_kind_def inside_def direct_owner_def jobs_at_def env_at_def)
next
  case (Cons z r)
  obtain f j where z: "zs = (f, j) # r" using Cons by (cases z) simp
  obtain f' r' where z': "zs' = (f', j) # r'" and fi: "pf_indent f' = pf_indent f"
    using same z by (cases zs') auto
  note t = t [unfolded z]
  note k' = opens_at_key [OF k]
  have ok: "own_key ls j (pf_indent f) i key" if "key_indent = pf_indent f + 2"
    using tied_own_key [OF t] k' that by simp
  have jobs: "under ls 0 j i \<and> key_indent = 2 \<and> jobs_at ls j" if "pf_kind f = Jobs" "key_indent = pf_indent f + 2"
    using tied_under [OF t k' opens_at_key, of 0 "''jobs''"] t that by (simp add: role_tied_def jobs_at_def)
  have job: "under ls 2 j i \<and> key_indent = 4 \<and> job_at ls j" if j: "pf_kind f = Job" "key_indent = pf_indent f + 2"
  proof -
    have "pf_indent f = 2" "job_at ls j" using t j by (simp_all add: role_tied_def)
    moreover from this obtain kk where "opens_at ls j 2 kk" by (auto simp: job_at_def)
    ultimately show ?thesis using tied_under [OF t k' opens_at_key, of 2 kk] j by simp
  qed
  have own: "owner_at ls j (pf_indent f)" if "pf_kind f \<in> {Job, Step}" using tied_owner [OF t that] .
  have role: "role_tied ls (new_frame key_indent kind) i zs'" if "kind = child_kind key_indent key (f # map fst r)" for kind
  proof (cases "key_indent = pf_indent f + 2")
    case False
    then have "kind = Other" using that by (simp add: child_kind_def inside_def direct_owner_def)
    then show ?thesis by (simp add: role_tied_def new_frame_def)
  next
    case ki: True
    then have i: "inside (f # map fst r) key_indent" by (simp add: inside_def)
    show ?thesis
    proof (cases "pf_kind f \<in> {Job, Step}")
      case True
      then have kind: "kind = (if key = ''steps'' \<and> pf_kind f = Job then Steps else if key = ''env'' then Env
          else if key = ''with'' then With else Other)"
        using that i by (auto simp: child_kind_def direct_owner_def)
      have "steps_at ls i \<and> key_indent = 4" if "key = ''steps''" "pf_kind f = Job"
        using k job [OF that(2) ki] that(1) by (auto simp: steps_at_def)
      moreover have "env_at ls i key_indent" if "key = ''env''"
        using k own [OF True] ok [OF ki] ki that unfolding env_at_def by blast
      moreover have "with_at ls j (pf_indent f) i" if "key = ''with''"
        using k own [OF True] ok [OF ki] ki that unfolding with_at_def by blast
      ultimately show ?thesis unfolding kind
        using ki by (simp add: role_tied_def new_frame_def z' fi)
    next
      case False
      then have kind: "kind = (if pf_kind f = Jobs then Job else Other)"
        using that i by (auto simp: child_kind_def direct_owner_def)
      show ?thesis
      proof (cases "pf_kind f = Jobs")
        case True
        from jobs [OF this ki] k have "job_at ls i" unfolding job_at_def by blast
        with kind True jobs [OF True ki] show ?thesis by (simp add: role_tied_def new_frame_def)
      qed (simp add: kind role_tied_def new_frame_def)
    qed
  qed
  show ?thesis unfolding z by (rule role) simp
qed

text \<open>The state of the scan at a line: every open mapping is a line of the file, and so is an open block scalar.\<close>

definition blocks_tied :: "string list \<Rightarrow> nat \<Rightarrow> nat option \<Rightarrow> bool" where
  "blocks_tied ls i open_block \<longleftrightarrow> (\<forall>b < i. block_header (ls ! b) \<and> deeper ls (indent_of (ls ! b)) b i
     \<longrightarrow> (case open_block of None \<Rightarrow> False | Some x \<Rightarrow> x \<le> indent_of (ls ! b)))"

definition scan_tied :: "string list \<Rightarrow> nat \<Rightarrow> pin_state \<Rightarrow> bool" where
  "scan_tied ls i st \<longleftrightarrow> (\<exists>zs. map fst zs = frames st \<and> tied ls i zs) \<and> blocks_tied ls i (block_indent st)
     \<and> (case block_indent st of None \<Rightarrow> True | Some x \<Rightarrow> list_all (\<lambda>f. pf_indent f \<le> x) (frames st))"

lemma deeper_le: "deeper ls n j (Suc i) \<Longrightarrow> deeper ls n j i"
  by (simp add: deeper_def)

lemma blocks_skip:
  assumes "blocks_tied ls i ob" and "\<not> significant (ls ! i) \<or> (case ob of None \<Rightarrow> False | Some x \<Rightarrow> x < indent_of (ls ! i))"
  shows "blocks_tied ls (Suc i) ob"
  unfolding blocks_tied_def
proof (intro allI impI)
  fix b assume b: "b < Suc i" and h: "block_header (ls ! b) \<and> deeper ls (indent_of (ls ! b)) b (Suc i)"
  show "case ob of None \<Rightarrow> False | Some x \<Rightarrow> x \<le> indent_of (ls ! b)"
  proof (cases "b = i")
    case True
    with h assms(2) show ?thesis by (auto simp: block_header_def split: option.splits)
  qed (use assms(1) b h deeper_le in \<open>auto simp: blocks_tied_def less_Suc_eq\<close>)
qed

lemma blocks_live:
  assumes "blocks_tied ls i ob" and "significant (ls ! i)"
    and "\<not> (case ob of None \<Rightarrow> False | Some x \<Rightarrow> x < indent_of (ls ! i))"
  shows "live ls i"
proof -
  have False if b: "block_header (ls ! b)" "under ls (indent_of (ls ! b)) b i" for b
  proof -
    have "b < i" "deeper ls (indent_of (ls ! b)) b i" using b(2) deeper_le by (auto simp: under_def)
    with assms(1) b(1) have "case ob of None \<Rightarrow> False | Some x \<Rightarrow> x \<le> indent_of (ls ! b)"
      unfolding blocks_tied_def by blast
    moreover have "indent_of (ls ! b) < indent_of (ls ! i)"
      using b(2) assms(2) by (auto simp: under_def deeper_def)
    ultimately show False using assms(3) by (auto split: option.splits)
  qed
  then show ?thesis unfolding live_def by blast
qed

lemma blocks_next:
  assumes "live ls i" and "block_header (ls ! i) \<Longrightarrow> (case ob of None \<Rightarrow> False | Some x \<Rightarrow> x \<le> indent_of (ls ! i))"
  shows "blocks_tied ls (Suc i) ob"
  using assms unfolding blocks_tied_def live_def under_def by (metis less_SucE)

text \<open>One key: its line is kept, or its pin moves and the line owns it.\<close>

lemma pin_value_tied:
  assumes t: "tied ls (Suc i) zs" and fs: "map fst zs = frames st" and i: "i < length ls" and live: "live ls i"
    and m: "mapping_of (ls ! i) = Some m" and ki: "key_indent = indent_of (ls ! i) + (if m_sequence m then 2 else 0)"
    and low: "list_all (\<lambda>z. pf_indent (fst z) < key_indent) zs"
    and prior: "prior = (if i = 0 then None else Some (ls ! (i - 1)))"
    and run: "pin_value before after prior (ls ! i) (indent_of (ls ! i)) key_indent m st = (out, st')"
  shows "(\<exists>zs'. map fst zs' = frames st' \<and> tied ls (Suc i) zs') \<and> block_indent st' = block_indent st
    \<and> (out = ls ! i \<and> replacements st' = replacements st
       \<or> owned_line before ls i \<and> repinned before after (ls ! i) out \<and> replacements st' = replacements st + 1)"
proof -
  let ?token = "map_option (\<lambda>(lead, t, tail). t) (scalar_of (m_value m))"
  have k: "key_at ls i key_indent (m_key m)" using i live m ki by (auto simp: key_at_def)
  obtain zs' where zs': "map fst zs' = record_key key_indent (m_key m) ?token (map fst zs)" "tied ls (Suc i) zs'"
    and same: "map (\<lambda>(f, j). (pf_indent f, j)) zs' = map (\<lambda>(f, j). (pf_indent f, j)) zs"
    using record_tied [OF t m k refl] .
  let ?opens = "py_strip (m_value m) = [] \<or> startswith (py_lstrip (m_value m)) ''#''"
  have "map pf_indent (map fst zs') = map pf_indent (map fst zs)"
    using arg_cong [OF same, of "map fst"] by (simp add: comp_def case_prod_beta)
  moreover have "list_all (\<lambda>z. pf_indent (fst z) < key_indent) ys = list_all (\<lambda>n. n < key_indent) (map pf_indent (map fst ys))"
    for ys :: "(pin_frame \<times> nat) list" by (simp add: list.pred_map comp_def)
  ultimately have low': "list_all (\<lambda>z. pf_indent (fst z) < key_indent) zs'" using low by simp
  have "\<exists>zs'. map fst zs' = frames st' \<and> tied ls (Suc i) zs'"
  proof (cases ?opens)
    case True
    let ?f = "new_frame key_indent (child_kind key_indent (m_key m) (map fst zs))"
    have o: "opens_at ls i key_indent (m_key m)" using k m True by (auto simp: opens_at_def)
    have "tied ls (Suc i) ((?f, i) # zs')"
      using zs'(2) child_tied [OF t o same] low' by (simp add: facts_tied_def new_frame_def deeper_def)
    moreover have "frames st' = ?f # map fst zs'"
      using run True zs'(1) fs by (auto simp: pin_value_def Let_def split: option.splits)
    ultimately show ?thesis by (intro exI [of _ "(?f, i) # zs'"]) simp
  next
    case False
    then have "frames st' = map fst zs'"
      using run zs'(1) fs by (auto simp: pin_value_def Let_def split: option.splits)
    with zs'(2) show ?thesis by (intro exI [of _ zs']) simp
  qed
  moreover have "block_indent st' = block_indent st"
    using run by (auto simp: pin_value_def Let_def split: option.splits)
  moreover have "out = ls ! i \<and> replacements st' = replacements st
       \<or> owned_line before ls i \<and> repinned before after (ls ! i) out \<and> replacements st' = replacements st + 1"
  proof (cases "owned_pin prior (indent_of (ls ! i)) key_indent before (m_key m) ?token (frames st)")
    case True
    then have "owned_line before ls i" using owned_pin_line [OF t m k prior] fs by simp
    moreover have "repinned before after (ls ! i) out \<and> replacements st' = replacements st + 1"
    proof -
      from owned_pin_token [OF True] obtain p where "?token = Some (p @ before)" and names: "m_key m \<in> pin_names"
        and p: "p = [] \<or> (m_key m = ''uses'' \<and> shared_pin before (p @ before))" .
      then obtain lead tail where sc: "scalar_of (m_value m) = Some (lead, p @ before, tail)" by auto
      with True run have "out = m_head m @ lead @ p @ after @ tail @ m_ending m"
        "replacements st' = replacements st + 1"
        by (auto simp: pin_value_def Let_def removesuffix_append)
      with names p sc m show ?thesis unfolding repinned_def by blast
    qed
    ultimately show ?thesis by blast
  qed (use run in \<open>auto simp: pin_value_def Let_def split: option.splits\<close>)
  ultimately show ?thesis by blast
qed

lemma note_key_tied:
  assumes "note_key key_indent key st = Some st'" and "tied ls i zs" and "map fst zs = frames st"
  obtains zs' where "tied ls i zs'" and "map fst zs' = frames st'" and "map (pf_indent \<circ> fst) zs' = map (pf_indent \<circ> fst) zs"
proof (cases zs)
  case Nil
  with assms that [of "[]"] show ?thesis by (auto simp: note_key_def split: if_splits)
next
  case (Cons z r)
  obtain f j where z: "zs = (f, j) # r" using Cons by (cases z) simp
  with assms(1,3) have "frames st' = f # map fst r \<or> frames st' = f\<lparr>pf_keys := key # pf_keys f\<rparr> # map fst r"
    by (auto simp: note_key_def split: if_splits list.splits)
  then show ?thesis
  proof
    assume "frames st' = f # map fst r"
    with that [of zs] assms(2) z show ?thesis by simp
  next
    assume "frames st' = f\<lparr>pf_keys := key # pf_keys f\<rparr> # map fst r"
    with that [of "(f\<lparr>pf_keys := key # pf_keys f\<rparr>, j) # r"] assms(2) z show ?thesis
      by (simp del: tied.simps add: tied_keys)
  qed
qed

lemma note_key_block: "note_key key_indent key st = Some st' \<Longrightarrow> block_indent st' = block_indent st \<and> replacements st' = replacements st"
  by (auto simp: note_key_def split: list.splits if_splits)

lemma indents_below:
  fixes zs zs' :: "(pin_frame \<times> nat) list"
  shows "map (pf_indent \<circ> fst) zs' = map (pf_indent \<circ> fst) zs \<Longrightarrow>
     list_all (\<lambda>z. P (pf_indent (fst z))) zs' = list_all (\<lambda>z. P (pf_indent (fst z))) zs"
proof -
  assume e: "map (pf_indent \<circ> fst) zs' = map (pf_indent \<circ> fst) zs"
  have "list_all (\<lambda>z. P (pf_indent (fst z))) ys = list_all P (map (pf_indent \<circ> fst) ys)" for ys :: "(pin_frame \<times> nat) list"
    by (simp add: list.pred_map comp_def)
  then show ?thesis by (simp only: e)
qed

lemma pin_key_tied:
  assumes t: "tied ls (Suc i) zs" and fs: "map fst zs = frames st" and none: "block_indent st = None"
    and i: "i < length ls" and live: "live ls i" and m: "mapping_of (ls ! i) = Some m"
    and low: "list_all (\<lambda>z. pf_indent (fst z) < indent_of (ls ! i) + (if m_sequence m then 2 else 0)) zs"
    and le: "list_all (\<lambda>z. pf_indent (fst z) \<le> indent_of (ls ! i)) zs"
    and prior: "prior = (if i = 0 then None else Some (ls ! (i - 1)))"
    and run: "pin_key before after prior (ls ! i) (indent_of (ls ! i)) m st = Some (out, st')"
  shows "scan_tied ls (Suc i) st'
    \<and> (out = ls ! i \<and> replacements st' = replacements st
       \<or> owned_line before ls i \<and> repinned before after (ls ! i) out \<and> replacements st' = replacements st + 1)"
proof -
  let ?ki = "indent_of (ls ! i) + (if m_sequence m then 2 else 0)"
  obtain s where s: "note_key ?ki (m_key m) st = Some s"
    and two: "block_scalar (py_strip (m_value m)) \<and> (out, st') = (ls ! i, s\<lparr>block_indent := Some (indent_of (ls ! i))\<rparr>)
      \<or> \<not> block_scalar (py_strip (m_value m))
        \<and> pin_value before after prior (ls ! i) (indent_of (ls ! i)) ?ki m s = (out, st')"
    using run unfolding pin_key_def Let_def by (auto split: option.splits if_splits)
  obtain zs1 where z1: "tied ls (Suc i) zs1" "map fst zs1 = frames s"
    and e: "map (pf_indent \<circ> fst) zs1 = map (pf_indent \<circ> fst) zs"
    using note_key_tied [OF s t fs] .
  from two show ?thesis
  proof
    assume b: "block_scalar (py_strip (m_value m)) \<and> (out, st') = (ls ! i, s\<lparr>block_indent := Some (indent_of (ls ! i))\<rparr>)"
    have "list_all (\<lambda>f. pf_indent f \<le> indent_of (ls ! i)) (map fst zs1)"
      using le indents_below [OF e, of "\<lambda>n. n \<le> indent_of (ls ! i)"] by (simp add: list.pred_map comp_def)
    moreover have "blocks_tied ls (Suc i) (Some (indent_of (ls ! i)))" using live by (rule blocks_next) simp
    ultimately have "scan_tied ls (Suc i) st'" using b z1 by (auto simp: scan_tied_def)
    with b note_key_block [OF s] show ?thesis by simp
  next
    assume v: "\<not> block_scalar (py_strip (m_value m))
        \<and> pin_value before after prior (ls ! i) (indent_of (ls ! i)) ?ki m s = (out, st')"
    have low1: "list_all (\<lambda>z. pf_indent (fst z) < ?ki) zs1"
      using low indents_below [OF e, of "\<lambda>n. n < ?ki"] by simp
    note r = pin_value_tied [OF z1 i live m refl low1 prior v [THEN conjunct2]]
    have "\<not> block_header (ls ! i)" using v m by (auto simp: block_header_def)
    then have "blocks_tied ls (Suc i) None" using live by (intro blocks_next) simp_all
    with r none note_key_block [OF s] have "scan_tied ls (Suc i) st'" by (simp add: scan_tied_def)
    with r note_key_block [OF s] show ?thesis by simp
  qed
qed

lemma mapping_significant: "mapping_of line = Some m \<Longrightarrow> m_key m \<noteq> []"
  by (auto simp: mapping_of_def Let_def split: if_splits)

lemma pin_line_tied:
  assumes scan: "scan_tied ls i st" and i: "i < length ls"
    and prior: "prior = (if i = 0 then None else Some (ls ! (i - 1)))"
    and run: "pin_line before after prior (ls ! i) st = Some (out, st')"
  shows "scan_tied ls (Suc i) st'
    \<and> (out = ls ! i \<and> replacements st' = replacements st
       \<or> owned_line before ls i \<and> repinned before after (ls ! i) out \<and> replacements st' = replacements st + 1)"
proof -
  let ?line = "ls ! i" and ?stripped = "dropWhile (\<lambda>c. c = CHR '' '') (ls ! i)"
  obtain zs where zs: "map fst zs = frames st" "tied ls i zs" and blocks: "blocks_tied ls i (block_indent st)"
    and ob: "case block_indent st of None \<Rightarrow> True | Some x \<Rightarrow> list_all (\<lambda>f. pf_indent f \<le> x) (frames st)"
    using scan unfolding scan_tied_def by blast
  have ind: "length ?line - length ?stripped = indent_of ?line" by (simp add: indent_of_def)
  let ?deep = "case block_indent st of None \<Rightarrow> False | Some b \<Rightarrow> b < indent_of ?line"
  show ?thesis
  proof (cases "\<not> significant ?line \<or> ?deep")
    case True
    then have r: "out = ?line" "st' = st"
      using run unfolding pin_line_def Let_def ind significant_def by (auto split: if_splits)
    have "significant ?line \<Longrightarrow> list_all (\<lambda>z. pf_indent (fst z) < indent_of ?line) zs"
      using True ob unfolding zs(1) [symmetric] by (fastforce simp: list_all_iff split: option.splits)
    with zs blocks_skip [OF blocks True] ob r show ?thesis
      unfolding scan_tied_def by (auto intro: tied_Suc)
  next
    case False
    then have live: "live ls i" using blocks_live [OF blocks] by blast
    let ?zs = "dropWhile (\<lambda>z. indent_of ?line \<le> pf_indent (fst z)) zs"
    let ?st = "st\<lparr>block_indent := None, frames := map fst ?zs\<rparr>"
    note t = tied_drop [OF zs(2)]
    have le: "list_all (\<lambda>z. pf_indent (fst z) \<le> indent_of ?line) ?zs"
      and lt2: "list_all (\<lambda>z. pf_indent (fst z) < indent_of ?line + 2) ?zs"
      using conjunct2 [OF t] by (auto elim!: list.pred_mono_strong)
    have dw: "dropWhile (\<lambda>f. indent_of ?line \<le> pf_indent f) (frames st) = map fst ?zs"
      unfolding zs(1) [symmetric] by (simp add: dropWhile_map comp_def)
    have body: "(case mapping_of ?line of None \<Rightarrow> Some (?line, ?st)
       | Some m \<Rightarrow> (case enter (m_sequence m) (indent_of ?line) (map fst ?zs) of
           None \<Rightarrow> Some (?line, ?st)
         | Some fs \<Rightarrow> pin_key before after prior ?line (indent_of ?line) m (?st\<lparr>frames := fs\<rparr>))) = Some (out, st')"
      using run False unfolding pin_line_def Let_def ind significant_def dw
      by (auto simp: Let_def split: if_splits)
    have kept: ?thesis if "Some (?line, ?st) = Some (out, st')" "\<not> block_header ?line"
    proof -
      have "blocks_tied ls (Suc i) None" using live that(2) by (intro blocks_next) simp_all
      moreover from that(1) have "st' = ?st" "out = ?line" unfolding option.inject prod.inject by blast+
      ultimately show ?thesis using t by (auto simp: scan_tied_def)
    qed
    show ?thesis
    proof (cases "mapping_of ?line")
      case None
      then have "\<not> block_header ?line" by (simp add: block_header_def)
      show ?thesis using body [unfolded None option.case] \<open>\<not> block_header ?line\<close> by (rule kept)
    next
      case (Some m)
      show ?thesis
      proof (cases "enter (m_sequence m) (indent_of ?line) (map fst ?zs)")
        case None
        then have "m_sequence m" by (auto simp: enter_def split: if_splits)
        then have "\<not> block_header ?line" using Some by (simp add: block_header_def)
        show ?thesis using body [unfolded Some None option.case] \<open>\<not> block_header ?line\<close> by (rule kept)
      next
        case fs: (Some fs)
        then have run': "pin_key before after prior ?line (indent_of ?line) m (?st\<lparr>frames := fs\<rparr>) = Some (out, st')"
          using body Some by simp
        show ?thesis
        proof (cases "m_sequence m")
          case False
          then have e: "fs = map fst ?zs" using fs by (simp add: enter_def)
          show ?thesis
            using pin_key_tied [OF conjunct1 [OF t] _ _ i live Some _ le prior run'] conjunct2 [OF t] e False
            by simp
        next
          case True
          then obtain g h r where z: "?zs = (g, h) # r" and g: "pf_kind g = Steps" "indent_of ?line = pf_indent g + 2"
            and e: "fs = map fst ((new_frame (indent_of ?line) Step, i) # ?zs)"
            using fs by (cases "?zs") (auto simp: enter_def split: if_splits)
          have four: "pf_indent g = 4" "steps_at ls h"
            using conjunct1 [OF t] g(1) unfolding z by (simp_all add: role_tied_def)
          have k: "key_at ls i 8 (m_key m)" using i live Some True g(2) four(1) by (auto simp: key_at_def)
          have "under ls 4 h i"
            using tied_under [OF conjunct1 [OF t [unfolded z]] k opens_at_key, of 4 "''steps''"] four
            by (simp add: steps_at_def)
          then have "step_at ls i" using k four g(2) unfolding step_at_def by auto
          then have "tied ls (Suc i) ((new_frame (indent_of ?line) Step, i) # ?zs)"
            using t four g(2) by (auto simp: new_frame_def role_tied_def facts_tied_def deeper_def)
          from pin_key_tied [OF this _ _ i live Some _ _ prior run'] lt2 le e True show ?thesis
            by (simp add: new_frame_def)
        qed
      qed
    qed
  qed
qed

lemma pin_lines_tied:
  "pin_lines before after prior rest st = Some (outs, st') \<Longrightarrow> rest = drop i ls \<Longrightarrow> scan_tied ls i st
   \<Longrightarrow> prior = (if i = 0 then None else Some (ls ! (i - 1)))
   \<Longrightarrow> length outs = length rest
     \<and> (\<forall>k < length rest. outs ! k = ls ! (i + k)
          \<or> owned_line before ls (i + k) \<and> repinned before after (ls ! (i + k)) (outs ! k))
     \<and> (replacements st' \<noteq> replacements st
          \<longrightarrow> (\<exists>k < length rest. owned_line before ls (i + k) \<and> repinned before after (ls ! (i + k)) (outs ! k)))"
proof (induction rest arbitrary: prior st outs i)
  case (Cons line rest)
  from Cons.prems(1) obtain out s os where l: "pin_line before after prior line st = Some (out, s)"
    and r: "pin_lines before after (Some line) rest s = Some (os, st')" and outs: "outs = out # os"
    by (auto split: option.splits)
  have i: "i < length ls" using Cons.prems(2) by (metis drop_all list.distinct(1) not_le)
  then have line: "line = ls ! i" "rest = drop (Suc i) ls"
    using Cons.prems(2) by (simp_all add: Cons_nth_drop_Suc [symmetric])
  note this_line = pin_line_tied [OF Cons.prems(3) i Cons.prems(4) l [unfolded line(1)]]
  have "Some line = (if Suc i = 0 then None else Some (ls ! (Suc i - 1)))" using line(1) by simp
  from Cons.IH [OF r line(2) conjunct1 [OF this_line] this] have len: "length os = length rest"
    and all: "\<And>k. k < length rest \<Longrightarrow> os ! k = ls ! (i + Suc k)
          \<or> owned_line before ls (i + Suc k) \<and> repinned before after (ls ! (i + Suc k)) (os ! k)"
    and some: "replacements st' \<noteq> replacements s
          \<Longrightarrow> \<exists>k < length rest. owned_line before ls (i + Suc k) \<and> repinned before after (ls ! (i + Suc k)) (os ! k)"
    by simp_all
  have here: "out = ls ! i \<and> replacements s = replacements st
      \<or> owned_line before ls i \<and> repinned before after (ls ! i) out" using this_line by blast
  show ?case
  proof (intro conjI allI impI)
    show "length outs = length (line # rest)" using len outs by simp
    fix k assume "k < length (line # rest)"
    then show "outs ! k = ls ! (i + k) \<or> owned_line before ls (i + k) \<and> repinned before after (ls ! (i + k)) (outs ! k)"
      using here all outs by (cases k) auto
  next
    assume change: "replacements st' \<noteq> replacements st"
    show "\<exists>k < length (line # rest). owned_line before ls (i + k) \<and> repinned before after (ls ! (i + k)) (outs ! k)"
    proof (cases "replacements st' = replacements s")
      case True
      with change here outs show ?thesis by (intro exI [of _ 0]) auto
    next
      case False
      from some [OF this] obtain k where "k < length rest"
        "owned_line before ls (i + Suc k) \<and> repinned before after (ls ! (i + Suc k)) (os ! k)" by blast
      with outs show ?thesis by (intro exI [of _ "Suc k"]) simp
    qed
  qed
qed auto

lemma repinned_length:
  assumes "repinned before after line out" and "length before = length after"
  shows "length out = length line"
proof -
  from assms(1) obtain m lead p tail where m: "mapping_of line = Some m"
    and s: "scalar_of (m_value m) = Some (lead, p @ before, tail)"
    and eq: "out = m_head m @ lead @ p @ after @ tail @ m_ending m" unfolding repinned_def by blast
  from mapping_of_parts [OF m] scalar_of_parts [OF s] eq assms(2) show ?thesis by simp
qed

text \<open>
  C23. An upgrade moves owned pins and nothing else. The expected file has the lines of the trusted one, each
  of them with the same bytes save for at least one. A line that differs is a mapping line whose token ended
  in the old commit, where exactly those 40 characters become the new commit, and the line owns the pin: it is
  the \<open>uses\<close> of a job or step that names a shared workflow of BoxFerry; or \<open>AUTOMATION_SHA\<close> in the environment
  of the file, a job or a step; or an input of a job or step whose \<open>uses\<close> is shared automation; or the \<open>ref\<close>,
  below its annotation, of a checkout step that names the BoxFerry repository.
\<close>

theorem ci_upgrade_only_pins:
  assumes "expected_ci_upgrade trusted before after = Some out"
  shows "\<exists>ls outs. ls = split_lines (utf8_chars trusted) \<and> concat ls = trusted
    \<and> concat outs = out \<and> length outs = length ls
    \<and> (\<forall>i < length ls. outs ! i = ls ! i
         \<or> owned_line before ls i \<and> repinned before after (ls ! i) (outs ! i))
    \<and> (\<exists>i < length ls. owned_line before ls i \<and> repinned before after (ls ! i) (outs ! i))
    \<and> length out = length trusted"
proof -
  let ?ls = "split_lines (utf8_chars trusted)"
  from assms obtain outs st where run: "pin_lines before after None ?ls no_mappings = Some (outs, st)"
    and st: "replacements st \<noteq> 0" and out: "out = concat outs" and sha: "is_sha before" "is_sha after"
    unfolding expected_ci_upgrade_def by (auto split: option.splits if_splits)
  have ls: "concat ?ls = trusted" by (simp add: concat_split_lines concat_utf8_chars)
  have "scan_tied ?ls 0 no_mappings" by (simp add: scan_tied_def no_mappings_def blocks_tied_def)
  from pin_lines_tied [OF run _ this] st
  have r: "length outs = length ?ls" "\<forall>i < length ?ls. outs ! i = ?ls ! i
         \<or> owned_line before ?ls i \<and> repinned before after (?ls ! i) (outs ! i)"
    "\<exists>i < length ?ls. owned_line before ?ls i \<and> repinned before after (?ls ! i) (outs ! i)"
    by (simp_all add: no_mappings_def)
  have "map length outs = map length ?ls"
    using r(1,2) repinned_length sha by (intro nth_equalityI) (auto simp: is_sha_def)
  then have "length (concat outs) = length (concat ?ls)" by (simp add: length_concat)
  with r ls out show ?thesis by (intro exI [of _ ?ls] exI [of _ outs]) simp
qed

definition sample_workflow :: "char \<Rightarrow> string" where
  "sample_workflow c = join [newline]
     [''jobs:'', ''  ci:'',
      ''    uses: Strukturpiloten/boxferry/.github/workflows/shared-ci.yml@'' @ replicate 40 c @ '' # pin'',
      ''    with:'', ''      automation_sha: '' @ [CHR 0x22] @ replicate 40 c @ [CHR 0x22], [] ]"

theorem ci_upgrade_only_pins_witness:
  "expected_ci_upgrade (sample_workflow CHR ''a'') (replicate 40 CHR ''a'') (replicate 40 CHR ''b'')
     = Some (sample_workflow CHR ''b'')
   \<and> (\<exists>ls i. concat ls = sample_workflow CHR ''a'' \<and> owned_line (replicate 40 CHR ''a'') ls i)"
proof -
  have run: "expected_ci_upgrade (sample_workflow CHR ''a'') (replicate 40 CHR ''a'') (replicate 40 CHR ''b'')
     = Some (sample_workflow CHR ''b'')"
    by code_simp
  from ci_upgrade_only_pins [OF run] run show ?thesis by blast
qed

text \<open>The same bytes in the step of another action, or in a block scalar, are nobody's pin: the file is refused.\<close>

definition foreign_workflow :: string where
  "foreign_workflow = join [newline]
     [''jobs:'', ''  ci:'', ''    uses: other/repository/.github/workflows/shared-ci.yml@v1'',
      ''    with:'', ''      automation_sha: '' @ replicate 40 CHR ''a'',
      ''  run:'', ''    steps:'', ''      - run: |'',
      ''          AUTOMATION_SHA: '' @ replicate 40 CHR ''a'', [] ]"

lemma foreign_workflow_refused:
  "expected_ci_upgrade foreign_workflow (replicate 40 CHR ''a'') (replicate 40 CHR ''b'') = None"
  by code_simp

end
