(* ===== verification/Runners.thy ===== *)
theory Runners
  imports PinUpgrade
begin

text \<open>
  The hosted-runner reader of \<open>operational.py\<close> and \<open>hosted_runner_only_change\<close> of \<open>eligibility.py\<close>: which
  runner selectors a workflow file owns, and when a change of the file changes only those. The
  open mappings are a stack with the innermost first. SHA-256 of a selector that is not literal is
  a parameter.
\<close>

section \<open>Lines and selectors\<close>

text \<open>The line without its terminator, and its leading spaces.\<close>

definition line_body :: "string \<Rightarrow> string" where
  "line_body line = concat (takeWhile (\<lambda>u. \<not> line_end u) (utf8_chars line))"

definition spaces :: "string \<Rightarrow> nat" where
  "spaces s = length (takeWhile (\<lambda>c. c = CHR '' '') s)"

text \<open>\<open>_yaml_content\<close>: the line up to its comment, and the quote still open at its end.\<close>

fun yaml_content :: "char option \<Rightarrow> char option \<Rightarrow> string \<Rightarrow> string \<times> char option" where
  "yaml_content prior quot [] = ([], quot)"
| "yaml_content prior quot [c] =
     (if quot = None \<and> c = CHR ''#'' then ([], None)
      else ([c], if c \<in> {CHR 0x27, CHR 0x22} then
                   if quot = None \<and> (case prior of None \<Rightarrow> True | Some p \<Rightarrow> p \<in> set '' [{:,'' \<or> p = tab) then Some c
                   else if quot = Some c then None else quot
                 else quot))"
| "yaml_content prior quot (c # d # s) =
     (if (quot = Some CHR 0x22 \<and> c = backslash) \<or> (quot = Some CHR 0x27 \<and> c = CHR 0x27 \<and> d = CHR 0x27)
      then (case yaml_content (Some d) quot s of (content, q) \<Rightarrow> (c # d # content, q))
      else if quot = None \<and> c = CHR ''#'' then ([], None)
      else (case yaml_content (Some c)
             (if c \<in> {CHR 0x27, CHR 0x22} then
                if quot = None \<and> (case prior of None \<Rightarrow> True | Some p \<Rightarrow> p \<in> set '' [{:,'' \<or> p = tab) then Some c
                else if quot = Some c then None else quot
              else quot) (d # s) of (content, q) \<Rightarrow> (c # content, q)))"

text \<open>\<open>SELECTOR\<close>: a hosted runner by system, version and variants.\<close>

definition numeral_word :: "string \<Rightarrow> bool" where
  "numeral_word s = (s \<noteq> [] \<and> list_all is_digit s)"

definition version_word :: "string \<Rightarrow> bool" where
  "version_word s = (case split_on CHR ''.'' s of
     [a] \<Rightarrow> numeral_word a | [a, b] \<Rightarrow> numeral_word a \<and> numeral_word b | _ \<Rightarrow> False)"

definition selector :: "string \<Rightarrow> bool" where
  "selector s = (case split_on CHR ''-'' s of
     os # ver # variants \<Rightarrow> os \<in> {''ubuntu'', ''macos'', ''windows''} \<and> version_word ver
       \<and> list_all (\<lambda>v. v \<noteq> [] \<and> list_all (\<lambda>c. is_lower c \<or> is_digit c) v) variants
   | _ \<Rightarrow> False)"

definition family :: "string \<Rightarrow> string" where
  "family name = hd (split_on CHR ''-'' name)"

definition contains :: "string \<Rightarrow> string \<Rightarrow> bool" where
  "contains s p = list_ex (\<lambda>k. startswith (drop k s) p) [0..<Suc (length s)]"

section \<open>The reader\<close>

record pin =
  pin_kind :: string
  pin_source :: string
  pin_name :: string
  pin_digest :: string
  pin_version :: string
  pin_path :: string
  pin_row :: nat

definition runner_pin :: "string \<Rightarrow> string \<Rightarrow> nat \<Rightarrow> pin" where
  "runner_pin name path number = \<lparr>pin_kind = ''runner'', pin_source = ''github-hosted'', pin_name = name,
     pin_digest = [], pin_version = name, pin_path = path, pin_row = number\<rparr>"

definition unsupported_pin :: "string \<Rightarrow> string \<Rightarrow> nat \<Rightarrow> pin" where
  "unsupported_pin digest path number = \<lparr>pin_kind = ''unsupported-runner'', pin_source = ''github-hosted'',
     pin_name = ''nonliteral selector'', pin_digest = digest, pin_version = [], pin_path = path,
     pin_row = number\<rparr>"

record runner_state =
  r_result :: "pin list"
  r_stack :: "(nat \<times> string) list"
  r_block :: "nat option"
  r_quote :: "char option"
  r_list :: "nat option"
  r_previous :: string

text \<open>An entry of a marked runner list: \<open>\s*-\s+([^\s]+)\s*\<close>.\<close>

definition list_entry :: "string \<Rightarrow> string option" where
  "list_entry content =
     (case dropWhile is_space (utf8_chars content) of
       d # r \<Rightarrow>
         (let gap = takeWhile is_space r; body = dropWhile is_space r;
              token = takeWhile (\<lambda>u. \<not> is_space u) body
          in if d = ''-'' \<and> gap \<noteq> [] \<and> token \<noteq> [] \<and> list_all is_space (drop (length token) body)
             then Some (concat token) else None)
     | [] \<Rightarrow> None)"

text \<open>\<open> *(?P<sequence>- +)?(?P<key>[A-Za-z0-9_.-]+):(?P<value>.*)\<close>: sequence, key and value.\<close>

definition runner_key :: "string \<Rightarrow> (bool \<times> string \<times> string) option" where
  "runner_key content =
     (let rest = dropWhile (\<lambda>c. c = CHR '' '') content;
          sequence = startswith rest ''- '';
          body = (if sequence then dropWhile (\<lambda>c. c = CHR '' '') (tl rest) else rest);
          key = takeWhile (\<lambda>c. is_alnum c \<or> c \<in> set ''_.-'') body;
          after = drop (length key) body
      in if key \<noteq> [] \<and> startswith after '':'' then Some (sequence, key, tl after) else None)"

text \<open>What \<open>runs-on\<close> of a job or of a matrix entry adds.\<close>

definition runs_on_pins :: "(string \<Rightarrow> string) \<Rightarrow> string \<Rightarrow> string \<Rightarrow> nat \<Rightarrow> pin list" where
  "runs_on_pins sha256 path v number =
     (if selector v then [runner_pin v path number]
      else if v \<in> {''${{ matrix.runner }}'', ''${{ matrix.runs-on }}''} \<or> contains v ''self-hosted'' then []
      else if startswith v ''${{'' \<or> (v \<noteq> [] \<and> hd v \<in> set ''[*&!'' \<union> {CHR 0x27, CHR 0x22})
      then [unsupported_pin (sha256 v) path number]
      else [])"

definition owns_runner :: "string list \<Rightarrow> bool" where
  "owns_runner ancestors =
     ((length ancestors = 2 \<or> (5 \<le> length ancestors \<and> take 3 ancestors = [''include'', ''matrix'', ''strategy'']))
      \<and> last ancestors = ''jobs'')"

definition in_matrix :: "string list \<Rightarrow> bool" where
  "in_matrix ancestors = (take 2 ancestors = [''matrix'', ''strategy''])"

text \<open>One mapping key at its level.\<close>

definition runner_mapping ::
  "(string \<Rightarrow> string) \<Rightarrow> string \<Rightarrow> nat \<Rightarrow> string \<Rightarrow> nat \<Rightarrow> string \<Rightarrow> string \<Rightarrow> runner_state \<Rightarrow> runner_state res" where
  "runner_mapping sha256 path number raw level key v st =
     (let stack = dropWhile (\<lambda>(l, k). level \<le> l) (r_stack st); ancestors = map snd stack in
      if key = ''jobs'' \<and> startswith v ''{''
      then Inl (OperationalError ''owned runner grammar requires block job mappings'' [])
      else if key = ''include'' \<and> in_matrix ancestors \<and> (startswith v ''['' \<or> startswith v ''{'')
      then Inl (OperationalError ''owned runner grammar requires block matrix entries'' [])
      else if key = ''runner'' \<and> in_matrix ancestors
              \<and> (r_previous st \<noteq> ''# renovate: datasource=github-runners'' \<or> v \<noteq> [])
      then Inl (OperationalError ''runner matrix needs its marker and literal block list'' [])
      else Inr (st\<lparr>
        r_result := r_result st @
          (if key = ''runs-on'' \<and> owns_runner ancestors then runs_on_pins sha256 path v number else []),
        r_block := (if startswith v ''|'' \<or> startswith v ''>'' then Some level else r_block st),
        r_list := (if key = ''runner'' \<and> in_matrix ancestors then Some level else r_list st),
        r_stack := (level, key) # stack,
        r_previous := py_strip raw\<rparr>))"

definition runner_content ::
  "(string \<Rightarrow> string) \<Rightarrow> string \<Rightarrow> nat \<Rightarrow> string \<Rightarrow> string \<Rightarrow> runner_state \<Rightarrow> runner_state res" where
  "runner_content sha256 path number raw content st =
     (if py_strip content = [] then Inr (st\<lparr>r_previous := py_strip raw\<rparr>)
      else if [tab] \<in> set (takeWhile is_space (utf8_chars raw))
      then Inl (OperationalError ''owned runner grammar requires space indentation'' [])
      else if (case r_list st of None \<Rightarrow> False | Some l \<Rightarrow> l < spaces raw)
      then (case list_entry content of
          Some name \<Rightarrow>
            if selector name then Inr (st\<lparr>r_result := r_result st @ [runner_pin name path number]\<rparr>)
            else Inl (OperationalError ''marked runner matrix requires literal hosted selectors'' [])
        | None \<Rightarrow> Inl (OperationalError ''marked runner matrix requires literal hosted selectors'' []))
      else
        let st = st\<lparr>r_list := None\<rparr> in
        case runner_key content of
          None \<Rightarrow> Inr (st\<lparr>r_previous := py_strip raw\<rparr>)
        | Some (sequence, key, v) \<Rightarrow>
            runner_mapping sha256 path number raw (spaces raw + (if sequence then 2 else 0)) key (py_strip v) st)"

definition runner_line ::
  "(string \<Rightarrow> string) \<Rightarrow> string \<Rightarrow> nat \<Rightarrow> string \<Rightarrow> runner_state \<Rightarrow> runner_state res" where
  "runner_line sha256 path number raw st =
     (if (case r_block st of None \<Rightarrow> False | Some b \<Rightarrow> py_strip raw = [] \<or> b < spaces raw) then Inr st
      else (case yaml_content None (r_quote st) raw of (content, q) \<Rightarrow>
        let continued = r_quote st \<noteq> None; st = st\<lparr>r_block := None, r_quote := q\<rparr>
        in if continued then Inr st else runner_content sha256 path number raw content st))"

fun runner_lines ::
  "(string \<Rightarrow> string) \<Rightarrow> string \<Rightarrow> nat \<Rightarrow> string list \<Rightarrow> runner_state \<Rightarrow> pin list res" where
  "runner_lines sha256 path number [] st = Inr (r_result st)"
| "runner_lines sha256 path number (raw # raws) st =
     bindR (runner_line sha256 path number raw st) (runner_lines sha256 path (Suc number) raws)"

definition no_runners :: runner_state where
  "no_runners = \<lparr>r_result = [], r_stack = [], r_block = None, r_quote = None, r_list = None, r_previous = []\<rparr>"

definition runners :: "(string \<Rightarrow> string) \<Rightarrow> string \<Rightarrow> string \<Rightarrow> pin list res" where
  "runners sha256 path source =
     runner_lines sha256 path 1 (map line_body (split_lines (utf8_chars source))) no_runners"

section \<open>A change of runners only\<close>

definition workflow_path :: "string \<Rightarrow> bool" where
  "workflow_path path =
     (let name = drop (length ''.github/workflows/'') path in
      startswith path ''.github/workflows/''
      \<and> list_all (\<lambda>c. is_alnum c \<or> c \<in> set ''_.-'') name
      \<and> ((endswith name ''.yml'' \<and> 4 < length name) \<or> (endswith name ''.yaml'' \<and> 5 < length name)))"

text \<open>The literal pattern: what precedes the runner, the runner, what follows.\<close>

definition line_rest :: "string \<Rightarrow> bool" where
  "line_rest s =
     (let r = dropWhile blank s in
      r \<in> {[], [newline], [carriage, newline]}
      \<or> (startswith r ''#'' \<and> dropWhile (\<lambda>c. c \<noteq> carriage \<and> c \<noteq> newline) r \<in> {[], [newline], [carriage, newline]}))"

definition literal_runner :: "string \<Rightarrow> (string \<times> string \<times> string) option" where
  "literal_runner line =
     (let rest = dropWhile (\<lambda>c. c = CHR '' '') line;
          dash = startswith rest ''- '';
          entry = (if dash then dropWhile (\<lambda>c. c = CHR '' '') (tl rest) else rest);
          keyed = startswith entry ''runs-on:'';
          body = (if keyed then dropWhile blank (drop (length ''runs-on:'') entry) else entry);
          runner = takeWhile (\<lambda>c. is_lower c \<or> is_digit c \<or> c \<in> set ''.-'') body;
          tail = drop (length runner) body
      in if (dash \<or> keyed) \<and> selector runner \<and> line_rest tail
         then Some (take (length line - length body) line, runner, tail) else None)"

definition plain_runners :: "pin list \<Rightarrow> bool" where
  "plain_runners pins = (list_all (\<lambda>p. pin_kind p = ''runner'' \<and> pin_source p = ''github-hosted'') pins
     \<and> distinct (map pin_row pins))"

text \<open>The lines with each runner replaced, and whether one changed; nothing at the first mismatch.\<close>

fun move_runners ::
  "string list \<Rightarrow> string list \<Rightarrow> (pin \<times> pin) list \<Rightarrow> string list \<Rightarrow> bool \<Rightarrow> (string list \<times> bool) option" where
  "move_runners old_lines new_lines [] expected changed = Some (expected, changed)"
| "move_runners old_lines new_lines ((p, c) # pairs) expected changed =
     (if pin_row p \<noteq> pin_row c \<or> family (pin_name p) \<noteq> family (pin_name c) then None
      else (case (literal_runner (old_lines ! (pin_row p - 1)), literal_runner (new_lines ! (pin_row c - 1))) of
        (Some (lead, left, tail), Some (lead', right, tail')) \<Rightarrow>
          if left \<noteq> pin_name p \<or> right \<noteq> pin_name c then None
          else move_runners old_lines new_lines pairs
            (expected[pin_row p - 1 := lead @ pin_name c @ tail]) (changed \<or> pin_name p \<noteq> pin_name c)
      | _ \<Rightarrow> None))"

definition hosted_runner_only_change :: "(string \<Rightarrow> string) \<Rightarrow> string \<Rightarrow> string \<Rightarrow> string \<Rightarrow> bool" where
  "hosted_runner_only_change sha256 trusted proposed path =
     (if trusted = proposed \<or> 2 * 1024 * 1024 < max (length trusted) (length proposed)
         \<or> \<not> workflow_path path \<or> nul \<in> set trusted \<or> nul \<in> set proposed
         \<or> \<not> utf8_ok (map ord trusted) \<or> \<not> utf8_ok (map ord proposed) then False
      else (case (runners sha256 path trusted, runners sha256 path proposed) of
        (Inr old, Inr new) \<Rightarrow>
          (let old_lines = split_lines (utf8_chars trusted); new_lines = split_lines (utf8_chars proposed) in
           if old = [] \<or> length old \<noteq> length new \<or> length old_lines \<noteq> length new_lines then False
           else if \<not> plain_runners old \<or> \<not> plain_runners new then False
           else if map pin_name old \<noteq> map pin_name new \<and> sort (map pin_name old) = sort (map pin_name new) then False
           else (case move_runners old_lines new_lines (zip old new) old_lines False of
             None \<Rightarrow> False
           | Some (expected, changed) \<Rightarrow> changed \<and> concat expected = proposed))
      | _ \<Rightarrow> False))"

section \<open>Only runner tokens move\<close>

lemma takeWhile_append_drop: "takeWhile P s @ drop (length (takeWhile P s)) s = s"
  by (metis append_eq_conv_conj takeWhile_dropWhile_id)

lemma suffix_split: "suffix body line \<Longrightarrow> take (length line - length body) line @ body = line"
  by (auto simp: suffix_def)

lemma literal_runner_parts:
  assumes "literal_runner line = Some (lead, runner, tail)"
  shows "line = lead @ runner @ tail \<and> selector runner"
proof -
  define rest where "rest = dropWhile (\<lambda>c. c = CHR '' '') line"
  define entry where "entry = (if startswith rest ''- '' then dropWhile (\<lambda>c. c = CHR '' '') (tl rest) else rest)"
  define body where "body = (if startswith entry ''runs-on:'' then dropWhile blank (drop (length ''runs-on:'') entry) else entry)"
  have r: "runner = takeWhile (\<lambda>c. is_lower c \<or> is_digit c \<or> c \<in> set ''.-'') body" "selector runner"
    "lead = take (length line - length body) line" "tail = drop (length runner) body"
    using assms unfolding literal_runner_def Let_def rest_def entry_def body_def by (auto split: if_splits)
  have "suffix rest line" unfolding rest_def by (rule suffix_dropWhile)
  moreover have "suffix entry rest" unfolding entry_def
    by (simp add: suffix_order.trans [OF suffix_dropWhile suffix_tl])
  moreover have "suffix body entry" unfolding body_def
    by (simp add: suffix_order.trans [OF suffix_dropWhile suffix_drop])
  ultimately have "suffix body line" by (meson suffix_order.trans)
  from suffix_split [OF this] have "line = lead @ body" unfolding r(3) by (rule sym)
  moreover have "runner @ tail = body"
    unfolding r(4) by (subst r(1), subst r(1)) (simp only: takeWhile_append_drop)
  ultimately show ?thesis using r(2) by simp
qed

text \<open>A line stays, or its owned runner became another of the same system.\<close>

definition runner_moved :: "pin list \<Rightarrow> nat \<Rightarrow> string \<Rightarrow> string \<Rightarrow> bool" where
  "runner_moved old i line new \<longleftrightarrow> new = line \<or> (\<exists>p \<in> set old. \<exists>lead name tail. pin_row p - 1 = i
     \<and> line = lead @ pin_name p @ tail \<and> new = lead @ name @ tail
     \<and> selector (pin_name p) \<and> selector name \<and> family name = family (pin_name p))"

lemma move_runners_lines:
  assumes "move_runners old_lines new_lines pairs expected changed = Some (final, changed')"
    and "length expected = length old_lines"
    and "\<forall>i < length old_lines. runner_moved old i (old_lines ! i) (expected ! i)"
    and "fst ` set pairs \<subseteq> set old"
  shows "length final = length old_lines \<and> (\<forall>i < length old_lines. runner_moved old i (old_lines ! i) (final ! i))"
  using assms
proof (induction pairs arbitrary: expected changed)
  case (Cons pair pairs)
  obtain p c where pc: "pair = (p, c)" by (cases pair)
  from Cons.prems(1) obtain lead left tail lead' right tail' where
    l: "literal_runner (old_lines ! (pin_row p - 1)) = Some (lead, left, tail)"
    and r: "literal_runner (new_lines ! (pin_row c - 1)) = Some (lead', right, tail')"
    and names: "left = pin_name p" "right = pin_name c" "family (pin_name p) = family (pin_name c)"
    and rest: "move_runners old_lines new_lines pairs (expected[pin_row p - 1 := lead @ pin_name c @ tail])
       (changed \<or> pin_name p \<noteq> pin_name c) = Some (final, changed')"
    by (auto simp: pc split: if_splits option.splits)
  have "runner_moved old (pin_row p - 1) (old_lines ! (pin_row p - 1)) (lead @ pin_name c @ tail)"
    unfolding runner_moved_def
    using literal_runner_parts [OF l] literal_runner_parts [OF r] names Cons.prems(4) pc by fastforce
  then have "\<forall>i < length old_lines. runner_moved old i (old_lines ! i) (expected[pin_row p - 1 := lead @ pin_name c @ tail] ! i)"
    using Cons.prems(2,3) by (cases "pin_row p - 1 < length expected") (auto simp: nth_list_update list_update_beyond)
  with Cons.IH [OF rest] Cons.prems(2,4) show ?case by simp
qed simp

text \<open>
  C24. A runner-only change changes runners only. When it is accepted, both versions have the same
  number of lines, and each line is the same byte for byte or differs in one token: a literal
  hosted runner that the trusted file owns on that line became another literal runner of the same
  system; and at least one did.
\<close>

theorem hosted_runner_change_only_runners:
  assumes "hosted_runner_only_change sha256 trusted proposed path"
  shows "\<exists>old old_lines new_lines. runners sha256 path trusted = Inr old
    \<and> concat old_lines = trusted \<and> concat new_lines = proposed \<and> length new_lines = length old_lines
    \<and> (\<forall>i < length old_lines. runner_moved old i (old_lines ! i) (new_lines ! i))
    \<and> old_lines \<noteq> new_lines"
proof -
  let ?ls = "split_lines (utf8_chars trusted)"
  from assms obtain old new expected changed where o: "runners sha256 path trusted = Inr old"
    and m: "move_runners ?ls (split_lines (utf8_chars proposed)) (zip old new) ?ls False = Some (expected, changed)"
    and e: "concat expected = proposed" and ne: "trusted \<noteq> proposed"
    unfolding hosted_runner_only_change_def Let_def by (auto split: if_splits sum.splits option.splits)
  have t: "concat ?ls = trusted" by (simp add: concat_split_lines concat_utf8_chars)
  have "fst ` set (zip old new) \<subseteq> set old" by (auto dest: set_zip_leftD)
  moreover have "\<forall>i < length ?ls. runner_moved old i (?ls ! i) (?ls ! i)" by (simp add: runner_moved_def)
  ultimately have lines: "length expected = length ?ls"
    "\<forall>i < length ?ls. runner_moved old i (?ls ! i) (expected ! i)"
    using move_runners_lines [OF m] by simp_all
  have "?ls \<noteq> expected" using t e ne by metis
  with o e t lines show ?thesis by (intro exI [of _ old] exI [of _ ?ls] exI [of _ expected]) simp
qed

definition sample_ci :: "string \<Rightarrow> string" where
  "sample_ci runner = join [newline] [''jobs:'', ''  test:'', ''    runs-on: '' @ runner @ '' # x'', []]"

theorem hosted_runner_change_only_runners_witness:
  "hosted_runner_only_change (\<lambda>s. s) (sample_ci ''ubuntu-24.04'') (sample_ci ''ubuntu-26.04-arm'')
     ''.github/workflows/ci.yml''
   \<and> (\<exists>old. runners (\<lambda>s. s) ''.github/workflows/ci.yml'' (sample_ci ''ubuntu-24.04'') = Inr old)"
proof -
  have run: "hosted_runner_only_change (\<lambda>s. s) (sample_ci ''ubuntu-24.04'') (sample_ci ''ubuntu-26.04-arm'')
     ''.github/workflows/ci.yml''" by code_simp
  from hosted_runner_change_only_runners [OF run] run show ?thesis by blast
qed

end
