(* ===== verification/Retry.thy ===== *)
theory Retry
  imports EligState Admission Runners
begin

text \<open>
  The one retry of \<open>eligibility.py\<close>: reading a file at a commit, which change of the workflow a
  candidate may bring, and \<open>rerun_ready\<close>, which reruns the failed jobs of a candidate once its age
  check can pass. The ledger of retries is an argument; the entry the retry adds is an event.
\<close>

section \<open>Files at a commit\<close>

text \<open>
  \<open>base64.b64decode(s, validate=True)\<close>: quadruples of the alphabet, the last one possibly padded.
\<close>

definition sextet :: "char \<Rightarrow> nat option" where
  "sextet c =
     (if is_upper c then Some (ord c - 65)
      else if is_lower c then Some (ord c - 71)
      else if is_digit c then Some (ord c + 4)
      else if c = CHR ''+'' then Some 62
      else if c = CHR ''/'' then Some 63 else None)"

definition packed :: "nat \<Rightarrow> nat \<Rightarrow> nat \<Rightarrow> nat \<Rightarrow> nat" where
  "packed x y z u = ((x * 64 + y) * 64 + z) * 64 + u"

definition byte_of :: "nat \<Rightarrow> nat \<Rightarrow> char" where
  "byte_of n place = char_of (n div place mod 256)"

fun b64_decode :: "string \<Rightarrow> string option" where
  "b64_decode [] = Some []"
| "b64_decode (a # b # c # d # s) =
     (case (sextet a, sextet b) of
       (Some x, Some y) \<Rightarrow>
         (if c = CHR ''='' \<and> d = CHR ''='' \<and> s = [] then Some [byte_of (packed x y 0 0) 65536]
          else (case sextet c of
            None \<Rightarrow> None
          | Some z \<Rightarrow>
              if d = CHR ''='' \<and> s = []
              then Some [byte_of (packed x y z 0) 65536, byte_of (packed x y z 0) 256]
              else (case (sextet d, b64_decode s) of
                (Some u, Some r) \<Rightarrow>
                  Some (byte_of (packed x y z u) 65536 # byte_of (packed x y z u) 256
                        # byte_of (packed x y z u) 1 # r)
              | _ \<Rightarrow> None)))
     | _ \<Rightarrow> None)"
| "b64_decode _ = None"

text \<open>\<open>"".join(v.split())\<close>.\<close>

definition unspaced :: "json \<Rightarrow> string res" where
  "unspaced v = (case v of
     JStr s \<Rightarrow> Inr (concat (filter (\<lambda>u. \<not> is_space u) (utf8_chars s)))
   | _ \<Rightarrow> Inl AttributeError)"

definition file_content :: "dict \<Rightarrow> string res" where
  "file_content v =
     (let irregular = EligibilityError ''candidate metadata file is not a bounded regular file'' [] in
      if dget v ''type'' \<noteq> JStr ''file'' then Inl irregular
      else
      bindR (json_gt (dget_or v ''size'' (JInt (MAX_FILE_BYTES + 1))) MAX_FILE_BYTES) (\<lambda>large.
      if large then Inl irregular
      else if dget v ''encoding'' \<noteq> JStr ''base64''
      then Inl (EligibilityError ''candidate metadata file has no complete bounded inline content'' [])
      else
      bindR (unspaced (dget_or v ''content'' (JStr []))) (\<lambda>s.
      case b64_decode s of
        None \<Rightarrow> Inl (EligibilityError ''candidate metadata file content is malformed'' [])
      | Some data \<Rightarrow>
          if \<not> py_eq (JInt (int (length data))) (dget v ''size'')
          then Inl (EligibilityError ''candidate metadata file size does not match its content'' [])
          else Inr data)))"

definition file_bytes :: "string \<Rightarrow> string \<Rightarrow> string option api" where
  "file_bytes path head =
     bindI (catchI (bindI (get (''contents/'' @ quote ''/'' path @ ''?ref='' @ head)) (\<lambda>v. retI (Some v)))
       (\<lambda>e. case e of MissingResource _ \<Rightarrow> retI None | _ \<Rightarrow> raiseI e)) (\<lambda>r. case r of
       None \<Rightarrow> retI None
     | Some v \<Rightarrow> bindI (liftI (file_content v)) (\<lambda>data. retI (Some data)))"

section \<open>A published upgrade of the automation\<close>

definition shared_default_tip :: "(string \<times> string) api" where
  "shared_default_tip =
     bindI (request ''GET'' ''/repos/Strukturpiloten/boxferry'' None) (\<lambda>repository.
     let branch = (if is_obj repository then dget (dict_of repository) ''default_branch'' else JNull) in
     if \<not> is_str branch \<or> str_of branch = [] \<or> has_line_break (str_of branch)
     then raiseI (EligibilityError ''canonical shared repository has no valid default branch'' [])
     else
     bindI (request ''GET'' (''/repos/Strukturpiloten/boxferry/git/ref/heads/'' @ quote [] (str_of branch)) None)
       (\<lambda>v.
     let target = (if is_obj v then dget (dict_of v) ''object'' else JNull) in
     if \<not> is_obj v \<or> dget (dict_of v) ''ref'' \<noteq> JStr (''refs/heads/'' @ str_of branch) \<or> \<not> is_obj target
        \<or> dget (dict_of target) ''type'' \<noteq> JStr ''commit''
     then raiseI (EligibilityError ''canonical shared default ref is not a commit'' [])
     else bindI (liftI (revision (dget (dict_of target) ''sha''))) (\<lambda>tip. retI (str_of branch, tip))))"

definition renovate :: "candidate \<Rightarrow> bool" where
  "renovate c = (actor_login c = ''renovate[bot]'' \<and> actor_type c = ''Bot'')"

text \<open>\<open>except (AdmissionError, EligibilityError): return False\<close>.\<close>

definition or_refused :: "bool api \<Rightarrow> bool api" where
  "or_refused m = catchI m (\<lambda>e.
     if is_EligibilityError e \<or> (case e of AdmissionError _ _ \<Rightarrow> True | _ \<Rightarrow> False) then retI False else raiseI e)"

definition parse_manifest_io :: "string \<Rightarrow> (string \<times> string) api" where
  "parse_manifest_io content = bindI (askI json_objects) (\<lambda>loads. liftI (parse_manifest loads content))"

definition upgrade_published :: "string \<Rightarrow> string \<Rightarrow> string \<Rightarrow> string \<Rightarrow> bool api" where
  "upgrade_published before latter trusted proposed =
     bindI shared_default_tip (\<lambda>tip.
     bindI (source_ancestor before latter) (\<lambda>a.
     bindI (if a then source_ancestor latter (snd tip) else retI False) (\<lambda>b.
     if \<not> b then retI False
     else if expected_ci_upgrade trusted before latter \<noteq> Some proposed then retI False
     else bindI shared_default_tip (\<lambda>again. retI (again = tip)))))"

text \<open>The policy bytes of base and head are present and equal.\<close>

definition same_policy :: "candidate \<Rightarrow> string \<Rightarrow> bool api" where
  "same_policy c policy =
     bindI (file_bytes policy (cand_base c)) (\<lambda>before.
     bindI (file_bytes policy (cand_head c)) (\<lambda>latter.
     retI (before \<noteq> None \<and> latter = before)))"

definition retry_ci_upgrade :: "candidate \<Rightarrow> string \<Rightarrow> string \<Rightarrow> string \<Rightarrow> bool api" where
  "retry_ci_upgrade c trusted proposed implementation =
     (if \<not> renovate c then retI False
      else or_refused (
        bindI (file_bytes ''.github/automation.json'' (cand_base c)) (\<lambda>before_manifest.
        bindI (file_bytes ''.github/automation.json'' (cand_head c)) (\<lambda>after_manifest.
        case (before_manifest, after_manifest) of
          (Some b, Some a) \<Rightarrow>
            bindI (parse_manifest_io b) (\<lambda>(before, policy).
            bindI (parse_manifest_io a) (\<lambda>(latter, after_policy).
            if before \<noteq> implementation \<or> before = latter \<or> policy \<noteq> after_policy then retI False
            else
            bindI (getI api_repository) (\<lambda>repository.
            bindI (file_bytes (workflow_file repository) (cand_base c)) (\<lambda>baseline.
            if baseline \<noteq> Some trusted then retI False
            else
            bindI (same_policy c policy) (\<lambda>same.
            if \<not> same then retI False else upgrade_published before latter trusted proposed)))))
        | _ \<Rightarrow> retI False))))"

definition retry_hosted_runner_upgrade :: "candidate \<Rightarrow> string \<Rightarrow> string \<Rightarrow> string \<Rightarrow> bool api" where
  "retry_hosted_runner_upgrade c trusted proposed implementation =
     (if \<not> renovate c then retI False
      else or_refused (
        bindI (file_bytes ''.github/automation.json'' (cand_base c)) (\<lambda>before.
        bindI (file_bytes ''.github/automation.json'' (cand_head c)) (\<lambda>latter.
        case before of
          None \<Rightarrow> retI False
        | Some manifest \<Rightarrow>
            if latter \<noteq> before then retI False
            else
            bindI (parse_manifest_io manifest) (\<lambda>(selected, policy).
            bindI (liftI (revision (JStr implementation))) (\<lambda>known.
            if selected \<noteq> known then retI False
            else
            bindI (getI api_repository) (\<lambda>repository.
            let path = workflow_file repository in
            bindI (file_bytes path (cand_base c)) (\<lambda>baseline.
            if baseline \<noteq> Some trusted then retI False
            else
            bindI (file_bytes policy (cand_base c)) (\<lambda>policy_before.
            if policy_before = None then retI False
            else
            bindI (file_bytes policy (cand_head c)) (\<lambda>policy_after.
            if policy_after \<noteq> policy_before then retI False
            else
            bindI (askI sha256_hex) (\<lambda>sha256.
            retI (hosted_runner_only_change sha256 trusted proposed path))))))))))))"

section \<open>The rerun\<close>

text \<open>\<open>len(v) == 1\<close> and \<open>v[0]\<close>: nothing unless there is exactly one item.\<close>

fun single_item :: "json \<Rightarrow> json option res" where
  "single_item (JList xs) = Inr (if length xs = 1 then Some (hd xs) else None)"
| "single_item (JStr s) = Inr (if py_len s = 1 then Some (JStr s) else None)"
| "single_item (JObj d) = (if length d = 1 then Inl (KeyError ''0'') else Inr None)"
| "single_item _ = Inl TypeError"

text \<open>The run names the pull request, its head and its base.\<close>

definition bound_pull :: "candidate \<Rightarrow> dict \<Rightarrow> bool res" where
  "bound_pull c run =
     bindR (single_item (dget_or run ''pull_requests'' (JList []))) (\<lambda>pull. case pull of
       None \<Rightarrow> Inr False
     | Some pull \<Rightarrow>
         bindR (attr_get pull ''number'') (\<lambda>number.
         if \<not> py_eq number (JInt (cand_number c)) then Inr False
         else
         bindR (attr_get (dget_or (dict_of pull) ''head'' (JObj [])) ''sha'') (\<lambda>head.
         if head \<noteq> JStr (source_head c) then Inr False
         else
         bindR (attr_get (dget_or (dict_of pull) ''base'' (JObj [])) ''sha'') (\<lambda>base.
         Inr (base = JStr (cand_base c))))))"

definition run_head :: "candidate \<Rightarrow> string" where
  "run_head c = (if cand_scope c = ''merge_group'' then cand_head c else source_head c)"

definition selected_run :: "string \<Rightarrow> candidate \<Rightarrow> json \<Rightarrow> bool res" where
  "selected_run repository c run =
     (if \<not> is_obj run then Inl AttributeError
      else
      bindR (candidate_run repository (dict_of run) (run_head c)) (\<lambda>ok.
      if \<not> ok then Inr False
      else if cand_scope c = ''pull_request'' then bound_pull c (dict_of run) else Inr True))"

definition age_names :: "string list" where
  "age_names = [''Lockfile release age'', ''Dependency eligibility'', ''lockfile-release-age'',
     ''Dependency eligibility / Dependency eligibility'']"

text \<open>The jobs of the run: whether an age job failed, or nothing if another one did or is not done.\<close>

fun age_failed :: "json list \<Rightarrow> bool \<Rightarrow> bool option res" where
  "age_failed [] failed = Inr (Some failed)"
| "age_failed (job # jobs) failed =
     (if \<not> is_obj job then Inl AttributeError
      else let d = dict_of job; conclusion = dget d ''conclusion'' in
      if dget d ''status'' \<noteq> JStr ''completed'' then Inr None
      else
      bindR (in_strings conclusion [''success'', ''skipped'', ''failure'']) (\<lambda>done.
      if \<not> done then Inr None
      else if conclusion \<noteq> JStr ''failure'' then age_failed jobs failed
      else if dget_or d ''name'' (JStr []) \<in> JStr ` set age_names then age_failed jobs True
      else if dget_or d ''name'' (JStr []) \<noteq> JStr ''Required CI'' then Inr None
      else age_failed jobs failed))"

text \<open>\<open>len(v)\<close>.\<close>

fun json_len :: "json \<Rightarrow> nat res" where
  "json_len (JList xs) = Inr (length xs)"
| "json_len (JStr s) = Inr (py_len s)"
| "json_len (JObj d) = Inr (length d)"
| "json_len _ = Inl TypeError"

definition only_age_failed :: "int \<Rightarrow> bool api" where
  "only_age_failed run_id =
     bindI (get (''actions/runs/'' @ show_int run_id @ ''/jobs?per_page=100'')) (\<lambda>listing.
     let jobs = dget_or listing ''jobs'' (JList []) in
     bindI (liftI (json_len jobs)) (\<lambda>n.
     if \<not> py_eq (JInt (int n)) (dget listing ''total_count'') \<or> 100 < n then retI False
     else
     bindI (liftI (iter_items jobs)) (\<lambda>xs.
     bindI (liftI (age_failed xs False)) (\<lambda>r. retI (r = Some True)))))"

text \<open>The workflow of the candidate is the trusted one, or one of the two admitted upgrades of it.\<close>

definition workflow_admitted :: "candidate \<Rightarrow> string \<Rightarrow> string option \<Rightarrow> bool api" where
  "workflow_admitted c default_branch implementation =
     bindI (getI api_repository) (\<lambda>repository.
     bindI (file_bytes (workflow_file repository) default_branch) (\<lambda>trusted.
     bindI (file_bytes (workflow_file repository) (cand_head c)) (\<lambda>proposed.
     case (trusted, proposed) of
       (Some t, Some p) \<Rightarrow>
         if p = t then retI True
         else (case implementation of
           None \<Rightarrow> retI False
         | Some i \<Rightarrow>
             bindI (retry_ci_upgrade c t p i) (\<lambda>ok.
             if ok then retI True else retry_hosted_runner_upgrade c t p i))
     | _ \<Rightarrow> retI False)))"

definition reserve :: "string \<Rightarrow> int \<Rightarrow> unit api" where
  "reserve head run_id w s = (Inr (), s\<lparr>trace := Reserved head run_id # trace s\<rparr>)"

text \<open>
  The first selected run decides: whether everything allows its rerun. The creation time of the
  service bounds the runs it may look at.
\<close>

definition rerun_allowed :: "candidate \<Rightarrow> string \<Rightarrow> string option \<Rightarrow> rat option \<Rightarrow> dict \<Rightarrow> int option api" where
  "rerun_allowed c default_branch implementation service_created_at run =
     bindI (case service_created_at of None \<Rightarrow> retI False | Some limit \<Rightarrow>
              bindI (askI fromisoformat) (\<lambda>fromiso.
              bindI (liftI (utc fromiso (dget run ''created_at''))) (\<lambda>created. retI (limit < created)))) (\<lambda>late.
     if late \<or> dget run ''status'' \<noteq> JStr ''completed'' \<or> dget run ''conclusion'' \<noteq> JStr ''failure'' then retI None
     else
     bindI (workflow_admitted c default_branch implementation) (\<lambda>admitted.
     if \<not> admitted then retI None
     else if \<not> positive_int (dget run ''id'')
     then raiseI (EligibilityError ''candidate CI run has an invalid identifier'' [])
     else
     bindI (only_age_failed (int_of (dget run ''id''))) (\<lambda>age.
     if \<not> age then retI None
     else
     bindI (still_current c default_branch) (\<lambda>current.
     retI (if current then Some (int_of (dget run ''id'')) else None)))))"

fun first_selected :: "candidate \<Rightarrow> json list \<Rightarrow> dict option api" where
  "first_selected c [] = retI None"
| "first_selected c (run # runs) =
     bindI (getI api_repository) (\<lambda>repository.
     bindI (liftI (selected_run repository c run)) (\<lambda>ok.
     if ok then retI (Some (dict_of run)) else first_selected c runs))"

definition rerun_ready ::
  "candidate \<Rightarrow> (string \<times> int) list \<Rightarrow> string \<Rightarrow> string option \<Rightarrow> rat option \<Rightarrow> unit api" where
  "rerun_ready c ledger default_branch implementation service_created_at =
     (if cand_head c \<in> keys ledger then retI ()
      else
      bindI (getI api_repository) (\<lambda>repository.
      bindI (get (''actions/workflows/'' @ last (split_on CHR ''/'' (workflow_file repository))
               @ ''/runs?head_sha='' @ run_head c @ ''&per_page=20'')) (\<lambda>listing.
      bindI (liftI (take_items 20 (dget_or listing ''workflow_runs'' (JList [])))) (\<lambda>runs.
      bindI (first_selected c runs) (\<lambda>selected. case selected of
        None \<Rightarrow> retI ()
      | Some run \<Rightarrow>
          bindI (rerun_allowed c default_branch implementation service_created_at run) (\<lambda>allowed.
          case allowed of
            None \<Rightarrow> retI ()
          | Some run_id \<Rightarrow>
              bindI (reserve (cand_head c) run_id) (\<lambda>_.
              post (''actions/runs/'' @ show_int run_id @ ''/rerun-failed-jobs'') (JObj []))))))))"

section \<open>The retry reads, then reserves, then reruns\<close>

lemma observe_case_missing:
  "keeps observe_step m \<Longrightarrow> keeps observe_step (case e of MissingResource x \<Rightarrow> m | _ \<Rightarrow> raiseI e)"
  by (cases e) (simp_all add: observe.keeps_raise)

lemma observe_file: "keeps observe_step (file_bytes path head)"
  unfolding file_bytes_def by (intro observe_rules observe_case_missing)

lemma observe_tip: "keeps observe_step shared_default_tip"
  unfolding shared_default_tip_def Let_def
  by (intro observe_rules observe_request) (simp_all add: reads_only_def)

lemma observe_refused: "keeps observe_step m \<Longrightarrow> keeps observe_step (or_refused m)"
  unfolding or_refused_def by (intro observe_rules)

lemma observe_parse: "keeps observe_step (parse_manifest_io content)"
  unfolding parse_manifest_io_def by (intro observe_rules)

lemma observe_published: "keeps observe_step (upgrade_published before latter trusted proposed)"
  unfolding upgrade_published_def by (intro observe_rules observe_tip observe_source_ancestor)

lemma observe_policy: "keeps observe_step (same_policy c policy)"
  unfolding same_policy_def by (intro observe_rules observe_file)

lemma observe_ci_upgrade: "keeps observe_step (retry_ci_upgrade c trusted proposed implementation)"
  unfolding retry_ci_upgrade_def
  by (intro observe_rules observe_refused observe_file observe_parse observe_policy observe_published)

lemma observe_runner_upgrade: "keeps observe_step (retry_hosted_runner_upgrade c trusted proposed implementation)"
  unfolding retry_hosted_runner_upgrade_def Let_def
  by (intro observe_rules observe_refused observe_file observe_parse)

lemma observe_admitted: "keeps observe_step (workflow_admitted c default_branch implementation)"
  unfolding workflow_admitted_def
  by (intro observe_rules observe_file observe_ci_upgrade observe_runner_upgrade)

lemma observe_age: "keeps observe_step (only_age_failed run_id)"
  unfolding only_age_failed_def Let_def by (intro observe_rules)

lemma observe_allowed: "keeps observe_step (rerun_allowed c default_branch implementation limit run)"
  unfolding rerun_allowed_def
  by (intro observe_rules observe_admitted observe_age observe_still_current)

lemma observe_selected: "keeps observe_step (first_selected c runs)"
proof (induction runs)
  case (Cons run runs)
  show ?case unfolding first_selected.simps by (intro observe_rules Cons.IH)
next
  case Nil
  show ?case unfolding first_selected.simps by (rule observe.keeps_ret)
qed

lemma observe_trace: "keeps observe_step m \<Longrightarrow> m w s = (r, t) \<Longrightarrow> \<exists>new. trace t = new @ trace s \<and> list_all reads_only new"
  by (auto simp: keeps_def observe_step_def read_step_def)

text \<open>What allowed a rerun: the run failed, its workflow is admitted, the candidate is current.\<close>

lemma rerun_allowed_Inr:
  assumes "rerun_allowed c default_branch implementation limit run w s = (Inr (Some run_id), t)"
  shows "dget run ''conclusion'' = JStr ''failure'' \<and> dget run ''id'' = JInt run_id
    \<and> (\<exists>a b. frame s a \<and> frame b t \<and> workflow_admitted c default_branch implementation w a = (Inr True, b))
    \<and> (\<exists>a. frame s a \<and> still_current c default_branch w a = (Inr True, t))"
proof -
  obtain late s1 s2 s3 where
    l: "(case limit of None \<Rightarrow> retI False | Some limit \<Rightarrow>
              bindI (askI fromisoformat) (\<lambda>fromiso.
              bindI (liftI (utc fromiso (dget run ''created_at''))) (\<lambda>created. retI (limit < created)))) w s = (Inr late, s1)"
    and a: "workflow_admitted c default_branch implementation w s1 = (Inr True, s2)"
    and g: "only_age_failed (int_of (dget run ''id'')) w s2 = (Inr True, s3)"
    and c: "still_current c default_branch w s3 = (Inr True, t)"
    and run: "dget run ''conclusion'' = JStr ''failure''" "positive_int (dget run ''id'')" "int_of (dget run ''id'') = run_id"
    using assms unfolding rerun_allowed_def
    by (auto simp: bindI_Inr split: if_splits)
  have "keeps observe_step (case limit of None \<Rightarrow> retI False | Some limit \<Rightarrow>
              bindI (askI fromisoformat) (\<lambda>fromiso.
              bindI (liftI (utc fromiso (dget run ''created_at''))) (\<lambda>created. retI (limit < created))))"
    by (intro observe_rules)
  from observe_frame [OF this, OF l] observe_frame [OF observe_admitted, OF a] observe_frame [OF observe_age, OF g]
    observe_frame [OF observe_still_current, OF c]
  have f: "frame s s1" "frame s1 s2" "frame s2 s3" "frame s3 t" .
  note f3 = frame.both [OF frame.both [OF f(1,2)] f(3)] and f4 = frame.both [OF f(3,4)]
  have "dget run ''id'' = JInt run_id" using run(2,3) by (cases "dget run ''id''") auto
  with run(1) a c f(1) f3 f4 show ?thesis by blast
qed

definition rerun_path :: "int \<Rightarrow> string" where
  "rerun_path run_id = ''actions/runs/'' @ show_int run_id @ ''/rerun-failed-jobs''"

definition posted_rerun :: "client \<Rightarrow> int \<Rightarrow> event list \<Rightarrow> bool" where
  "posted_rerun s run_id events \<longleftrightarrow> events \<in> {[], [Clock],
     [Request ''POST'' (repo_path (api_repository s) (rerun_path run_id)) (Some (JObj [])), Clock]}"

lemma post_trace:
  assumes "post rest data w s = (r, t)"
  shows "\<exists>new. trace t = new @ trace s \<and> new \<in> {[], [Clock],
     [Request ''POST'' (repo_path (api_repository s) rest) (Some data), Clock]}"
proof -
  obtain q where "request ''POST'' (repo_path (api_repository s) rest) (Some data) w s = (q, t)"
    using assms by (auto simp: post_def bindI_def split: prod.splits sum.splits)
  then show ?thesis
    by (auto simp: request_def bindI_def bump_def now_def http_def split: prod.splits sum.splits if_splits)
qed

text \<open>Either the retry only reads, or it was allowed, reserved and tried the rerun.\<close>

lemma rerun_ready_cases:
  assumes "rerun_ready c ledger default_branch implementation limit w s = (r, t)"
  shows "(\<exists>new. trace t = new @ trace s \<and> list_all reads_only new)
    \<or> (cand_head c \<notin> keys ledger \<and> (\<exists>run_id pre tail run u v. trace v = pre @ trace s \<and> list_all reads_only pre
        \<and> rerun_allowed c default_branch implementation limit run w u = (Inr (Some run_id), v) \<and> frame s u
        \<and> trace t = tail @ Reserved (cand_head c) run_id # trace v \<and> posted_rerun s run_id tail))"
proof (cases "cand_head c \<in> keys ledger")
  case True
  with assms show ?thesis by (auto simp: rerun_ready_def)
next
  case False
  define first where "first = bindI (getI api_repository) (\<lambda>repository.
      bindI (get (''actions/workflows/'' @ last (split_on CHR ''/'' (workflow_file repository))
               @ ''/runs?head_sha='' @ run_head c @ ''&per_page=20'')) (\<lambda>listing.
      bindI (liftI (take_items 20 (dget_or listing ''workflow_runs'' (JList [])))) (\<lambda>runs. first_selected c runs)))"
  define rest where "rest = (\<lambda>selected. case selected of
        None \<Rightarrow> retI ()
      | Some run \<Rightarrow>
          bindI (rerun_allowed c default_branch implementation limit run) (\<lambda>allowed.
          case allowed of
            None \<Rightarrow> retI ()
          | Some run_id \<Rightarrow>
              bindI (reserve (cand_head c) run_id) (\<lambda>_. post (rerun_path run_id) (JObj []))))"
  have split: "rerun_ready c ledger default_branch implementation limit w s = bindI first rest w s"
    using False unfolding rerun_ready_def first_def rest_def rerun_path_def
    by (simp add: bindI_def split: prod.splits sum.splits)
  have obs: "keeps observe_step first" unfolding first_def by (intro observe_rules observe_selected)
  obtain q u where q: "first w s = (q, u)" by (cases "first w s")
  from observe_trace [OF obs q] obtain n1 where n1: "trace u = n1 @ trace s" "list_all reads_only n1" by blast
  from observe_frame [OF obs q] have fr: "frame s u" .
  show ?thesis
  proof (cases q)
    case (Inl e)
    with q assms n1 show ?thesis by (auto simp: split)
  next
    case (Inr selected)
    show ?thesis
    proof (cases selected)
      case None
      with Inr q assms n1 show ?thesis by (auto simp: split rest_def)
    next
      case (Some run)
      obtain p v where p: "rerun_allowed c default_branch implementation limit run w u = (p, v)"
        by (cases "rerun_allowed c default_branch implementation limit run w u")
      from observe_trace [OF observe_allowed p] obtain n2 where n2: "trace v = n2 @ trace u" "list_all reads_only n2" by blast
      have pre: "trace v = (n2 @ n1) @ trace s" "list_all reads_only (n2 @ n1)" using n1 n2 by auto
      show ?thesis
      proof (cases "\<exists>run_id. p = Inr (Some run_id)")
        case False
        have "t = v" using assms Inr q Some p False
          by (auto simp: split rest_def bindI_def split: sum.splits option.splits)
        with pre show ?thesis by blast
      next
        case True
        then obtain run_id where run_id: "p = Inr (Some run_id)" ..
        have "post (rerun_path run_id) (JObj []) w (v\<lparr>trace := Reserved (cand_head c) run_id # trace v\<rparr>) = (r, t)"
          using assms Inr q Some p run_id by (simp add: split rest_def bindI_def reserve_def)
        from post_trace [OF this] obtain tail where tail: "trace t = tail @ Reserved (cand_head c) run_id # trace v"
          "posted_rerun v run_id tail" by (auto simp: posted_rerun_def)
        have "api_repository v = api_repository s"
          using fr observe_frame [OF observe_allowed p] by (simp add: frame_def)
        with tail(2) have "posted_rerun s run_id tail" by (simp add: posted_rerun_def)
        with False pre p run_id fr tail(1) show ?thesis by blast
      qed
    qed
  qed
qed

text \<open>
  C22. One retry, reserved first. A retry only reads, unless the head is not in the ledger and a
  failed run was allowed its rerun; then the ledger entry comes directly after the last check that
  the candidate is still current, and the only request after it is the rerun of that run's failed
  jobs. This holds for every answer of GitHub and however the retry ends.
\<close>

theorem rerun_ready_once:
  assumes "rerun_ready c ledger default_branch implementation limit w s = (r, t)"
  shows "\<exists>new. trace t = new @ trace s \<and> (list_all reads_only new
    \<or> (cand_head c \<notin> keys ledger \<and> (\<exists>run_id pre tail a v. new = tail @ Reserved (cand_head c) run_id # pre
        \<and> list_all reads_only pre \<and> posted_rerun s run_id tail
        \<and> still_current c default_branch w a = (Inr True, v) \<and> trace v = pre @ trace s)))"
  using rerun_ready_cases [OF assms]
proof (elim disjE exE conjE)
  fix run_id pre tail run u v
  assume h: "cand_head c \<notin> keys ledger" "trace v = pre @ trace s" "list_all reads_only pre"
    "rerun_allowed c default_branch implementation limit run w u = (Inr (Some run_id), v)"
    "trace t = tail @ Reserved (cand_head c) run_id # trace v" "posted_rerun s run_id tail"
  from rerun_allowed_Inr [OF h(4)] obtain a where "still_current c default_branch w a = (Inr True, v)" by blast
  with h show ?thesis by (intro exI [of _ "tail @ Reserved (cand_head c) run_id # pre"]) auto
qed blast

text \<open>The workflow of the candidate and the trusted one, as they were read.\<close>

lemma upgrade_published_Inr:
  "upgrade_published before latter trusted proposed w s = (Inr True, t) \<Longrightarrow>
     expected_ci_upgrade trusted before latter = Some proposed"
  unfolding upgrade_published_def by (auto simp: bindI_Inr split: if_splits)

lemma or_refusedE:
  "or_refused m w s = (Inr True, t) \<Longrightarrow> (m w s = (Inr True, t) \<Longrightarrow> P) \<Longrightarrow> P"
  by (auto simp: or_refused_def catchI_Inr split: if_splits)

lemma if_refuseE:
  "(if b then retI False else m) w s = (Inr True, t) \<Longrightarrow> (\<not> b \<Longrightarrow> m w s = (Inr True, t) \<Longrightarrow> P) \<Longrightarrow> P"
  by (auto split: if_splits)

lemma option_refuseE:
  "(case x of None \<Rightarrow> retI False | Some y \<Rightarrow> f y) w s = (Inr True, t) \<Longrightarrow>
     (\<And>y. x = Some y \<Longrightarrow> f y w s = (Inr True, t) \<Longrightarrow> P) \<Longrightarrow> P"
  by (cases x) auto

lemmas refuse_elims = or_refusedE bindI_InrE if_refuseE option_refuseE pair_runE let_runE

lemma retry_ci_upgrade_Inr:
  assumes "retry_ci_upgrade c trusted proposed implementation w s = (Inr True, t)"
  shows "renovate c \<and> (\<exists>latter. expected_ci_upgrade trusted implementation latter = Some proposed)"
proof -
  from assms have r: "renovate c" by (auto simp: retry_ci_upgrade_def split: if_splits)
  from assms obtain before latter u where "before = implementation"
    "upgrade_published before latter trusted proposed w u = (Inr True, t)"
    unfolding retry_ci_upgrade_def
    by (elim refuse_elims) auto
  with r upgrade_published_Inr show ?thesis by blast
qed

lemma retry_hosted_runner_upgrade_Inr:
  assumes "retry_hosted_runner_upgrade c trusted proposed implementation w s = (Inr True, t)"
  shows "renovate c \<and> (\<exists>path. hosted_runner_only_change (sha256_hex w) trusted proposed path)"
proof -
  from assms have r: "renovate c" by (auto simp: retry_hosted_runner_upgrade_def split: if_splits)
  from assms have "\<exists>path. hosted_runner_only_change (sha256_hex w) trusted proposed path"
    unfolding retry_hosted_runner_upgrade_def
    by (elim refuse_elims) auto
  with r show ?thesis by blast
qed

lemma workflow_admitted_Inr:
  assumes "workflow_admitted c default_branch implementation w s = (Inr True, t)"
  shows "\<exists>trusted proposed u v.
     file_bytes (workflow_file (api_repository s)) default_branch w s = (Inr (Some trusted), u)
     \<and> file_bytes (workflow_file (api_repository s)) (cand_head c) w u = (Inr (Some proposed), v)
     \<and> (proposed = trusted \<or> (renovate c \<and>
          ((\<exists>i latter. implementation = Some i \<and> expected_ci_upgrade trusted i latter = Some proposed)
           \<or> (\<exists>path. hosted_runner_only_change (sha256_hex w) trusted proposed path))))"
proof -
  obtain trusted proposed u v where
    f: "file_bytes (workflow_file (api_repository s)) default_branch w s = (Inr (Some trusted), u)"
      "file_bytes (workflow_file (api_repository s)) (cand_head c) w u = (Inr (Some proposed), v)"
    and k: "(if proposed = trusted then retI True
         else (case implementation of
           None \<Rightarrow> retI False
         | Some i \<Rightarrow>
             bindI (retry_ci_upgrade c trusted proposed i) (\<lambda>ok.
             if ok then retI True else retry_hosted_runner_upgrade c trusted proposed i))) w v = (Inr True, t)"
    using assms unfolding workflow_admitted_def
    by (elim refuse_elims) (auto simp: split: option.splits intro: that)
  have "proposed = trusted \<or> (renovate c \<and>
          ((\<exists>i latter. implementation = Some i \<and> expected_ci_upgrade trusted i latter = Some proposed)
           \<or> (\<exists>path. hosted_runner_only_change (sha256_hex w) trusted proposed path)))"
    using k retry_ci_upgrade_Inr retry_hosted_runner_upgrade_Inr
    by (auto simp: bindI_Inr split: if_splits option.splits)
  with f show ?thesis by blast
qed

text \<open>
  C21. A retry runs no modified workflow. When the retry reserved a run, it had read the workflow of
  the default branch and the one of the candidate, and they are the same bytes, or Renovate proposed
  exactly the expected move of the automation pins from the running implementation, or a change of
  hosted runners only.
\<close>

theorem rerun_workflow_trusted:
  assumes "rerun_ready c ledger default_branch implementation limit w s = (r, t)"
    and "trace t = new @ trace s" and "Reserved head run_id \<in> set new"
  shows "head = cand_head c \<and> (\<exists>trusted proposed a u v.
     file_bytes (workflow_file (api_repository s)) default_branch w a = (Inr (Some trusted), u)
     \<and> file_bytes (workflow_file (api_repository s)) (cand_head c) w u = (Inr (Some proposed), v)
     \<and> (proposed = trusted \<or> (renovate c \<and>
          ((\<exists>i latter. implementation = Some i \<and> expected_ci_upgrade trusted i latter = Some proposed)
           \<or> (\<exists>path. hosted_runner_only_change (sha256_hex w) trusted proposed path)))))"
proof -
  have noread: "\<not> list_all reads_only xs" if "Reserved h n \<in> set xs" for xs h n
    using that unfolding list_all_iff by (auto simp: reads_only_def intro!: bexI [of _ "Reserved h n"])
  from rerun_ready_cases [OF assms(1)] show ?thesis
  proof (elim disjE exE conjE)
    fix xs assume "trace t = xs @ trace s" "list_all reads_only xs"
    with assms(2,3) noread show ?thesis by auto
  next
    fix rid pre tail run u v
    assume h: "trace v = pre @ trace s" "list_all reads_only pre" "frame s u"
      "rerun_allowed c default_branch implementation limit run w u = (Inr (Some rid), v)"
      "trace t = tail @ Reserved (cand_head c) rid # trace v" "posted_rerun s rid tail"
    from h(1,5) assms(2) have "new = tail @ Reserved (cand_head c) rid # pre" by simp
    with assms(3) h(2,6) noread have head: "head = cand_head c" by (auto simp: posted_rerun_def)
    from rerun_allowed_Inr [OF h(4)] obtain a b where a: "frame u a"
      "workflow_admitted c default_branch implementation w a = (Inr True, b)" by blast
    from a(1) h(3) have repo: "api_repository a = api_repository s" by (simp add: frame_def)
    from workflow_admitted_Inr [OF a(2)] head show ?thesis unfolding repo by blast
  qed
qed

section \<open>A retry that posts\<close>

definition retry_run :: dict where
  "retry_run = [(''id'', JInt 11), (''repository'', JObj [(''full_name'', JStr ''Strukturpiloten/boxferry'')]),
     (''head_repository'', JObj [(''full_name'', JStr ''Strukturpiloten/boxferry'')]),
     (''event'', JStr ''pull_request''), (''name'', JStr ''CI''), (''path'', JStr ''.github/workflows/ci.yml''),
     (''head_sha'', JStr (sha_of CHR ''b'')), (''status'', JStr ''completed''), (''conclusion'', JStr ''failure''),
     (''pull_requests'', JList [JObj [(''number'', JInt 7), (''head'', JObj [(''sha'', JStr (sha_of CHR ''b''))]),
        (''base'', JObj [(''sha'', JStr (sha_of CHR ''a''))])]])]"

definition retry_file :: dict where
  "retry_file = [(''type'', JStr ''file''), (''size'', JInt 1), (''encoding'', JStr ''base64''), (''content'', JStr ''eA=='')]"

definition retry_jobs :: dict where
  "retry_jobs = [(''total_count'', JInt 1), (''jobs'', JList [JObj [(''name'', JStr ''Lockfile release age''),
     (''status'', JStr ''completed''), (''conclusion'', JStr ''failure'')]])]"

definition retry_table :: "(string \<times> json) list" where
  "retry_table =
     [(''actions/workflows/ci.yml/runs?head_sha='' @ sha_of CHR ''b'' @ ''&per_page=20'',
        JObj [(''workflow_runs'', JList [JObj retry_run])]),
      (''contents/.github/workflows/ci.yml?ref=main'', JObj retry_file),
      (''contents/.github/workflows/ci.yml?ref='' @ sha_of CHR ''c'', JObj retry_file),
      (''actions/runs/11/jobs?per_page=100'', JObj retry_jobs),
      (''actions/runs/11/rerun-failed-jobs'', JObj [])] @ sample_table"

lemma retry_rows:
  "map_of retry_table (''actions/workflows/ci.yml/runs?head_sha='' @ sha_of CHR ''b'' @ ''&per_page=20'')
     = Some (JObj [(''workflow_runs'', JList [JObj retry_run])])"
  "map_of retry_table ''contents/.github/workflows/ci.yml?ref=main'' = Some (JObj retry_file)"
  "map_of retry_table (''contents/.github/workflows/ci.yml?ref='' @ sha_of CHR ''c'') = Some (JObj retry_file)"
  "map_of retry_table ''actions/runs/11/jobs?per_page=100'' = Some (JObj retry_jobs)"
  "map_of retry_table ''pulls/7'' = Some (JObj sample_pr)"
  "map_of retry_table ''git/ref/heads/main'' = Some (JObj sample_ref)"
  "map_of retry_table (''compare/'' @ sha_of CHR ''a'' @ ''...'' @ sha_of CHR ''c'') = Some (JObj (sample_ahead CHR ''a''))"
  "map_of retry_table (''compare/'' @ sha_of CHR ''b'' @ ''...'' @ sha_of CHR ''c'') = Some (JObj (sample_ahead CHR ''b''))"
  by code_simp+

lemma retry_get:
  "map_of retry_table path = Some (JObj d) \<Longrightarrow> path \<noteq> [] \<Longrightarrow> length path \<le> 1000 \<Longrightarrow> spare 1 s \<Longrightarrow>
     get path (table_world retry_table) s = (Inr d, got path s)"
  by (rule table_get) (simp_all add: spare_def)

lemma retry_takes_get:
  "map_of retry_table path = Some (JObj d) \<Longrightarrow> path \<noteq> [] \<Longrightarrow> length path \<le> 1000 \<Longrightarrow>
     takes (table_world retry_table) 1 (get path) d"
  by (rule takesI) (auto simp: retry_get after_def)

lemma retry_names:
  "workflow_file ''Strukturpiloten/boxferry'' = ''.github/workflows/ci.yml''"
  "quote ''/'' ''.github/workflows/ci.yml'' = ''.github/workflows/ci.yml''"
  "last (split_on CHR ''/'' ''.github/workflows/ci.yml'') = ''ci.yml''"
  "run_head sample_pr_candidate = sha_of CHR ''b''" "file_content retry_file = Inr ''x''" "show_int 11 = ''11''"
  "selected_run ''Strukturpiloten/boxferry'' sample_pr_candidate (JObj retry_run) = Inr True"
  "bindR (iter_items (dget_or retry_jobs ''jobs'' (JList []))) (\<lambda>xs. age_failed xs False) = Inr (Some True)"
  "json_len (dget_or retry_jobs ''jobs'' (JList [])) = Inr 1" "py_eq (JInt 1) (dget retry_jobs ''total_count'')"
  by code_simp+

abbreviation retry_world :: world where "retry_world \<equiv> table_world retry_table"

lemma retry_got:
  assumes "spare 1 s"
  shows "get (''contents/.github/workflows/ci.yml?ref='' @ sha_of CHR ''c'') retry_world s
      = (Inr retry_file, got (''contents/.github/workflows/ci.yml?ref='' @ sha_of CHR ''c'') s)"
    "get (''compare/'' @ sha_of CHR ''a'' @ ''...'' @ sha_of CHR ''c'') retry_world s
      = (Inr (sample_ahead CHR ''a''), got (''compare/'' @ sha_of CHR ''a'' @ ''...'' @ sha_of CHR ''c'') s)"
    "get (''compare/'' @ sha_of CHR ''b'' @ ''...'' @ sha_of CHR ''c'') retry_world s
      = (Inr (sample_ahead CHR ''b''), got (''compare/'' @ sha_of CHR ''b'' @ ''...'' @ sha_of CHR ''c'') s)"
    "get (''actions/workflows/ci.yml/runs?head_sha='' @ sha_of CHR ''b'' @ ''&per_page=20'') retry_world s
      = (Inr [(''workflow_runs'', JList [JObj retry_run])],
         got (''actions/workflows/ci.yml/runs?head_sha='' @ sha_of CHR ''b'' @ ''&per_page=20'') s)"
  by (rule retry_get [OF retry_rows(3)] retry_get [OF retry_rows(7)] retry_get [OF retry_rows(8)] retry_get [OF retry_rows(1)],
      simp, simp add: sha_of_def, rule assms)+

lemma retry_file_bytes:
  "spare 1 s \<Longrightarrow> file_bytes ''.github/workflows/ci.yml'' ''main'' retry_world s
     = (Inr (Some ''x''), got ''contents/.github/workflows/ci.yml?ref=main'' s)"
  "spare 1 s \<Longrightarrow> file_bytes ''.github/workflows/ci.yml'' (sha_of CHR ''c'') retry_world s
     = (Inr (Some ''x''), got (''contents/.github/workflows/ci.yml?ref='' @ sha_of CHR ''c'') s)"
  using retry_get [OF retry_rows(2), of s] retry_got(1) [of s]
  by (simp_all add: file_bytes_def retry_names cong: run_congs)

lemma retry_jobs_run:
  "spare 1 s \<Longrightarrow> only_age_failed 11 retry_world s = (Inr True, got ''actions/runs/11/jobs?per_page=100'' s)"
proof -
  assume "spare 1 s"
  moreover obtain xs where "iter_items (dget_or retry_jobs ''jobs'' (JList [])) = Inr xs"
    "age_failed xs False = Inr (Some True)"
    using retry_names(8) by (auto simp: bindR_Inr)
  ultimately show ?thesis
    using retry_get [OF retry_rows(4), of s] retry_names(9,10)
    by (simp add: only_age_failed_def retry_names Let_def cong: run_congs)
qed

lemma retry_read_identity:
  "spare 1 s \<Longrightarrow> read_identity 7 None retry_world s
     = (Inr (''main'', sha_of CHR ''c'', sha_of CHR ''b'', ''octocat'', ''User''), got ''pulls/7'' s)"
  using retry_get [OF retry_rows(5), of s]
  by (simp add: read_identity_def sample_names spare_def pr_identity_def sample_pr_def in_repository_def pr_state_ok_def author_ok_def author_def Let_def
      nonempty_str_def revision_def sample_hex optional_revision_def cong: run_congs)

lemma retry_target:
  "spare 1 s \<Longrightarrow> target_revision ''main'' retry_world s = (Inr (sha_of CHR ''a''), got ''git/ref/heads/main'' s)"
  using retry_get [OF retry_rows(6), of s]
  by (simp add: target_revision_def sample_names sample_ref_def revision_def sample_hex cong: run_congs)

lemma retry_ancestor:
  "spare 1 s \<Longrightarrow> require_ancestor (sha_of CHR ''a'') (sha_of CHR ''c'') retry_world s
     = (Inr (), got (''compare/'' @ sha_of CHR ''a'' @ ''...'' @ sha_of CHR ''c'') s)"
  "spare 1 s \<Longrightarrow> require_ancestor (sha_of CHR ''b'') (sha_of CHR ''c'') retry_world s
     = (Inr (), got (''compare/'' @ sha_of CHR ''b'' @ ''...'' @ sha_of CHR ''c'') s)"
  using retry_got(2,3) [of s]
  by (simp_all add: require_ancestor_def sample_ahead_def in_strings_def cong: run_congs)

lemma retry_current:
  assumes "spare 20 s"
  shows "\<exists>t. still_current sample_pr_candidate ''main'' retry_world s = (Inr True, t) \<and> spare 0 t"
proof -
  have sp: "spare k s" if "k \<le> 20" for k using that assms by (simp add: spare_def)
  obtain t where "pr_candidate 7 None retry_world s = (Inr sample_pr_candidate, t)" "spare 0 t"
    by (rule that, simp add: pr_candidate_def reread_identity_def retry_read_identity retry_target retry_ancestor sp
        sample_pr_candidate_def cong: run_congs, simp add: sp)
  then show ?thesis
    by (simp add: still_current_def sample_pr_candidate_def cong: run_congs)
qed

lemma bindI_ret: "bindI (retI x) f w s = f x w s"
  by (simp add: bindI_def)

lemma retry_allowed:
  assumes "spare 30 s"
  shows "\<exists>t. rerun_allowed sample_pr_candidate ''main'' None None retry_run retry_world s = (Inr (Some 11), t)"
proof -
  have sp: "spare k s" if "k \<le> 30" for k using that assms by (simp add: spare_def)
  have repo: "api_repository s = ''Strukturpiloten/boxferry''" using assms by (simp add: spare_def)
  have c: "cand_head sample_pr_candidate = sha_of CHR ''c''" by (simp add: sample_pr_candidate_def)
  let ?a = "got (''contents/.github/workflows/ci.yml?ref='' @ sha_of CHR ''c'') (got ''contents/.github/workflows/ci.yml?ref=main'' s)"
  let ?b = "got ''actions/runs/11/jobs?per_page=100'' ?a"
  have "workflow_admitted sample_pr_candidate ''main'' None retry_world s = (Inr True, ?a)"
    by (simp add: workflow_admitted_def repo retry_names(1) retry_file_bytes c sp cong: run_congs)
  moreover have "only_age_failed 11 retry_world ?a = (Inr True, ?b)" by (rule retry_jobs_run) (simp add: sp)
  moreover obtain t where "still_current sample_pr_candidate ''main'' retry_world ?b = (Inr True, t)"
    using retry_current [of ?b] by (auto simp: sp)
  moreover have "dget retry_run ''status'' = JStr ''completed''" "dget retry_run ''conclusion'' = JStr ''failure''"
    "dget retry_run ''id'' = JInt 11" by (simp_all add: retry_run_def)
  ultimately show ?thesis by (simp add: rerun_allowed_def bindI_ret cong: run_congs)
qed

lemma retry_posts:
  "\<exists>r t. rerun_ready sample_pr_candidate [] ''main'' None None retry_world sample_client = (r, t)
     \<and> Reserved (sha_of CHR ''c'') 11 \<in> set (trace t)"
proof -
  let ?s = "got (''actions/workflows/ci.yml/runs?head_sha='' @ sha_of CHR ''b'' @ ''&per_page=20'') sample_client"
  obtain t where "rerun_allowed sample_pr_candidate ''main'' None None retry_run retry_world ?s = (Inr (Some 11), t)"
    using retry_allowed [of ?s] by auto
  moreover obtain r u where "post (rerun_path 11) (JObj []) retry_world
     (t\<lparr>trace := Reserved (sha_of CHR ''c'') 11 # trace t\<rparr>) = (r, u)"
    by (cases "post (rerun_path 11) (JObj []) retry_world (t\<lparr>trace := Reserved (sha_of CHR ''c'') 11 # trace t\<rparr>)")
  moreover from post_trace [OF this] have "Reserved (sha_of CHR ''c'') 11 \<in> set (trace u)" by auto
  moreover have "cand_head sample_pr_candidate = sha_of CHR ''c''"
    "api_repository ?s = ''Strukturpiloten/boxferry''" "api_repository sample_client = ''Strukturpiloten/boxferry''"
    by (simp_all add: sample_pr_candidate_def sample_client_def)
  ultimately show ?thesis
    using retry_got(4) [of sample_client]
    by (simp add: rerun_ready_def retry_names(1,3,4,7) rerun_path_def reserve_def cong: run_congs)
qed

theorem rerun_ready_once_witness:
  "\<exists>r t pre tail. rerun_ready sample_pr_candidate [] ''main'' None None retry_world sample_client = (r, t)
     \<and> trace t = tail @ Reserved (sha_of CHR ''c'') 11 # pre \<and> list_all reads_only pre
     \<and> posted_rerun sample_client 11 tail"
proof -
  from retry_posts obtain r t where run: "rerun_ready sample_pr_candidate [] ''main'' None None retry_world sample_client = (r, t)"
    and res: "Reserved (sha_of CHR ''c'') 11 \<in> set (trace t)" by blast
  have noread: "\<not> list_all reads_only xs" if "Reserved h n \<in> set xs" for xs h n
    using that unfolding list_all_iff by (auto simp: reads_only_def intro!: bexI [of _ "Reserved h n"])
  have empty: "trace sample_client = []" by (simp add: sample_client_def)
  from rerun_ready_once [OF run] res noread obtain run_id pre tail where
    tr: "trace t = tail @ Reserved (cand_head sample_pr_candidate) run_id # pre" "list_all reads_only pre"
      "posted_rerun sample_client run_id tail"
    unfolding empty by auto
  with res noread have "run_id = 11" "cand_head sample_pr_candidate = sha_of CHR ''c''"
    by (auto simp: posted_rerun_def)
  with run tr show ?thesis by auto
qed

theorem rerun_workflow_trusted_witness:
  "\<exists>trusted proposed a u v.
     file_bytes ''.github/workflows/ci.yml'' ''main'' retry_world a = (Inr (Some trusted), u)
     \<and> file_bytes ''.github/workflows/ci.yml'' (sha_of CHR ''c'') retry_world u = (Inr (Some proposed), v)
     \<and> proposed = trusted"
proof -
  from retry_posts obtain r t where run: "rerun_ready sample_pr_candidate [] ''main'' None None retry_world sample_client = (r, t)"
    and res: "Reserved (sha_of CHR ''c'') 11 \<in> set (trace t)" by blast
  have tr: "trace t = trace t @ trace sample_client" by (simp add: sample_client_def)
  have facts: "cand_head sample_pr_candidate = sha_of CHR ''c''" "\<not> renovate sample_pr_candidate"
    "workflow_file (api_repository sample_client) = ''.github/workflows/ci.yml''"
    by (simp_all add: sample_pr_candidate_def renovate_def sample_client_def retry_names(1))
  from rerun_workflow_trusted [OF run tr res] show ?thesis unfolding facts(1,3) using facts(2) by blast
qed

end
