(* ===== verification/Wait.thy ===== *)
theory Wait
  imports EligState
begin

text \<open>
  The bounded wait of \<open>eligibility.py\<close>: \<open>candidate_receipt\<close> looks for the report of an exact candidate
  in a trusted run, and \<open>wait_for_candidate\<close> repeats that until it is there or the time is over.
  The loop has fuel; \<open>None\<close> is the value when the fuel ends first, which the last theorem excludes.
\<close>

section \<open>The receipt\<close>

definition STATUS_CONTEXT :: string where "STATUS_CONTEXT = ''Dependency eligibility''"

text \<open>
  The run a status points to: \<open>re.fullmatch\<close> of the address gives the digits of the run.
\<close>

definition status_run :: "string \<Rightarrow> json \<Rightarrow> string option res" where
  "status_run repository target =
     (let prefix = ''https://github.com/'' @ repository @ ''/actions/runs/'';
          digits = drop (length prefix) (str_of target)
      in if \<not> is_str target then Inl TypeError
         else if \<not> startswith (str_of target) prefix \<or> digits = [] \<or> \<not> list_all is_digit digits then Inr None
         else Inr (Some digits))"

definition status_state :: "json \<Rightarrow> json res" where
  "status_state v =
     (if is_list v \<or> is_obj v then Inl TypeError
      else Inr (if v = JStr ''pass'' then JStr ''success''
                else if v = JStr ''waiting'' then JStr ''pending''
                else if v = JStr ''failure'' then JStr ''failure'' else JNull))"

text \<open>The report of a validated payload, when it is about the expected candidate and base.\<close>

definition bound_report :: "dict \<Rightarrow> dict \<Rightarrow> dict \<Rightarrow> string \<Rightarrow> string \<Rightarrow> dict option res" where
  "bound_report status run payload head expected_base =
     (let report = dget (dict_of (dget payload ''reports'')) head; d = dict_of report in
      if has_key payload ''run_attempt'' \<and> \<not> py_eq (dget payload ''run_attempt'') (dget run ''run_attempt'')
      then Inr None
      else if \<not> is_obj report \<or> dget d ''candidate_sha'' \<noteq> JStr head \<or> dget d ''base_sha'' \<noteq> JStr expected_base
      then Inr None
      else bindR (status_state (dget d ''status'')) (\<lambda>expected.
        Inr (if expected \<noteq> dget status ''state'' then None else Some d)))"

definition receipt_of :: "dict \<Rightarrow> string \<Rightarrow> string \<Rightarrow> string \<Rightarrow> rat \<Rightarrow> string \<Rightarrow> dict option api" where
  "receipt_of status head implementation default_branch at_time expected_base =
     bindI (getI api_repository) (\<lambda>repository.
     bindI (liftI (status_run repository (dget_or status ''target_url'' (JStr [])))) (\<lambda>target. case target of
       None \<Rightarrow> retI None
     | Some digits \<Rightarrow>
         bindI (liftI (attr_get (dget_or status ''creator'' (JObj [])) ''login'')) (\<lambda>login.
         if login \<noteq> JStr ''github-actions[bot]'' then retI None
         else
         bindI (liftI (run_number digits)) (\<lambda>run_id.
         bindI (get (''actions/runs/'' @ show_int run_id)) (\<lambda>run.
         bindI (trusted_run run implementation default_branch False) (\<lambda>ok.
         if \<not> ok then retI None
         else
         bindI (run_artifact run_id) (\<lambda>v.
         bindI (askI fromisoformat) (\<lambda>fromiso.
         bindI (liftI (validate_state fromiso v repository run_id implementation at_time)) (\<lambda>payload.
         liftI (bound_report status run payload head expected_base))))))))))"

fun first_receipt :: "dict list \<Rightarrow> string \<Rightarrow> string \<Rightarrow> string \<Rightarrow> rat \<Rightarrow> string \<Rightarrow> dict option api" where
  "first_receipt [] head implementation default_branch at_time expected_base = retI None"
| "first_receipt (status # statuses) head implementation default_branch at_time expected_base =
     (if dget status ''context'' \<noteq> JStr STATUS_CONTEXT
      then first_receipt statuses head implementation default_branch at_time expected_base
      else receipt_of status head implementation default_branch at_time expected_base)"

definition candidate_receipt :: "string \<Rightarrow> string \<Rightarrow> string \<Rightarrow> rat \<Rightarrow> string \<Rightarrow> dict option api" where
  "candidate_receipt head implementation default_branch at_time expected_base =
     bindI (liftI (revision (JStr expected_base))) (\<lambda>_.
     bindI (items (''commits/'' @ head @ ''/statuses?per_page=100'')) (\<lambda>statuses.
     first_receipt (take 100 statuses) head implementation default_branch at_time expected_base))"

section \<open>The wait\<close>

definition wall_clock :: "rat api" where
  "wall_clock w s = (Inr (utc_now w (trace s)), s)"

definition sleep :: "rat \<Rightarrow> unit api" where
  "sleep q w s = (Inr (), s\<lparr>trace := Sleep q # trace s\<rparr>)"

definition still_waiting :: "string \<Rightarrow> string \<Rightarrow> dict" where
  "still_waiting head expected_base =
     [(''status'', JStr ''waiting''), (''candidate_sha'', JStr head), (''base_sha'', JStr expected_base),
      (''retry_eligible'', JBool True),
      (''reason'', JStr (''Trusted exact-candidate eligibility receipt is not ready; ''
         @ ''service events and scheduled rechecks retry automatically''))]"

definition try_receipt :: "string \<Rightarrow> string \<Rightarrow> string \<Rightarrow> string \<Rightarrow> dict option api" where
  "try_receipt head implementation default_branch expected_base =
     bindI wall_clock (\<lambda>at_time.
     catchI (candidate_receipt head implementation default_branch at_time expected_base)
       (\<lambda>e. if is_EligibilityError e then retI None else raiseI e))"

fun poll :: "nat \<Rightarrow> string \<Rightarrow> string \<Rightarrow> string \<Rightarrow> string \<Rightarrow> rat \<Rightarrow> dict option api" where
  "poll 0 head implementation default_branch expected_base limit = retI None"
| "poll (Suc fuel) head implementation default_branch expected_base limit =
     bindI (try_receipt head implementation default_branch expected_base) (\<lambda>report. case report of
       Some r \<Rightarrow> retI (Some r)
     | None \<Rightarrow>
         bindI now (\<lambda>t.
         if limit - t \<le> 0 then retI (Some (still_waiting head expected_base))
         else
         bindI (sleep (min 10 (limit - t))) (\<lambda>_.
         poll fuel head implementation default_branch expected_base limit)))"

definition wait_for_candidate :: "nat \<Rightarrow> string \<Rightarrow> string \<Rightarrow> int \<Rightarrow> string \<Rightarrow> dict option api" where
  "wait_for_candidate fuel head implementation timeout expected_base =
     bindI (liftI (revision (JStr head))) (\<lambda>_.
     bindI (liftI (revision (JStr implementation))) (\<lambda>_.
     bindI (liftI (revision (JStr expected_base))) (\<lambda>_.
     if \<not> (0 \<le> timeout \<and> timeout \<le> 120)
     then raiseI (EligibilityError ''candidate status wait must be between zero and 120 seconds'' [])
     else
     bindI (get []) (\<lambda>repository.
     let default_branch = dget repository ''default_branch'' in
     if \<not> is_str default_branch \<or> str_of default_branch = []
     then raiseI (EligibilityError ''repository has no authoritative default branch'' [])
     else
     bindI now (\<lambda>start.
     poll fuel head implementation (str_of default_branch) expected_base (start + of_int timeout))))))"

section \<open>The wait only observes\<close>

lemma observe_receipt: "keeps observe_step (candidate_receipt head implementation branch at_time expected_base)"
proof -
  have "keeps observe_step (receipt_of status head implementation branch at_time expected_base)" for status
    unfolding receipt_of_def by (intro observe_rules observe_trusted_run observe_run_artifact)
  then have "keeps observe_step (first_receipt statuses head implementation branch at_time expected_base)" for statuses
    by (induction statuses) (auto simp: observe.keeps_ret)
  then show ?thesis unfolding candidate_receipt_def by (intro observe_rules)
qed

lemma observe_try: "keeps observe_step (try_receipt head implementation branch expected_base)"
proof -
  have "keeps observe_step wall_clock" by (rule observe_quiet) (simp add: wall_clock_def)
  then show ?thesis unfolding try_receipt_def by (intro observe_rules observe_receipt)
qed

lemma observe_poll: "keeps observe_step (poll fuel head implementation branch expected_base limit)"
proof (induction fuel)
  case (Suc fuel)
  have "keeps observe_step (sleep q)" for q
    by (rule observe_quiet, rule disjI2, rule exI [of _ "Sleep q"]) (auto simp: sleep_def reads_only_def)
  then show ?case unfolding poll.simps by (intro observe_rules observe_try Suc)
qed (simp only: poll.simps observe.keeps_ret)

lemma observe_wait: "keeps observe_step (wait_for_candidate fuel head implementation timeout expected_base)"
  unfolding wait_for_candidate_def Let_def by (intro observe_rules observe_poll)

section \<open>What a receipt is bound to\<close>

text \<open>
  A report in the validated artifact of a run that was trusted, for this candidate and base, to which
  a status of the candidate with the matching state points.
\<close>

definition receipt_seen ::
  "world \<Rightarrow> client \<Rightarrow> client \<Rightarrow> string \<Rightarrow> string \<Rightarrow> string \<Rightarrow> string \<Rightarrow> dict \<Rightarrow> bool" where
  "receipt_seen w s t head implementation branch expected_base report \<longleftrightarrow>
     (\<exists>statuses status run_id run v at_time.
        observed w s t (''commits/'' @ head @ ''/statuses?per_page=100'') (JList statuses)
      \<and> JObj status \<in> set statuses \<and> dget status ''context'' = JStr STATUS_CONTEXT
      \<and> attr_get (dget_or status ''creator'' (JObj [])) ''login'' = Inr (JStr ''github-actions[bot]'')
      \<and> observed w s t (''actions/runs/'' @ show_int run_id) (JObj run)
      \<and> run_trusted w s t run implementation implementation branch
      \<and> artifact_seen w s t run_id v \<and> state_wf (fromisoformat w) at_time v
      \<and> dget v ''implementation_revision'' = JStr implementation \<and> py_eq (dget v ''run_id'') (JInt run_id)
      \<and> dget (dict_of (dget v ''reports'')) head = JObj report
      \<and> dget report ''candidate_sha'' = JStr head \<and> dget report ''base_sha'' = JStr expected_base
      \<and> status_state (dget report ''status'') = Inr (dget status ''state''))"

lemma receipt_seen_wider:
  assumes "receipt_seen w s' t' head implementation branch expected_base report"
    and "frame s s'" and "frame t' t"
  shows "receipt_seen w s t head implementation branch expected_base report"
  using assms(1) observed_wider [OF _ assms(2,3)] run_trusted_wider [OF _ assms(2,3)]
    artifact_seen_wider [OF _ assms(2,3)]
  unfolding receipt_seen_def by blast

lemma bound_report_Inr:
  assumes "bound_report status run payload head expected_base = Inr (Some report)"
  shows "dget (dict_of (dget payload ''reports'')) head = JObj report
    \<and> dget report ''candidate_sha'' = JStr head \<and> dget report ''base_sha'' = JStr expected_base
    \<and> status_state (dget report ''status'') = Inr (dget status ''state'')"
  using assms
  by (auto simp: bound_report_def Let_def is_obj_iff bindR_Inr split: if_splits)

lemma trusted_exact:
  assumes "trusted_run run implementation branch False w s = (Inr True, t)"
  shows "run_trusted w s t run implementation implementation branch"
proof -
  from trusted_run_Inr [OF assms] obtain source where r: "run_trusted w s t run source implementation branch" ..
  then have "service_revision run = Some source" by (simp add: run_trusted_def)
  with assms have "source = implementation"
    unfolding trusted_run_def Let_def by (auto simp: bindI_Inr split: if_splits)
  with r show ?thesis by simp
qed

lemma receipt_of_Inr:
  assumes run: "receipt_of status head implementation branch at_time expected_base w s = (Inr (Some report), t)"
    and status: "dget status ''context'' = JStr STATUS_CONTEXT" "JObj status \<in> set statuses"
    and seen: "observed w s0 s (''commits/'' @ head @ ''/statuses?per_page=100'') (JList statuses)" "frame s0 s"
  shows "receipt_seen w s0 t head implementation branch expected_base report"
proof -
  obtain repository digits run_id run ok s1 s2 v s3 fromiso payload r where
    login: "attr_get (dget_or status ''creator'' (JObj [])) ''login'' = Inr (JStr ''github-actions[bot]'')"
    and g: "get (''actions/runs/'' @ show_int run_id) w s = (Inr run, s1)"
    and tr: "trusted_run run implementation branch False w s1 = (Inr ok, s2)" "\<not> \<not> ok"
    and art: "run_artifact run_id w s2 = (Inr v, s3)"
    and val: "validate_state fromiso v r run_id implementation at_time = Inr payload"
    and iso: "fromisoformat w = fromiso"
    and b: "bound_report status run payload head expected_base = Inr (Some report)"
    and t: "t = s3"
    using run unfolding receipt_of_def by (elim some_elims) (rule that, simp_all)
  from tr have trust: "trusted_run run implementation branch False w s1 = (Inr True, s2)" by simp
  note v = validate_state_wf [OF val]
  have f: "frame s s1" "frame s1 s2" "frame s2 t"
    using get_observed [OF g] observe_frame [OF observe_trusted_run trust]
      observe_frame [OF observe_run_artifact art] t by auto
  note from_start = frame.both [OF seen(2) f(1)]
  have "run_trusted w s0 t run implementation implementation branch"
    using trusted_exact [OF trust] from_start f(3) by (rule run_trusted_wider)
  moreover have "artifact_seen w s0 t run_id v"
    using art frame.both [OF from_start f(2)] frame.none t unfolding artifact_seen_def by blast
  moreover have "observed w s0 t (''actions/runs/'' @ show_int run_id) (JObj run)"
    using conjunct1 [OF get_observed [OF g]] seen(2) frame.both [OF f(2,3)] by (rule observed_wider)
  moreover have "observed w s0 t (''commits/'' @ head @ ''/statuses?per_page=100'') (JList statuses)"
    using seen(1) frame.none frame.both [OF f(1) frame.both [OF f(2,3)]] by (rule observed_wider)
  ultimately show ?thesis
    using status login v bound_report_Inr [OF b] iso unfolding receipt_seen_def by blast
qed

lemma first_receipt_Inr:
  assumes "first_receipt rows head implementation branch at_time expected_base w s = (Inr (Some report), t)"
    and "JObj ` set rows \<subseteq> set statuses"
    and "observed w s0 s (''commits/'' @ head @ ''/statuses?per_page=100'') (JList statuses)" "frame s0 s"
  shows "receipt_seen w s0 t head implementation branch expected_base report"
  using assms
proof (induction rows)
  case (Cons status rows)
  show ?case
  proof (cases "dget status ''context'' = JStr STATUS_CONTEXT")
    case True
    with Cons.prems show ?thesis by (intro receipt_of_Inr [OF _ True _ Cons.prems(3,4)]) auto
  next
    case False
    with Cons show ?thesis by auto
  qed
qed simp

lemma items_seen:
  assumes "items path w s = (Inr ds, t)"
  shows "\<exists>vs. list_all is_obj vs \<and> ds = map dict_of vs \<and> observed w s t path (JList vs)"
proof -
  from assms obtain vs where "request ''GET'' (repo_path (api_repository s) path) None w s = (Inr (JList vs), t)"
    and vs: "list_all is_obj vs" "ds = map dict_of vs" by (auto simp: items_Inr)
  then have "observed w s t path (JList vs)"
    unfolding observed_def request_Inr by (auto simp: suffix_ConsI intro!: exI [of _ "Clock # trace s"])
  with vs show ?thesis by blast
qed

lemma candidate_receipt_Inr:
  assumes "candidate_receipt head implementation branch at_time expected_base w s = (Inr (Some report), t)"
  shows "receipt_seen w s t head implementation branch expected_base report"
proof -
  from assms obtain rows s1 where i: "items (''commits/'' @ head @ ''/statuses?per_page=100'') w s = (Inr rows, s1)"
    and run: "first_receipt (take 100 rows) head implementation branch at_time expected_base w s1 = (Inr (Some report), t)"
    unfolding candidate_receipt_def by (elim some_elims) simp_all
  from items_seen [OF i] obtain statuses where st: "list_all is_obj statuses" "rows = map dict_of statuses"
    and obs: "observed w s s1 (''commits/'' @ head @ ''/statuses?per_page=100'') (JList statuses)" by blast
  have "JObj ` set (take 100 rows) \<subseteq> set statuses"
    using st by (fastforce simp: list_all_iff is_obj_iff dest: in_set_takeD bspec)
  note rows = this
  have "frame s s1" using frame_items i by (rule keepsD)
  with run rows obs show ?thesis by (rule first_receipt_Inr)
qed

section \<open>The wait is bounded\<close>

text \<open>The monotonic clock never goes back, and a sleep takes at least its time.\<close>

definition sleeps_pass :: "world \<Rightarrow> bool" where
  "sleeps_pass w \<longleftrightarrow> (\<forall>h e. monotonic w h \<le> monotonic w (e # h))
     \<and> (\<forall>h q. monotonic w h + q \<le> monotonic w (Sleep q # h))"

lemma clock_grows:
  assumes "sleeps_pass w" and "frame s t"
  shows "monotonic w (trace s) \<le> monotonic w (trace t)"
proof -
  have "monotonic w h \<le> monotonic w (new @ h)" for h new
  proof (induction new)
    case (Cons e new)
    moreover have "monotonic w (new @ h) \<le> monotonic w (e # new @ h)"
      using assms(1) by (simp add: sleeps_pass_def)
    ultimately show ?case by simp
  qed simp
  with assms(2) show ?thesis by (auto simp: frame_def suffix_def)
qed

text \<open>Ten seconds of the limit pass with every round, unless the last sleep ends at the limit.\<close>

lemma poll_returns:
  assumes "sleeps_pass w"
  shows "limit - monotonic w (trace s) \<le> 10 * of_nat m \<Longrightarrow>
    fst (poll (Suc m) head implementation branch expected_base limit w s) \<noteq> Inr None"
proof (induction m arbitrary: s)
  case (0 s)
  obtain r s1 where tr: "try_receipt head implementation branch expected_base w s = (r, s1)" by force
  from clock_grows [OF assms observe_frame [OF observe_try tr]] 0
  have "limit - monotonic w (trace s1) \<le> 0" by simp
  with tr show ?case by (cases r) (auto simp: now_def bindI_def split: option.split)
next
  case (Suc m s)
  obtain r s1 where tr: "try_receipt head implementation branch expected_base w s = (r, s1)" by force
  let ?left = "limit - monotonic w (trace s1)"
  let ?s2 = "s1\<lparr>trace := Sleep (min 10 ?left) # Clock # trace s1\<rparr>"
  have "monotonic w (trace s1) \<le> monotonic w (Clock # trace s1)"
    and "monotonic w (Clock # trace s1) + min 10 ?left \<le> monotonic w (trace ?s2)"
    using assms by (simp_all add: sleeps_pass_def)
  moreover have "?left \<le> 10 * of_nat (Suc m)"
    using clock_grows [OF assms observe_frame [OF observe_try tr]] Suc.prems by simp
  ultimately have "limit - monotonic w (trace ?s2) \<le> 10 * of_nat m"
    by (cases "10 \<le> ?left") (simp_all add: min_def)
  from Suc.IH [OF this] tr show ?case
    by (cases r) (auto simp: poll.simps(2) [of "Suc m"] now_def sleep_def bindI_def simp del: poll.simps split: option.split)
qed

lemma poll_more:
  "fst (poll n head implementation branch expected_base limit w s) \<noteq> Inr None \<Longrightarrow>
     poll (n + k) head implementation branch expected_base limit w s
       = poll n head implementation branch expected_base limit w s"
proof (induction n arbitrary: s)
  case (Suc n)
  then show ?case
    by (auto simp: bindI_def now_def sleep_def split: prod.splits sum.splits option.splits)
qed simp

text \<open>
  C30. The wait always ends. When the clock does not go back and a sleep takes its time, thirteen
  rounds are enough for the largest timeout: the result is a report, the report that it still waits or
  an error, and more rounds are never started.
\<close>

theorem wait_returns:
  assumes "sleeps_pass w" and "13 \<le> n"
  shows "wait_for_candidate n head implementation timeout expected_base w s
      = wait_for_candidate 13 head implementation timeout expected_base w s
    \<and> fst (wait_for_candidate n head implementation timeout expected_base w s) \<noteq> Inr None"
proof -
  have twelve: "fst (poll 13 head implementation branch expected_base (monotonic w h + of_int timeout) w
      (u\<lparr>trace := Clock # h\<rparr>)) \<noteq> Inr None" if "timeout \<le> 120" for branch h u
  proof -
    have "monotonic w h \<le> monotonic w (Clock # h)" using assms(1) by (simp add: sleeps_pass_def)
    moreover have "(of_int timeout :: rat) \<le> of_int 120" using that by (simp only: of_int_le_iff)
    ultimately show ?thesis
      using poll_returns [OF assms(1), of "monotonic w h + of_int timeout" "u\<lparr>trace := Clock # h\<rparr>" 12] by simp
  qed
  obtain k where n: "n = 13 + k" using assms(2) le_Suc_ex by blast
  have more: "poll n head implementation branch expected_base (monotonic w h + of_int timeout) w (u\<lparr>trace := Clock # h\<rparr>)
      = poll 13 head implementation branch expected_base (monotonic w h + of_int timeout) w (u\<lparr>trace := Clock # h\<rparr>)"
    if "timeout \<le> 120" for branch h u
    unfolding n using twelve [OF that] by (rule poll_more)
  show ?thesis
    unfolding wait_for_candidate_def bindI_def Let_def now_def
    using twelve more by (auto split: prod.splits sum.splits)
qed

lemma poll_Inr:
  "poll n head implementation branch expected_base limit w s = (Inr (Some report), t) \<Longrightarrow>
     report = still_waiting head expected_base \<or> receipt_seen w s t head implementation branch expected_base report"
proof (induction n arbitrary: s)
  case (Suc n)
  then obtain r s1 where tr: "try_receipt head implementation branch expected_base w s = (Inr r, s1)"
    and rest: "(case r of Some r \<Rightarrow> retI (Some r)
     | None \<Rightarrow> bindI now (\<lambda>t. if limit - t \<le> 0 then retI (Some (still_waiting head expected_base))
         else bindI (sleep (min 10 (limit - t))) (\<lambda>_. poll n head implementation branch expected_base limit))) w s1
       = (Inr (Some report), t)"
    unfolding poll.simps by (elim bindI_InrE)
  show ?case
  proof (cases r)
    case (Some x)
    with rest have x: "x = report" "s1 = t" by auto
    from tr Some x have "candidate_receipt head implementation branch (utc_now w (trace s)) expected_base w s = (Inr (Some report), t)"
      unfolding try_receipt_def bindI_def wall_clock_def by (auto elim!: catch_SomeE)
    then show ?thesis by (intro disjI2 candidate_receipt_Inr)
  next
    case None
    let ?u = "s1\<lparr>trace := Sleep (min 10 (limit - monotonic w (trace s1))) # Clock # trace s1\<rparr>"
    have f: "frame s ?u"
      using observe_frame [OF observe_try tr] by (auto simp: frame_def intro: suffix_ConsI)
    from rest None consider "report = still_waiting head expected_base"
      | "poll n head implementation branch expected_base limit w ?u = (Inr (Some report), t)"
      by (auto simp: bindI_def now_def sleep_def split: if_splits)
    then show ?thesis
    proof cases
      case 2
      from Suc.IH [OF 2] receipt_seen_wider [OF _ f frame.none] show ?thesis by blast
    qed simp
  qed
qed simp

text \<open>
  C31. Waiting never becomes a success. What the wait returns is about exactly the candidate and the
  base it was asked for; it is the report that it still waits, or the report in the validated artifact
  of a trusted run of the running implementation on the default branch, to which a status of the
  candidate by the service points.
\<close>

theorem wait_report_bound:
  assumes "wait_for_candidate n head implementation timeout expected_base w s = (Inr (Some report), t)"
  shows "dget report ''candidate_sha'' = JStr head \<and> dget report ''base_sha'' = JStr expected_base
    \<and> (report = still_waiting head expected_base
      \<or> (\<exists>branch repository. observed w s t [] (JObj repository)
          \<and> dget repository ''default_branch'' = JStr branch
          \<and> receipt_seen w s t head implementation branch expected_base report))"
proof -
  from assms obtain repository s1 start s2 where g: "get [] w s = (Inr repository, s1)"
    and b: "is_str (dget repository ''default_branch'')" and nw: "now w s1 = (Inr start, s2)"
    and p: "poll n head implementation (str_of (dget repository ''default_branch'')) expected_base
         (start + of_int timeout) w s2 = (Inr (Some report), t)"
    unfolding wait_for_candidate_def Let_def by (elim run_elims) simp_all
  from b obtain branch where branch: "dget repository ''default_branch'' = JStr branch" by (auto simp: is_str_iff)
  have f1: "frame s s1" using get_observed [OF g] ..
  have f2: "frame s1 s2" using frame_now nw by (rule keepsD)
  have f3: "frame s2 t" using observe_poll p by (rule observe_frame)
  note f = frame.both [OF f1 f2] frame.both [OF f2 f3]
  from poll_Inr [OF p] branch
  have "report = still_waiting head expected_base \<or> receipt_seen w s t head implementation branch expected_base report"
    using receipt_seen_wider [OF _ f(1) frame.none] by auto
  moreover have "observed w s t [] (JObj repository)"
    using conjunct1 [OF get_observed [OF g]] frame.none f(2) by (rule observed_wider)
  moreover have "dget report ''candidate_sha'' = JStr head \<and> dget report ''base_sha'' = JStr expected_base"
    if "report = still_waiting head expected_base \<or> receipt_seen w s t head implementation branch expected_base report"
    using that by (auto simp: receipt_seen_def still_waiting_def)
  ultimately show ?thesis using branch by blast
qed

section \<open>A receipt in the sample world\<close>

lemma receipt_sample_texts:
  "status_run ''Strukturpiloten/boxferry'' (JStr ''https://github.com/Strukturpiloten/boxferry/actions/runs/5'')
     = Inr (Some ''5'')"
  "run_number ''5'' = Inr 5"
  "bound_report sample_status sample_service_run sample_state (sha_of CHR ''b'') (sha_of CHR ''a'') = Inr (Some sample_report)"
  "dget sample_status ''context'' = JStr STATUS_CONTEXT"
  "dget_or sample_status ''target_url'' (JStr []) = JStr ''https://github.com/Strukturpiloten/boxferry/actions/runs/5''"
  "attr_get (dget_or sample_status ''creator'' (JObj [])) ''login'' = Inr (JStr ''github-actions[bot]'')"
  by code_simp+

lemma trusted_exact_any:
  "service_revision run = Some implementation \<Longrightarrow>
     trusted_run run implementation branch False = trusted_run run implementation branch True"
  by (simp add: trusted_run_def Let_def cong: if_cong option.case_cong)

lemma state_world_request: "request m p d state_world s = request m p d (table_world state_table) s"
  by (simp add: request_def bindI_def bump_def now_def http_def state_world_def)

lemma state_world_root: "spare 1 s \<Longrightarrow> get [] state_world s = (Inr [(''default_branch'', JStr ''main'')], got [] s)"
  by (simp add: get_Inr request_Inr answered_def reply_value_def table_world_def quiet_world_def got_def
      state_world_request spare_def repo_path_def MAX_JSON_BYTES_def startswith_def)
    (simp add: state_table_def)

lemma state_world_statuses:
  assumes "spare 1 s"
  shows "items (''commits/'' @ sha_of CHR ''b'' @ ''/statuses?per_page=100'') state_world s
    = (Inr [sample_status], got (''commits/'' @ sha_of CHR ''b'' @ ''/statuses?per_page=100'') s)"
proof -
  let ?p = "''commits/'' @ sha_of CHR ''b'' @ ''/statuses?per_page=100''"
  have "map_of state_table ?p = Some (JList [JObj sample_status])"
    by (simp add: state_table_def sha_of_def)
  moreover have "length ?p \<le> 1000" by (simp add: sha_of_def)
  ultimately have "request ''GET'' (repo_path (api_repository s) ?p) None state_world s
      = (Inr (JList [JObj sample_status]), got ?p s)"
    unfolding state_world_request using assms by (intro table_request) (simp_all add: spare_def)
  then show ?thesis unfolding items_Inr by (intro exI [of _ "[JObj sample_status]"]) simp
qed

lemma sample_receipt:
  assumes "spare 5 s"
  shows "\<exists>t. candidate_receipt (sha_of CHR ''b'') (sha_of CHR ''c'') ''main'' 3 (sha_of CHR ''a'') state_world s
    = (Inr (Some sample_report), t)"
proof -
  let ?p = "''commits/'' @ sha_of CHR ''b'' @ ''/statuses?per_page=100''"
  let ?r = "''actions/runs/5''"
  let ?c = "''compare/'' @ sha_of CHR ''a'' @ ''...main''"
  have items: "items ?p state_world s = (Inr [sample_status], got ?p s)"
    using assms by (intro state_world_statuses) (simp add: spare_def)
  have run: "get ?r state_world (got ?p s) = (Inr sample_service_run, got ?r (got ?p s))"
    using assms by (intro state_world_get state_rows) (simp_all add: spare_def)
  have trust: "trusted_run sample_service_run (sha_of CHR ''c'') ''main'' False state_world (got ?r (got ?p s))
      = (Inr True, got ?c (got ?r (got ?p s)))"
    unfolding trusted_exact_any [OF sample_run_fields(1)]
    using assms by (intro state_world_trusted) (simp add: spare_def)
  obtain u where artifact: "run_artifact 5 state_world (got ?c (got ?r (got ?p s))) = (Inr sample_state, u)"
    using state_world_artifact [of "got ?c (got ?r (got ?p s))"] assms by (auto simp: spare_def)
  have valid: "validate_state (fromisoformat state_world) sample_state ''Strukturpiloten/boxferry'' 5 (sha_of CHR ''c'') 3
      = Inr sample_state"
    unfolding state_world_def by (simp, code_simp)
  have "receipt_of sample_status (sha_of CHR ''b'') (sha_of CHR ''c'') ''main'' 3 (sha_of CHR ''a'') state_world (got ?p s)
      = (Inr (Some sample_report), u)"
    using assms run trust artifact valid
    by (simp add: receipt_of_def receipt_sample_texts sample_run_fields spare_def cong: run_congs)
  with items show ?thesis
    by (simp add: candidate_receipt_def receipt_sample_texts revision_def sample_hex cong: run_congs)
qed

theorem wait_report_bound_witness:
  "\<exists>t. wait_for_candidate 13 (sha_of CHR ''b'') (sha_of CHR ''c'') 90 (sha_of CHR ''a'') state_world sample_client
      = (Inr (Some sample_report), t)
    \<and> dget sample_report ''candidate_sha'' = JStr (sha_of CHR ''b'')"
proof -
  let ?s = "got [] sample_client"
  have "spare 5 (?s\<lparr>trace := Clock # trace ?s\<rparr>)" by (simp add: spare_def sample_client_def)
  from sample_receipt [OF this] obtain t where
    "candidate_receipt (sha_of CHR ''b'') (sha_of CHR ''c'') ''main'' 3 (sha_of CHR ''a'') state_world
       (?s\<lparr>trace := Clock # trace ?s\<rparr>) = (Inr (Some sample_report), t)" ..
  moreover have "utc_now state_world h = 3" for h by (simp add: state_world_def)
  ultimately have "try_receipt (sha_of CHR ''b'') (sha_of CHR ''c'') ''main'' (sha_of CHR ''a'') state_world
       (?s\<lparr>trace := Clock # trace ?s\<rparr>) = (Inr (Some sample_report), t)"
    by (simp add: try_receipt_def wall_clock_def bindI_def catchI_def)
  then have "poll 13 (sha_of CHR ''b'') (sha_of CHR ''c'') ''main'' (sha_of CHR ''a'') limit state_world
       (?s\<lparr>trace := Clock # trace ?s\<rparr>) = (Inr (Some sample_report), t)" for limit
    using poll.simps(2) [of 12] by simp
  with state_world_root [of sample_client]
  have run: "wait_for_candidate 13 (sha_of CHR ''b'') (sha_of CHR ''c'') 90 (sha_of CHR ''a'') state_world sample_client
      = (Inr (Some sample_report), t)"
    by (simp add: wait_for_candidate_def revision_def sample_hex now_def del: poll.simps cong: run_congs)
  with wait_report_bound [OF run] show ?thesis by blast
qed

text \<open>A world where only sleeping takes time.\<close>

definition slept :: "event \<Rightarrow> rat" where
  "slept e = (case e of Sleep q \<Rightarrow> max 0 q | _ \<Rightarrow> 0)"

theorem wait_returns_witness:
  "sleeps_pass (state_world\<lparr>monotonic := \<lambda>h. sum_list (map slept h)\<rparr>)
   \<and> fst (wait_for_candidate 20 (sha_of CHR ''b'') (sha_of CHR ''c'') 120 (sha_of CHR ''d'')
        (state_world\<lparr>monotonic := \<lambda>h. sum_list (map slept h)\<rparr>) sample_client) \<noteq> Inr None"
proof -
  have "sleeps_pass (state_world\<lparr>monotonic := \<lambda>h. sum_list (map slept h)\<rparr>)"
    by (auto simp: sleeps_pass_def slept_def split: event.split)
  then show ?thesis by (intro conjI conjunct2 [OF wait_returns]) simp_all
qed

end
