(* ===== verification/Host.thy ===== *)
theory Host
  imports Effects
begin

text \<open>
  The machine a command of the automation package runs on: HTTPS requests without credentials, child
  processes, the pipe of a Git transaction, the environment, files, clocks and the outputs of a
  workflow step. The state of a program is the history of its effects, the newest first, and the world
  \<open>host\<close> answers the next effect after a history.
\<close>

section \<open>Effects and their answers\<close>

datatype host_event =
    Fetched string
  | Command string "string list"
  | Paused rat
  | Ticked
  | Asked string
  | Wrote string string
  | TxnOpened "string list"
  | TxnSent string
  | TxnReceived char
  | TxnClosed

text \<open>
  A request ends with the final address, status and body of a response, with the address and code of
  an HTTP error, or without an answer, which is a \<open>URLError\<close> or \<open>TimeoutError\<close>; a connection that breaks later is
  another \<open>OSError\<close>, and an answer that is not HTTP an \<open>HTTPException\<close>; a process that did not start or timed out, or the status and
  standard output and error of one that ended.
\<close>

datatype http_reply = HttpOk string int string | HttpFailed string int | HttpDown
  | HttpBroken string | HttpInvalid string

datatype command_reply = CommandFailed | Exited int string string

text \<open>The pipe of a Git transaction: what a write accepts and what the next read gives.\<close>

datatype pipe_reply = NotReady | PipeBroken | EndOfPipe | PipeByte char

type_synonym history = "host_event list"
type_synonym environment = "string \<Rightarrow> string option"

record host =
  http_reply :: "history \<Rightarrow> string \<Rightarrow> http_reply"
  command_reply :: "history \<Rightarrow> string \<Rightarrow> environment \<Rightarrow> string list \<Rightarrow> command_reply"
  environ :: environment
  host_clock :: "history \<Rightarrow> rat"
  resolved :: "string \<Rightarrow> string list"
  resolved_strict :: "string \<Rightarrow> string list option"
  regular_file :: "string list \<Rightarrow> bool"
  file_text :: "history \<Rightarrow> string \<Rightarrow> string option"
  json_pairs :: "string \<Rightarrow> dict list \<times> json option"
  json_value :: "string \<Rightarrow> json option"
  json_shown :: "json \<Rightarrow> string"
  path_present :: "history \<Rightarrow> string \<Rightarrow> bool"
  path_link :: "history \<Rightarrow> string \<Rightarrow> bool"
  path_file :: "history \<Rightarrow> string \<Rightarrow> (nat \<times> bool \<times> string) option"
  environ_names :: "string list"
  home_dir :: string
  program_path :: "history \<Rightarrow> string \<Rightarrow> string \<Rightarrow> string option"
  toml_value :: "string \<Rightarrow> json option"
  digest_hex :: "string \<Rightarrow> string"
  run_text :: "environment \<Rightarrow> string list \<Rightarrow> string \<Rightarrow> string"
  scratch_dir :: "history \<Rightarrow> string"
  archive_contents :: "history \<Rightarrow> string \<Rightarrow> nat \<times> (string \<times> nat \<times> bool) list option"
  txn_starts :: "history \<Rightarrow> string list \<Rightarrow> bool"
  txn_writes :: "history \<Rightarrow> string \<Rightarrow> nat option"
  txn_ready :: "history \<Rightarrow> bool"
  txn_reads :: "history \<Rightarrow> pipe_reply"
  txn_status :: "history \<Rightarrow> int option"

text \<open>
  Of a path: whether it exists or is a link, whether it is a link, and of a regular file the size
  \<open>stat\<close> reports, whether it may be executed, and its bytes. \<open>program_path\<close> is \<open>shutil.which\<close>. Of an
  archive: its size and its members with name, size and whether they are files or directories.
\<close>

type_synonym 'a prog = "(host, history, 'a) io"

text \<open>A machine on which nothing answers.\<close>

definition blank_host :: host where
  "blank_host = \<lparr>http_reply = (\<lambda>h url. HttpDown), command_reply = (\<lambda>h dir env argv. CommandFailed),
     environ = Map.empty, host_clock = (\<lambda>_. 0), resolved = (\<lambda>_. []), resolved_strict = (\<lambda>_. None),
     regular_file = (\<lambda>_. False), file_text = (\<lambda>_ _. None), json_pairs = (\<lambda>_. ([], None)),
     json_value = (\<lambda>_. None), json_shown = (\<lambda>_. []), path_present = (\<lambda>_ _. False), path_link = (\<lambda>_ _. False),
     path_file = (\<lambda>_ _. None), environ_names = [], home_dir = [], program_path = (\<lambda>_ _ _. None),
     toml_value = (\<lambda>_. None), digest_hex = (\<lambda>s. s), run_text = (\<lambda>env argv s. s), scratch_dir = (\<lambda>_. []),
     archive_contents = (\<lambda>_ _. (0, None)),
     txn_starts = (\<lambda>_ _. False), txn_writes = (\<lambda>_ _. None), txn_ready = (\<lambda>_. False), txn_reads = (\<lambda>_. EndOfPipe),
     txn_status = (\<lambda>_. None)\<rparr>"

section \<open>Primitive effects\<close>

definition environ_or :: "string \<Rightarrow> string \<Rightarrow> string prog" where
  "environ_or key v w h = (Inr (case environ w key of None \<Rightarrow> v | Some s \<Rightarrow> s), h)"

definition fetch :: "string \<Rightarrow> http_reply prog" where
  "fetch url w h = (Inr (http_reply w h url), Fetched url # h)"

text \<open>What the machine answers at the present point, without an effect of its own.\<close>

definition probe :: "(host \<Rightarrow> history \<Rightarrow> 'a) \<Rightarrow> 'a prog" where
  "probe f w h = (Inr (f w h), h)"

definition pause :: "rat \<Rightarrow> unit prog" where
  "pause q w h = (Inr (), Paused q # h)"

definition clock :: "rat prog" where
  "clock w h = (Inr (host_clock w h), Ticked # h)"

definition spawn :: "string \<Rightarrow> environment \<Rightarrow> string list \<Rightarrow> command_reply prog" where
  "spawn cwd env argv w h = (Inr (command_reply w h cwd env argv), Command cwd argv # h)"

definition read_file :: "string \<Rightarrow> string prog" where
  "read_file path w h =
     ((case file_text w h path of None \<Rightarrow> Inl (OSError path) | Some s \<Rightarrow> Inr s), Asked path # h)"

text \<open>\<open>subprocess.run(..., check=True)\<close> and \<open>check_output\<close>: a failure raises.\<close>

definition checked_output :: "string \<Rightarrow> string list \<Rightarrow> string prog" where
  "checked_output cwd argv =
     bindI (askI environ) (\<lambda>env.
     bindI (spawn cwd env argv) (\<lambda>r. case r of
       CommandFailed \<Rightarrow> raiseI SubprocessError
     | Exited status out err \<Rightarrow> if status \<noteq> 0 then raiseI SubprocessError else liftI (decode_utf8 out)))"

text \<open>\<open>write_outputs\<close> of \<open>release.py\<close>: the step outputs, when the file is named.\<close>

definition write_output :: "string \<times> string \<Rightarrow> unit prog" where
  "write_output kv w h = (Inr (), Wrote (fst kv) (snd kv) # h)"

definition write_outputs :: "(string \<times> string) list \<Rightarrow> unit prog" where
  "write_outputs kvs =
     bindI (environ_or ''GITHUB_OUTPUT'' []) (\<lambda>path.
     if path = [] then retI () else bindI (mapI write_output kvs) (\<lambda>_. retI ()))"

text \<open>\<open>try ... finally ...\<close>: the last part runs in any case; an exception of its own replaces the result.\<close>

definition finallyI :: "('w, 's, 'a) io \<Rightarrow> ('w, 's, unit) io \<Rightarrow> ('w, 's, 'a) io" where
  "finallyI m f w s = (case m w s of (r, s') \<Rightarrow>
     (case f w s' of (Inl e, s'') \<Rightarrow> (Inl e, s'') | (Inr _, s'') \<Rightarrow> (r, s'')))"

section \<open>Git\<close>

text \<open>\<open>bootstrap.git_environment\<close> and \<open>bootstrap.run_git\<close>.\<close>

definition host_git_environment :: "environment \<Rightarrow> environment" where
  "host_git_environment env key =
     (if key \<in> {''GIT_CONFIG_GLOBAL'', ''GIT_CONFIG_SYSTEM''} then Some ''/dev/null''
      else if key = ''GIT_TERMINAL_PROMPT'' then Some ''0''
      else if key \<in> {''GIT_CONFIG_NOSYSTEM'', ''GIT_NO_REPLACE_OBJECTS'', ''GIT_ATTR_NOSYSTEM''} then Some ''1''
      else if startswith key ''GIT_'' then None
      else env key)"

definition isolation :: "string list" where
  "isolation =
     [''git'', ''--no-replace-objects'', ''-c'', ''core.hooksPath=/dev/null'', ''-c'', ''maintenance.auto=false'',
      ''-c'', ''gc.auto=0'', ''-c'', ''protocol.file.allow=never'', ''-c'', ''protocol.ext.allow=never'']"

definition run_git :: "string \<Rightarrow> string list \<Rightarrow> string prog" where
  "run_git dir arguments =
     bindI (askI environ) (\<lambda>env.
     bindI (spawn [] (host_git_environment env) (isolation @ [''-C'', dir] @ arguments)) (\<lambda>r. case r of
       CommandFailed \<Rightarrow> raiseI (BootstrapError ''shared automation Git operation failed: {}'' [])
     | Exited status out err \<Rightarrow>
         if status \<noteq> 0 then raiseI (BootstrapError ''shared automation Git operation failed: {}'' [])
         else bindI (liftI (decode_utf8 out)) (\<lambda>s. retI (py_strip s))))"

section \<open>Text\<close>

text \<open>\<open>s.splitlines()\<close> of a string, on its characters.\<close>

definition is_line_end :: "string \<Rightarrow> bool" where
  "is_line_end u = (map ord u \<in> set [[10], [11], [12], [13], [28], [29], [30], [0xC2, 0x85],
     [0xE2, 0x80, 0xA8], [0xE2, 0x80, 0xA9]])"

fun char_lines :: "string list \<Rightarrow> string list" where
  "char_lines [] = []"
| "char_lines (c # cs) =
     (if c = [carriage] \<and> startswith cs [[newline]] then char_lines cs
      else if is_line_end c then [] # char_lines cs
      else (case char_lines cs of [] \<Rightarrow> [c] | l # ls \<Rightarrow> (c @ l) # ls))"

definition str_lines :: "string \<Rightarrow> string list" where
  "str_lines s = char_lines (utf8_chars s)"

text \<open>Names of packages, stable versions and jobs.\<close>

definition is_package :: "string \<Rightarrow> bool" where
  "is_package s = list_all (\<lambda>p. p \<noteq> [] \<and> list_all (\<lambda>c. is_lower c \<or> is_digit c) p) (split_on CHR ''-'' s)"

text \<open>What a program leaves in the history.\<close>

definition extends :: "(host_event \<Rightarrow> bool) \<Rightarrow> history \<Rightarrow> history \<Rightarrow> bool" where
  "extends P h h' \<longleftrightarrow> (\<exists>new. h' = new @ h \<and> list_all P new)"

lemma extends_step: "step_rule (extends P)"
proof
  show "extends P s s" for s by (simp add: extends_def)
  show "extends P s u" if "extends P s t" "extends P t u" for s t u
    using that by (force simp: extends_def)
qed

interpretation host: step_rule "extends P" for P
  by (rule extends_step)

text \<open>The effects of the machine keep it when their own event has the property.\<close>

lemma extends_one: "(\<And>w h. snd (m w h) = h \<or> (\<exists>e. P e \<and> snd (m w h) = e # h)) \<Longrightarrow> keeps (extends P) m"
proof (rule keepsI)
  fix w h r h'
  assume one: "\<And>w h. snd (m w h) = h \<or> (\<exists>e. P e \<and> snd (m w h) = e # h)" and run: "m w h = (r, h')"
  from one [of w h] run show "extends P h h'"
    by (auto simp: extends_def intro: exI [of _ "[]"] exI [of _ "[_]"])
qed

lemma extends_effects:
  "P (Command dir argv) \<Longrightarrow> keeps (extends P) (spawn dir env argv)"
  "P Ticked \<Longrightarrow> keeps (extends P) clock"
  "P (Fetched url) \<Longrightarrow> keeps (extends P) (fetch url)"
  "P (Paused q) \<Longrightarrow> keeps (extends P) (pause q)"
  "P (Asked path) \<Longrightarrow> keeps (extends P) (read_file path)"
  "P (Wrote (fst kv) (snd kv)) \<Longrightarrow> keeps (extends P) (write_output kv)"
  "keeps (extends P) (environ_or key v)"
  "keeps (extends P) (probe f)"
  by (rule extends_one, simp add: probe_def spawn_def clock_def fetch_def pause_def read_file_def write_output_def environ_or_def)+

lemma keeps_finally: "keeps (extends P) m \<Longrightarrow> keeps (extends P) f \<Longrightarrow> keeps (extends P) (finallyI m f)"
proof (rule keepsI)
  fix w h r h'
  assume m: "keeps (extends P) m" and f: "keeps (extends P) f" and run: "finallyI m f w h = (r, h')"
  obtain q h1 where q: "m w h = (q, h1)" by force
  obtain z h2 where z: "f w h1 = (z, h2)" by force
  from run q z have "h' = h2" by (cases z) (simp_all add: finallyI_def)
  with keepsD [OF m, OF q] keepsD [OF f, OF z] show "extends P h h'" by (meson host.both)
qed

lemma keeps_reply: "(\<And>status out err. keeps R (f status out err)) \<Longrightarrow> keeps R m \<Longrightarrow>
    keeps R (case r of CommandFailed \<Rightarrow> m | Exited status out err \<Rightarrow> f status out err)"
  by (cases r) auto

lemmas host_rules = host.keeps_rules extends_effects keeps_finally keeps_reply

text \<open>A history only grows, and what was seen between two histories was seen between wider ones.\<close>

lemma keeps_suffix: "keeps (extends P) m \<Longrightarrow> m w h = (r, h') \<Longrightarrow> suffix h h'"
  by (drule keepsD) (auto simp: extends_def suffix_def)

definition during :: "history \<Rightarrow> history \<Rightarrow> (history \<Rightarrow> host_event \<Rightarrow> bool) \<Rightarrow> bool" where
  "during h h' P \<longleftrightarrow> (\<exists>g e. suffix h g \<and> suffix (e # g) h' \<and> P g e)"

lemma during_wider: "during g g' P \<Longrightarrow> suffix h g \<Longrightarrow> suffix g' h' \<Longrightarrow> during h h' P"
  unfolding during_def by (meson suffix_order.trans)

lemma during_step: "P h e \<Longrightarrow> during h (e # h) P"
  unfolding during_def by blast

lemma probe_run [simp]: "probe f w h = (Inr (f w h), h)"
  by (simp add: probe_def)

end
