(* ===== verification/Release.thy ===== *)
theory Release
  imports Host Candidate
begin

text \<open>
  \<open>release.py\<close>: the release policy and its gate, the release type of a merge queue entry, the order
  and the registry state of the crates that are published.
  A failing command ends with status 1; here it is the exception.
\<close>

section \<open>Names\<close>

definition is_version :: "string \<Rightarrow> bool" where
  "is_version s = (length (split_on CHR ''.'' s) = 3
     \<and> list_all (\<lambda>p. p \<noteq> [] \<and> list_all is_digit p) (split_on CHR ''.'' s))"

definition is_job :: "string \<Rightarrow> bool" where
  "is_job s = (s \<noteq> [] \<and> (is_lower (hd s) \<or> is_upper (hd s) \<or> hd s = CHR ''_'')
     \<and> list_all (\<lambda>c. is_alnum c \<or> c \<in> set ''_-'') (tl s))"

text \<open>\<open>BREAKING_SUBJECT\<close>: a type, an optional scope in parentheses, \<open>!: \<close> and a text on one line.\<close>

definition bang :: "string \<Rightarrow> bool" where
  "bang s = (startswith s ''!: '' \<and> drop 3 s \<noteq> [] \<and> newline \<notin> set (drop 3 s))"

definition breaking_rest :: "string \<Rightarrow> bool" where
  "breaking_rest s =
     (bang s \<or>
      (case s of
         [] \<Rightarrow> False
       | c # r \<Rightarrow> c = CHR ''('' \<and> takeWhile (\<lambda>x. x \<noteq> CHR '')'') r \<noteq> []
           \<and> (case dropWhile (\<lambda>x. x \<noteq> CHR '')'') r of [] \<Rightarrow> False | _ # r' \<Rightarrow> bang r')))"

definition breaking_subject :: "string \<Rightarrow> bool" where
  "breaking_subject s =
     list_ex (\<lambda>kind. startswith s kind \<and> breaking_rest (drop (length kind) s))
       [''feat'', ''fix'', ''perf'', ''refactor'', ''revert'']"

definition RELEASE_REPOSITORIES :: "string list" where
  "RELEASE_REPOSITORIES = map (\<lambda>name. ''Strukturpiloten/'' @ name)
     [''boxferry'', ''compose-lens'', ''podman-lens'', ''quadlet-lens'', ''docker-lens'', ''kubernetes-lens'']"

section \<open>The release type of a queue entry\<close>

record queue_binding =
  bind_base :: string
  bind_head :: string
  bind_number :: int
  bind_source :: string
  bind_title :: string
  bind_target :: string
  bind_repository :: string
  bind_login :: string
  bind_type :: string

text \<open>The exact source request, and its identity under the contract of the current queue or the older one.\<close>

definition title_unbound :: "queue_binding \<Rightarrow> dict \<Rightarrow> bool" where
  "title_unbound b d =
     (let base = dget d ''base''; head = dget d ''head''; title = dget d ''title'' in
      dget d ''state'' \<noteq> JStr ''open'' \<or> \<not> py_eq (dget d ''number'') (JInt (bind_number b))
      \<or> \<not> is_obj base \<or> \<not> is_obj head \<or> dget (dict_of head) ''sha'' \<noteq> JStr (bind_source b)
      \<or> \<not> is_str title \<or> \<not> (1 \<le> py_len (str_of title) \<and> py_len (str_of title) \<le> 512)
      \<or> has_line_break (str_of title)
      \<or> (bind_title b \<noteq> [] \<and> str_of title \<noteq> bind_title b))"

definition current_identity :: "queue_binding \<Rightarrow> dict \<Rightarrow> bool" where
  "current_identity b d =
     (let base = dict_of (dget d ''base''); head = dict_of (dget d ''head''); actor = dget d ''user'' in
      bind_repository b \<in> set REPOSITORIES \<and> bind_title b \<noteq> [] \<and> bind_login b \<noteq> []
      \<and> bind_type b \<in> {''User'', ''Bot''} \<and> dget base ''ref'' = JStr (bind_target b)
      \<and> is_obj (dget base ''repo'') \<and> dget (dict_of (dget base ''repo'')) ''full_name'' = JStr (bind_repository b)
      \<and> is_obj (dget head ''repo'') \<and> dget (dict_of (dget head ''repo'')) ''full_name'' = JStr (bind_repository b)
      \<and> is_obj actor \<and> dget (dict_of actor) ''login'' = JStr (bind_login b)
      \<and> dget (dict_of actor) ''type'' = JStr (bind_type b))"

definition queue_title :: "queue_binding \<Rightarrow> json \<Rightarrow> string res" where
  "queue_title b pull =
     (let d = dict_of pull in
      if \<not> is_obj pull then Inl (ReleaseError ''authoritative queue source PR is unavailable'' [])
      else if title_unbound b d
      then Inl (ReleaseError ''queue source PR title is not bound to its live exact identity'' [])
      else if bind_target b \<noteq> [] then
        (if \<not> current_identity b d
         then Inl (ReleaseError ''current proved queue source/target/author identity changed'' [])
         else Inr (str_of (dget d ''title'')))
      else if dget (dict_of (dget d ''base'')) ''sha'' \<noteq> JStr (bind_base b) \<or> bind_repository b \<noteq> []
              \<or> bind_login b \<noteq> [] \<or> bind_type b \<noteq> []
      then Inl (ReleaseError ''legacy queue source PR does not bind the exact base'' [])
      else Inr (str_of (dget d ''title'')))"

text \<open>The classification reads the queue and the request twice; the readers are arguments, as in the code.\<close>

definition read_title :: "(int \<Rightarrow> ('w, 's, json) io) \<Rightarrow> queue_binding \<Rightarrow> ('w, 's, string) io" where
  "read_title read_pull b = bindI (read_pull (bind_number b)) (\<lambda>pull. liftI (queue_title b pull))"

definition queue_release_type ::
  "string \<Rightarrow> string \<Rightarrow> ('w, 's, queue_binding) io \<Rightarrow> (int \<Rightarrow> ('w, 's, json) io) \<Rightarrow> ('w, 's, string) io" where
  "queue_release_type base_sha candidate_sha resolve read_pull =
     (let moved = ReleaseError ''authoritative merge queue identity changed during SemVer classification'' [] in
      if \<not> is_sha base_sha \<or> \<not> is_sha candidate_sha
      then raiseI (ReleaseError ''queue classification requires full base and tested commit SHAs'' [])
      else
      bindI resolve (\<lambda>before.
      if bind_base before \<noteq> base_sha \<or> bind_head before \<noteq> candidate_sha \<or> \<not> is_sha (bind_source before)
         \<or> bind_number before < 1
      then raiseI (ReleaseError ''authoritative queue entry does not match the exact tested comparison'' [])
      else
      bindI (read_title read_pull before) (\<lambda>title.
      bindI resolve (\<lambda>again.
      if again \<noteq> before then raiseI moved
      else
      bindI (read_title read_pull before) (\<lambda>title'.
      if title' \<noteq> title then raiseI moved
      else retI (if breaking_subject title then ''major'' else []))))))"

text \<open>The binding of a proved queue candidate.\<close>

definition binding_of :: "string \<Rightarrow> candidate \<Rightarrow> queue_binding" where
  "binding_of repository c =
     (let current = queue_target c \<noteq> [] in
      \<lparr>bind_base = cand_base c, bind_head = cand_head c, bind_number = cand_number c,
       bind_source = source_head c, bind_title = cand_title c, bind_target = queue_target c,
       bind_repository = (if current then repository else []),
       bind_login = (if current then actor_login c else []),
       bind_type = (if current then actor_type c else [])\<rparr>)"

definition resolve_binding :: "string \<Rightarrow> string \<Rightarrow> queue_binding api" where
  "resolve_binding candidate_sha default_branch =
     bindI (queue_candidate candidate_sha default_branch) (\<lambda>c.
     bindI (getI api_repository) (\<lambda>repository. retI (binding_of repository c)))"

definition read_pull :: "int \<Rightarrow> json api" where
  "read_pull number = bindI (get (''pulls/'' @ show_int number)) (\<lambda>d. retI (JObj d))"

definition classify_queue :: "string \<Rightarrow> string \<Rightarrow> string \<Rightarrow> string api" where
  "classify_queue base_sha candidate_sha default_branch =
     catchI (queue_release_type base_sha candidate_sha (resolve_binding candidate_sha default_branch) read_pull)
       (\<lambda>e. if is_EligibilityError e
             then raiseI (ReleaseError ''authoritative queue SemVer metadata unavailable: {}'' [])
             else raiseI e)"

section \<open>The release policy\<close>

text \<open>\<open>unique_object\<close>: the object hook, for every object the decoder completes, and \<open>read_json\<close>.\<close>

fun release_object :: "string list \<Rightarrow> dict \<Rightarrow> dict res" where
  "release_object seen [] = Inr []"
| "release_object seen ((key, v) # pairs) =
     (if key \<in> set seen then Inl (ReleaseError ''duplicate JSON key: {}'' [key])
      else bindR (release_object (key # seen) pairs) (\<lambda>rest. Inr ((key, v) # rest)))"

definition release_json :: "(string \<Rightarrow> dict list \<times> json option) \<Rightarrow> string \<Rightarrow> json res" where
  "release_json loads text =
     bindR (mapR (release_object []) (fst (loads text))) (\<lambda>_.
     case snd (loads text) of None \<Rightarrow> Inl (ValueError ''JSONDecodeError'') | Some v \<Rightarrow> Inr v)"

definition string_list :: "(string \<Rightarrow> bool) \<Rightarrow> string \<Rightarrow> json \<Rightarrow> string list res" where
  "string_list valid label v =
     (let xs = list_of v in
      if \<not> is_list v \<or> \<not> (1 \<le> length xs \<and> length xs \<le> 64)
         \<or> \<not> list_all (\<lambda>x. is_str x \<and> valid (str_of x)) xs \<or> \<not> distinct xs
      then Inl (ReleaseError ''{} must be a nonempty unique list of valid names'' [label])
      else Inr (map str_of xs))"

definition release_policy_keys :: "string list" where
  "release_policy_keys = [''schema'', ''repository'', ''packages'', ''required_jobs'']"

definition release_policy :: "(string \<Rightarrow> dict list \<times> json option) \<Rightarrow> string \<Rightarrow> string \<Rightarrow> dict res" where
  "release_policy loads text repository =
     bindR (release_json loads text) (\<lambda>v.
     let d = dict_of v; bootstrap = dget d ''bootstrap_version'' in
     if \<not> is_obj v \<or> \<not> set release_policy_keys \<subseteq> keys d
        \<or> \<not> keys d \<subseteq> set (release_policy_keys @ [''publication_enabled'', ''bootstrap_version''])
     then Inl (ReleaseError ''release policy has missing or unknown fields'' [])
     else if dget d ''schema'' \<noteq> JInt 1
     then Inl (ReleaseError ''unsupported release policy schema'' [])
     else if repository \<notin> set RELEASE_REPOSITORIES \<or> dget d ''repository'' \<noteq> JStr repository
     then Inl (ReleaseError ''release policy repository does not match the allowlisted caller'' [])
     else
     bindR (string_list is_package ''packages'' (dget d ''packages'')) (\<lambda>_.
     bindR (string_list is_job ''required_jobs'' (dget d ''required_jobs'')) (\<lambda>_.
     if \<not> is_bool (dget_or d ''publication_enabled'' (JBool False))
     then Inl (ReleaseError ''publication_enabled must be a boolean'' [])
     else if bootstrap \<noteq> JNull \<and> \<not> (is_str bootstrap \<and> is_version (str_of bootstrap))
     then Inl (ReleaseError ''bootstrap_version must be an explicit stable version'' [])
     else Inr d)))"

text \<open>The names a loaded policy lists.\<close>

definition policy_names :: "dict \<Rightarrow> string \<Rightarrow> string list" where
  "policy_names policy key = map str_of (list_of (dget policy key))"

section \<open>The gate before a release\<close>

definition published_binding :: "dict \<Rightarrow> string \<Rightarrow> string \<Rightarrow> string list res" where
  "published_binding outs candidate_sha name =
     (let published = dget outs ''published_api_candidate_sha'' in
      if \<not> has_key outs ''published_api_candidate_sha'' then Inr []
      else if \<not> is_sha_str published \<or> published \<noteq> JStr candidate_sha
      then Inl (ReleaseError ''release prerequisite has invalid published API binding: {}'' [name])
      else Inr [str_of published])"

definition prerequisite :: "dict \<Rightarrow> string \<Rightarrow> string \<Rightarrow> string list res" where
  "prerequisite needs candidate_sha name =
     bindR (item needs name) (\<lambda>v.
     let outs = dget (dict_of v) ''outputs'' in
     if \<not> is_obj v \<or> dget (dict_of v) ''result'' \<noteq> JStr ''success''
     then Inl (ReleaseError ''release prerequisite did not succeed: {}'' [name])
     else if \<not> is_obj outs \<or> dget (dict_of outs) ''candidate_sha'' \<noteq> JStr candidate_sha
     then Inl (ReleaseError ''release prerequisite has no exact candidate binding: {}'' [name])
     else published_binding (dict_of outs) candidate_sha name)"

definition release_gate :: "dict \<Rightarrow> json \<Rightarrow> string \<Rightarrow> string res" where
  "release_gate policy needs candidate_sha =
     (let required = policy_names policy ''required_jobs'' in
      if \<not> is_sha candidate_sha
      then Inl (ReleaseError ''candidate must be one full commit SHA'' [])
      else if \<not> is_obj needs \<or> keys (dict_of needs) \<noteq> set required
      then Inl (ReleaseError ''release needs must contain exactly every configured prerequisite'' [])
      else
      bindR (mapR (prerequisite (dict_of needs) candidate_sha) required) (\<lambda>published.
      case concat published of
        [sha] \<Rightarrow> Inr sha
      | _ \<Rightarrow> Inl (ReleaseError ''release needs exactly one explicit published API candidate binding'' [])))"

section \<open>The crates to publish\<close>

record inventory =
  workspace_names :: "string list"
  inv_packages :: "(string \<times> dict) list"

text \<open>The files of the candidate: path resolution and the regular files.\<close>

record tree_reader =
  tree_root :: "string list option"
  tree_resolve :: "string \<Rightarrow> string list option"
  tree_file :: "string list \<Rightarrow> bool"

text \<open>A publishable package of the workspace.\<close>

definition publishable :: "tree_reader \<Rightarrow> string list \<Rightarrow> string \<Rightarrow> dict \<Rightarrow> dict res" where
  "publishable tree base name p =
     (let publish = dget p ''publish''; version = dget p ''version''; manifest = dget p ''manifest_path'' in
      if publish \<noteq> JNull \<and> publish \<noteq> JList [JStr ''crates-io'']
      then Inl (ReleaseError ''unsupported publication registry: {}'' [name])
      else if \<not> is_str version \<or> \<not> is_version (str_of version)
      then Inl (ReleaseError ''publication requires a stable package version: {}'' [name])
      else if \<not> is_str manifest
      then Inl (ReleaseError ''missing package manifest: {}'' [name])
      else (case tree_resolve tree (str_of manifest) of
          None \<Rightarrow> Inl (OSError (str_of manifest))
        | Some path \<Rightarrow>
            if \<not> prefix base path \<or> \<not> tree_file tree path
            then Inl (ReleaseError ''package manifest escapes the candidate: {}'' [name])
            else Inr p))"

definition add_package :: "tree_reader \<Rightarrow> string list \<Rightarrow> json list \<Rightarrow> inventory \<Rightarrow> json \<Rightarrow> inventory res" where
  "add_package tree base members found v =
     (let p = dict_of v; name = dget p ''name'' in
      if \<not> is_obj v \<or> dget p ''id'' \<notin> set members then Inr found
      else if \<not> is_str name \<or> \<not> is_package (str_of name) \<or> str_of name \<in> set (workspace_names found)
      then Inl (ReleaseError ''invalid or duplicate workspace package'' [])
      else let found' = found\<lparr>workspace_names := workspace_names found @ [str_of name]\<rparr> in
        if dget p ''publish'' = JList [] then Inr found'
        else bindR (publishable tree base (str_of name) p) (\<lambda>p.
          Inr (found'\<lparr>inv_packages := inv_packages found' @ [(str_of name, p)]\<rparr>)))"

fun add_packages :: "tree_reader \<Rightarrow> string list \<Rightarrow> json list \<Rightarrow> inventory \<Rightarrow> json list \<Rightarrow> inventory res" where
  "add_packages tree base members found [] = Inr found"
| "add_packages tree base members found (v # vs) =
     bindR (add_package tree base members found v) (\<lambda>found'. add_packages tree base members found' vs)"

text \<open>The internal dependencies of a package: the path dependencies in the workspace.\<close>

definition dependency_kinds :: "json list" where
  "dependency_kinds = [JNull, JStr ''normal'', JStr ''build'', JStr ''dev'']"

definition internal_dependency :: "inventory \<Rightarrow> string \<Rightarrow> json \<Rightarrow> string list res" where
  "internal_dependency found name v =
     (let d = dict_of v in
      if \<not> is_obj v \<or> dget d ''kind'' \<notin> set dependency_kinds
      then Inl (ReleaseError ''invalid dependency kind: {}'' [name])
      else if dget d ''path'' = JNull then Inr []
      else bindR (in_strings (dget d ''name'') (workspace_names found)) (\<lambda>local.
        if \<not> local then Inr []
        else if str_of (dget d ''name'') \<notin> keys (inv_packages found)
        then Inl (ReleaseError ''publication depends on an unpublished workspace crate: {}'' [name])
        else Inr [str_of (dget d ''name'')]))"

definition internal_dependencies :: "inventory \<Rightarrow> string \<Rightarrow> string list res" where
  "internal_dependencies found name =
     (case map_of (inv_packages found) name of
        None \<Rightarrow> Inl (KeyError name)
      | Some p \<Rightarrow>
          let declared = dget p ''dependencies'' in
          if \<not> is_list declared
          then Inl (ReleaseError ''invalid Cargo dependencies: {}'' [name])
          else bindR (mapR (internal_dependency found name) (list_of declared)) (\<lambda>xs. Inr (remdups (concat xs))))"

text \<open>The configured order: the dependencies of each package are before it.\<close>

fun publication_order ::
  "inventory \<Rightarrow> string list \<Rightarrow> string list \<Rightarrow> (string \<times> string list) list res" where
  "publication_order found available [] = Inr []"
| "publication_order found available (name # names) =
     bindR (internal_dependencies found name) (\<lambda>deps.
     if \<not> set deps \<subseteq> set available
     then Inl (ReleaseError ''configured publication order violates normal/build/dev dependencies: {}'' [name])
     else bindR (publication_order found (name # available) names) (\<lambda>rest. Inr ((name, deps) # rest)))"

definition publication_inventory ::
  "tree_reader \<Rightarrow> json \<Rightarrow> dict \<Rightarrow> ((string \<times> dict) list \<times> (string \<times> string list) list) res" where
  "publication_inventory tree metadata policy =
     (let m = dict_of metadata; members = dget m ''workspace_members'';
          names = policy_names policy ''packages'' in
      if \<not> is_obj metadata \<or> \<not> is_list (dget m ''packages'')
      then Inl (ReleaseError ''invalid Cargo metadata'' [])
      else if \<not> is_list members \<or> \<not> list_all is_str (list_of members)
      then Inl (ReleaseError ''invalid Cargo workspace members'' [])
      else
      bindR (case tree_root tree of None \<Rightarrow> Inl (OSError ''repository root'') | Some base \<Rightarrow> Inr base) (\<lambda>base.
      bindR (add_packages tree base (list_of members) \<lparr>workspace_names = [], inv_packages = []\<rparr>
               (list_of (dget m ''packages''))) (\<lambda>found.
      if keys (inv_packages found) \<noteq> set names
      then Inl (ReleaseError ''configured packages must exactly match publishable workspace packages'' [])
      else if length (remdups (map (\<lambda>(name, p). dget p ''version'') (inv_packages found))) \<noteq> 1
      then Inl (ReleaseError ''shared release publication requires one lockstep workspace version'' [])
      else
      bindR (publication_order found [] names) (\<lambda>dependencies. Inr (inv_packages found, dependencies)))))"

section \<open>The registry\<close>

definition registry_url :: "string \<Rightarrow> string \<Rightarrow> string" where
  "registry_url package version = ''https://crates.io/api/v1/crates/'' @ package @ ''/'' @ version"

text \<open>The status of one answer: \<open>None\<close> when the request must be repeated after a lost connection.\<close>

definition reply_status :: "string \<Rightarrow> http_reply \<Rightarrow> int option res" where
  "reply_status url r = (case r of
     HttpOk final status body \<Rightarrow>
       if final \<noteq> url then Inl (ReleaseError ''canonical registry request was redirected'' []) else Inr (Some status)
   | HttpFailed final status \<Rightarrow>
       if final \<noteq> url then Inl (ReleaseError ''canonical registry error response was redirected'' [])
       else Inr (Some status)
   | HttpDown \<Rightarrow> Inr None
   | HttpBroken name \<Rightarrow> Inl (OSError name)
   | HttpInvalid name \<Rightarrow> Inl (HttpException name))"

text \<open>The attempts that remain, four at the start.\<close>

fun registry_attempts :: "nat \<Rightarrow> string \<Rightarrow> int prog" where
  "registry_attempts 0 url =
     raiseI (ReleaseError ''canonical registry request exhausted its retry budget'' [])"
| "registry_attempts (Suc tries) url =
     bindI (fetch url) (\<lambda>r.
     bindI (liftI (reply_status url r)) (\<lambda>answer. case answer of
       None \<Rightarrow>
         if tries = 0 then raiseI (ReleaseError ''canonical registry request failed'' [])
         else bindI (pause 5) (\<lambda>_. registry_attempts tries url)
     | Some status \<Rightarrow>
         if status = 200 \<or> status = 404 then retI status
         else if tries = 0 \<or> (status \<noteq> 429 \<and> status < 500)
         then raiseI (ReleaseError ''unexpected canonical crates.io response: HTTP {}'' [show_int status])
         else bindI (pause 5) (\<lambda>_. registry_attempts tries url)))"

definition registry_status :: "string \<Rightarrow> string \<Rightarrow> int prog" where
  "registry_status package version =
     (if \<not> is_package package \<or> \<not> is_version version
      then raiseI (ReleaseError ''invalid canonical registry package/version'' [])
      else registry_attempts 4 (registry_url package version))"

section \<open>One publication\<close>

fun await_visible :: "nat \<Rightarrow> string \<Rightarrow> string \<Rightarrow> unit prog" where
  "await_visible 0 package version =
     raiseI (ReleaseError ''timed out waiting for {} {} on crates.io'' [package, version])"
| "await_visible (Suc tries) package version =
     bindI (registry_status package version) (\<lambda>status.
     if status = 200 then retI ()
     else bindI (pause 5) (\<lambda>_. await_visible tries package version))"

definition publish_argv :: "string \<Rightarrow> string list" where
  "publish_argv package = [''cargo'', ''publish'', ''--locked'', ''--package'', package]"

definition cargo_publish :: "string \<Rightarrow> string \<Rightarrow> unit prog" where
  "cargo_publish repository_root package =
     bindI (askI environ) (\<lambda>env.
     bindI (spawn repository_root env (publish_argv package)) (\<lambda>r. case r of
       CommandFailed \<Rightarrow> raiseI SubprocessError
     | Exited status out err \<Rightarrow> if status \<noteq> 0 then raiseI SubprocessError else retI ()))"

definition publish_crate :: "string \<Rightarrow> string \<Rightarrow> string \<Rightarrow> unit prog" where
  "publish_crate repository_root package version =
     bindI (registry_status package version) (\<lambda>status.
     if status = 200 then retI ()
     else
     bindI (cargo_publish repository_root package) (\<lambda>_.
     await_visible 60 package version))"

section \<open>Bindings and contexts\<close>

text \<open>The checkouts of the candidate and of the automation code are at their identities.\<close>

definition held_at :: "string \<Rightarrow> string \<Rightarrow> unit prog" where
  "held_at dir expected =
     bindI (checked_output [] [''git'', ''-C'', dir, ''rev-parse'', ''HEAD'']) (\<lambda>out.
     requireI (py_strip out = expected)
       (ReleaseError ''held checkout does not match its exact source identity'' []))"

definition verify_bindings :: "string \<Rightarrow> string \<Rightarrow> string \<Rightarrow> string \<Rightarrow> unit prog" where
  "verify_bindings repository_root automation_root candidate_sha automation_sha =
     (if \<not> is_sha candidate_sha \<or> \<not> is_sha automation_sha
      then raiseI (ReleaseError ''candidate and automation identities must be full commit SHAs'' [])
      else
      bindI (held_at repository_root candidate_sha) (\<lambda>_.
      bindI (held_at automation_root automation_sha) (\<lambda>_.
      bindI (askI environ) (\<lambda>env.
      requireI (env ''GITHUB_SHA'' = Some candidate_sha)
        (ReleaseError ''candidate does not match this caller run'' [])))))"

definition verify_publication_context :: "dict \<Rightarrow> string \<Rightarrow> unit prog" where
  "verify_publication_context policy candidate_sha =
     bindI (askI environ) (\<lambda>env.
     let branch = (case env ''BOXFERRY_DEFAULT_BRANCH'' of None \<Rightarrow> [] | Some b \<Rightarrow> b) in
     if env ''GITHUB_EVENT_NAME'' \<noteq> Some ''workflow_dispatch'' \<or> branch = []
        \<or> env ''GITHUB_REF'' \<noteq> Some (''refs/heads/'' @ branch) \<or> env ''GITHUB_SHA'' \<noteq> Some candidate_sha
     then raiseI (ReleaseError ''publication requires an explicit exact-default-branch release dispatch'' [])
     else requireI (truthy (dget_or policy ''publication_enabled'' (JBool False)))
       (ReleaseError ''this product is validation-only; publication is not enabled'' []))"

section \<open>A loaded policy is typed\<close>

definition names_json :: "(string \<Rightarrow> bool) \<Rightarrow> json \<Rightarrow> bool" where
  "names_json valid v \<longleftrightarrow> (\<exists>names. v = JList (map JStr names) \<and> distinct names
     \<and> 1 \<le> length names \<and> length names \<le> 64 \<and> list_all valid names)"

definition policy_typed :: "string \<Rightarrow> dict \<Rightarrow> bool" where
  "policy_typed repository d \<longleftrightarrow>
     dget d ''schema'' = JInt 1 \<and> dget d ''repository'' = JStr repository
     \<and> repository \<in> set RELEASE_REPOSITORIES
     \<and> names_json is_package (dget d ''packages'') \<and> names_json is_job (dget d ''required_jobs'')
     \<and> (\<exists>b. dget_or d ''publication_enabled'' (JBool False) = JBool b)
     \<and> (dget d ''bootstrap_version'' = JNull
        \<or> (\<exists>s. dget d ''bootstrap_version'' = JStr s \<and> is_version s))
     \<and> keys d \<subseteq> {''schema'', ''repository'', ''packages'', ''required_jobs'', ''publication_enabled'', ''bootstrap_version''}"

lemma strings_map: "list_all is_str xs \<Longrightarrow> xs = map JStr (map str_of xs)"
  by (induction xs) (auto simp: is_str_iff)

lemma string_list_Inr:
  "string_list valid label v = Inr names \<Longrightarrow> names_json valid v \<and> names = map str_of (list_of v)"
proof -
  assume "string_list valid label v = Inr names"
  then have v: "is_list v" "list_all (\<lambda>x. is_str x \<and> valid (str_of x)) (list_of v)" "distinct (list_of v)"
    "1 \<le> length (list_of v)" "length (list_of v) \<le> 64" "names = map str_of (list_of v)"
    by (auto simp: string_list_def Let_def split: if_splits)
  from v(2) have strs: "list_all is_str (list_of v)" and ok: "list_all valid names"
    unfolding v(6) by (simp_all add: list_all_iff)
  have j: "list_of v = map JStr names" unfolding v(6) by (rule strings_map [OF strs])
  have "distinct names" using v(3) unfolding j by (simp add: distinct_map)
  moreover have "v = JList (map JStr names)" using v(1) j by (auto simp: is_list_iff)
  moreover have "1 \<le> length names" "length names \<le> 64" using v(4,5) unfolding v(6) by simp_all
  ultimately show ?thesis using ok v(6) unfolding names_json_def by blast
qed

text \<open>
  A loaded release policy has its types: one repository of the allowlist, distinct valid package
  and job names in bounded number, a boolean switch for publication and a stable bootstrap version or
  none, and no other key.
\<close>

theorem release_policy_typed:
  assumes "release_policy loads text repository = Inr d"
  shows "policy_typed repository d"
proof -
  from assms obtain v ps js where v: "is_obj v" "d = dict_of v"
    and k: "keys d \<subseteq> set (release_policy_keys @ [''publication_enabled'', ''bootstrap_version''])"
    and s: "dget d ''schema'' = JInt 1" "repository \<in> set RELEASE_REPOSITORIES" "dget d ''repository'' = JStr repository"
    and ps: "string_list is_package ''packages'' (dget d ''packages'') = Inr ps"
    and js: "string_list is_job ''required_jobs'' (dget d ''required_jobs'') = Inr js"
    and b: "is_bool (dget_or d ''publication_enabled'' (JBool False))"
    and t: "dget d ''bootstrap_version'' \<noteq> JNull \<longrightarrow>
        is_str (dget d ''bootstrap_version'') \<and> is_version (str_of (dget d ''bootstrap_version''))"
    unfolding release_policy_def Let_def by (elim success_elims) blast
  with string_list_Inr [OF ps] string_list_Inr [OF js] show ?thesis
    by (auto simp: policy_typed_def release_policy_keys_def is_bool_iff is_str_iff)
qed

section \<open>What an accepted gate means\<close>

definition succeeded_for :: "string \<Rightarrow> json \<Rightarrow> bool" where
  "succeeded_for sha v \<longleftrightarrow> (\<exists>d outs. v = JObj d \<and> dget d ''result'' = JStr ''success''
     \<and> dget d ''outputs'' = JObj outs \<and> dget outs ''candidate_sha'' = JStr sha)"

definition publishes :: "json \<Rightarrow> bool" where
  "publishes v \<longleftrightarrow> has_key (dict_of (dget (dict_of v) ''outputs'')) ''published_api_candidate_sha''"

definition published_value :: "json \<Rightarrow> json" where
  "published_value v = dget (dict_of (dget (dict_of v) ''outputs'')) ''published_api_candidate_sha''"

lemma prerequisite_Inr:
  assumes "is_sha sha"
  shows "prerequisite needs sha name = Inr xs \<longleftrightarrow>
    (\<exists>v. map_of needs name = Some v \<and> succeeded_for sha v
       \<and> (publishes v \<longrightarrow> published_value v = JStr sha) \<and> xs = (if publishes v then [sha] else []))"
proof (cases "map_of needs name")
  case (Some v)
  let ?outs = "dget (dict_of v) ''outputs''"
  have s: "succeeded_for sha v \<longleftrightarrow> is_obj v \<and> dget (dict_of v) ''result'' = JStr ''success'' \<and> is_obj ?outs
      \<and> dget (dict_of ?outs) ''candidate_sha'' = JStr sha"
    by (cases v; cases ?outs) (simp_all add: succeeded_for_def)
  have run: "prerequisite needs sha name =
      (if \<not> is_obj v \<or> dget (dict_of v) ''result'' \<noteq> JStr ''success''
       then Inl (ReleaseError ''release prerequisite did not succeed: {}'' [name])
       else if \<not> is_obj ?outs \<or> dget (dict_of ?outs) ''candidate_sha'' \<noteq> JStr sha
       then Inl (ReleaseError ''release prerequisite has no exact candidate binding: {}'' [name])
       else published_binding (dict_of ?outs) sha name)"
    using Some by (simp add: prerequisite_def item_def Let_def)
  have "published_binding (dict_of ?outs) sha name = Inr xs \<longleftrightarrow>
      (publishes v \<longrightarrow> published_value v = JStr sha) \<and> xs = (if publishes v then [sha] else [])"
    unfolding publishes_def published_value_def
    by (cases "dget (dict_of ?outs) ''published_api_candidate_sha''") (auto simp: published_binding_def Let_def assms)
  note pub = this
  have one: "(\<exists>u. map_of needs name = Some u \<and> succeeded_for sha u
       \<and> (publishes u \<longrightarrow> published_value u = JStr sha) \<and> xs = (if publishes u then [sha] else []))
     \<longleftrightarrow> succeeded_for sha v \<and> published_binding (dict_of ?outs) sha name = Inr xs"
    unfolding pub using Some by auto
  show ?thesis unfolding one s run by (simp split: if_splits) blast
qed (simp add: prerequisite_def item_def)

lemma prerequisites_Inr:
  assumes "is_sha sha"
  shows "mapR (prerequisite needs sha) names = Inr published \<Longrightarrow>
    (\<forall>name \<in> set names. \<exists>v. map_of needs name = Some v \<and> succeeded_for sha v
       \<and> (publishes v \<longrightarrow> published_value v = JStr sha))
    \<and> concat published = map (\<lambda>_. sha) (filter (\<lambda>name. publishes (dget needs name)) names)"
  by (induction names arbitrary: published)
    (auto simp: bindR_Inr prerequisite_Inr [OF assms] dget_def dget_or_def)

lemma prerequisites_run:
  assumes "is_sha sha"
  shows "(\<forall>name \<in> set names. \<exists>v. map_of needs name = Some v \<and> succeeded_for sha v
       \<and> (publishes v \<longrightarrow> published_value v = JStr sha)) \<Longrightarrow>
    \<exists>published. mapR (prerequisite needs sha) names = Inr published"
proof (induction names)
  case (Cons name names)
  then obtain v where "map_of needs name = Some v" "succeeded_for sha v" "publishes v \<longrightarrow> published_value v = JStr sha"
    by auto
  then have "\<exists>xs. prerequisite needs sha name = Inr xs" unfolding prerequisite_Inr [OF assms] by blast
  with Cons show ?case by auto
qed simp

text \<open>
  C39. The release gate accepts a candidate exactly when the reported prerequisites are the configured
  ones, each succeeded and bound this commit, and exactly one of them published the API evidence, also
  for this commit; what it returns is the candidate.
\<close>

theorem release_gate_iff:
  "release_gate policy needs sha = Inr r \<longleftrightarrow>
     r = sha \<and> is_sha sha
     \<and> (\<exists>d. needs = JObj d \<and> keys d = set (policy_names policy ''required_jobs'')
        \<and> (\<forall>name \<in> set (policy_names policy ''required_jobs'').
             succeeded_for sha (dget d name)
             \<and> (publishes (dget d name) \<longrightarrow> published_value (dget d name) = JStr sha))
        \<and> length (filter (\<lambda>name. publishes (dget d name)) (policy_names policy ''required_jobs'')) = 1)"
    (is "?run \<longleftrightarrow> ?ok")
proof
  let ?names = "policy_names policy ''required_jobs''"
  assume ?run
  then obtain d published where d: "is_sha sha" "needs = JObj d" "keys d = set ?names"
    and m: "mapR (prerequisite d sha) ?names = Inr published" and c: "concat published = [r]"
    unfolding release_gate_def Let_def
    by (elim success_elims) (auto simp: is_obj_iff split: list.splits)
  from prerequisites_Inr [OF d(1) m] have
    all: "\<forall>name \<in> set ?names. \<exists>v. map_of d name = Some v \<and> succeeded_for sha v
        \<and> (publishes v \<longrightarrow> published_value v = JStr sha)"
    and f: "concat published = map (\<lambda>_. sha) (filter (\<lambda>name. publishes (dget d name)) ?names)"
    by blast+
  from f c have one: "length (filter (\<lambda>name. publishes (dget d name)) ?names) = 1" and "r = sha"
    by (auto simp: map_eq_Cons_conv)
  moreover from all have "\<forall>name \<in> set ?names. succeeded_for sha (dget d name)
        \<and> (publishes (dget d name) \<longrightarrow> published_value (dget d name) = JStr sha)"
    by (fastforce simp: dget_def dget_or_def)
  ultimately show ?ok using d by blast
next
  let ?names = "policy_names policy ''required_jobs''"
  assume ?ok
  then obtain d where r: "r = sha" "is_sha sha" and d: "needs = JObj d" "keys d = set ?names"
    and all: "\<forall>name \<in> set ?names. succeeded_for sha (dget d name)
        \<and> (publishes (dget d name) \<longrightarrow> published_value (dget d name) = JStr sha)"
    and one: "length (filter (\<lambda>name. publishes (dget d name)) ?names) = 1" by blast
  have "\<forall>name \<in> set ?names. \<exists>v. map_of d name = Some v \<and> succeeded_for sha v
        \<and> (publishes v \<longrightarrow> published_value v = JStr sha)"
  proof
    fix name assume n: "name \<in> set ?names"
    with d(2) obtain v where "map_of d name = Some v" by (metis map_of_eq_None_iff not_None_eq set_map)
    with all n show "\<exists>v. map_of d name = Some v \<and> succeeded_for sha v
        \<and> (publishes v \<longrightarrow> published_value v = JStr sha)" by (auto simp: dget_def dget_or_def)
  qed
  from prerequisites_run [OF r(2) this] obtain published where m: "mapR (prerequisite d sha) ?names = Inr published" ..
  from prerequisites_Inr [OF r(2) m] one have "concat published = [sha]"
    by (auto simp: length_Suc_conv)
  with m d r show ?run by (simp add: release_gate_def)
qed

section \<open>The order of publication\<close>

definition package_ok :: "tree_reader \<Rightarrow> dict \<Rightarrow> bool" where
  "package_ok tree p \<longleftrightarrow>
     (dget p ''publish'' = JNull \<or> dget p ''publish'' = JList [JStr ''crates-io''])
     \<and> (\<exists>version. dget p ''version'' = JStr version \<and> is_version version)
     \<and> (\<exists>manifest path base. dget p ''manifest_path'' = JStr manifest \<and> tree_resolve tree manifest = Some path
          \<and> tree_root tree = Some base \<and> prefix base path \<and> tree_file tree path)"

definition inventory_ok :: "tree_reader \<Rightarrow> inventory \<Rightarrow> bool" where
  "inventory_ok tree found \<longleftrightarrow> keys (inv_packages found) \<subseteq> set (workspace_names found)
     \<and> (\<forall>(name, p) \<in> set (inv_packages found). package_ok tree p)"

lemma publishable_Inr:
  assumes "publishable tree base name p = Inr q" and "tree_root tree = Some base"
  shows "q = p \<and> package_ok tree p"
  using assms unfolding publishable_def Let_def
  by (elim if_InlE) (auto simp: package_ok_def is_str_iff split: option.splits elim!: if_InlE)

lemma add_package_ok:
  assumes "add_package tree base members found v = Inr found'" and "tree_root tree = Some base"
    and "inventory_ok tree found"
  shows "inventory_ok tree found'"
proof -
  have q: "publishable tree base name p = Inr q \<Longrightarrow> package_ok tree q" for name p q
    using publishable_Inr [OF _ assms(2)] by blast
  from assms(1,3) show ?thesis
    unfolding add_package_def Let_def inventory_ok_def
    by (auto simp: bindR_Inr split: if_splits dest!: q) force+
qed

lemma add_packages_ok:
  "add_packages tree base members found vs = Inr found' \<Longrightarrow> tree_root tree = Some base \<Longrightarrow>
     inventory_ok tree found \<Longrightarrow> inventory_ok tree found'"
  by (induction vs arbitrary: found) (auto simp: bindR_Inr dest: add_package_ok)

text \<open>The dependency \<open>n\<close> of a package on a crate of the same workspace.\<close>

definition depends_on :: "dict \<Rightarrow> string \<Rightarrow> bool" where
  "depends_on p n \<longleftrightarrow> (\<exists>d. JObj d \<in> set (list_of (dget p ''dependencies''))
     \<and> dget d ''path'' \<noteq> JNull \<and> dget d ''name'' = JStr n)"

lemma internal_dependencies_complete:
  assumes "internal_dependencies found name = Inr deps" and "map_of (inv_packages found) name = Some p"
    and "depends_on p n" and "n \<in> set (workspace_names found)"
  shows "n \<in> set deps"
proof -
  from assms(3) obtain d where d: "JObj d \<in> set (list_of (dget p ''dependencies''))" "dget d ''path'' \<noteq> JNull"
    "dget d ''name'' = JStr n" unfolding depends_on_def by blast
  from assms(1,2) obtain xs where m: "mapR (internal_dependency found name) (list_of (dget p ''dependencies'')) = Inr xs"
    and deps: "set deps = set (concat xs)"
    unfolding internal_dependencies_def by (auto simp: bindR_Inr Let_def split: if_splits)
  from mapR_all [OF m d(1)] obtain ys where ys: "ys \<in> set xs" "internal_dependency found name (JObj d) = Inr ys" by blast
  from ys(2) d(2,3) assms(4) have "ys = [n]"
    by (auto simp: internal_dependency_def Let_def in_strings_def split: if_splits)
  with ys(1) have "n \<in> set (concat xs)" by (simp add: bexI [of _ ys])
  with deps show ?thesis by simp
qed

lemma publication_order_Inr:
  "publication_order found available names = Inr deps \<Longrightarrow>
     map fst deps = names
     \<and> (\<forall>i < length deps. internal_dependencies found (fst (deps ! i)) = Inr (snd (deps ! i))
          \<and> set (snd (deps ! i)) \<subseteq> set available \<union> fst ` set (take i deps))"
proof (induction names arbitrary: available deps)
  case (Cons name names)
  then obtain ds rest where ds: "internal_dependencies found name = Inr ds" "set ds \<subseteq> set available"
    and rest: "publication_order found (name # available) names = Inr rest" and deps: "deps = (name, ds) # rest"
    by (auto simp: bindR_Inr split: if_splits)
  from Cons.IH [OF rest] ds deps show ?case
    by (auto simp: nth_Cons' less_Suc_eq_0_disj split: nat.splits) (auto simp: nth_Cons split: nat.splits)
qed simp

lemma same_version:
  assumes "length (remdups (map f xs)) = 1" and "x \<in> set xs" and "y \<in> set xs"
  shows "f x = f y"
proof -
  from assms(1) have "card (f ` set xs) = 1" by (simp add: length_remdups_card_conv)
  then obtain c where "f ` set xs = {c}" by (auto simp: card_1_singleton_iff)
  with assms(2,3) show ?thesis by (metis imageI singletonD)
qed

text \<open>
  C38. Crates are published after what they need. The inventory is exactly the configured packages, each
  with its manifest inside the candidate and all with one stable version, and in the configured order
  every normal, build or dev dependency on another published crate of the workspace comes earlier, so
  the order has no cycle.
\<close>

theorem publication_order_safe:
  assumes "publication_inventory tree metadata policy = Inr (packages, deps)"
  shows "map fst deps = policy_names policy ''packages'' \<and> keys packages = set (map fst deps)
    \<and> (\<exists>version. is_version version \<and> (\<forall>(name, p) \<in> set packages. dget p ''version'' = JStr version))
    \<and> (\<forall>(name, p) \<in> set packages. package_ok tree p)
    \<and> (\<forall>i < length deps. \<forall>p n. map_of packages (fst (deps ! i)) = Some p \<and> depends_on p n \<and> n \<in> keys packages
         \<longrightarrow> n \<in> fst ` set (take i deps))"
proof -
  let ?names = "policy_names policy ''packages''"
  obtain base members found v where
    base: "(case tree_root tree of None \<Rightarrow> Inl (OSError ''repository root'') | Some base \<Rightarrow> Inr base) = Inr base"
    and add: "add_packages tree base members \<lparr>workspace_names = [], inv_packages = []\<rparr> v = Inr found"
    and k: "keys (inv_packages found) = set ?names"
    and one: "length (remdups (map (\<lambda>(name, p). dget p ''version'') (inv_packages found))) = 1"
    and order: "publication_order found [] ?names = Inr deps" and p: "inv_packages found = packages"
    using assms unfolding publication_inventory_def Let_def by (elim success_elims) (rule that, auto)
  from base have "tree_root tree = Some base" by (auto split: option.splits)
  from add_packages_ok [OF add this] have ok: "inventory_ok tree found" by (simp add: inventory_ok_def)
  note run = publication_order_Inr [OF order]
  have sub: "keys packages \<subseteq> set (workspace_names found)" and each: "\<forall>(name, p) \<in> set packages. package_ok tree p"
    using ok p by (simp_all add: inventory_ok_def)
  have "\<exists>version. is_version version \<and> (\<forall>(name, p) \<in> set packages. dget p ''version'' = JStr version)"
  proof -
    from one p obtain x where x: "x \<in> set packages" by (cases packages) auto
    with each obtain version where v: "dget (snd x) ''version'' = JStr version" "is_version version"
      by (auto simp: package_ok_def)
    from same_version [OF one [unfolded p] _ x] v show ?thesis by (fastforce simp: case_prod_unfold)
  qed
  moreover have "n \<in> fst ` set (take i deps)"
    if i: "i < length deps" and q: "map_of packages (fst (deps ! i)) = Some q" and n: "depends_on q n" "n \<in> keys packages"
    for i q n
    using internal_dependencies_complete [of found "fst (deps ! i)" "snd (deps ! i)" q n] run i q n sub p by auto
  ultimately show ?thesis using run k p each by auto
qed

section \<open>The registry answers within its bounds\<close>

definition is_fetch :: "host_event \<Rightarrow> bool" where
  "is_fetch e = (case e of Fetched url \<Rightarrow> True | _ \<Rightarrow> False)"

definition is_command :: "host_event \<Rightarrow> bool" where
  "is_command e = (case e of Command dir argv \<Rightarrow> True | _ \<Rightarrow> False)"

lemma event_kinds [simp]:
  "is_fetch (Fetched url)" "\<not> is_fetch (Paused q)" "\<not> is_fetch (Command dir argv)"
  "is_command (Command dir argv)" "\<not> is_command (Paused q)" "\<not> is_command (Fetched url)"
  by (simp_all add: is_fetch_def is_command_def)

text \<open>The registry gave this status for the address itself, after the history.\<close>

definition says :: "host \<Rightarrow> history \<Rightarrow> string \<Rightarrow> int \<Rightarrow> bool" where
  "says w h url status \<longleftrightarrow> reply_status url (http_reply w h url) = Inr (Some status)"

text \<open>A sequence of requests of one address with pauses between them, at most \<open>n\<close>.\<close>

definition asks :: "nat \<Rightarrow> string \<Rightarrow> history \<Rightarrow> bool" where
  "asks n url new \<longleftrightarrow> set new \<subseteq> {Fetched url, Paused 5} \<and> length (filter is_fetch new) \<le> n"

lemma registry_attempts_run:
  "registry_attempts n url w h = (r, h') \<Longrightarrow> \<exists>new. h' = new @ h \<and> asks n url new
     \<and> (\<forall>status. r = Inr status \<longrightarrow> status \<in> {200, 404}
          \<and> (\<exists>before. new = Fetched url # before \<and> says w (before @ h) url status))"
proof (induction n arbitrary: h)
  case 0
  then show ?case by (auto simp: asks_def)
next
  case (Suc n)
  have one: "asks (Suc n) url [Fetched url]" by (simp add: asks_def is_fetch_def)
  have again: "\<exists>new. h' = new @ h \<and> asks (Suc n) url new
     \<and> (\<forall>status. r = Inr status \<longrightarrow> status \<in> {200, 404}
          \<and> (\<exists>before. new = Fetched url # before \<and> says w (before @ h) url status))"
    if "registry_attempts n url w (Paused 5 # Fetched url # h) = (r, h')"
  proof -
    from Suc.IH [OF that] obtain new where new: "h' = (new @ [Paused 5, Fetched url]) @ h" "asks n url new"
      and st: "\<forall>status. r = Inr status \<longrightarrow> status \<in> {200, 404}
          \<and> (\<exists>before. new = Fetched url # before \<and> says w (before @ Paused 5 # Fetched url # h) url status)" by auto
    have "asks (Suc n) url (new @ [Paused 5, Fetched url])"
      using new(2) by (auto simp: asks_def is_fetch_def)
    moreover have "\<exists>before. new @ [Paused 5, Fetched url] = Fetched url # before \<and> says w (before @ h) url status"
      if "r = Inr status" for status
      using st that by (intro exI [of _ "tl new @ [Paused 5, Fetched url]"]) auto
    ultimately show ?thesis using new(1) st by blast
  qed
  show ?case
  proof (cases "reply_status url (http_reply w h url)")
    case (Inl e)
    with Suc.prems one show ?thesis by (auto simp: bindI_def fetch_def)
  next
    case (Inr answer)
    show ?thesis
    proof (cases answer)
      case None
      with Suc.prems [unfolded registry_attempts.simps] Inr one again show ?thesis
        by (auto simp: bindI_def fetch_def pause_def simp del: registry_attempts.simps split: if_splits)
    next
      case (Some status)
      then have "says w h url status" using Inr by (simp add: says_def)
      with Suc.prems Inr Some one again show ?thesis
        by (auto simp: bindI_def fetch_def pause_def split: if_splits)
    qed
  qed
qed

section \<open>A publication is confirmed by the registry\<close>

lemma registry_status_run:
  assumes "registry_status package version w h = (r, h')"
  shows "\<exists>new. h' = new @ h \<and> asks 4 (registry_url package version) new
    \<and> (\<forall>status. r = Inr status \<longrightarrow> status \<in> {200, 404}
         \<and> (\<exists>before. new = Fetched (registry_url package version) # before
              \<and> says w (before @ h) (registry_url package version) status))"
proof (cases "is_package package \<and> is_version version")
  case True
  with assms have "registry_attempts 4 (registry_url package version) w h = (r, h')"
    by (simp add: registry_status_def)
  then show ?thesis by (rule registry_attempts_run)
next
  case False
  with assms show ?thesis by (auto simp: registry_status_def asks_def)
qed

text \<open>
  A registry lookup is bounded and certain: it sends at most four requests, all to the address of
  the package version, and the status it returns is 200 or 404, said for that address itself by the
  last answer; every other ending is an exception.
\<close>

theorem registry_status_bounded:
  assumes "registry_status package version w h = (r, h')"
  shows "\<exists>new. h' = new @ h \<and> set new \<subseteq> {Fetched (registry_url package version), Paused 5}
    \<and> length (filter is_fetch new) \<le> 4
    \<and> (\<forall>status. r = Inr status \<longrightarrow> status \<in> {200, 404}
         \<and> (\<exists>before. new = Fetched (registry_url package version) # before
              \<and> says w (before @ h) (registry_url package version) status))"
  using registry_status_run [OF assms] unfolding asks_def by blast

lemma await_visible_run:
  "await_visible n package version w h = (r, h') \<Longrightarrow>
    \<exists>new. h' = new @ h \<and> asks (4 * n) (registry_url package version) new
     \<and> (r = Inr () \<longrightarrow> (\<exists>before. new = Fetched (registry_url package version) # before
          \<and> says w (before @ h) (registry_url package version) 200))"
proof (induction n arbitrary: h)
  case 0
  then show ?case by (auto simp: asks_def)
next
  case (Suc n)
  let ?url = "registry_url package version"
  obtain q h1 where q: "registry_status package version w h = (q, h1)" by force
  from registry_status_run [OF q] obtain new where new: "h1 = new @ h" "asks 4 ?url new"
    and st: "\<And>status. q = Inr status \<Longrightarrow> \<exists>before. new = Fetched ?url # before \<and> says w (before @ h) ?url status"
    by blast
  have more: "asks (4 * Suc n) ?url (later @ new)" if "asks (4 * n) ?url later" for later
    using new(2) that by (auto simp: asks_def)
  then have this_round: "asks (4 * Suc n) ?url new" using new(2) by (auto simp: asks_def)
  show ?case
  proof (cases "\<exists>status. q = Inr status \<and> status \<noteq> 200")
    case True
    with Suc.prems q have "await_visible n package version w (Paused 5 # h1) = (r, h')"
      by (auto simp: bindI_def pause_def)
    from Suc.IH [OF this] obtain later where later: "h' = later @ Paused 5 # h1" "asks (4 * n) ?url later"
      and ok: "r = Inr () \<longrightarrow> (\<exists>before. later = Fetched ?url # before \<and> says w (before @ Paused 5 # h1) ?url 200)"
      by blast
    have "asks (4 * Suc n) ?url (later @ Paused 5 # new)"
      using more [OF later(2)] by (auto simp: asks_def)
    moreover have "\<exists>before. later @ Paused 5 # new = Fetched ?url # before \<and> says w (before @ h) ?url 200"
      if "r = Inr ()"
      using ok that new(1) by auto
    ultimately show ?thesis using later(1) new(1) by (intro exI [of _ "later @ Paused 5 # new"]) auto
  next
    case False
    with Suc.prems q have "h' = h1" and "r = Inr () \<longrightarrow> q = Inr 200"
      by (cases q; auto simp: bindI_def)+
    with new(1) this_round st show ?thesis by blast
  qed
qed

text \<open>
  C32. A crate is published at most once and only when it is missing. When the registry already has
  the version, no command runs; otherwise it said 404 for exactly this version directly before the one
  \<open>cargo publish\<close>. Returning normally means that the last thing that happened is that the
  registry confirmed the version, within the bounded number of requests.
\<close>

theorem publish_crate_confirmed:
  assumes "publish_crate dir package version w h = (r, h')"
  shows "\<exists>new. h' = new @ h \<and> length (filter is_fetch new) \<le> 244
    \<and> (filter is_command new = []
       \<or> (\<exists>later before. new = later @ Command dir (publish_argv package) # Fetched (registry_url package version) # before
            \<and> filter is_command (later @ before) = [] \<and> says w (before @ h) (registry_url package version) 404))
    \<and> (r = Inr () \<longrightarrow> (\<exists>before. new = Fetched (registry_url package version) # before
         \<and> says w (before @ h) (registry_url package version) 200))"
proof -
  let ?url = "registry_url package version"
  let ?cmd = "Command dir (publish_argv package)"
  have quiet: "filter is_command new = []" if "asks n ?url new" for n new
    using that by (auto simp: asks_def is_command_def filter_empty_conv)
  obtain q h1 where q: "registry_status package version w h = (q, h1)" by force
  from registry_status_run [OF q] obtain new where new: "h1 = new @ h" "asks 4 ?url new"
    and st: "\<And>status. q = Inr status \<Longrightarrow> status \<in> {200, 404}
       \<and> (\<exists>before. new = Fetched ?url # before \<and> says w (before @ h) ?url status)" by blast
  show ?thesis
  proof (cases "q = Inr 404")
    case True
    with st obtain before where b: "new = Fetched ?url # before" "says w (before @ h) ?url 404" by blast
    have quiet_before: "filter is_command before = []"
      using quiet [OF new(2)] b(1) by simp
    obtain c h2 where c: "cargo_publish dir package w h1 = (c, h2)" by force
    then have h2: "h2 = ?cmd # h1"
      by (auto simp: cargo_publish_def bindI_def spawn_def split: command_reply.splits if_splits)
    show ?thesis
    proof (cases c)
      case (Inl e)
      with assms True q c have "r = Inl e" "h' = h2" by (simp_all add: publish_crate_def)
      moreover have "length (filter is_fetch (?cmd # new)) \<le> 244" using new(2) by (simp add: asks_def)
      moreover have "?cmd # new = [] @ ?cmd # Fetched ?url # before \<and> filter is_command ([] @ before) = []"
        using b(1) quiet_before by simp
      ultimately show ?thesis using h2 new(1) b(2) by (metis append_Cons sum.distinct(1))
    next
      case (Inr u)
      with assms True q c have "await_visible 60 package version w h2 = (r, h')" by (simp add: publish_crate_def)
      from await_visible_run [OF this] obtain later where later: "h' = later @ h2" "asks 240 ?url later"
        and ok: "r = Inr () \<longrightarrow> (\<exists>before. later = Fetched ?url # before \<and> says w (before @ h2) ?url 200)"
        by auto
      have "length (filter is_fetch (later @ ?cmd # new)) \<le> 244"
        using later(2) new(2) by (auto simp: asks_def)
      moreover have "\<exists>b'. later @ ?cmd # new = Fetched ?url # b' \<and> says w (b' @ h) ?url 200" if "r = Inr ()"
        using ok that h2 new(1) by auto
      ultimately show ?thesis
        using later(1) h2 new(1) b quiet_before quiet [OF later(2)]
        by (intro exI [of _ "later @ ?cmd # new"] conjI disjI2 exI [of _ later] exI [of _ before]) auto
    qed
  next
    case False
    with st assms q have "h' = h1" and "r = Inr () \<longrightarrow> q = Inr 200"
      by (cases q; auto simp: publish_crate_def bindI_def)+
    moreover have "length (filter is_fetch new) \<le> 244" using new(2) by (simp add: asks_def)
    ultimately show ?thesis using new quiet [OF new(2)] st by blast
  qed
qed

section \<open>The release type is of a stable entry\<close>

text \<open>
  C40. A merge queue entry is classified for what it is. The proved candidate and the title of its source
  request are read twice, with the same binding and the same title, for exactly the tested commits; the
  type is a major release exactly for a breaking subject; and nothing is written.
\<close>

theorem classify_queue_stable:
  assumes "classify_queue base_sha candidate_sha branch w s = (Inr kind, t)"
  shows "\<exists>c c' s1 s2 s3 pull pull' title.
      queue_candidate candidate_sha branch w s = (Inr c, s1)
    \<and> get (''pulls/'' @ show_int (cand_number c)) w s1 = (Inr pull, s2)
    \<and> queue_candidate candidate_sha branch w s2 = (Inr c', s3)
    \<and> get (''pulls/'' @ show_int (cand_number c)) w s3 = (Inr pull', t)
    \<and> binding_of (api_repository s) c' = binding_of (api_repository s) c
    \<and> cand_base c = base_sha \<and> cand_head c = candidate_sha \<and> is_sha (source_head c) \<and> 1 \<le> cand_number c
    \<and> dget pull ''state'' = JStr ''open'' \<and> dget pull ''title'' = JStr title \<and> dget pull' ''title'' = JStr title
    \<and> dget (dict_of (dget pull' ''head'')) ''sha'' = JStr (source_head c)
    \<and> (kind = ''major'' \<longleftrightarrow> breaking_subject title) \<and> kind \<in> {''major'', []}
    \<and> observe_step s t"
proof -
  let ?resolve = "resolve_binding candidate_sha branch"
  have title: "dget d ''title'' = JStr title \<and> dget d ''state'' = JStr ''open''
      \<and> dget (dict_of (dget d ''head'')) ''sha'' = JStr (bind_source b)"
    if "queue_title b (JObj d) = Inr title" for b d title
    using that by (auto simp: queue_title_def title_unbound_def Let_def is_str_iff split: if_splits)
  from assms have run: "queue_release_type base_sha candidate_sha ?resolve read_pull w s = (Inr kind, t)"
    unfolding classify_queue_def catchI_Inr by (auto split: if_splits)
  then obtain before s1 title s2 again s3 title' where
    r1: "?resolve w s = (Inr before, s1)" and t1: "read_title read_pull before w s1 = (Inr title, s2)"
    and r2: "?resolve w s2 = (Inr again, s3)" and t2: "read_title read_pull before w s3 = (Inr title', t)"
    and same: "again = before" "title' = title"
    and b: "bind_base before = base_sha" "bind_head before = candidate_sha" "is_sha (bind_source before)"
      "1 \<le> bind_number before"
    and kind: "kind = (if breaking_subject title then ''major'' else [])"
    unfolding queue_release_type_def Let_def
    by (elim if_raiseE bindI_InrE) (rule that, auto)
  from r1 obtain c where c: "queue_candidate candidate_sha branch w s = (Inr c, s1)" "before = binding_of (api_repository s1) c"
    unfolding resolve_binding_def by (auto simp: bindI_Inr)
  from r2 obtain c' where c': "queue_candidate candidate_sha branch w s2 = (Inr c', s3)" "again = binding_of (api_repository s3) c'"
    unfolding resolve_binding_def by (auto simp: bindI_Inr)
  from t1 obtain pull where p: "get (''pulls/'' @ show_int (bind_number before)) w s1 = (Inr pull, s2)"
    "queue_title before (JObj pull) = Inr title"
    unfolding read_title_def read_pull_def by (auto simp: bindI_Inr)
  from t2 same obtain pull' where p': "get (''pulls/'' @ show_int (bind_number before)) w s3 = (Inr pull', t)"
    "queue_title before (JObj pull') = Inr title"
    unfolding read_title_def read_pull_def by (auto simp: bindI_Inr)
  have o: "observe_step s s1" "observe_step s1 s2" "observe_step s2 s3" "observe_step s3 t"
    using keepsD [OF observe_queue_candidate, OF c(1)] keepsD [OF observe_get, OF p(1)]
      keepsD [OF observe_queue_candidate, OF c'(1)] keepsD [OF observe_get, OF p'(1)] by simp_all
  have "observe_step s t" using o by (meson observe.both)
  have repo: "api_repository s1 = api_repository s" "api_repository s3 = api_repository s"
    using o by (simp_all add: observe_step_def act_step_def frame_def)
  have fields: "bind_number (binding_of r c) = cand_number c" "bind_source (binding_of r c) = source_head c"
    "bind_base (binding_of r c) = cand_base c" "bind_head (binding_of r c) = cand_head c" for r
    by (simp_all add: binding_of_def Let_def)
  have bf: "before = binding_of (api_repository s) c" using c(2) repo by simp
  have ag: "binding_of (api_repository s) c' = binding_of (api_repository s) c"
    using c'(2) repo same(1) bf by simp
  note own = b [unfolded bf fields] p(1) [unfolded bf fields] p'(1) [unfolded bf fields]
    title [OF p(2), unfolded bf fields] title [OF p'(2), unfolded bf fields]
  have "kind = ''major'' \<longleftrightarrow> breaking_subject title" "kind \<in> {''major'', []}" using kind by auto
  with c(1) c'(1) ag own \<open>observe_step s t\<close> show ?thesis by blast
qed

section \<open>Sample runs\<close>

definition sample_release_policy :: dict where
  "sample_release_policy = [(''schema'', JInt 1), (''repository'', JStr ''Strukturpiloten/boxferry''),
     (''packages'', JList [JStr ''core'', JStr ''cli'']), (''required_jobs'', JList [JStr ''tests'', JStr ''api'']),
     (''publication_enabled'', JBool True)]"

theorem release_policy_typed_witness:
  "release_policy (\<lambda>_. ([sample_release_policy], Some (JObj sample_release_policy))) ''policy'' ''Strukturpiloten/boxferry''
     = Inr sample_release_policy
   \<and> policy_typed ''Strukturpiloten/boxferry'' sample_release_policy"
proof -
  have run: "release_policy (\<lambda>_. ([sample_release_policy], Some (JObj sample_release_policy))) ''policy'' ''Strukturpiloten/boxferry''
     = Inr sample_release_policy"
    by code_simp
  with release_policy_typed [OF run] show ?thesis by simp
qed

definition sample_needs :: dict where
  "sample_needs = [(''tests'', JObj [(''result'', JStr ''success''), (''outputs'', JObj [(''candidate_sha'', JStr (sha_of CHR ''c''))])]),
     (''api'', JObj [(''result'', JStr ''success''), (''outputs'', JObj [(''candidate_sha'', JStr (sha_of CHR ''c'')),
        (''published_api_candidate_sha'', JStr (sha_of CHR ''c''))])])]"

theorem release_gate_iff_witness:
  "release_gate sample_release_policy (JObj sample_needs) (sha_of CHR ''c'') = Inr (sha_of CHR ''c'')
   \<and> succeeded_for (sha_of CHR ''c'') (dget sample_needs ''tests'')"
proof -
  have run: "release_gate sample_release_policy (JObj sample_needs) (sha_of CHR ''c'') = Inr (sha_of CHR ''c'')"
    by code_simp
  moreover have "''tests'' \<in> set (policy_names sample_release_policy ''required_jobs'')" by code_simp
  ultimately show ?thesis using release_gate_iff [THEN iffD1, OF run] by auto
qed

definition sample_tree :: tree_reader where
  "sample_tree = \<lparr>tree_root = Some [''/'', ''work''], tree_resolve = (\<lambda>s. Some [''/'', ''work'', s]), tree_file = (\<lambda>_. True)\<rparr>"

definition sample_package :: "string \<Rightarrow> json list \<Rightarrow> dict" where
  "sample_package name deps = [(''id'', JStr name), (''name'', JStr name), (''version'', JStr ''1.2.3''),
     (''manifest_path'', JStr name), (''dependencies'', JList deps)]"

definition sample_metadata :: json where
  "sample_metadata = JObj [(''workspace_members'', JList [JStr ''core'', JStr ''cli'']),
     (''packages'', JList [JObj (sample_package ''cli'' [JObj [(''name'', JStr ''core''), (''path'', JStr ''core'')]]),
        JObj (sample_package ''core'' [])])]"

theorem publication_order_safe_witness:
  "publication_inventory sample_tree sample_metadata sample_release_policy
     = Inr ([(''cli'', sample_package ''cli'' [JObj [(''name'', JStr ''core''), (''path'', JStr ''core'')]]),
             (''core'', sample_package ''core'' [])], [(''core'', []), (''cli'', [''core''])])
   \<and> package_ok sample_tree (sample_package ''core'' [])"
proof -
  have run: "publication_inventory sample_tree sample_metadata sample_release_policy
     = Inr ([(''cli'', sample_package ''cli'' [JObj [(''name'', JStr ''core''), (''path'', JStr ''core'')]]),
             (''core'', sample_package ''core'' [])], [(''core'', []), (''cli'', [''core''])])"
    by code_simp
  from publication_order_safe [OF run] run show ?thesis by simp
qed

text \<open>A registry that has a version once a command ran.\<close>

definition sample_host :: host where
  "sample_host = blank_host\<lparr>http_reply := (\<lambda>h url. if list_ex is_command h then HttpOk url 200 [] else HttpFailed url 404),
     command_reply := (\<lambda>h dir env argv. Exited 0 [] []), resolved_strict := (\<lambda>_. Some []), regular_file := (\<lambda>_. True)\<rparr>"

lemma sample_registry:
  "registry_status ''core'' ''1.2.3'' sample_host h
     = (Inr (if list_ex is_command h then 200 else 404), Fetched (registry_url ''core'' ''1.2.3'') # h)"
proof -
  have "is_package ''core'' \<and> is_version ''1.2.3''" by code_simp
  then show ?thesis
    by (simp add: registry_status_def eval_nat_numeral fetch_def reply_status_def sample_host_def bindI_def)
qed

theorem registry_status_bounded_witness:
  "registry_status ''core'' ''1.2.3'' sample_host [] = (Inr 404, [Fetched (registry_url ''core'' ''1.2.3'')])
   \<and> says sample_host [] (registry_url ''core'' ''1.2.3'') 404"
  using sample_registry [of "[]"] registry_status_bounded [OF sample_registry [of "[]"]] by auto

lemma sample_publish:
  "publish_crate ''work'' ''core'' ''1.2.3'' sample_host []
     = (Inr (), [Fetched (registry_url ''core'' ''1.2.3''), Command ''work'' (publish_argv ''core''),
          Fetched (registry_url ''core'' ''1.2.3'')])"
proof -
  have "await_visible 60 ''core'' ''1.2.3'' sample_host (Command ''work'' argv # h)
      = (Inr (), Fetched (registry_url ''core'' ''1.2.3'') # Command ''work'' argv # h)" for argv h
    using await_visible.simps(2) [of 59 "''core''" "''1.2.3''"] by (simp add: sample_registry bindI_def)
  moreover have "command_reply sample_host h dir env argv = Exited 0 [] []" for h dir env argv
    by (simp add: sample_host_def)
  ultimately show ?thesis
    by (simp add: publish_crate_def sample_registry cargo_publish_def spawn_def bindI_def)
qed

theorem publish_crate_confirmed_witness:
  "fst (publish_crate ''work'' ''core'' ''1.2.3'' sample_host []) = Inr ()
   \<and> says sample_host [Command ''work'' (publish_argv ''core''), Fetched (registry_url ''core'' ''1.2.3'')]
       (registry_url ''core'' ''1.2.3'') 200"
  using sample_publish publish_crate_confirmed [OF sample_publish] by simp

lemma sample_pull: "takes queue_world 1 (get ''pulls/7'') sample_pr"
proof (rule takesI_run)
  fix s :: client
  assume "spare 1 s"
  then have "get ''pulls/7'' queue_world s = (Inr sample_pr, got ''pulls/7'' s)"
    by (intro queue_world_get) (simp_all add: sample_rows)
  then show "\<exists>t. get ''pulls/7'' queue_world s = (Inr sample_pr, t) \<and> after 1 s t" by (simp add: after_def)
qed

theorem classify_queue_stable_witness:
  "\<exists>t. classify_queue (sha_of CHR ''a'') (sha_of CHR ''c'') ''main'' queue_world sample_client = (Inr [], t)
     \<and> observe_step sample_client t"
proof -
  have title: "queue_title (binding_of ''Strukturpiloten/boxferry'' sample_queue_candidate) (JObj sample_pr) = Inr ''Update''"
    by code_simp
  have fields: "bind_base (binding_of r sample_queue_candidate) = sha_of CHR ''a''"
    "bind_head (binding_of r sample_queue_candidate) = sha_of CHR ''c''"
    "bind_source (binding_of r sample_queue_candidate) = sha_of CHR ''b''"
    "bind_number (binding_of r sample_queue_candidate) = 7" for r
    by (simp_all add: binding_of_def sample_queue_candidate_def Let_def)
  have "\<not> breaking_subject ''Update''" "show_int 7 = ''7''" by code_simp+
  then have "\<exists>t. classify_queue (sha_of CHR ''a'') (sha_of CHR ''c'') ''main'' queue_world sample_client = (Inr [], t)"
    by (simp add: classify_queue_def queue_release_type_def resolve_binding_def read_title_def read_pull_def
        takes_run [OF sample_queue_takes] takes_run [OF sample_pull] fields title sample_hex Let_def cong: run_congs)
  then obtain t where run: "classify_queue (sha_of CHR ''a'') (sha_of CHR ''c'') ''main'' queue_world sample_client = (Inr [], t)" ..
  from classify_queue_stable [OF run] run show ?thesis by blast
qed

end
