(* ===== verification/Preparation.thy ===== *)
theory Preparation
  imports Release
begin

text \<open>
  \<open>prepare_branch\<close> of \<open>release.py\<close>: a detached checkout of the candidate is attached to the default
  branch in one Git transaction, which is committed only after HEAD and the branch were read again while
  Git holds their locks. The transaction is a child process with a pipe; that it is terminated when it
  does not end by itself is not modelled, nor is the signal handler.
\<close>

section \<open>Reading the checkout\<close>

fun is_BootstrapError :: "exn \<Rightarrow> bool" where
  "is_BootstrapError (BootstrapError t args) = True"
| "is_BootstrapError e = False"

definition preparation_git :: "string \<Rightarrow> string list \<Rightarrow> string prog" where
  "preparation_git dir arguments =
     catchI (run_git dir arguments)
       (\<lambda>e. if is_BootstrapError e then raiseI (ReleaseError ''release preparation Git operation failed'' [])
             else raiseI e)"

text \<open>\<open>str(path)\<close> of a resolved path, which is the list of its parts.\<close>

definition path_str :: "string list \<Rightarrow> string" where
  "path_str parts = (case parts of [] \<Rightarrow> ''.'' | p # ps \<Rightarrow> p @ join ''/'' ps)"

text \<open>The lines \<open>name object\<close> of the two references.\<close>

fun read_refs :: "string list \<Rightarrow> string \<Rightarrow> string list \<Rightarrow> (string \<times> string) list res" where
  "read_refs names candidate_sha [] = Inr []"
| "read_refs names candidate_sha (line # ls) =
     (let name = takeWhile (\<lambda>c. c \<noteq> CHR '' '') line; rest = dropWhile (\<lambda>c. c \<noteq> CHR '' '') line in
      if rest = [] then Inl (ValueError ''not enough values to unpack'')
      else if name \<notin> set names then read_refs names candidate_sha ls
      else if tl rest \<noteq> candidate_sha
      then Inl (ReleaseError ''release preparation default branch moved or conflicts'' [])
      else bindR (read_refs names candidate_sha ls) (\<lambda>refs. Inr ((name, tl rest) # refs)))"

definition preparation_checkout ::
  "string list \<Rightarrow> string \<Rightarrow> string \<Rightarrow> string \<Rightarrow> (string \<times> (string \<times> string) list) prog" where
  "preparation_checkout base candidate_sha branch_ref tracking_ref =
     (let dir = path_str base in
     bindI (preparation_git dir [''rev-parse'', ''--show-toplevel'']) (\<lambda>top.
     bindI (askI resolved) (\<lambda>resolve.
     if resolve top \<noteq> base
     then raiseI (ReleaseError ''release preparation needs the exact checkout root'' [])
     else
     bindI (preparation_git dir [''rev-parse'', ''--verify'', ''HEAD^{commit}'']) (\<lambda>head.
     if head \<noteq> candidate_sha
     then raiseI (ReleaseError ''release preparation checkout moved from the validated candidate'' [])
     else
     bindI (preparation_git dir [''status'', ''--porcelain=v1'', ''--untracked-files=all'']) (\<lambda>status.
     if status \<noteq> []
     then raiseI (ReleaseError ''release preparation requires clean source and index'' [])
     else
     bindI (preparation_git dir [''rev-parse'', ''--symbolic-full-name'', ''HEAD'']) (\<lambda>current.
     if current \<noteq> ''HEAD'' \<and> current \<noteq> branch_ref
     then raiseI (ReleaseError ''release preparation is attached to another branch'' [])
     else
     bindI (preparation_git dir [''for-each-ref'', ''--format=%(refname) %(objectname)'', branch_ref, tracking_ref]) (\<lambda>out.
     bindI (liftI (read_refs [branch_ref, tracking_ref] candidate_sha (str_lines out))) (\<lambda>refs.
     retI (current, refs)))))))))"

section \<open>The transaction\<close>

definition preparation_command :: "string \<Rightarrow> string list \<Rightarrow> string list" where
  "preparation_command dir arguments = isolation @ [''-C'', dir] @ arguments"

definition txn_timeout :: exn where
  "txn_timeout = ReleaseError ''release preparation Git transaction timed out'' []"

definition txn_refused :: exn where
  "txn_refused = ReleaseError ''release preparation Git symref transaction failed or is unsupported'' []"

definition txn_failed :: exn where
  "txn_failed = ReleaseError ''release preparation Git transaction failed'' []"

definition txn_open :: "string list \<Rightarrow> unit prog" where
  "txn_open argv w h =
     (if txn_starts w h argv then (Inr (), TxnOpened argv # h) else (Inl (OSError ''git''), h))"

definition txn_send :: "string \<Rightarrow> nat prog" where
  "txn_send payload w h =
     (case txn_writes w h payload of None \<Rightarrow> (Inl (OSError ''write''), h) | Some n \<Rightarrow> (Inr n, TxnSent payload # h))"

definition txn_receive :: "char prog" where
  "txn_receive w h = (case txn_reads w h of
     NotReady \<Rightarrow> (Inl txn_timeout, h)
   | PipeBroken \<Rightarrow> (Inl (OSError ''read''), h)
   | EndOfPipe \<Rightarrow> (Inl txn_refused, h)
   | PipeByte c \<Rightarrow> (Inr c, TxnReceived c # h))"

definition txn_close :: "unit prog" where
  "txn_close w h = (Inr (), TxnClosed # h)"

definition before_deadline :: "rat \<Rightarrow> unit prog" where
  "before_deadline limit = bindI clock (\<lambda>t. if limit - t \<le> 0 then raiseI txn_timeout else retI ())"

text \<open>A reply ends at a newline; the number is how many more bytes it may have.\<close>

definition read_byte :: "rat \<Rightarrow> char prog" where
  "read_byte limit = bindI (before_deadline limit) (\<lambda>_. txn_receive)"

fun read_reply :: "nat \<Rightarrow> string \<Rightarrow> rat \<Rightarrow> string prog" where
  "read_reply 0 response limit =
     (if endswith response [newline] then retI response
      else bindI (read_byte limit) (\<lambda>_. raiseI txn_refused))"
| "read_reply (Suc n) response limit =
     (if endswith response [newline] then retI response
      else bindI (read_byte limit) (\<lambda>c. read_reply n (response @ [c]) limit))"

definition send_payload :: "string \<Rightarrow> unit prog" where
  "send_payload payload =
     (if payload = [] then retI ()
      else
      bindI (getI id) (\<lambda>h. bindI (askI txn_ready) (\<lambda>ready.
      if \<not> ready h then raiseI txn_timeout
      else
      bindI (txn_send payload) (\<lambda>n.
      requireI (n = length payload)
        (ReleaseError ''release preparation Git transaction input was incomplete'' [])))))"

definition exchange :: "string \<Rightarrow> string \<Rightarrow> rat \<Rightarrow> unit prog" where
  "exchange payload reply limit =
     (if 4096 < length payload
      then raiseI (ReleaseError ''release preparation Git transaction protocol failed'' [])
      else
      bindI (before_deadline limit) (\<lambda>_.
      bindI (send_payload payload) (\<lambda>_.
      bindI (read_reply 4096 [] limit) (\<lambda>response.
      requireI (response = reply) txn_refused))))"

definition prepared_read :: "string \<Rightarrow> rat \<Rightarrow> string list \<Rightarrow> (int \<times> string) prog" where
  "prepared_read dir limit arguments =
     bindI (before_deadline limit) (\<lambda>_.
     bindI (askI environ) (\<lambda>env.
     bindI (spawn [] (host_git_environment env) (preparation_command dir arguments)) (\<lambda>r. case r of
       CommandFailed \<Rightarrow> raiseI SubprocessError
     | Exited status out err \<Rightarrow>
         if status \<notin> {0, 1} \<or> 4096 < length out + length err
         then raiseI (ReleaseError ''release preparation locked reference verification failed'' [])
         else retI (status, out))))"

text \<open>The commands of the transaction: the branch is verified or created, HEAD is attached.\<close>

definition txn_commands :: "string \<Rightarrow> string \<Rightarrow> string \<Rightarrow> (string \<times> string) list \<Rightarrow> string list" where
  "txn_commands candidate_sha branch_ref tracking_ref refs =
     [''start'',
      (if branch_ref \<in> keys refs then ''verify '' else ''create '') @ branch_ref @ '' '' @ candidate_sha]
     @ (if tracking_ref \<in> keys refs then [''verify '' @ tracking_ref @ '' '' @ candidate_sha] else [])
     @ [''symref-update HEAD '' @ branch_ref @ '' oid '' @ candidate_sha, ''prepare'']"

definition rstrip_newlines :: "string \<Rightarrow> string" where
  "rstrip_newlines s = rev (dropWhile (\<lambda>c. c = newline) (rev s))"

definition bytes_strip :: "string \<Rightarrow> string" where
  "bytes_strip s = rev (dropWhile (\<lambda>c. ord c \<in> {9, 10, 11, 12, 13, 32})
     (rev (dropWhile (\<lambda>c. ord c \<in> {9, 10, 11, 12, 13, 32}) s)))"

text \<open>While the locks are held: HEAD is not symbolic, is the candidate, and the branch is as it was read.\<close>

definition head_unmoved :: "string \<Rightarrow> rat \<Rightarrow> string \<Rightarrow> string \<Rightarrow> (string \<times> string) list \<Rightarrow> unit prog" where
  "head_unmoved dir limit candidate_sha branch_ref refs =
     bindI (prepared_read dir limit [''symbolic-ref'', ''--quiet'', ''--no-recurse'', ''HEAD'']) (\<lambda>raw.
     bindI (prepared_read dir limit [''rev-parse'', ''--verify'', ''HEAD^{commit}'']) (\<lambda>oid.
     bindI (prepared_read dir limit [''for-each-ref'', ''--format=%(refname) %(objectname) %(symref)'', branch_ref]) (\<lambda>branch.
     let changed = ReleaseError ''release preparation HEAD or default reference changed before attachment'' [];
         expected = (if branch_ref \<in> keys refs then branch_ref @ '' '' @ candidate_sha @ '' '' else []) in
     if fst raw \<noteq> 1 \<or> snd raw \<noteq> [] \<or> fst oid \<noteq> 0 \<or> bytes_strip (snd oid) \<noteq> candidate_sha \<or> fst branch \<noteq> 0
     then raiseI changed
     else
     bindI (liftI (decode_utf8 (snd branch))) (\<lambda>out.
     requireI (rstrip_newlines out = expected) changed))))"

definition commit_payload :: string where "commit_payload = ''commit'' @ [newline]"
definition abort_payload :: string where "abort_payload = ''abort'' @ [newline]"

text \<open>Up to the checks under the locks, with the deadline, and from the commit on.\<close>

definition txn_payload :: "string \<Rightarrow> string \<Rightarrow> string \<Rightarrow> (string \<times> string) list \<Rightarrow> string" where
  "txn_payload candidate_sha branch_ref tracking_ref refs =
     join [newline] (txn_commands candidate_sha branch_ref tracking_ref refs) @ [newline]"

definition attach_prepare :: "string \<Rightarrow> string \<Rightarrow> string \<Rightarrow> string \<Rightarrow> (string \<times> string) list \<Rightarrow> rat prog" where
  "attach_prepare dir candidate_sha branch_ref tracking_ref refs =
     bindI clock (\<lambda>t.
     bindI (txn_open (preparation_command dir [''update-ref'', ''--stdin'', ''--no-deref''])) (\<lambda>_.
     bindI (exchange (txn_payload candidate_sha branch_ref tracking_ref refs) (''start: ok'' @ [newline]) (t + 10)) (\<lambda>_.
     bindI (exchange [] (''prepare: ok'' @ [newline]) (t + 10)) (\<lambda>_.
     bindI (head_unmoved dir (t + 10) candidate_sha branch_ref refs) (\<lambda>_. retI (t + 10))))))"

definition attach_commit :: "rat \<Rightarrow> unit prog" where
  "attach_commit limit =
     bindI (exchange commit_payload (''commit: ok'' @ [newline]) limit) (\<lambda>_.
     bindI txn_close (\<lambda>_.
     bindI clock (\<lambda>_.
     bindI (getI id) (\<lambda>h. bindI (askI txn_status) (\<lambda>status. case status h of
       None \<Rightarrow> raiseI SubprocessError
     | Some code \<Rightarrow> requireI (code = 0) txn_failed)))))"

definition attach_body :: "string \<Rightarrow> string \<Rightarrow> string \<Rightarrow> string \<Rightarrow> (string \<times> string) list \<Rightarrow> unit prog" where
  "attach_body dir candidate_sha branch_ref tracking_ref refs =
     bindI (attach_prepare dir candidate_sha branch_ref tracking_ref refs) attach_commit"

text \<open>The final part: a transaction whose pipe is still open and that was not committed is aborted.\<close>

fun pipe_open :: "history \<Rightarrow> bool" where
  "pipe_open [] = False"
| "pipe_open (TxnOpened argv # h) = True"
| "pipe_open (TxnClosed # h) = False"
| "pipe_open (e # h) = pipe_open h"

definition txn_finish :: "unit prog" where
  "txn_finish =
     bindI (getI id) (\<lambda>h.
     if \<not> pipe_open h then retI ()
     else
     bindI (askI txn_status) (\<lambda>status.
     bindI (if status h = None then catchI (bindI (txn_send abort_payload) (\<lambda>_. retI ())) (\<lambda>e. retI ()) else retI ()) (\<lambda>_.
     txn_close)))"

fun is_process_error :: "exn \<Rightarrow> bool" where
  "is_process_error (OSError m) = True"
| "is_process_error SubprocessError = True"
| "is_process_error e = False"

definition attach_head :: "string \<Rightarrow> string \<Rightarrow> string \<Rightarrow> string \<Rightarrow> (string \<times> string) list \<Rightarrow> unit prog" where
  "attach_head dir candidate_sha branch_ref tracking_ref refs =
     finallyI
       (catchI (attach_body dir candidate_sha branch_ref tracking_ref refs)
          (\<lambda>e. if is_process_error e then raiseI txn_failed else raiseI e))
       txn_finish"

section \<open>The preparation\<close>

definition preparation_event :: "environment \<Rightarrow> string \<Rightarrow> string \<Rightarrow> bool" where
  "preparation_event env candidate_sha branch_ref \<longleftrightarrow>
     env ''GITHUB_REPOSITORY'' \<in> Some ` set RELEASE_REPOSITORIES
     \<and> env ''GITHUB_EVENT_NAME'' \<in> {Some ''push'', Some ''workflow_dispatch''}
     \<and> env ''GITHUB_REF'' = Some branch_ref \<and> env ''GITHUB_SHA'' = Some candidate_sha"

definition prepare_branch :: "string \<Rightarrow> string \<Rightarrow> string \<Rightarrow> unit prog" where
  "prepare_branch repository_root candidate_sha default_branch =
     (let branch_ref = ''refs/heads/'' @ default_branch; tracking_ref = ''refs/remotes/origin/'' @ default_branch in
      if \<not> is_sha candidate_sha \<or> default_branch = [] \<or> startswith default_branch ''-''
      then raiseI (ReleaseError ''release preparation needs an exact candidate and default branch'' [])
      else
      bindI (askI environ) (\<lambda>env.
      if \<not> preparation_event env candidate_sha branch_ref
      then raiseI (ReleaseError ''release preparation requires the exact default-branch event'' [])
      else
      bindI (askI resolved_strict) (\<lambda>resolve. case resolve repository_root of
        None \<Rightarrow> raiseI (OSError repository_root)
      | Some base \<Rightarrow>
          let dir = path_str base in
          bindI (preparation_git dir [''check-ref-format'', branch_ref]) (\<lambda>_.
          bindI (preparation_git dir [''check-ref-format'', ''--branch'', default_branch]) (\<lambda>_.
          bindI (preparation_checkout base candidate_sha branch_ref tracking_ref) (\<lambda>p.
          bindI (if fst p = ''HEAD'' then attach_head dir candidate_sha branch_ref tracking_ref (snd p) else retI ()) (\<lambda>_.
          bindI (preparation_checkout base candidate_sha branch_ref tracking_ref) (\<lambda>p.
          requireI (fst p = branch_ref \<and> map_of (snd p) branch_ref = Some candidate_sha)
            (ReleaseError ''release preparation did not retain the exact attached default branch'' [])))))))))"

section \<open>What the transaction leaves in the history\<close>

lemma extends_txn:
  "P (TxnOpened argv) \<Longrightarrow> keeps (extends P) (txn_open argv)"
  "P (TxnSent payload) \<Longrightarrow> keeps (extends P) (txn_send payload)"
  "(\<And>c. P (TxnReceived c)) \<Longrightarrow> keeps (extends P) txn_receive"
  "P TxnClosed \<Longrightarrow> keeps (extends P) txn_close"
  by (rule extends_one, simp add: txn_open_def txn_send_def txn_receive_def txn_close_def
      split: option.split pipe_reply.split)+

lemmas txn_rules = host_rules extends_txn

lemma extends_read_reply: "P Ticked \<Longrightarrow> (\<And>c. P (TxnReceived c)) \<Longrightarrow> keeps (extends P) (read_reply n response limit)"
proof (induction n arbitrary: response)
  case 0
  then show ?case unfolding read_reply.simps read_byte_def before_deadline_def by (intro txn_rules)
next
  case (Suc n)
  then show ?case unfolding read_reply.simps read_byte_def before_deadline_def by (intro txn_rules Suc)
qed

lemma extends_exchange:
  assumes "P Ticked" and "\<And>c. P (TxnReceived c)" and "payload = [] \<or> P (TxnSent payload)"
  shows "keeps (extends P) (exchange payload reply limit)"
proof -
  have "keeps (extends P) (send_payload payload)"
    using assms(3) unfolding send_payload_def by (intro txn_rules) auto
  then show ?thesis
    unfolding exchange_def before_deadline_def by (intro txn_rules extends_read_reply assms)
qed

lemma extends_prepared_read:
  "P Ticked \<Longrightarrow> P (Command [] (preparation_command dir arguments)) \<Longrightarrow> keeps (extends P) (prepared_read dir limit arguments)"
  unfolding prepared_read_def before_deadline_def by (intro txn_rules)

section \<open>What was sent and received in the transaction\<close>

fun received :: "history \<Rightarrow> string" where
  "received [] = []"
| "received (TxnOpened argv # h) = []"
| "received (TxnReceived c # h) = received h @ [c]"
| "received (e # h) = received h"

definition in_pipe :: "host_event \<Rightarrow> bool" where
  "in_pipe e \<longleftrightarrow> e = Ticked \<or> (\<exists>c. e = TxnReceived c) \<or> (\<exists>p. e = TxnSent p)"

lemma read_reply_Inr:
  "read_reply n response limit w h = (Inr reply, h') \<Longrightarrow> \<exists>rest. reply = response @ rest \<and> received h' = received h @ rest"
proof (induction n arbitrary: response h)
  case 0
  then show ?case
    by (auto simp: read_byte_def before_deadline_def bindI_def clock_def split: if_splits prod.splits sum.splits)
next
  case (Suc n)
  show ?case
  proof (cases "endswith response [newline]")
    case False
    with Suc.prems obtain c where "read_reply n (response @ [c]) limit w (TxnReceived c # Ticked # h) = (Inr reply, h')"
      by (auto simp: read_byte_def before_deadline_def bindI_def clock_def txn_receive_def
          split: if_splits pipe_reply.splits)
    from Suc.IH [OF this] show ?thesis by auto
  qed (use Suc.prems in auto)
qed

lemma exchange_Inr:
  assumes "exchange payload reply limit w h = (Inr (), h')"
  shows "received h' = received h @ reply"
proof -
  from assms obtain h1 h2 response where s: "send_payload payload w h1 = (Inr (), h2)"
    and t: "before_deadline limit w h = (Inr (), h1)"
    and r: "read_reply 4096 [] limit w h2 = (Inr response, h')" and "response = reply"
    unfolding exchange_def by (elim run_elims) simp
  have "received h1 = received h" using t by (auto simp: before_deadline_def bindI_def clock_def split: if_splits)
  moreover have "received h2 = received h1" using s
    by (auto simp: send_payload_def bindI_def txn_send_def requireI_def split: if_splits option.splits)
  ultimately show ?thesis using read_reply_Inr [OF r] \<open>response = reply\<close> by simp
qed

text \<open>What Git answered while it held the locks, before the commit.\<close>

definition asked :: "host \<Rightarrow> history \<Rightarrow> history \<Rightarrow> string \<Rightarrow> string list \<Rightarrow> int \<Rightarrow> string \<Rightarrow> bool" where
  "asked w h h' dir arguments status out \<longleftrightarrow>
     (\<exists>g err. suffix h g \<and> suffix (Command [] (preparation_command dir arguments) # g) h'
        \<and> command_reply w g [] (host_git_environment (environ w)) (preparation_command dir arguments) = Exited status out err)"

definition head_checked :: "host \<Rightarrow> history \<Rightarrow> history \<Rightarrow> string \<Rightarrow> string \<Rightarrow> string \<Rightarrow> (string \<times> string) list \<Rightarrow> bool" where
  "head_checked w h h' dir candidate_sha branch_ref refs \<longleftrightarrow>
     asked w h h' dir [''symbolic-ref'', ''--quiet'', ''--no-recurse'', ''HEAD''] 1 []
     \<and> (\<exists>oid. asked w h h' dir [''rev-parse'', ''--verify'', ''HEAD^{commit}''] 0 oid \<and> bytes_strip oid = candidate_sha)
     \<and> (\<exists>out. asked w h h' dir [''for-each-ref'', ''--format=%(refname) %(objectname) %(symref)'', branch_ref] 0 out
          \<and> rstrip_newlines out = (if branch_ref \<in> keys refs then branch_ref @ '' '' @ candidate_sha @ '' '' else []))"

lemma asked_wider: "asked w g g' dir arguments status out \<Longrightarrow> suffix h g \<Longrightarrow> suffix g' h' \<Longrightarrow> asked w h h' dir arguments status out"
  unfolding asked_def by (meson suffix_order.trans)

lemma prepared_read_Inr:
  assumes "prepared_read dir limit arguments w h = (Inr p, h')"
  shows "asked w h h' dir arguments (fst p) (snd p) \<and> suffix h h'"
  using assms
  by (auto simp: prepared_read_def before_deadline_def bindI_def clock_def spawn_def asked_def suffix_ConsI
      split: if_splits command_reply.splits intro!: exI [of _ "Ticked # h"])

lemma head_unmoved_Inr:
  assumes "head_unmoved dir limit candidate_sha branch_ref refs w h = (Inr (), h')"
  shows "head_checked w h h' dir candidate_sha branch_ref refs \<and> suffix h h'"
proof -
  obtain raw h1 oid h2 branch h3 out where
    r: "prepared_read dir limit [''symbolic-ref'', ''--quiet'', ''--no-recurse'', ''HEAD''] w h = (Inr raw, h1)"
    and d: "prepared_read dir limit [''rev-parse'', ''--verify'', ''HEAD^{commit}''] w h1 = (Inr oid, h2)"
    and b: "prepared_read dir limit [''for-each-ref'', ''--format=%(refname) %(objectname) %(symref)'', branch_ref] w h2
        = (Inr branch, h3)"
    and ok: "\<not> (fst raw \<noteq> 1 \<or> snd raw \<noteq> [] \<or> fst oid \<noteq> 0 \<or> bytes_strip (snd oid) \<noteq> candidate_sha \<or> fst branch \<noteq> 0)"
    and out: "decode_utf8 (snd branch) = Inr out"
      "rstrip_newlines out = (if branch_ref \<in> keys refs then branch_ref @ '' '' @ candidate_sha @ '' '' else [])"
    and h': "h' = h3"
    using assms unfolding head_unmoved_def Let_def by (elim run_elims) (rule that, assumption+, simp_all)
  note s = conjunct2 [OF prepared_read_Inr [OF r]] conjunct2 [OF prepared_read_Inr [OF d]] conjunct2 [OF prepared_read_Inr [OF b]]
  have "suffix h h2" "suffix h1 h3" "suffix h h3" using s by (meson suffix_order.trans)+
  note sub = this
  have "asked w h h3 dir [''symbolic-ref'', ''--quiet'', ''--no-recurse'', ''HEAD''] (fst raw) (snd raw)"
    using conjunct1 [OF prepared_read_Inr [OF r]] suffix_order.refl sub(2) by (rule asked_wider)
  moreover have "asked w h h3 dir [''rev-parse'', ''--verify'', ''HEAD^{commit}''] (fst oid) (snd oid)"
    using conjunct1 [OF prepared_read_Inr [OF d]] s(1,3) by (rule asked_wider)
  moreover have "asked w h h3 dir [''for-each-ref'', ''--format=%(refname) %(objectname) %(symref)'', branch_ref] (fst branch) (snd branch)"
    using conjunct1 [OF prepared_read_Inr [OF b]] sub(1) suffix_order.refl by (rule asked_wider)
  ultimately have all: "asked w h h3 dir [''symbolic-ref'', ''--quiet'', ''--no-recurse'', ''HEAD''] 1 []"
    "asked w h h3 dir [''rev-parse'', ''--verify'', ''HEAD^{commit}''] 0 (snd oid)"
    "asked w h h3 dir [''for-each-ref'', ''--format=%(refname) %(objectname) %(symref)'', branch_ref] 0 (snd branch)"
    using ok by auto
  show ?thesis unfolding head_checked_def h'
    by (intro conjI exI [of _ "snd oid"] exI [of _ "snd branch"] all sub(3)) (use ok out in \<open>auto simp: res_simps\<close>)
qed

section \<open>The commit\<close>

lemma join_hd: "hd (join sep ((c # x) # xs)) = c"
  by (cases xs) auto

lemma payload_not_commit: "txn_payload candidate_sha branch_ref tracking_ref refs \<noteq> commit_payload"
proof
  assume "txn_payload candidate_sha branch_ref tracking_ref refs = commit_payload"
  then have "hd (txn_payload candidate_sha branch_ref tracking_ref refs) = hd commit_payload" by simp
  moreover have "hd (txn_payload candidate_sha branch_ref tracking_ref refs) = CHR ''s''"
    unfolding txn_payload_def txn_commands_def by (cases "tracking_ref \<in> keys refs") simp_all
  ultimately show False by (simp add: commit_payload_def)
qed

abbreviation uncommitted :: "host_event \<Rightarrow> bool" where
  "uncommitted e \<equiv> e \<noteq> TxnSent commit_payload"

lemma prepare_uncommitted:
  "keeps (extends uncommitted) (attach_prepare dir candidate_sha branch_ref tracking_ref refs)"
  unfolding attach_prepare_def head_unmoved_def Let_def
  by (intro txn_rules extends_exchange extends_prepared_read) (simp_all add: payload_not_commit)

lemma finish_uncommitted: "keeps (extends uncommitted) txn_finish"
  unfolding txn_finish_def by (intro txn_rules) (simp_all add: abort_payload_def commit_payload_def)

lemma attach_prepare_Inr:
  assumes "attach_prepare dir candidate_sha branch_ref tracking_ref refs w h = (Inr limit, h')"
  shows "\<exists>g. suffix h g \<and> received g = ''start: ok'' @ [newline] @ ''prepare: ok'' @ [newline]
    \<and> head_checked w g h' dir candidate_sha branch_ref refs"
proof -
  have grow: "suffix h h'" if "keeps (extends (\<lambda>_. True)) m" "m w h = (r, h')" for m :: "'a prog" and r h h'
    using keepsD [OF that(1), OF that(2)] by (auto simp: extends_def suffix_def)
  obtain t h1 h2 h3 g h4 where "clock w h = (Inr t, h1)"
    and o: "txn_open (preparation_command dir [''update-ref'', ''--stdin'', ''--no-deref'']) w h1 = (Inr (), h2)"
    and s: "exchange (txn_payload candidate_sha branch_ref tracking_ref refs) (''start: ok'' @ [newline]) (t + 10) w h2 = (Inr (), h3)"
    and p: "exchange [] (''prepare: ok'' @ [newline]) (t + 10) w h3 = (Inr (), g)"
    and u: "head_unmoved dir (t + 10) candidate_sha branch_ref refs w g = (Inr (), h4)" and "h' = h4"
    using assms unfolding attach_prepare_def by (elim run_elims) auto
  have "received h2 = []" using o by (auto simp: txn_open_def split: if_splits)
  with exchange_Inr [OF s] exchange_Inr [OF p]
  have rec: "received g = ''start: ok'' @ [newline] @ ''prepare: ok'' @ [newline]" by simp
  have ex: "keeps (extends (\<lambda>_. True)) (exchange a b c)" for a b c by (rule extends_exchange) simp_all
  have "suffix h h1" using \<open>clock w h = (Inr t, h1)\<close> by (auto simp: clock_def suffix_ConsI)
  moreover have "suffix h1 h2" using o by (auto simp: txn_open_def suffix_ConsI split: if_splits)
  moreover have "suffix h2 h3" using ex s by (rule grow)
  moreover have "suffix h3 g" using ex p by (rule grow)
  ultimately have "suffix h g" by (meson suffix_order.trans)
  with rec head_unmoved_Inr [OF u] \<open>h' = h4\<close> show ?thesis by blast
qed

lemma attach_commit_run:
  assumes "attach_commit limit w h = (r, h')"
  shows "\<exists>new. h' = new @ h \<and>
    (list_all uncommitted new \<or> (\<exists>later mid. new = later @ TxnSent commit_payload # mid \<and> mid = [Ticked]
        \<and> list_all uncommitted later))
    \<and> (r = Inr () \<longrightarrow> \<not> list_all uncommitted new)"
proof -
  let ?rest = "bindI (read_reply 4096 [] limit) (\<lambda>response. requireI (response = ''commit: ok'' @ [newline]) txn_refused)"
  let ?after = "bindI txn_close (\<lambda>_. bindI clock (\<lambda>_. bindI (getI id) (\<lambda>h. bindI (askI txn_status) (\<lambda>status. case status h of
       None \<Rightarrow> raiseI SubprocessError | Some code \<Rightarrow> requireI (code = 0) txn_failed))))"
  have grow: "\<exists>later. g' = later @ g \<and> list_all uncommitted later" if "bindI ?rest (\<lambda>_. ?after) w g = (q, g')" for g g' q
  proof -
    have "keeps (extends uncommitted) (bindI ?rest (\<lambda>_. ?after))"
      by (intro txn_rules extends_read_reply) simp_all
    from keepsD [OF this, OF that] show ?thesis by (auto simp: extends_def)
  qed
  consider (late) e where "h' = Ticked # h" "r = Inl e"
    | (broken) e where "h' = Ticked # h" "r = Inl e"
    | (sent) e where "h' = TxnSent commit_payload # Ticked # h" "r = Inl e"
    | (on) "bindI ?rest (\<lambda>_. ?after) w (TxnSent commit_payload # Ticked # h) = (r, h')"
    using assms
    by (auto simp: attach_commit_def exchange_def before_deadline_def send_payload_def txn_send_def clock_def
        bindI_def requireI_def commit_payload_def split: if_splits option.splits)
  then show ?thesis
  proof cases
    case on
    from grow [OF on] obtain later where "h' = later @ TxnSent commit_payload # Ticked # h"
      "list_all uncommitted later" by blast
    then show ?thesis by (intro exI [of _ "later @ TxnSent commit_payload # [Ticked]"]) auto
  next
    case sent
    then show ?thesis by (intro exI [of _ "[] @ TxnSent commit_payload # [Ticked]"]) auto
  qed auto
qed

text \<open>
  C36. The branch is attached only as it was checked under the locks. A commit is sent at most once,
  after Git acknowledged that the transaction started and is prepared, and between the acknowledgement
  and the commit Git reported that HEAD is detached at the candidate and that the branch still is as it
  was read; every other ending, an error or an answer too late, leaves the transaction without a commit.
\<close>

theorem attach_commit_checked:
  assumes "attach_head dir candidate_sha branch_ref tracking_ref refs w h = (r, h')"
  shows "\<exists>new. h' = new @ h \<and> (r = Inr () \<longrightarrow> TxnSent commit_payload \<in> set new)
    \<and> (TxnSent commit_payload \<in> set new \<longrightarrow>
        (\<exists>later mid g. new = later @ TxnSent commit_payload # mid \<and> TxnSent commit_payload \<notin> set (later @ mid)
           \<and> suffix h g \<and> received g = ''start: ok'' @ [newline] @ ''prepare: ok'' @ [newline]
           \<and> head_checked w g (mid @ h) dir candidate_sha branch_ref refs))"
proof -
  let ?body = "attach_body dir candidate_sha branch_ref tracking_ref refs"
  have un: "list_all uncommitted xs \<longleftrightarrow> TxnSent commit_payload \<notin> set xs" for xs by (auto simp: list_all_iff)
  obtain q h2 where q: "?body w h = (q, h2)" by force
  obtain z h3 where z: "txn_finish w h2 = (z, h3)" by force
  from keepsD [OF finish_uncommitted, OF z] obtain final where final: "h3 = final @ h2" "TxnSent commit_payload \<notin> set final"
    by (auto simp: extends_def un)
  have h': "h' = h3" and ok: "r = Inr () \<longrightarrow> q = Inr ()"
    using assms q z by (cases q; cases z; auto simp: attach_head_def finallyI_def catchI_def split: if_splits)+
  obtain p h1 where p: "attach_prepare dir candidate_sha branch_ref tracking_ref refs w h = (p, h1)" by force
  from keepsD [OF prepare_uncommitted, OF p] obtain pre where pre: "h1 = pre @ h" "TxnSent commit_payload \<notin> set pre"
    by (auto simp: extends_def un)
  show ?thesis
  proof (cases p)
    case (Inl e)
    with p q have "q = Inl e" "h2 = h1" by (simp_all add: attach_body_def)
    with pre final h' ok show ?thesis by (intro exI [of _ "final @ pre"]) auto
  next
    case (Inr limit)
    with p q have "attach_commit limit w h1 = (q, h2)" by (simp add: attach_body_def)
    from attach_commit_run [OF this] obtain new where new: "h2 = new @ h1"
      and c: "TxnSent commit_payload \<notin> set new \<or> (\<exists>later. new = later @ TxnSent commit_payload # [Ticked]
         \<and> TxnSent commit_payload \<notin> set later)"
      and okc: "q = Inr () \<longrightarrow> TxnSent commit_payload \<in> set new" unfolding un by blast
    obtain g where g: "suffix h g" "received g = ''start: ok'' @ [newline] @ ''prepare: ok'' @ [newline]"
      "head_checked w g h1 dir candidate_sha branch_ref refs"
      using attach_prepare_Inr p Inr by blast
    have "asked w g (Ticked # h1) dir arguments status out" if "asked w g h1 dir arguments status out"
      for arguments status out
      using that suffix_order.refl suffix_ConsI [OF suffix_order.refl] by (rule asked_wider)
    with g(3) have g3: "head_checked w g (Ticked # h1) dir candidate_sha branch_ref refs"
      unfolding head_checked_def by blast
    show ?thesis
    proof (cases "TxnSent commit_payload \<in> set new")
      case False
      with pre final h' new ok okc show ?thesis by (intro exI [of _ "final @ new @ pre"]) auto
    next
      case True
      with c obtain later where later: "new = later @ TxnSent commit_payload # [Ticked]"
        "TxnSent commit_payload \<notin> set later" by blast
      have "final @ new @ pre = (final @ later) @ TxnSent commit_payload # (Ticked # pre)"
        "TxnSent commit_payload \<notin> set ((final @ later) @ (Ticked # pre))"
        using later pre final by auto
      moreover have "head_checked w g ((Ticked # pre) @ h) dir candidate_sha branch_ref refs" using g3 pre by simp
      moreover have "h' = (final @ new @ pre) @ h" using h' final new pre by simp
      ultimately show ?thesis using g(1,2) True by (metis in_set_conv_decomp)
    qed
  qed
qed

section \<open>A sample transaction\<close>

definition txn_stream :: string where
  "txn_stream = ''start: ok'' @ newline # ''prepare: ok'' @ newline # ''commit: ok'' @ [newline]"

definition txn_git :: "string list \<Rightarrow> command_reply" where
  "txn_git argv =
     (if ''symbolic-ref'' \<in> set argv then Exited 1 [] []
      else if ''rev-parse'' \<in> set argv then Exited 0 (sha_of CHR ''c'' @ [newline]) []
      else Exited 0 [] [])"

definition txn_host :: host where
  "txn_host = sample_host\<lparr>command_reply := (\<lambda>h dir env argv. txn_git argv),
     txn_starts := (\<lambda>_ _. True), txn_writes := (\<lambda>_ p. Some (length p)), txn_ready := (\<lambda>_. True),
     txn_reads := (\<lambda>h. if length (received h) < length txn_stream then PipeByte (txn_stream ! length (received h)) else EndOfPipe),
     txn_status := (\<lambda>_. Some 0)\<rparr>"

lemma txn_host_fields:
  "host_clock txn_host h = 0" "command_reply txn_host h dir env argv = txn_git argv" "txn_starts txn_host h argv"
  "txn_writes txn_host h p = Some (length p)" "txn_ready txn_host h" "txn_status txn_host h = Some 0"
  "environ txn_host = Map.empty"
  by (simp_all add: txn_host_def sample_host_def blank_host_def)

lemma read_byte_stream:
  assumes "drop (length (received h)) txn_stream = c # rest" and "0 < limit"
  shows "read_byte limit txn_host h = (Inr c, TxnReceived c # Ticked # h)"
proof -
  have "length (received h) < length txn_stream" "txn_stream ! length (received h) = c"
    using assms(1) by (metis drop_eq_Nil2 linorder_not_le list.distinct(1), metis hd_drop_conv_nth drop_eq_Nil2 linorder_not_le list.distinct(1) list.sel(1))
  then have "txn_reads txn_host h = PipeByte c" by (simp add: txn_host_def)
  moreover have "txn_reads txn_host (Ticked # h) = txn_reads txn_host h" by (simp add: txn_host_def)
  ultimately show ?thesis
    using assms(2) by (simp add: read_byte_def before_deadline_def clock_def txn_receive_def bindI_def txn_host_fields)
qed

lemma read_reply_stream:
  "drop (length (received h)) txn_stream = line @ newline # rest \<Longrightarrow> newline \<notin> set line \<Longrightarrow> newline \<notin> set response \<Longrightarrow>
     length line < n \<Longrightarrow> 0 < limit \<Longrightarrow>
   \<exists>h'. read_reply n response limit txn_host h = (Inr (response @ line @ [newline]), h')
      \<and> received h' = received h @ line @ [newline]"
proof (induction line arbitrary: n response h)
  case Nil
  have no: "\<not> endswith response [newline]" using Nil.prems(3) by (cases response rule: rev_cases) (auto simp: endswith_def)
  have yes: "endswith (response @ [newline]) [newline]" by (simp add: endswith_def)
  obtain m where "n = Suc m" using Nil.prems(4) by (cases n) auto
  with no yes read_byte_stream [of h newline rest limit] Nil.prems(1,5) show ?case
    by (cases m) (simp_all add: bindI_def)
next
  case (Cons c line)
  have no: "\<not> endswith response [newline]" using Cons.prems(3) by (cases response rule: rev_cases) (auto simp: endswith_def)
  obtain m where n: "n = Suc m" using Cons.prems(4) by (cases n) auto
  let ?h = "TxnReceived c # Ticked # h"
  have "read_byte limit txn_host h = (Inr c, ?h)"
    using read_byte_stream [of h c "line @ newline # rest" limit] Cons.prems(1,5) by simp
  moreover have "drop (length (received ?h)) txn_stream = line @ newline # rest"
  proof -
    have "drop (Suc k) xs = tl (drop k xs)" for k and xs :: string by (simp add: drop_Suc tl_drop)
    with Cons.prems(1) show ?thesis by simp
  qed
  then have "\<exists>h'. read_reply m (response @ [c]) limit txn_host ?h = (Inr ((response @ [c]) @ line @ [newline]), h')
      \<and> received h' = received ?h @ line @ [newline]"
    using Cons.prems by (intro Cons.IH) (auto simp: n)
  ultimately show ?case using no by (auto simp: n bindI_def)
qed

lemma exchange_stream:
  assumes "drop (length (received h)) txn_stream = line @ newline # rest" and "newline \<notin> set line"
    and "length line < 4096" and "length payload \<le> 4096" and "0 < limit"
  shows "\<exists>h'. exchange payload (line @ [newline]) limit txn_host h = (Inr (), h') \<and> received h' = received h @ line @ [newline]"
proof -
  obtain h1 where s: "send_payload payload txn_host (Ticked # h) = (Inr (), h1)" "received h1 = received h"
    by (cases "payload = []") (simp_all add: send_payload_def txn_send_def bindI_def txn_host_fields)
  from assms obtain h' where "read_reply 4096 [] limit txn_host h1 = (Inr (line @ [newline]), h')"
    "received h' = received h @ line @ [newline]"
    using read_reply_stream [of h1 line rest "[]" 4096 limit] s(2) by auto
  with s(1) assms(4,5) show ?thesis
    by (auto simp: exchange_def before_deadline_def clock_def bindI_def txn_host_fields)
qed

lemma txn_run:
  "\<exists>h'. attach_head ''work'' (sha_of CHR ''c'') ''refs/heads/main'' ''refs/remotes/origin/main'' [] txn_host [] = (Inr (), h')"
proof -
  have plain: "newline \<notin> set ''start: ok''" "newline \<notin> set ''prepare: ok''" "newline \<notin> set ''commit: ok''"
    by (simp_all add: newline_def)
  have short: "length (txn_payload (sha_of CHR ''c'') ''refs/heads/main'' ''refs/remotes/origin/main'' []) \<le> 4096"
    by code_simp
  let ?h0 = "TxnOpened (preparation_command ''work'' [''update-ref'', ''--stdin'', ''--no-deref'']) # [Ticked]"
  have "drop (length (received ?h0)) txn_stream = ''start: ok'' @ newline # (''prepare: ok'' @ newline # ''commit: ok'' @ [newline])"
    by (simp add: txn_stream_def)
  from exchange_stream [OF this plain(1) _ short, of 10] obtain h1 where
    h1: "exchange (txn_payload (sha_of CHR ''c'') ''refs/heads/main'' ''refs/remotes/origin/main'' [])
      (''start: ok'' @ [newline]) 10 txn_host ?h0 = (Inr (), h1)" "received h1 = ''start: ok'' @ [newline]" by auto
  have "drop (length (received h1)) txn_stream = ''prepare: ok'' @ newline # (''commit: ok'' @ [newline])"
    by (simp add: txn_stream_def h1(2))
  from exchange_stream [OF this plain(2), of "[]" 10] obtain h2 where
    h2: "exchange [] (''prepare: ok'' @ [newline]) 10 txn_host h1 = (Inr (), h2)"
    "received h2 = ''start: ok'' @ [newline] @ ''prepare: ok'' @ [newline]" by (auto simp: h1(2))
  have read: "prepared_read ''work'' 10 arguments txn_host h = (case txn_git (preparation_command ''work'' arguments) of
       Exited status out err \<Rightarrow> (Inr (status, out), Command [] (preparation_command ''work'' arguments) # Ticked # h))"
    if "txn_git (preparation_command ''work'' arguments) = Exited status out []" "status \<in> {0, 1}" "length out \<le> 4096"
    for arguments h status out
    using that by (simp add: prepared_read_def before_deadline_def clock_def spawn_def bindI_def txn_host_fields)
  have git: "txn_git (preparation_command ''work'' [''symbolic-ref'', ''--quiet'', ''--no-recurse'', ''HEAD'']) = Exited 1 [] []"
    "txn_git (preparation_command ''work'' [''rev-parse'', ''--verify'', ''HEAD^{commit}'']) = Exited 0 (sha_of CHR ''c'' @ [newline]) []"
    "txn_git (preparation_command ''work'' [''for-each-ref'', ''--format=%(refname) %(objectname) %(symref)'', ''refs/heads/main'']) = Exited 0 [] []"
    "bytes_strip (sha_of CHR ''c'' @ [newline]) = sha_of CHR ''c''" "rstrip_newlines [] = []" "decode_utf8 [] = Inr []"
    "length (sha_of CHR ''c'' @ [newline]) \<le> 4096"
    by code_simp+
  obtain h3 where h3: "head_unmoved ''work'' 10 (sha_of CHR ''c'') ''refs/heads/main'' [] txn_host h2 = (Inr (), h3)"
    "received h3 = received h2"
    using git by (simp add: head_unmoved_def read bindI_def Let_def)
  have "drop (length (received h3)) txn_stream = ''commit: ok'' @ newline # []"
    by (simp add: txn_stream_def h3(2) h2(2))
  from exchange_stream [OF this plain(3), of commit_payload 10] obtain h4 where
    h4: "exchange commit_payload (''commit: ok'' @ [newline]) 10 txn_host h3 = (Inr (), h4)"
    by (auto simp: commit_payload_def)
  have "attach_body ''work'' (sha_of CHR ''c'') ''refs/heads/main'' ''refs/remotes/origin/main'' [] txn_host []
      = (Inr (), Ticked # TxnClosed # h4)"
    using h1(1) h2(1) h3(1) h4
    by (simp add: attach_body_def attach_prepare_def attach_commit_def bindI_def clock_def txn_open_def txn_close_def txn_host_fields)
  moreover have "txn_finish txn_host (Ticked # TxnClosed # h4) = (Inr (), Ticked # TxnClosed # h4)"
    by (simp add: txn_finish_def bindI_def)
  ultimately show ?thesis by (simp add: attach_head_def finallyI_def)
qed

theorem attach_commit_checked_witness:
  "\<exists>h' g. attach_head ''work'' (sha_of CHR ''c'') ''refs/heads/main'' ''refs/remotes/origin/main'' [] txn_host [] = (Inr (), h')
     \<and> TxnSent commit_payload \<in> set h' \<and> received g = ''start: ok'' @ [newline] @ ''prepare: ok'' @ [newline]"
proof -
  from txn_run obtain h' where run: "attach_head ''work'' (sha_of CHR ''c'') ''refs/heads/main'' ''refs/remotes/origin/main'' []
      txn_host [] = (Inr (), h')" ..
  from attach_commit_checked [OF run] obtain g where "TxnSent commit_payload \<in> set h'"
    "received g = ''start: ok'' @ [newline] @ ''prepare: ok'' @ [newline]" by auto
  with run show ?thesis by blast
qed

end
