(* ===== verification/ReleaseCommand.thy ===== *)
theory ReleaseCommand
  imports Preparation
begin

text \<open>
  The command line of \<open>release.py\<close>, after its arguments are parsed: the order in which a release
  command checks the bindings, the policy, the gate, the inventory, the context and the registry
  before it publishes one crate.
\<close>

section \<open>The command\<close>

datatype release_command = Gate | PrepareCrate | PublishCrate | ClassifyQueue | PrepareBranch

record release_args =
  rel_command :: release_command
  repository_root :: string
  config :: "string option"
  candidate_sha :: string
  automation_sha :: string
  needs_json :: "string option"
  package :: "string option"
  validation_sha :: "string option"
  validation_result :: "string option"
  validation_only :: bool
  bootstrap :: bool
  queue_base_sha :: "string option"
  default_branch :: "string option"

definition given :: "string option \<Rightarrow> string" where
  "given v = (case v of None \<Rightarrow> [] | Some s \<Rightarrow> s)"

definition run_prepare_branch :: "string \<Rightarrow> release_args \<Rightarrow> unit prog" where
  "run_prepare_branch automation_root args =
     (if given (default_branch args) = []
      then raiseI (ReleaseError ''release preparation requires the default branch'' [])
      else
      bindI (prepare_branch (repository_root args) (candidate_sha args) (given (default_branch args))) (\<lambda>_.
      verify_bindings (repository_root args) automation_root (candidate_sha args) (automation_sha args)))"

text \<open>The queue is read through the API, whose world is an argument, by a new client.\<close>

definition classification :: "world \<Rightarrow> string \<Rightarrow> string \<Rightarrow> string \<Rightarrow> string \<Rightarrow> string res" where
  "classification gw repository base_sha candidate branch =
     bindR (new_client repository (monotonic gw [])) (\<lambda>client.
     fst (classify_queue base_sha candidate branch gw client))"

definition run_classify_queue :: "world \<Rightarrow> release_args \<Rightarrow> unit prog" where
  "run_classify_queue gw args =
     bindI (askI environ) (\<lambda>env.
     if env ''GITHUB_EVENT_NAME'' \<noteq> Some ''merge_group'' \<or> given (queue_base_sha args) = []
        \<or> given (default_branch args) = [] \<or> given (env ''GH_TOKEN'') = []
     then raiseI (ReleaseError ''queue classification needs the exact event and read-only API access'' [])
     else
     bindI (liftI (classification gw (given (env ''GITHUB_REPOSITORY'')) (given (queue_base_sha args))
              (candidate_sha args) (given (default_branch args)))) (\<lambda>kind.
     write_outputs [(''release_type'', kind)]))"

definition read_release_policy :: "string \<Rightarrow> dict prog" where
  "read_release_policy path =
     bindI (read_file path) (\<lambda>bytes.
     bindI (liftI (decode_utf8 bytes)) (\<lambda>text.
     bindI (askI (\<lambda>w. (json_pairs w, given (environ w ''GITHUB_REPOSITORY'')))) (\<lambda>(loads, repository).
     liftI (release_policy loads text repository))))"

definition run_gate :: "release_args \<Rightarrow> dict \<Rightarrow> unit prog" where
  "run_gate args policy = (case needs_json args of
     None \<Rightarrow> raiseI (ReleaseError ''release gate needs exact prerequisite results'' [])
   | Some text \<Rightarrow>
       bindI (askI json_pairs) (\<lambda>loads.
       bindI (liftI (release_json loads text)) (\<lambda>needs.
       bindI (liftI (release_gate policy needs (candidate_sha args))) (\<lambda>published.
       write_outputs [(''candidate_sha'', candidate_sha args), (''published_api_candidate_sha'', published)]))))"

definition cargo_metadata :: "string list" where
  "cargo_metadata = [''cargo'', ''metadata'', ''--locked'', ''--no-deps'', ''--format-version'', ''1'']"

definition read_inventory :: "release_args \<Rightarrow> dict \<Rightarrow> ((string \<times> dict) list \<times> (string \<times> string list) list) prog" where
  "read_inventory args policy =
     bindI (checked_output (repository_root args) cargo_metadata) (\<lambda>text.
     bindI (askI (\<lambda>w. (json_pairs w, \<lparr>tree_root = resolved_strict w (repository_root args),
        tree_resolve = resolved_strict w, tree_file = regular_file w\<rparr>))) (\<lambda>(loads, tree).
     bindI (liftI (release_json loads text)) (\<lambda>metadata.
     liftI (publication_inventory tree metadata policy))))"

definition version_of :: "(string \<times> dict) list \<Rightarrow> string \<Rightarrow> string" where
  "version_of packages name = str_of (dget (case map_of packages name of None \<Rightarrow> [] | Some p \<Rightarrow> p) ''version'')"

text \<open>The outputs of a preparation and the dependencies that must be visible.\<close>

definition crate_outputs :: "string \<Rightarrow> bool \<Rightarrow> release_args \<Rightarrow> unit prog" where
  "crate_outputs version published args =
     write_outputs [(''version'', version), (''published'', if published then ''true'' else ''false''),
       (''bootstrap'', if bootstrap args then ''true'' else ''false'')]"

definition dependency_visible :: "(string \<times> dict) list \<Rightarrow> string \<Rightarrow> unit prog" where
  "dependency_visible packages dependency =
     bindI (registry_status dependency (version_of packages dependency)) (\<lambda>status.
     requireI (status = 200) (ReleaseError ''workspace dependency is not yet published: {}'' [dependency]))"

definition publish_or_prepare ::
  "release_args \<Rightarrow> dict \<Rightarrow> (string \<times> dict) list \<Rightarrow> string list \<Rightarrow> string \<Rightarrow> unit prog" where
  "publish_or_prepare args policy packages dependencies name =
     (let version = version_of packages name in
     bindI (verify_publication_context policy (candidate_sha args)) (\<lambda>_.
     bindI (mapI (dependency_visible packages) (sort dependencies)) (\<lambda>_.
     if rel_command args = PrepareCrate then
       bindI (registry_status name version) (\<lambda>status. crate_outputs version (status = 200) args)
     else
     bindI (askI environ) (\<lambda>env.
     if given (env ''CARGO_REGISTRY_TOKEN'') = []
     then raiseI (ReleaseError ''publication requires a fresh narrowly scoped registry credential'' [])
     else publish_crate (repository_root args) name version))))"

definition run_crate :: "release_args \<Rightarrow> dict \<Rightarrow> unit prog" where
  "run_crate args policy =
     (if validation_sha args \<noteq> Some (candidate_sha args) \<or> validation_result args \<noteq> Some ''success''
      then raiseI (ReleaseError ''publication preparation needs the complete exact-candidate release gate'' [])
      else
      bindI (read_inventory args policy) (\<lambda>(packages, dependencies).
      case package args of
        None \<Rightarrow> raiseI (ReleaseError ''package is outside the configured publication inventory'' [])
      | Some name \<Rightarrow>
          let version = version_of packages name in
          if name \<notin> keys packages
          then raiseI (ReleaseError ''package is outside the configured publication inventory'' [])
          else if bootstrap args \<and> dget policy ''bootstrap_version'' \<noteq> JStr version
          then raiseI (ReleaseError ''temporary bootstrap token is restricted to its configured initial version'' [])
          else if validation_only args then
            (if rel_command args = PublishCrate
             then raiseI (ReleaseError ''validation-only mode cannot invoke publication'' [])
             else crate_outputs version False args)
          else publish_or_prepare args policy packages
                 (case map_of dependencies name of None \<Rightarrow> [] | Some ds \<Rightarrow> ds) name))"

definition release_main :: "world \<Rightarrow> string \<Rightarrow> release_args \<Rightarrow> unit prog" where
  "release_main gw automation_root args =
     bindI (verify_bindings (repository_root args) automation_root (candidate_sha args) (automation_sha args)) (\<lambda>_.
     if rel_command args = PrepareBranch then run_prepare_branch automation_root args
     else if rel_command args = ClassifyQueue then run_classify_queue gw args
     else (case config args of
         None \<Rightarrow> raiseI (ReleaseError ''release operations require an explicit typed policy'' [])
       | Some path \<Rightarrow>
           bindI (read_release_policy path) (\<lambda>policy.
           if rel_command args = Gate then run_gate args policy else run_crate args policy)))"

section \<open>Only one step publishes\<close>

definition not_publish :: "host_event \<Rightarrow> bool" where
  "not_publish e \<longleftrightarrow> (case e of Command dir argv \<Rightarrow> take 2 argv \<noteq> [''cargo'', ''publish''] | _ \<Rightarrow> True)"

definition quiet :: "'a prog \<Rightarrow> bool" where
  "quiet m \<longleftrightarrow> keeps (extends not_publish) m"

lemma quiet_basic:
  "quiet (retI x)" "quiet (raiseI e)" "quiet (liftI r)" "quiet (getI g)" "quiet (askI f)" "quiet (requireI b e)"
  "quiet clock" "quiet (fetch url)" "quiet (pause q)" "quiet (read_file path)" "quiet (write_output kv)"
  "quiet (environ_or key v)" "quiet (txn_open argv)" "quiet (txn_send payload)" "quiet txn_receive" "quiet txn_close"
  unfolding quiet_def by (intro txn_rules; simp add: not_publish_def)+

lemma quiet_spawn: "take 2 argv \<noteq> [''cargo'', ''publish''] \<Longrightarrow> quiet (spawn dir env argv)"
  unfolding quiet_def by (intro host_rules) (simp add: not_publish_def)

lemma quiet_bind: "quiet m \<Longrightarrow> (\<And>x. quiet (f x)) \<Longrightarrow> quiet (bindI m f)"
  unfolding quiet_def by (rule host.keeps_bind)

lemma quiet_catch: "quiet m \<Longrightarrow> (\<And>e. quiet (f e)) \<Longrightarrow> quiet (catchI m f)"
  unfolding quiet_def by (rule host.keeps_catch)

lemma quiet_map: "(\<And>x. quiet (f x)) \<Longrightarrow> quiet (mapI f xs)"
  unfolding quiet_def by (rule host.keeps_map)

lemma quiet_if: "(b \<Longrightarrow> quiet m) \<Longrightarrow> (\<not> b \<Longrightarrow> quiet n) \<Longrightarrow> quiet (if b then m else n)"
  by simp

lemma quiet_option: "(x = None \<Longrightarrow> quiet m) \<Longrightarrow> (\<And>y. x = Some y \<Longrightarrow> quiet (f y)) \<Longrightarrow> quiet (case x of None \<Rightarrow> m | Some y \<Rightarrow> f y)"
  by (cases x) auto

lemma quiet_pair: "(\<And>a b. quiet (f a b)) \<Longrightarrow> quiet (case p of (a, b) \<Rightarrow> f a b)"
  by (cases p) auto

lemma quiet_let: "(\<And>x. quiet (f x)) \<Longrightarrow> quiet (let x = v in f x)"
  by (simp add: Let_def)

lemma quiet_reply: "(\<And>status out err. quiet (f status out err)) \<Longrightarrow> quiet m \<Longrightarrow>
    quiet (case r of CommandFailed \<Rightarrow> m | Exited status out err \<Rightarrow> f status out err)"
  by (cases r) auto

lemma quiet_finally: "quiet m \<Longrightarrow> quiet f \<Longrightarrow> quiet (finallyI m f)"
  unfolding quiet_def by (rule keeps_finally)

lemmas quiet_rules = quiet_basic quiet_bind quiet_catch quiet_map quiet_if quiet_option quiet_pair quiet_let
  quiet_reply quiet_finally

lemma quiet_git: "quiet (preparation_git dir arguments)"
  unfolding preparation_git_def run_git_def by (intro quiet_rules quiet_spawn) (simp add: isolation_def)

lemma quiet_exchange: "quiet (exchange payload reply limit)"
  unfolding quiet_def by (rule extends_exchange) (simp_all add: not_publish_def)

lemma quiet_prepared_read: "quiet (prepared_read dir limit arguments)"
  unfolding quiet_def by (rule extends_prepared_read) (simp_all add: not_publish_def preparation_command_def isolation_def)

lemma quiet_attach: "quiet (attach_head dir candidate branch tracking refs)"
  unfolding attach_head_def attach_body_def attach_prepare_def attach_commit_def head_unmoved_def txn_finish_def
  by (intro quiet_rules quiet_exchange quiet_prepared_read)

lemma quiet_checkout: "quiet (preparation_checkout base candidate branch tracking)"
  unfolding preparation_checkout_def by (intro quiet_rules quiet_git)

lemma quiet_prepare: "quiet (prepare_branch dir candidate branch)"
  unfolding prepare_branch_def by (intro quiet_rules quiet_git quiet_checkout quiet_attach)

lemma quiet_bindings: "quiet (verify_bindings dir automation_root candidate automation)"
proof -
  have "quiet (held_at d expected)" for d expected
    unfolding held_at_def checked_output_def by (intro quiet_rules quiet_spawn) simp
  then show ?thesis unfolding verify_bindings_def by (intro quiet_rules)
qed

lemma quiet_registry: "quiet (registry_status name version)"
proof -
  have "quiet (registry_attempts n url)" for n url
    by (induction n) (simp only: registry_attempts.simps quiet_basic,
        simp only: registry_attempts.simps, intro quiet_rules)
  then show ?thesis unfolding registry_status_def by (intro quiet_rules)
qed

lemma quiet_outputs: "quiet (write_outputs kvs)"
  unfolding write_outputs_def by (intro quiet_rules)

lemma quiet_context: "quiet (verify_publication_context policy candidate)"
  unfolding verify_publication_context_def by (intro quiet_rules)

lemma quiet_visible: "quiet (dependency_visible packages d)"
  unfolding dependency_visible_def by (intro quiet_rules quiet_registry)

lemma quiet_policy: "quiet (read_release_policy path)"
  unfolding read_release_policy_def by (intro quiet_rules)

lemma quiet_inventory: "quiet (read_inventory args policy)"
  unfolding read_inventory_def checked_output_def
  by (intro quiet_rules quiet_spawn) (simp add: cargo_metadata_def)

lemma quiet_branches: "quiet (run_prepare_branch automation_root args)" "quiet (run_classify_queue gw args)" "quiet (run_gate args policy)"
  "quiet (crate_outputs version published args)"
  unfolding run_prepare_branch_def run_classify_queue_def run_gate_def crate_outputs_def
  by (intro quiet_rules quiet_prepare quiet_bindings quiet_outputs)+

section \<open>The guard of a publication\<close>

text \<open>A publication happened between two histories.\<close>

definition published_between :: "history \<Rightarrow> history \<Rightarrow> bool" where
  "published_between h h' \<longleftrightarrow> \<not> extends not_publish h h'"

lemma published_quiet: "quiet m \<Longrightarrow> m w h = (r, h') \<Longrightarrow> \<not> published_between h h'"
  unfolding published_between_def quiet_def by (drule keepsD, assumption) simp

lemma published_bindE:
  assumes "bindI m f w h = (r, h')" and "published_between h h'" and "quiet m"
  obtains x h1 where "m w h = (Inr x, h1)" and "f x w h1 = (r, h')" and "published_between h1 h'"
proof -
  obtain q h1 where q: "m w h = (q, h1)" by force
  have e: "extends not_publish h h1" using assms(3) q unfolding quiet_def by (rule keepsD)
  show thesis
  proof (cases q)
    case (Inl e)
    with assms(1) q have "h' = h1" by simp
    with e assms(2) show ?thesis by (simp add: published_between_def)
  next
    case (Inr x)
    with assms(1) q have run: "f x w h1 = (r, h')" by simp
    have "published_between h1 h'" using assms(2) host.both [OF e] unfolding published_between_def by blast
    with q Inr run show ?thesis by (intro that) simp_all
  qed
qed

text \<open>The registry confirmed a crate between two histories.\<close>

definition confirmed :: "host \<Rightarrow> history \<Rightarrow> history \<Rightarrow> string \<Rightarrow> string \<Rightarrow> bool" where
  "confirmed w h h' name version \<longleftrightarrow>
     (\<exists>g. suffix h g \<and> suffix (Fetched (registry_url name version) # g) h' \<and> says w g (registry_url name version) 200)"

lemma confirmed_wider: "confirmed w g g' name version \<Longrightarrow> suffix h g \<Longrightarrow> suffix g' h' \<Longrightarrow> confirmed w h h' name version"
  unfolding confirmed_def by (meson suffix_order.trans)

lemma dependency_visible_Inr:
  assumes "dependency_visible packages d w h = (Inr u, h')"
  shows "confirmed w h h' d (version_of packages d)" and "suffix h h'"
proof -
  let ?url = "registry_url d (version_of packages d)"
  from assms have "registry_status d (version_of packages d) w h = (Inr 200, h')"
    unfolding dependency_visible_def by (elim run_elims) simp
  from registry_status_run [OF this] obtain before where b: "h' = (Fetched ?url # before) @ h" "says w (before @ h) ?url 200"
    by blast
  show "suffix h h'" unfolding b(1) by (rule suffixI) simp
  show "confirmed w h h' d (version_of packages d)"
    unfolding confirmed_def b(1) by (intro exI [of _ "before @ h"]) (use b(2) in \<open>simp add: suffix_def\<close>)
qed

lemma dependencies_visible:
  "mapI (dependency_visible packages) ds w h = (Inr us, h') \<Longrightarrow>
     (\<forall>d \<in> set ds. confirmed w h h' d (version_of packages d)) \<and> suffix h h'"
proof (induction ds arbitrary: h us)
  case (Cons d ds)
  then obtain u h1 us' where d: "dependency_visible packages d w h = (Inr u, h1)"
    and ds: "mapI (dependency_visible packages) ds w h1 = (Inr us', h')" by (auto simp: bindI_Inr)
  note one = dependency_visible_Inr [OF d]
  have rest: "\<forall>d \<in> set ds. confirmed w h1 h' d (version_of packages d)" "suffix h1 h'" using Cons.IH [OF ds] by auto
  have "confirmed w h h' d (version_of packages d)"
    using one(1) suffix_order.refl rest(2) by (rule confirmed_wider)
  moreover have "confirmed w h h' e (version_of packages e)" if "e \<in> set ds" for e
    using bspec [OF rest(1) that] one(2) suffix_order.refl by (rule confirmed_wider)
  ultimately show ?case using suffix_order.trans [OF one(2) rest(2)] by simp
qed auto

lemma publish_crate_grows:
  assumes "publish_crate dir name version w h = (r, h')"
  shows "suffix h h'"
proof -
  have "keeps (extends (\<lambda>_. True)) (registry_attempts n url)" for n url
    by (induction n) (simp only: registry_attempts.simps host.keeps_raise,
        simp only: registry_attempts.simps, intro host_rules, simp_all)
  then have reg: "keeps (extends (\<lambda>_. True)) (registry_status name version)"
    unfolding registry_status_def by (intro host_rules)
  have "keeps (extends (\<lambda>_. True)) (await_visible n name version)" for n
    by (induction n) (simp only: await_visible.simps host.keeps_raise,
        simp only: await_visible.simps, intro host_rules reg, simp_all)
  with reg have "keeps (extends (\<lambda>_. True)) (publish_crate dir name version)"
    unfolding publish_crate_def cargo_publish_def by (intro host_rules) simp_all
  from keepsD [OF this, OF assms] show ?thesis by (auto simp: extends_def suffix_def)
qed

text \<open>The run is an explicit dispatch for the commit on the default branch.\<close>

definition dispatched :: "host \<Rightarrow> string \<Rightarrow> bool" where
  "dispatched w candidate \<longleftrightarrow> environ w ''GITHUB_EVENT_NAME'' = Some ''workflow_dispatch'' \<and> environ w ''GITHUB_SHA'' = Some candidate
     \<and> (\<exists>branch. branch \<noteq> [] \<and> environ w ''BOXFERRY_DEFAULT_BRANCH'' = Some branch
          \<and> environ w ''GITHUB_REF'' = Some (''refs/heads/'' @ branch))"

lemma verify_publication_context_Inr:
  assumes "verify_publication_context policy candidate w h = (Inr u, h')"
  shows "dispatched w candidate" and "truthy (dget_or policy ''publication_enabled'' (JBool False))" and "h' = h"
  using assms
  by (auto simp: verify_publication_context_def dispatched_def bindI_def requireI_def Let_def split: if_splits option.splits)

text \<open>A command ended with success and this output, between two histories.\<close>

definition ran_with :: "host \<Rightarrow> history \<Rightarrow> history \<Rightarrow> string \<Rightarrow> string list \<Rightarrow> string \<Rightarrow> bool" where
  "ran_with w h h' dir argv out \<longleftrightarrow> during h h' (\<lambda>g e. e = Command dir argv
     \<and> (\<exists>err. command_reply w g dir (environ w) argv = Exited 0 out err))"

lemma checked_output_Inr:
  assumes "checked_output dir argv w h = (Inr out, h')"
  shows "suffix h h'" and "ran_with w h h' dir argv out"
proof -
  obtain err where run: "command_reply w h dir (environ w) argv = Exited 0 out err" and h': "h' = Command dir argv # h"
    using assms unfolding checked_output_def
    by (elim run_elims) (auto simp: spawn_def decode_utf8_Inr split: command_reply.splits if_splits)
  show "suffix h h'" unfolding h' by (simp add: suffix_ConsI)
  show "ran_with w h h' dir argv out" unfolding ran_with_def h' by (rule during_step) (use run in simp)
qed

text \<open>A checkout is at a commit; the policy is the one of a file; the inventory is the one Cargo and the policy give.\<close>

definition checked_out :: "host \<Rightarrow> history \<Rightarrow> history \<Rightarrow> string \<Rightarrow> string \<Rightarrow> bool" where
  "checked_out w h h' dir commit \<longleftrightarrow> is_sha commit
     \<and> (\<exists>out. ran_with w h h' [] [''git'', ''-C'', dir, ''rev-parse'', ''HEAD''] out \<and> py_strip out = commit)"

definition policy_read :: "host \<Rightarrow> history \<Rightarrow> history \<Rightarrow> string \<Rightarrow> dict \<Rightarrow> bool" where
  "policy_read w h h' path policy \<longleftrightarrow> (\<exists>content. during h h' (\<lambda>g e. e = Asked path \<and> file_text w g path = Some content)
     \<and> release_policy (json_pairs w) content (given (environ w ''GITHUB_REPOSITORY'')) = Inr policy)"

definition inventory_read :: "host \<Rightarrow> history \<Rightarrow> history \<Rightarrow> string \<Rightarrow> dict
    \<Rightarrow> (string \<times> dict) list \<Rightarrow> (string \<times> string list) list \<Rightarrow> bool" where
  "inventory_read w h h' dir policy packages dependencies \<longleftrightarrow> (\<exists>content metadata. ran_with w h h' dir cargo_metadata content
     \<and> release_json (json_pairs w) content = Inr metadata
     \<and> publication_inventory \<lparr>tree_root = resolved_strict w dir, tree_resolve = resolved_strict w, tree_file = regular_file w\<rparr>
         metadata policy = Inr (packages, dependencies))"

lemma held_at_Inr:
  assumes "held_at dir expected w h = (Inr u, h')"
  shows "suffix h h'" and "\<exists>out. ran_with w h h' [] [''git'', ''-C'', dir, ''rev-parse'', ''HEAD''] out \<and> py_strip out = expected"
  using assms unfolding held_at_def by (elim run_elims, use checked_output_Inr in fastforce)+

lemma ran_with_wider: "ran_with w g g' dir argv out \<Longrightarrow> suffix h g \<Longrightarrow> suffix g' h' \<Longrightarrow> ran_with w h h' dir argv out"
  unfolding ran_with_def by (rule during_wider)

lemma verify_bindings_Inr:
  assumes "verify_bindings dir automation_root candidate automation w h = (Inr u, h')"
  shows "suffix h h'" and "checked_out w h h' dir candidate" and "checked_out w h h' automation_root automation"
proof -
  obtain u1 h1 u2 where sha: "is_sha candidate" "is_sha automation"
    and a: "held_at dir candidate w h = (Inr u1, h1)" and b: "held_at automation_root automation w h1 = (Inr u2, h')"
    using assms unfolding verify_bindings_def by (elim run_elims) auto
  note a = held_at_Inr [OF a] and b = held_at_Inr [OF b]
  show "suffix h h'" using a(1) b(1) by (rule suffix_order.trans)
  show "checked_out w h h' dir candidate" "checked_out w h h' automation_root automation"
    using sha a b ran_with_wider [OF _ suffix_order.refl b(1)] ran_with_wider [OF _ a(1) suffix_order.refl]
    unfolding checked_out_def by blast+
qed

lemma read_release_policy_Inr:
  assumes "read_release_policy path w h = (Inr policy, h')"
  shows "suffix h h'" and "policy_read w h h' path policy"
proof -
  obtain content where h': "h' = Asked path # h" and t: "file_text w h path = Some content"
    and p: "release_policy (json_pairs w) content (given (environ w ''GITHUB_REPOSITORY'')) = Inr policy"
    using assms unfolding read_release_policy_def
    by (auto simp: read_file_def bindI_Inr decode_utf8_Inr split: option.splits)
  show "suffix h h'" unfolding h' by (simp add: suffix_ConsI)
  have "during h h' (\<lambda>g e. e = Asked path \<and> file_text w g path = Some content)"
    unfolding h' by (rule during_step) (use t in simp)
  with p show "policy_read w h h' path policy" unfolding policy_read_def by blast
qed

lemma read_inventory_Inr:
  assumes "read_inventory args policy w h = (Inr (packages, dependencies), h')"
  shows "suffix h h'" and "inventory_read w h h' (repository_root args) policy packages dependencies"
proof -
  obtain content metadata where c: "checked_output (repository_root args) cargo_metadata w h = (Inr content, h')"
    and m: "release_json (json_pairs w) content = Inr metadata"
    and p: "publication_inventory \<lparr>tree_root = resolved_strict w (repository_root args), tree_resolve = resolved_strict w,
        tree_file = regular_file w\<rparr> metadata policy = Inr (packages, dependencies)"
    using assms unfolding read_inventory_def by (auto simp: bindI_Inr)
  note c = checked_output_Inr [OF c]
  show "suffix h h'" by (rule c(1))
  show "inventory_read w h h' (repository_root args) policy packages dependencies"
    unfolding inventory_read_def using c(2) m p by blast
qed

lemma publish_or_prepare_guard:
  assumes "publish_or_prepare args policy packages dependencies name w h = (r, h')" and "published_between h h'"
  shows "rel_command args \<noteq> PrepareCrate \<and> given (environ w ''CARGO_REGISTRY_TOKEN'') \<noteq> []
    \<and> dispatched w (candidate_sha args) \<and> truthy (dget_or policy ''publication_enabled'' (JBool False))
    \<and> (\<exists>g. suffix h g \<and> (\<forall>d \<in> set dependencies. confirmed w h g d (version_of packages d))
         \<and> publish_crate (repository_root args) name (version_of packages name) w g = (r, h'))"
proof -
  from assms obtain u h1 where
    c: "verify_publication_context policy (candidate_sha args) w h = (Inr u, h1)"
    and r1: "bindI (mapI (dependency_visible packages) (sort dependencies)) (\<lambda>_.
     if rel_command args = PrepareCrate then
       bindI (registry_status name (version_of packages name))
         (\<lambda>status. crate_outputs (version_of packages name) (status = 200) args)
     else bindI (askI environ) (\<lambda>env.
       if given (env ''CARGO_REGISTRY_TOKEN'') = []
       then raiseI (ReleaseError ''publication requires a fresh narrowly scoped registry credential'' [])
       else publish_crate (repository_root args) name (version_of packages name))) w h1 = (r, h')"
    and p1: "published_between h1 h'"
    unfolding publish_or_prepare_def Let_def by (rule published_bindE [OF _ _ quiet_context]) (rule that, assumption+)
  from r1 p1 obtain us h2 where d: "mapI (dependency_visible packages) (sort dependencies) w h1 = (Inr us, h2)"
    and rest: "(if rel_command args = PrepareCrate then
       bindI (registry_status name (version_of packages name))
         (\<lambda>status. crate_outputs (version_of packages name) (status = 200) args)
     else bindI (askI environ) (\<lambda>env.
       if given (env ''CARGO_REGISTRY_TOKEN'') = []
       then raiseI (ReleaseError ''publication requires a fresh narrowly scoped registry credential'' [])
       else publish_crate (repository_root args) name (version_of packages name))) w h2 = (r, h')"
    and pub: "published_between h2 h'"
    by (rule published_bindE [OF _ _ quiet_map [OF quiet_visible]]) (rule that, assumption+)
  note ctx = verify_publication_context_Inr [OF c]
  have "\<not> rel_command args = PrepareCrate"
  proof
    assume "rel_command args = PrepareCrate"
    with rest have "bindI (registry_status name (version_of packages name))
         (\<lambda>status. crate_outputs (version_of packages name) (status = 200) args) w h2 = (r, h')" by simp
    moreover have "quiet (bindI (registry_status name (version_of packages name))
         (\<lambda>status. crate_outputs (version_of packages name) (status = 200) args))"
      by (intro quiet_rules quiet_registry quiet_branches)
    ultimately show False using pub published_quiet by blast
  qed
  moreover from this rest have tok: "given (environ w ''CARGO_REGISTRY_TOKEN'') \<noteq> []"
    using pub by (auto simp: bindI_def published_between_def extends_def)
  ultimately have run: "publish_crate (repository_root args) name (version_of packages name) w h2 = (r, h')"
    using rest by (simp add: bindI_def)
  note vis = dependencies_visible [OF d]
  then show ?thesis using ctx tok run \<open>\<not> rel_command args = PrepareCrate\<close> by auto
qed

lemma run_crate_guard:
  assumes "run_crate args policy w h = (r, h')" and "published_between h h'"
  shows "\<exists>name packages deps g. package args = Some name
    \<and> validation_sha args = Some (candidate_sha args) \<and> validation_result args = Some ''success'' \<and> \<not> validation_only args
    \<and> read_inventory args policy w h = (Inr (packages, deps), g) \<and> name \<in> keys packages
    \<and> (bootstrap args \<longrightarrow> dget policy ''bootstrap_version'' = JStr (version_of packages name)) \<and> published_between g h'
    \<and> publish_or_prepare args policy packages (case map_of deps name of None \<Rightarrow> [] | Some ds \<Rightarrow> ds) name w g = (r, h')"
proof -
  have v: "validation_sha args = Some (candidate_sha args)" "validation_result args = Some ''success''"
    using assms by (auto simp: run_crate_def published_between_def extends_def split: if_splits)
  with assms obtain p g where i: "read_inventory args policy w h = (Inr p, g)"
    and rest: "(case p of (packages, dependencies) \<Rightarrow> case package args of
        None \<Rightarrow> raiseI (ReleaseError ''package is outside the configured publication inventory'' [])
      | Some name \<Rightarrow>
          let version = version_of packages name in
          if name \<notin> keys packages
          then raiseI (ReleaseError ''package is outside the configured publication inventory'' [])
          else if bootstrap args \<and> dget policy ''bootstrap_version'' \<noteq> JStr version
          then raiseI (ReleaseError ''temporary bootstrap token is restricted to its configured initial version'' [])
          else if validation_only args then
            (if rel_command args = PublishCrate
             then raiseI (ReleaseError ''validation-only mode cannot invoke publication'' [])
             else crate_outputs version False args)
          else publish_or_prepare args policy packages
                 (case map_of dependencies name of None \<Rightarrow> [] | Some ds \<Rightarrow> ds) name) w g = (r, h')"
    and pub: "published_between g h'"
    unfolding run_crate_def by (simp, elim published_bindE [OF _ assms(2) quiet_inventory]) (rule that, assumption+)
  obtain packages deps where p: "p = (packages, deps)" by force
  have out: "\<not> published_between g h'" if "crate_outputs version False args w g = (r, h')" for version
    using quiet_branches(4) that by (rule published_quiet)
  obtain name where name: "package args = Some name"
    using rest pub p by (cases "package args") (auto simp: published_between_def extends_def)
  have "name \<in> keys packages" "\<not> validation_only args"
    and "bootstrap args \<longrightarrow> dget policy ''bootstrap_version'' = JStr (version_of packages name)"
    and "publish_or_prepare args policy packages (case map_of deps name of None \<Rightarrow> [] | Some ds \<Rightarrow> ds) name w g = (r, h')"
    using rest pub p name out
    by (auto simp: Let_def published_between_def extends_def simp del: set_map split: if_splits)
  then show ?thesis using v pub p i name by blast
qed

text \<open>
  C33. Nothing is published without all of its guards. When a release command runs \<open>cargo publish\<close>, it is the
  publish command outside validation-only mode, with the complete gate passed for exactly this commit, dispatched
  on the default branch for it, and with the registry token. In this order, and before anything is published: both
  checkouts were at their identities; the policy read from the named file enables publication; the metadata that
  Cargo printed for the checkout gave the inventory, which has the package, at the configured version when this is
  a bootstrap; the registry confirmed every workspace dependency of the package; and the publication is the
  confirmed one of this one package.
\<close>

theorem publication_guarded:
  assumes "release_main gw automation_root args w h = (r, h')"
    and "h' = new @ h" and "Command dir argv \<in> set new" and "take 2 argv = [''cargo'', ''publish'']"
  shows "rel_command args = PublishCrate \<and> \<not> validation_only args
    \<and> validation_sha args = Some (candidate_sha args) \<and> validation_result args = Some ''success''
    \<and> given (environ w ''CARGO_REGISTRY_TOKEN'') \<noteq> [] \<and> dispatched w (candidate_sha args)
    \<and> (\<exists>h1 h2 h3 g path policy packages dependencies name.
        suffix h h1 \<and> suffix h1 h2 \<and> suffix h2 h3 \<and> suffix h3 g \<and> suffix g h' \<and> extends not_publish h h3
      \<and> checked_out w h h1 (repository_root args) (candidate_sha args) \<and> checked_out w h h1 automation_root (automation_sha args)
      \<and> config args = Some path \<and> policy_read w h1 h2 path policy
      \<and> truthy (dget_or policy ''publication_enabled'' (JBool False))
      \<and> inventory_read w h2 h3 (repository_root args) policy packages dependencies
      \<and> package args = Some name \<and> name \<in> keys packages
      \<and> (bootstrap args \<longrightarrow> dget policy ''bootstrap_version'' = JStr (version_of packages name))
      \<and> (\<forall>d \<in> set (case map_of dependencies name of None \<Rightarrow> [] | Some ds \<Rightarrow> ds). confirmed w h3 g d (version_of packages d))
      \<and> publish_crate (repository_root args) name (version_of packages name) w g = (r, h'))"
proof -
  have pub: "published_between h h'"
    using assms(2-4) by (auto simp: published_between_def extends_def list_all_iff not_publish_def split: host_event.splits)
  from assms(1) obtain u h1 where
    b: "verify_bindings (repository_root args) automation_root (candidate_sha args) (automation_sha args) w h = (Inr u, h1)"
    and r1: "(if rel_command args = PrepareBranch then run_prepare_branch automation_root args
     else if rel_command args = ClassifyQueue then run_classify_queue gw args
     else (case config args of
         None \<Rightarrow> raiseI (ReleaseError ''release operations require an explicit typed policy'' [])
       | Some path \<Rightarrow>
           bindI (read_release_policy path) (\<lambda>policy.
           if rel_command args = Gate then run_gate args policy else run_crate args policy))) w h1 = (r, h')"
    and p1: "published_between h1 h'"
    unfolding release_main_def by (rule published_bindE [OF _ pub quiet_bindings])
  have "rel_command args \<notin> {PrepareBranch, ClassifyQueue}"
    using r1 p1 published_quiet [OF quiet_branches(1)] published_quiet [OF quiet_branches(2)] by (auto split: if_splits)
  moreover from this r1 p1 obtain path where path: "config args = Some path"
    and step: "bindI (read_release_policy path) (\<lambda>policy.
       if rel_command args = Gate then run_gate args policy else run_crate args policy) w h1 = (r, h')"
    by (auto simp: published_between_def extends_def split: option.splits)
  from step obtain policy h2 where pol: "read_release_policy path w h1 = (Inr policy, h2)"
    and r2: "(if rel_command args = Gate then run_gate args policy else run_crate args policy) w h2 = (r, h')"
    and p2: "published_between h2 h'" by (rule published_bindE [OF _ p1 quiet_policy])
  have not_gate: "rel_command args \<noteq> Gate"
    using r2 p2 published_quiet [OF quiet_branches(3)] by auto
  with r2 have r3: "run_crate args policy w h2 = (r, h')" by simp
  from run_crate_guard [OF r3 p2] obtain name packages deps h3 where
    v: "package args = Some name" "validation_sha args = Some (candidate_sha args)"
      "validation_result args = Some ''success''" "\<not> validation_only args"
    and i: "read_inventory args policy w h2 = (Inr (packages, deps), h3)" "name \<in> keys packages"
      "bootstrap args \<longrightarrow> dget policy ''bootstrap_version'' = JStr (version_of packages name)"
    and p3: "published_between h3 h'"
    and r4: "publish_or_prepare args policy packages (case map_of deps name of None \<Rightarrow> [] | Some ds \<Rightarrow> ds) name w h3 = (r, h')"
    by blast
  note guard = publish_or_prepare_guard [OF r4 p3]
  note bind = verify_bindings_Inr [OF b] and read = read_release_policy_Inr [OF pol] and inv = read_inventory_Inr [OF i(1)]
  obtain g where g: "suffix h3 g" "publish_crate (repository_root args) name (version_of packages name) w g = (r, h')"
    "\<forall>d \<in> set (case map_of deps name of None \<Rightarrow> [] | Some ds \<Rightarrow> ds). confirmed w h3 g d (version_of packages d)"
    using guard by blast
  have "extends not_publish h h1" "extends not_publish h1 h2" "extends not_publish h2 h3"
    using quiet_bindings b quiet_policy pol quiet_inventory i(1) unfolding quiet_def by (meson keepsD)+
  then have "extends not_publish h h3" by (meson host.both)
  moreover have "rel_command args = PublishCrate"
    using guard not_gate \<open>rel_command args \<notin> {PrepareBranch, ClassifyQueue}\<close> by (cases "rel_command args") auto
  ultimately show ?thesis using guard v i(2,3) bind read inv g publish_crate_grows [OF g(2)] path by blast
qed

section \<open>A sample publication\<close>

definition release_environment :: environment where
  "release_environment = map_of
     [(''GITHUB_SHA'', sha_of CHR ''c''), (''GITHUB_EVENT_NAME'', ''workflow_dispatch''), (''GITHUB_REF'', ''refs/heads/main''),
      (''BOXFERRY_DEFAULT_BRANCH'', ''main''), (''GITHUB_REPOSITORY'', ''Strukturpiloten/boxferry''),
      (''CARGO_REGISTRY_TOKEN'', ''token'')]"

definition release_reply :: "string list \<Rightarrow> command_reply" where
  "release_reply argv =
     (if ''metadata'' \<in> set argv then Exited 0 ''metadata'' []
      else if ''work'' \<in> set argv then Exited 0 (sha_of CHR ''c'' @ [newline]) []
      else if ''automation'' \<in> set argv then Exited 0 (sha_of CHR ''d'' @ [newline]) []
      else Exited 0 [] [])"

definition release_host :: host where
  "release_host = sample_host
     \<lparr>http_reply := (\<lambda>h url. if url = registry_url ''core'' ''1.2.3'' \<or> list_ex (\<lambda>e. \<not> not_publish e) h
                            then HttpOk url 200 [] else HttpFailed url 404),
      command_reply := (\<lambda>h dir env argv. release_reply argv), environ := release_environment,
      resolved_strict := (\<lambda>s. Some [''/'', ''work'']), file_text := (\<lambda>h path. Some ''policy''),
      json_pairs := (\<lambda>s. if s = ''policy'' then ([sample_release_policy], Some (JObj sample_release_policy))
                          else ([], Some sample_metadata))\<rparr>"

definition release_sample_args :: release_args where
  "release_sample_args = \<lparr>rel_command = PublishCrate, repository_root = ''work'', config = Some ''policy'',
     candidate_sha = sha_of CHR ''c'', automation_sha = sha_of CHR ''d'', needs_json = None, package = Some ''cli'',
     validation_sha = Some (sha_of CHR ''c''), validation_result = Some ''success'', validation_only = False,
     bootstrap = False, queue_base_sha = None, default_branch = None\<rparr>"

lemma release_host_fields:
  "command_reply release_host h dir env argv = release_reply argv" "environ release_host = release_environment"
  "file_text release_host h path = Some ''policy''"
  "http_reply release_host h url = (if url = registry_url ''core'' ''1.2.3'' \<or> list_ex (\<lambda>e. \<not> not_publish e) h
                            then HttpOk url 200 [] else HttpFailed url 404)"
  by (simp_all add: release_host_def)

lemma release_args_fields:
  "rel_command release_sample_args = PublishCrate" "repository_root release_sample_args = ''work''"
  "config release_sample_args = Some ''policy''" "candidate_sha release_sample_args = sha_of CHR ''c''"
  "automation_sha release_sample_args = sha_of CHR ''d''" "package release_sample_args = Some ''cli''"
  "validation_sha release_sample_args = Some (sha_of CHR ''c'')" "validation_result release_sample_args = Some ''success''"
  "\<not> validation_only release_sample_args" "\<not> bootstrap release_sample_args"
  by (simp_all add: release_sample_args_def)

lemma release_texts:
  "py_strip (sha_of CHR ''c'' @ [newline]) = sha_of CHR ''c''" "py_strip (sha_of CHR ''d'' @ [newline]) = sha_of CHR ''d''"
  "decode_utf8 (sha_of CHR ''c'' @ [newline]) = Inr (sha_of CHR ''c'' @ [newline])"
  "decode_utf8 (sha_of CHR ''d'' @ [newline]) = Inr (sha_of CHR ''d'' @ [newline])"
  "decode_utf8 ''policy'' = Inr ''policy''" "decode_utf8 ''metadata'' = Inr ''metadata''"
  "release_reply [''git'', ''-C'', ''work'', ''rev-parse'', ''HEAD''] = Exited 0 (sha_of CHR ''c'' @ [newline]) []"
  "release_reply [''git'', ''-C'', ''automation'', ''rev-parse'', ''HEAD''] = Exited 0 (sha_of CHR ''d'' @ [newline]) []"
  "release_reply cargo_metadata = Exited 0 ''metadata'' []" "release_reply (publish_argv ''cli'') = Exited 0 [] []"
  "release_environment ''GITHUB_SHA'' = Some (sha_of CHR ''c'')" "release_environment ''GITHUB_EVENT_NAME'' = Some ''workflow_dispatch''"
  "release_environment ''GITHUB_REF'' = Some ''refs/heads/main''" "release_environment ''BOXFERRY_DEFAULT_BRANCH'' = Some ''main''"
  "given (release_environment ''GITHUB_REPOSITORY'') = ''Strukturpiloten/boxferry''"
  "given (release_environment ''CARGO_REGISTRY_TOKEN'') = ''token''"
  by code_simp+

lemma release_bindings:
  "verify_bindings ''work'' ''automation'' (sha_of CHR ''c'') (sha_of CHR ''d'') release_host h
     = (Inr (), Command [] [''git'', ''-C'', ''automation'', ''rev-parse'', ''HEAD'']
         # Command [] [''git'', ''-C'', ''work'', ''rev-parse'', ''HEAD''] # h)"
  by (simp add: verify_bindings_def held_at_def checked_output_def spawn_def bindI_def release_host_fields release_texts
      sample_hex requireI_def)

lemma release_policy_run:
  "read_release_policy ''policy'' release_host h = (Inr sample_release_policy, Asked ''policy'' # h)"
proof -
  have "release_policy (json_pairs release_host) ''policy'' ''Strukturpiloten/boxferry'' = Inr sample_release_policy"
    by code_simp
  then show ?thesis
    by (simp add: read_release_policy_def read_file_def bindI_def release_host_fields release_texts)
qed

definition sample_inventory :: "(string \<times> dict) list" where
  "sample_inventory = [(''cli'', sample_package ''cli'' [JObj [(''name'', JStr ''core''), (''path'', JStr ''core'')]]),
     (''core'', sample_package ''core'' [])]"

lemma release_inventory_run:
  "read_inventory release_sample_args sample_release_policy release_host h
     = (Inr (sample_inventory, [(''core'', []), (''cli'', [''core''])]), Command ''work'' cargo_metadata # h)"
proof -
  have "release_json (json_pairs release_host) ''metadata'' = Inr sample_metadata" by code_simp
  moreover have "publication_inventory \<lparr>tree_root = resolved_strict release_host ''work'', tree_resolve = resolved_strict release_host,
      tree_file = regular_file release_host\<rparr> sample_metadata sample_release_policy
      = Inr (sample_inventory, [(''core'', []), (''cli'', [''core''])])"
    by code_simp
  ultimately show ?thesis
    by (simp add: read_inventory_def checked_output_def spawn_def bindI_def release_host_fields release_texts release_args_fields)
qed

lemma release_registry:
  "registry_status ''core'' ''1.2.3'' release_host h = (Inr 200, Fetched (registry_url ''core'' ''1.2.3'') # h)"
  "registry_status ''cli'' ''1.2.3'' release_host h
     = (Inr (if list_ex (\<lambda>e. \<not> not_publish e) h then 200 else 404), Fetched (registry_url ''cli'' ''1.2.3'') # h)"
proof -
  have "is_package ''core'' \<and> is_package ''cli'' \<and> is_version ''1.2.3''" "registry_url ''cli'' ''1.2.3'' \<noteq> registry_url ''core'' ''1.2.3''"
    by code_simp+
  then show "registry_status ''core'' ''1.2.3'' release_host h = (Inr 200, Fetched (registry_url ''core'' ''1.2.3'') # h)"
    "registry_status ''cli'' ''1.2.3'' release_host h
     = (Inr (if list_ex (\<lambda>e. \<not> not_publish e) h then 200 else 404), Fetched (registry_url ''cli'' ''1.2.3'') # h)"
    by (simp_all add: registry_status_def eval_nat_numeral fetch_def reply_status_def bindI_def release_host_fields)
qed

lemma release_publish:
  assumes "\<not> list_ex (\<lambda>e. \<not> not_publish e) h"
  shows "publish_crate ''work'' ''cli'' ''1.2.3'' release_host h
    = (Inr (), Fetched (registry_url ''cli'' ''1.2.3'') # Command ''work'' (publish_argv ''cli'')
        # Fetched (registry_url ''cli'' ''1.2.3'') # h)"
proof -
  have "\<not> not_publish (Command ''work'' (publish_argv ''cli''))" by (simp add: not_publish_def publish_argv_def)
  then have "await_visible 60 ''cli'' ''1.2.3'' release_host (Command ''work'' (publish_argv ''cli'') # g)
      = (Inr (), Fetched (registry_url ''cli'' ''1.2.3'') # Command ''work'' (publish_argv ''cli'') # g)" for g
    using await_visible.simps(2) [of 59 "''cli''" "''1.2.3''"] by (simp add: release_registry bindI_def)
  with assms show ?thesis
    by (simp add: publish_crate_def release_registry cargo_publish_def spawn_def bindI_def release_host_fields release_texts)
qed

lemma release_run:
  "\<exists>new. release_main queue_world ''automation'' release_sample_args release_host [] = (Inr (), new)
     \<and> Command ''work'' (publish_argv ''cli'') \<in> set new"
proof -
  have versions: "version_of sample_inventory ''cli'' = ''1.2.3''" "version_of sample_inventory ''core'' = ''1.2.3''"
    "''cli'' \<in> keys sample_inventory" "dget_or sample_release_policy ''publication_enabled'' (JBool False) = JBool True"
    by code_simp+
  have ctx: "verify_publication_context sample_release_policy (sha_of CHR ''c'') release_host h = (Inr (), h)" for h
    by (simp add: verify_publication_context_def bindI_def requireI_def release_host_fields release_texts versions)
  have visible: "dependency_visible sample_inventory ''core'' release_host h
      = (Inr (), Fetched (registry_url ''core'' ''1.2.3'') # h)" for h
    by (simp add: dependency_visible_def versions release_registry bindI_def requireI_def)
  have "publish_or_prepare release_sample_args sample_release_policy sample_inventory [''core''] ''cli'' release_host h
      = (Inr (), Fetched (registry_url ''cli'' ''1.2.3'') # Command ''work'' (publish_argv ''cli'')
          # Fetched (registry_url ''cli'' ''1.2.3'') # Fetched (registry_url ''core'' ''1.2.3'') # h)"
    if "\<not> list_ex (\<lambda>e. \<not> not_publish e) h" for h
  proof -
    have "\<not> list_ex (\<lambda>e. \<not> not_publish e) (Fetched (registry_url ''core'' ''1.2.3'') # h)"
      using that by (simp add: not_publish_def)
    from release_publish [OF this] show ?thesis
      by (simp add: publish_or_prepare_def release_args_fields ctx visible versions release_host_fields release_texts
          bindI_def)
  qed
  note publish = this
  have "run_crate release_sample_args sample_release_policy release_host h
      = (Inr (), Fetched (registry_url ''cli'' ''1.2.3'') # Command ''work'' (publish_argv ''cli'')
          # Fetched (registry_url ''cli'' ''1.2.3'') # Fetched (registry_url ''core'' ''1.2.3'') # Command ''work'' cargo_metadata # h)"
    if "\<not> list_ex (\<lambda>e. \<not> not_publish e) h" for h
  proof -
    have "\<not> list_ex (\<lambda>e. \<not> not_publish e) (Command ''work'' cargo_metadata # h)"
      using that by (simp add: not_publish_def cargo_metadata_def)
    from publish [OF this] show ?thesis
      using versions(3) by (simp add: run_crate_def release_args_fields release_inventory_run bindI_def Let_def)
  qed
  then show ?thesis
    by (simp add: release_main_def release_args_fields release_bindings release_policy_run bindI_def not_publish_def)
qed

theorem publication_guarded_witness:
  "\<exists>new. release_main queue_world ''automation'' release_sample_args release_host [] = (Inr (), new)
     \<and> Command ''work'' (publish_argv ''cli'') \<in> set new \<and> given (environ release_host ''CARGO_REGISTRY_TOKEN'') \<noteq> []
     \<and> (\<exists>packages g. publish_crate ''work'' ''cli'' (version_of packages ''cli'') release_host g = (Inr (), new))"
proof -
  obtain new where run: "release_main queue_world ''automation'' release_sample_args release_host [] = (Inr (), new)"
    and c: "Command ''work'' (publish_argv ''cli'') \<in> set new" using release_run by blast
  have "new = new @ []" "take 2 (publish_argv ''cli'') = [''cargo'', ''publish'']" by (simp_all add: publish_argv_def)
  from publication_guarded [OF run this(1) c this(2)] run c show ?thesis
    by (simp add: release_args_fields) blast
qed

end
