(* ===== verification/CargoTools.thy ===== *)
theory CargoTools
  imports Host
begin

text \<open>
  \<open>cargo_tools.py\<close>: which version of a Cargo subcommand and which compiler a checkout declares, and the
  check that exactly these run. Paths are the strings that name them.
\<close>

section \<open>Versions and paths\<close>

text \<open>\<open>VERSION\<close>: three numbers without leading zeros.\<close>

definition is_numeral :: "string \<Rightarrow> bool" where
  "is_numeral s = (s \<noteq> [] \<and> list_all is_digit s \<and> (hd s = CHR ''0'' \<longrightarrow> length s = 1))"

definition is_stable :: "string \<Rightarrow> bool" where
  "is_stable s = (length (split_on CHR ''.'' s) = 3 \<and> list_all is_numeral (split_on CHR ''.'' s))"

text \<open>\<open>a / b\<close>, the parents of an absolute path, and the joined prefixes of a relative one.\<close>

definition path_join :: "string \<Rightarrow> string \<Rightarrow> string" where
  "path_join a b = (if b = [] then a else if startswith b ''/'' then b else if endswith a ''/'' then a @ b else a @ ''/'' @ b)"

definition path_parents :: "string \<Rightarrow> string list" where
  "path_parents path = (let parts = tl (split_on CHR ''/'' path) in
     if path = ''/'' then []
     else map (\<lambda>n. ''/'' @ join ''/'' (take n parts)) (rev [0..<length parts]))"

definition relative_prefixes :: "string \<Rightarrow> string list" where
  "relative_prefixes relative = (let parts = split_on CHR ''/'' relative in
     map (\<lambda>n. join ''/'' (take n parts)) (rev [1..<length parts + 1]))"

definition MAX_DECLARATION_BYTES :: nat where "MAX_DECLARATION_BYTES = 64 * 1024"
definition DOCKERFILE :: string where "DOCKERFILE = ''.devcontainer/Dockerfile''"

definition read_data :: "string \<Rightarrow> string \<Rightarrow> string prog" where
  "read_data dir relative =
     (let path = path_join dir relative in
     bindI (probe (\<lambda>w h. list_ex (path_link w h) (map (path_join dir) (relative_prefixes relative) @ [dir]))) (\<lambda>linked.
     if linked
     then raiseI (ContractError ''Cargo tool metadata must not follow symlinks: {}'' [relative])
     else
     bindI (probe (\<lambda>w h. path_file w h path)) (\<lambda>node. case node of
       None \<Rightarrow> raiseI (ContractError ''Cargo tool metadata is missing, nonregular or oversized: {}'' [relative])
     | Some (stat_size, executable, data) \<Rightarrow>
         if MAX_DECLARATION_BYTES < stat_size
         then raiseI (ContractError ''Cargo tool metadata is missing, nonregular or oversized: {}'' [relative])
         else if MAX_DECLARATION_BYTES < length data
         then raiseI (ContractError ''Cargo tool metadata exceeded its read bound: {}'' [relative])
         else liftI (decode_utf8 data))))"

section \<open>Declarations\<close>

definition DECLARATIONS :: "(string \<times> string) list" where
  "DECLARATIONS = [(''cargo-deny'', ''CARGO_DENY_VERSION''), (''cargo-llvm-cov'', ''CARGO_LLVM_COV_VERSION''),
     (''cargo-semver-checks'', ''CARGO_SEMVER_CHECKS_VERSION''), (''zizmor'', ''ZIZMOR_VERSION'')]"

text \<open>
  \<open>re.findall\<close> goes through the characters of the text and knows whether it is at the beginning of a line.
  \<open>arg_row\<close> is what follows a match of \<open>^\s*ARG\s+NAME(?:[=\s].*)?$\<close>: the characters after it, and whether
  they begin a line, which they do when the optional part was the end of the line alone.
\<close>

definition after_line :: "string list \<Rightarrow> string list" where
  "after_line cs = dropWhile (\<lambda>c. c \<noteq> [newline]) cs"

definition char_list :: "string \<Rightarrow> string list" where
  "char_list s = map (\<lambda>c. [c]) s"

definition arg_row :: "string \<Rightarrow> string list \<Rightarrow> (string list \<times> bool) option" where
  "arg_row name cs =
     (let a = dropWhile is_space cs in
      if \<not> startswith a (char_list ''ARG'') \<or> drop 3 a = [] \<or> \<not> is_space (hd (drop 3 a)) then None
      else let n = dropWhile is_space (drop 3 a) in
      if \<not> startswith n (char_list name) then None
      else (case drop (length name) n of
        [] \<Rightarrow> Some ([], False)
      | c # rest \<Rightarrow>
          if c = ''='' \<or> is_space c
          then Some (after_line rest, c = [newline] \<and> after_line rest = rest)
          else None))"

text \<open>\<open>^MARKER\r?\nARG NAME=(VERSION)\r?$\<close>: the version and what follows the match.\<close>

definition drop_carriage :: "string list \<Rightarrow> string list" where
  "drop_carriage cs = (if cs \<noteq> [] \<and> hd cs = [carriage] then tl cs else cs)"

definition declared :: "string \<Rightarrow> string \<Rightarrow> string list \<Rightarrow> (string \<times> string list) option" where
  "declared marker name cs =
     (let head = char_list marker; arg = char_list (newline # ''ARG '' @ name @ ''='') in
      if \<not> startswith cs head then None
      else let row = drop_carriage (drop (length head) cs) in
      if \<not> startswith row arg then None
      else let body = takeWhile (\<lambda>c. c \<noteq> [newline]) (drop (length arg) row);
               num = concat (if body \<noteq> [] \<and> last body = [carriage] then butlast body else body) in
      if is_stable num then Some (num, after_line (drop (length arg) row)) else None)"

lemma after_line_shorter: "length (after_line cs) \<le> length cs"
  by (simp add: after_line_def length_dropWhile_le)

lemma arg_row_shorter: "arg_row name cs = Some (rest, b) \<Longrightarrow> length rest < length cs"
proof -
  assume row: "arg_row name cs = Some (rest, b)"
  define a n where "a = dropWhile is_space cs" and "n = dropWhile is_space (drop 3 a)"
  have a: "drop 3 a \<noteq> []" using row unfolding arg_row_def Let_def a_def [symmetric] by (auto split: if_splits)
  have r: "length rest \<le> length (drop (length name) n)"
  proof (cases "drop (length name) n")
    case Nil
    with row show ?thesis unfolding arg_row_def Let_def a_def [symmetric] n_def [symmetric] by (auto split: if_splits)
  next
    case (Cons c cs')
    with row have "rest = after_line cs'"
      unfolding arg_row_def Let_def a_def [symmetric] n_def [symmetric] by (auto split: if_splits)
    with Cons after_line_shorter [of cs'] show ?thesis by (simp only: list.size)
  qed
  have "length (drop (length name) n) \<le> length (drop 3 a)"
    unfolding n_def using length_dropWhile_le [of is_space "drop 3 a"] by simp
  moreover have "length (drop 3 a) < length a" using a by simp
  moreover have "length a \<le> length cs" unfolding a_def by (rule length_dropWhile_le)
  ultimately show ?thesis using r by simp
qed

lemma declared_shorter: "declared marker name cs = Some (num, rest) \<Longrightarrow> length rest < length cs"
proof -
  assume d: "declared marker name cs = Some (num, rest)"
  define row where "row = drop_carriage (drop (length (char_list marker)) cs)"
  let ?arg = "char_list (newline # ''ARG '' @ name @ ''='')"
  have "startswith row ?arg" and r: "rest = after_line (drop (length ?arg) row)"
    using d unfolding declared_def Let_def row_def by (auto split: if_splits)
  then have "length (drop (length ?arg) row) < length row" by (auto simp: startswith_def prefix_def char_list_def)
  moreover have "length row \<le> length cs" unfolding row_def drop_carriage_def by auto
  ultimately show ?thesis using after_line_shorter [of "drop (length ?arg) row"] unfolding r by simp
qed

function arg_rows :: "string \<Rightarrow> bool \<Rightarrow> string list \<Rightarrow> nat" where
  "arg_rows name line_start cs =
     (case (if line_start then arg_row name cs else None) of
       Some (rest, b) \<Rightarrow> Suc (arg_rows name b rest)
     | None \<Rightarrow> (case cs of [] \<Rightarrow> 0 | c # rest \<Rightarrow> arg_rows name (c = [newline]) rest))"
  by auto
termination by (relation "measure (\<lambda>(name, b, cs). length cs)") (auto split: if_splits dest: arg_row_shorter)

function declared_versions :: "string \<Rightarrow> string \<Rightarrow> bool \<Rightarrow> string list \<Rightarrow> string list" where
  "declared_versions marker name line_start cs =
     (case (if line_start then declared marker name cs else None) of
       Some (num, rest) \<Rightarrow> num # declared_versions marker name False rest
     | None \<Rightarrow> (case cs of [] \<Rightarrow> [] | c # rest \<Rightarrow> declared_versions marker name (c = [newline]) rest))"
  by auto
termination by (relation "measure (\<lambda>(marker, name, b, cs). length cs)") (auto split: if_splits dest: declared_shorter)

text \<open>\<open>text.count(marker)\<close>: occurrences that do not overlap.\<close>

function occurrences :: "string \<Rightarrow> string \<Rightarrow> nat" where
  "occurrences marker s =
     (if s = [] \<or> marker = [] then 0
      else if startswith s marker then Suc (occurrences marker (drop (length marker) s))
      else occurrences marker (tl s))"
  by auto
termination by (relation "measure (\<lambda>(marker, s). length s)") auto

definition marker_of :: "string \<Rightarrow> string" where
  "marker_of package = ''# renovate: datasource=crate depName='' @ package"

definition declared_crate :: "string \<Rightarrow> string \<times> string \<Rightarrow> (string \<times> string) list res" where
  "declared_crate s p =
     (let (package, name) = p; marker = marker_of package; cs = utf8_chars s;
          rows = arg_rows name True cs; found = declared_versions marker name True cs in
      if rows = 0 \<and> occurrences marker s = 0 then Inr []
      else if rows \<noteq> 1 \<or> length found \<noteq> 1 \<or> occurrences marker s \<noteq> 1
      then Inl (ContractError ''{} needs one adjacent crate marker and exact X.Y.Z value'' [name])
      else Inr [(package, hd found)])"

definition declarations_of :: "string \<Rightarrow> (string \<times> string) list res" where
  "declarations_of s = bindR (mapR (declared_crate s) DECLARATIONS) (\<lambda>found. Inr (concat found))"

definition declarations :: "string \<Rightarrow> (string \<times> string) list prog" where
  "declarations dir = bindI (read_data dir DOCKERFILE) (\<lambda>s. liftI (declarations_of s))"

section \<open>The selection\<close>

record tool =
  tool_package :: string
  tool_version :: string
  rust_channel :: string

definition subcommand :: "tool \<Rightarrow> string" where
  "subcommand t = removeprefix (tool_package t) ''cargo-''"

definition toolchain_channel :: "json option \<Rightarrow> string res" where
  "toolchain_channel value = (case value of
     None \<Rightarrow> Inl (ValueError ''TOML'')
   | Some v \<Rightarrow>
       let toolchain = dget_or (dict_of v) ''toolchain'' (JObj []); channel = dget (dict_of toolchain) ''channel'' in
       if \<not> is_obj toolchain then Inl (ContractError ''candidate Rust toolchain must be a TOML table'' [])
       else if \<not> is_str channel \<or> \<not> is_stable (str_of channel)
       then Inl (ContractError ''candidate Rust channel must be one exact X.Y.Z release'' [])
       else Inr (str_of channel))"

text \<open>\<open>select\<close>; \<open>automation_root\<close> is the checkout the code itself was loaded from.\<close>

definition select_tool :: "string \<Rightarrow> string \<Rightarrow> string \<Rightarrow> string option \<Rightarrow> tool prog" where
  "select_tool automation_root dir package fallback =
     (if package \<notin> keys DECLARATIONS \<or> \<not> startswith package ''cargo-''
      then raiseI (ContractError ''unsupported Cargo subcommand selection'' [])
      else
      bindI (probe (\<lambda>w h. (path_link w h (path_join dir ''.devcontainer''), path_present w h (path_join dir DOCKERFILE)))) (\<lambda>p.
      if fst p
      then raiseI (ContractError ''Cargo tool Dockerfile directory must not be a symlink'' [])
      else
      bindI (declarations (if snd p then dir else case fallback of Some f \<Rightarrow> f | None \<Rightarrow> automation_root)) (\<lambda>versions.
      case map_of versions package of
        None \<Rightarrow> raiseI (ContractError ''present Dockerfile does not declare {}; no fallback permitted'' [package])
      | Some num \<Rightarrow>
          bindI (read_data dir ''rust-toolchain.toml'') (\<lambda>s.
          bindI (askI toml_value) (\<lambda>loads.
          bindI (liftI (toolchain_channel (loads s))) (\<lambda>channel.
          retI \<lparr>tool_package = package, tool_version = num, rust_channel = channel\<rparr>))))))"

section \<open>The environment of the tool\<close>

definition COMPILER_KEYS :: "string list" where
  "COMPILER_KEYS = [''rustc'', ''rustc-wrapper'', ''rustc-workspace-wrapper'', ''rustdoc'']"

definition upper_name :: "string \<Rightarrow> string" where
  "upper_name s = map (\<lambda>c. if is_lower c then char_of (ord c - 32) else if c = CHR ''-'' then CHR ''_'' else c) s"

definition COMPILER_ENV :: "string list" where
  "COMPILER_ENV = map upper_name COMPILER_KEYS @ map (\<lambda>key. ''CARGO_BUILD_'' @ upper_name key) COMPILER_KEYS"

text \<open>\<open>s.lower()\<close> as far as its result may be ASCII: the Kelvin sign becomes a \<open>k\<close>.\<close>

definition lower_name :: "string \<Rightarrow> string" where
  "lower_name s = concat (map (\<lambda>u. if map ord u = [0xE2, 0x84, 0xAA] then ''k''
     else map (\<lambda>c. if is_upper c then char_of (ord c + 32) else if c = CHR ''_'' then CHR ''-'' else c) u) (utf8_chars s))"

definition overriding :: "tool \<Rightarrow> string \<times> string \<Rightarrow> bool" where
  "overriding t p = (snd p \<noteq> [] \<and> (fst p \<in> set COMPILER_ENV
     \<or> startswith (fst p) ''CARGO_ALIAS_'' \<and> lower_name (drop 12 (fst p)) = subcommand t))"

definition affected_names :: "tool \<Rightarrow> string list" where
  "affected_names t = COMPILER_ENV @ [''PATH'', ''CARGO_HOME'', ''RUSTUP_TOOLCHAIN'',
     ''CARGO_ALIAS_'' @ upper_name (subcommand t),
     ''CARGO_ALIAS_'' @ map (\<lambda>c. if is_lower c then char_of (ord c - 32) else c) (subcommand t)]"

definition config_overrides :: "tool \<Rightarrow> dict \<Rightarrow> unit res" where
  "config_overrides t d =
     (let aliases = dget_or d ''alias'' (JObj []); build = dget_or d ''build'' (JObj []); injected = dget_or d ''env'' (JObj []) in
      if \<not> is_obj aliases \<or> \<not> is_obj build \<or> \<not> is_obj injected
      then Inl (ContractError ''Cargo alias/build/env configuration must be a table'' [])
      else require (\<not> (has_key d ''include'' \<or> has_key (dict_of aliases) (subcommand t)
            \<or> list_ex (has_key (dict_of build)) COMPILER_KEYS
            \<or> list_ex (\<lambda>key. key \<in> set (affected_names t)) (map fst (dict_of injected))))
          (ContractError ''Cargo config overrides selected subcommand or compiler'' []))"

definition check_config :: "tool \<Rightarrow> string \<times> string \<Rightarrow> unit prog" where
  "check_config t p =
     bindI (probe (\<lambda>w h. path_present w h (path_join (fst p) (snd p)))) (\<lambda>present.
     if \<not> present then retI ()
     else
     bindI (read_data (fst p) (snd p)) (\<lambda>s.
     bindI (askI toml_value) (\<lambda>loads. case loads s of
       None \<Rightarrow> raiseI (ValueError ''TOML'')
     | Some v \<Rightarrow> liftI (config_overrides t (dict_of v)))))"

definition cargo_home :: "string \<Rightarrow> (string \<times> string) list \<Rightarrow> string \<Rightarrow> string" where
  "cargo_home home cwd_env cwd =
     path_join cwd (case map_of cwd_env ''CARGO_HOME'' of
       Some s \<Rightarrow> s
     | None \<Rightarrow> path_join (case map_of cwd_env ''HOME'' of Some s \<Rightarrow> s | None \<Rightarrow> home) ''.cargo'')"

definition config_locations :: "string \<Rightarrow> string \<Rightarrow> (string \<times> string) list" where
  "config_locations home cwd = map (Pair home) [''config'', ''config.toml'']
     @ concat (map (\<lambda>d. map (Pair (path_join d ''.cargo'')) [''config'', ''config.toml'']) (cwd # path_parents cwd))"

definition reject_overrides :: "tool \<Rightarrow> string \<Rightarrow> (string \<times> string) list \<Rightarrow> string prog" where
  "reject_overrides t cwd env =
     (if list_ex (overriding t) env
      then raiseI (ContractError ''Cargo alias or compiler environment override defeats exact selection'' [])
      else
      bindI (askI home_dir) (\<lambda>user_home.
      let home = cargo_home user_home env cwd in
      bindI (mapI (check_config t) (config_locations home cwd)) (\<lambda>_. retI home)))"

section \<open>Verification\<close>

text \<open>The standard output of \<open>runner.run\<close> as text: decoded, with secrets hidden.\<close>

definition tool_command :: "string list \<Rightarrow> string \<Rightarrow> environment \<Rightarrow> string prog" where
  "tool_command argv cwd env =
     (if list_ex (\<lambda>arg. arg = [] \<or> nul \<in> set arg) argv
      then raiseI (ContractError ''a command must contain nonempty, NUL-free argv elements'' [])
      else
      bindI (spawn cwd env argv) (\<lambda>r. bindI (askI run_text) (\<lambda>text_of. case r of
        CommandFailed \<Rightarrow> raiseI (ContractError ''Cargo tool command failed'' [])
      | Exited status out err \<Rightarrow>
          if status \<noteq> 0 then raiseI (ContractError ''Cargo tool command failed'' []) else retI (text_of env argv out))))"

definition drop_line_end :: "string \<Rightarrow> string" where
  "drop_line_end s = (let a = (if s \<noteq> [] \<and> last s = newline then butlast s else s) in
     if a \<noteq> [] \<and> last a = carriage then butlast a else a)"

definition is_release :: "string \<Rightarrow> string \<Rightarrow> string \<Rightarrow> bool" where
  "is_release package channel s =
     (let a = drop_line_end s; prefix = package @ '' '' @ channel @ '' (''; detail = butlast (drop (length prefix) a) in
      startswith a prefix \<and> drop (length prefix) a \<noteq> [] \<and> last (drop (length prefix) a) = CHR '')''
      \<and> detail \<noteq> [] \<and> newline \<notin> set detail \<and> carriage \<notin> set detail)"

definition compiler_selected :: "tool \<Rightarrow> string \<Rightarrow> environment \<Rightarrow> string \<Rightarrow> string \<Rightarrow> unit prog" where
  "compiler_selected t cwd env search package =
     bindI (probe (\<lambda>w h. program_path w h search package)) (\<lambda>binary. case binary of
       None \<Rightarrow> raiseI (ContractError ''{} executable unavailable for compiler verification'' [package])
     | Some b \<Rightarrow>
         bindI (tool_command [b, ''--version''] cwd env) (\<lambda>s.
         requireI (is_release package (rust_channel t) s)
           (ContractError ''{} did not select candidate Rust {}'' [package, rust_channel t])))"

definition search_path :: "string \<Rightarrow> (string \<times> string) list \<Rightarrow> string" where
  "search_path cwd env = join '':'' (map (path_join cwd)
     (split_on CHR '':'' (case map_of env ''PATH'' of Some s \<Rightarrow> s | None \<Rightarrow> ''/bin:/usr/bin'')))"

definition resolve_strict :: "string \<Rightarrow> string list prog" where
  "resolve_strict path = bindI (askI resolved_strict) (\<lambda>resolve. case resolve path of
     None \<Rightarrow> raiseI (OSError path) | Some p \<Rightarrow> retI p)"

definition owned_executable :: "string \<Rightarrow> string option \<Rightarrow> string list prog" where
  "owned_executable ambient expected =
     bindI (resolve_strict ambient) (\<lambda>executable.
     bindI (askI regular_file) (\<lambda>is_file.
     if \<not> is_file executable
     then raiseI (ContractError ''PATH selected a different executable from the owned installation'' [])
     else (case expected of
       None \<Rightarrow> retI executable
     | Some e \<Rightarrow> bindI (resolve_strict e) (\<lambda>owned.
         if executable \<noteq> owned
         then raiseI (ContractError ''PATH selected a different executable from the owned installation'' [])
         else retI executable))))"

definition not_shadowed :: "string \<Rightarrow> string list \<Rightarrow> unit prog" where
  "not_shadowed plugin executable =
     bindI (probe (\<lambda>w h. path_present w h plugin)) (\<lambda>present.
     if \<not> present then retI ()
     else bindI (resolve_strict plugin) (\<lambda>p.
       requireI (p = executable) (ContractError ''Cargo home shadows the selected PATH executable'' [])))"

definition verify_tool :: "tool \<Rightarrow> string \<Rightarrow> (string \<times> string) list \<Rightarrow> string option \<Rightarrow> string list prog" where
  "verify_tool t cwd env expected =
     bindI (reject_overrides t cwd env) (\<lambda>home.
     let search = search_path cwd env; selected = (map_of env)(''RUSTUP_TOOLCHAIN'' \<mapsto> rust_channel t) in
     bindI (probe (\<lambda>w h. (program_path w h search ''cargo'', program_path w h search (tool_package t),
              program_path w h search ''rustup''))) (\<lambda>found. case found of
       (Some cargo, Some ambient, Some rustup) \<Rightarrow>
         bindI (owned_executable ambient expected) (\<lambda>executable.
         bindI (not_shadowed (path_join home (''bin/'' @ tool_package t)) executable) (\<lambda>_.
         bindI (compiler_selected t cwd selected search ''cargo'') (\<lambda>_.
         bindI (compiler_selected t cwd selected search ''rustc'') (\<lambda>_.
         bindI (tool_command [cargo, subcommand t, ''--version''] cwd selected) (\<lambda>s.
         if drop_line_end s \<noteq> tool_package t @ '' '' @ tool_version t
         then raiseI (ContractError ''Cargo did not invoke the declared {} {}'' [tool_package t, tool_version t])
         else retI executable)))))
     | _ \<Rightarrow> raiseI (ContractError ''Cargo, rustup or the selected PATH subcommand is unavailable'' [])))"

section \<open>A verified tool is the declared one\<close>

definition ran :: "host \<Rightarrow> history \<Rightarrow> history \<Rightarrow> string \<Rightarrow> environment \<Rightarrow> string list \<Rightarrow> string \<Rightarrow> bool" where
  "ran w h h' cwd env argv s \<longleftrightarrow> during h h' (\<lambda>g e. e = Command cwd argv
     \<and> (\<exists>out err. command_reply w g cwd env argv = Exited 0 out err \<and> s = run_text w env argv out))"

lemma ran_wider: "ran w g g' cwd env argv s \<Longrightarrow> suffix h g \<Longrightarrow> suffix g' h' \<Longrightarrow> ran w h h' cwd env argv s"
  unfolding ran_def by (rule during_wider)

lemma tool_command_Inr:
  assumes "tool_command argv cwd env w h = (Inr s, h')"
  shows "ran w h h' cwd env argv s" and "suffix h h'"
proof -
  obtain out err where r: "command_reply w h cwd env argv = Exited 0 out err" "s = run_text w env argv out"
    and h': "h' = Command cwd argv # h"
    using assms by (auto simp: tool_command_def bindI_def spawn_def split: command_reply.splits if_splits)
  show "ran w h h' cwd env argv s" unfolding ran_def h' by (rule during_step) (use r in auto)
  show "suffix h h'" unfolding h' by (simp add: suffix_ConsI)
qed

text \<open>The compiler that a search path finds reported the channel.\<close>

definition reports :: "host \<Rightarrow> history \<Rightarrow> history \<Rightarrow> tool \<Rightarrow> string \<Rightarrow> environment \<Rightarrow> string \<Rightarrow> string \<Rightarrow> bool" where
  "reports w h h' t cwd env search package \<longleftrightarrow> (\<exists>b g s. suffix h g \<and> program_path w g search package = Some b
     \<and> ran w g h' cwd env [b, ''--version''] s \<and> is_release package (rust_channel t) s)"

lemma compiler_selected_Inr:
  assumes "compiler_selected t cwd env search package w h = (Inr (), h')"
  shows "reports w h h' t cwd env search package" and "suffix h h'"
proof -
  obtain b where b: "program_path w h search package = Some b"
    and run: "bindI (tool_command [b, ''--version''] cwd env) (\<lambda>s. requireI (is_release package (rust_channel t) s)
        (ContractError ''{} did not select candidate Rust {}'' [package, rust_channel t])) w h = (Inr (), h')"
    using assms unfolding compiler_selected_def by (elim bindI_InrE) (auto split: option.splits)
  then obtain s where s: "tool_command [b, ''--version''] cwd env w h = (Inr s, h')" "is_release package (rust_channel t) s"
    by (elim run_elims) auto
  show "suffix h h'" using s(1) by (rule tool_command_Inr)
  show "reports w h h' t cwd env search package"
    unfolding reports_def using b tool_command_Inr(1) [OF s(1)] s(2) suffix_order.refl by blast
qed

lemma reports_wider:
  "reports w g g' t cwd env search package \<Longrightarrow> suffix h g \<Longrightarrow> suffix g' h' \<Longrightarrow> reports w h h' t cwd env search package"
  unfolding reports_def by (meson ran_wider suffix_order.refl suffix_order.trans)

lemma resolve_strict_Inr: "resolve_strict path w h = (Inr p, h') \<longleftrightarrow> resolved_strict w path = Some p \<and> h' = h"
  by (auto simp: resolve_strict_def bindI_def split: option.splits)

lemma owned_executable_Inr:
  assumes "owned_executable ambient expected w h = (Inr executable, h')"
  shows "h' = h" and "resolved_strict w ambient = Some executable" and "regular_file w executable"
    and "\<forall>e. expected = Some e \<longrightarrow> resolved_strict w e = Some executable"
  using assms unfolding owned_executable_def
  by (auto simp: resolve_strict_Inr bindI_Inr split: if_splits option.splits)

lemma not_shadowed_Inr:
  assumes "not_shadowed plugin executable w h = (Inr (), h')"
  shows "h' = h" and "path_present w h plugin \<Longrightarrow> resolved_strict w plugin = Some executable"
  using assms unfolding not_shadowed_def
  by (auto simp: resolve_strict_Inr bindI_Inr split: if_splits)

lemma reject_overrides_Inr:
  assumes "reject_overrides t cwd env w h = (Inr home, h')"
  shows "\<not> list_ex (overriding t) env" and "h' = h" and "home = cargo_home (home_dir w) env cwd"
proof -
  have "keeps (extends (\<lambda>_. False)) (reject_overrides t cwd env)"
    unfolding reject_overrides_def check_config_def read_data_def Let_def by (intro host_rules)
  from keepsD [OF this, OF assms] show "h' = h" by (cases "h' = h") (auto simp: extends_def list_all_iff)
  show "\<not> list_ex (overriding t) env" "home = cargo_home (home_dir w) env cwd"
    using assms unfolding reject_overrides_def Let_def by (auto simp: bindI_Inr split: if_splits)
qed

text \<open>
  A tool is only verified when no environment variable replaces the subcommand or the compiler, the
  executable is the one the search path finds, that is the owned installation and no other one of the Cargo
  home, cargo and rustc of that path reported the declared channel, and the subcommand reported exactly
  the declared version.
\<close>

theorem verify_tool_exact:
  assumes "verify_tool t cwd env expected w h = (Inr executable, h')"
  shows "\<not> list_ex (overriding t) env \<and> regular_file w executable
    \<and> (\<forall>e. expected = Some e \<longrightarrow> resolved_strict w e = Some executable)
    \<and> (\<exists>ambient. program_path w h (search_path cwd env) (tool_package t) = Some ambient
          \<and> resolved_strict w ambient = Some executable)
    \<and> (let plugin = path_join (cargo_home (home_dir w) env cwd) (''bin/'' @ tool_package t) in
         path_present w h plugin \<longrightarrow> resolved_strict w plugin = Some executable)
    \<and> (let selected = (map_of env)(''RUSTUP_TOOLCHAIN'' \<mapsto> rust_channel t) in
         (\<forall>package \<in> {''cargo'', ''rustc''}. reports w h h' t cwd selected (search_path cwd env) package)
         \<and> (\<exists>cargo s. program_path w h (search_path cwd env) ''cargo'' = Some cargo
              \<and> ran w h h' cwd selected [cargo, subcommand t, ''--version''] s
              \<and> drop_line_end s = tool_package t @ '' '' @ tool_version t))"
proof -
  let ?search = "search_path cwd env" and ?selected = "(map_of env)(''RUSTUP_TOOLCHAIN'' \<mapsto> rust_channel t)"
  obtain home h1 found where o: "reject_overrides t cwd env w h = (Inr home, h1)"
    and f: "found = (program_path w h1 ?search ''cargo'', program_path w h1 ?search (tool_package t), program_path w h1 ?search ''rustup'')"
    and rest: "(case found of
       (Some cargo, Some ambient, Some rustup) \<Rightarrow>
         bindI (owned_executable ambient expected) (\<lambda>executable.
         bindI (not_shadowed (path_join home (''bin/'' @ tool_package t)) executable) (\<lambda>_.
         bindI (compiler_selected t cwd ?selected ?search ''cargo'') (\<lambda>_.
         bindI (compiler_selected t cwd ?selected ?search ''rustc'') (\<lambda>_.
         bindI (tool_command [cargo, subcommand t, ''--version''] cwd ?selected) (\<lambda>s.
         if drop_line_end s \<noteq> tool_package t @ '' '' @ tool_version t
         then raiseI (ContractError ''Cargo did not invoke the declared {} {}'' [tool_package t, tool_version t])
         else retI executable)))))
     | _ \<Rightarrow> raiseI (ContractError ''Cargo, rustup or the selected PATH subcommand is unavailable'' [])) w h1
       = (Inr executable, h')"
    using assms unfolding verify_tool_def Let_def by (elim bindI_InrE) (rule that, assumption, simp, simp)
  note o = reject_overrides_Inr [OF o]
  obtain cargo ambient rustup where found: "program_path w h ?search ''cargo'' = Some cargo"
      "program_path w h ?search (tool_package t) = Some ambient" "program_path w h ?search ''rustup'' = Some rustup"
    using rest o(2) f by (auto split: prod.splits option.splits)
  with rest o(2) f obtain h2 h3 h4 h5 s h6 where
    e: "owned_executable ambient expected w h = (Inr executable, h2)"
    and n: "not_shadowed (path_join home (''bin/'' @ tool_package t)) executable w h2 = (Inr (), h3)"
    and c: "compiler_selected t cwd ?selected ?search ''cargo'' w h3 = (Inr (), h4)"
    and r: "compiler_selected t cwd ?selected ?search ''rustc'' w h4 = (Inr (), h5)"
    and v: "tool_command [cargo, subcommand t, ''--version''] cwd ?selected w h5 = (Inr s, h6)"
      "drop_line_end s = tool_package t @ '' '' @ tool_version t" and h': "h' = h6"
    by (simp, elim run_elims) (rule that, auto)
  note e = owned_executable_Inr [OF e]
  note n = not_shadowed_Inr [OF n [unfolded e(1)]]
  note c = compiler_selected_Inr [OF c [unfolded n(1)]] and r = compiler_selected_Inr [OF r]
  note v1 = tool_command_Inr [OF v(1)]
  have s: "suffix h h5" "suffix h4 h6" "suffix h5 h6" using c(2) r(2) v1(2) by (auto intro: suffix_order.trans)
  have "reports w h h6 t cwd ?selected ?search ''cargo''" using c(1) suffix_order.refl s(2) by (rule reports_wider)
  moreover have "reports w h h6 t cwd ?selected ?search ''rustc''" using r(1) c(2) s(3) by (rule reports_wider)
  moreover have "ran w h h6 cwd ?selected [cargo, subcommand t, ''--version''] s"
    using v1(1) s(1) suffix_order.refl by (rule ran_wider)
  ultimately show ?thesis using o(1,3) e n found v(2) unfolding h' Let_def by auto
qed

text \<open>A search path with a declared tool and its compiler.\<close>

definition sample_tool :: tool where
  "sample_tool = \<lparr>tool_package = ''cargo-deny'', tool_version = ''0.18.2'', rust_channel = ''1.90.0''\<rparr>"

definition tool_host :: host where
  "tool_host = blank_host\<lparr>
     program_path := (\<lambda>h search name. Some (''/bin/'' @ name)),
     resolved_strict := (\<lambda>path. Some (split_on CHR ''/'' path)),
     regular_file := (\<lambda>_. True), home_dir := ''/root'',
     command_reply := (\<lambda>h dir env argv. Exited 0
       (if argv = [''/bin/cargo'', ''deny'', ''--version''] then ''cargo-deny 0.18.2'' @ [newline]
        else removeprefix (hd argv) ''/bin/'' @ '' 1.90.0 (abc 2026-01-01)'' @ [newline]) [])\<rparr>"

lemma verify_sample: "fst (verify_tool sample_tool ''/work'' [(''PATH'', ''/bin'')] None tool_host []) = Inr ['''', ''bin'', ''cargo-deny'']"
  by code_simp

theorem verify_tool_exact_witness:
  "\<exists>h. verify_tool sample_tool ''/work'' [(''PATH'', ''/bin'')] None tool_host [] = (Inr ['''', ''bin'', ''cargo-deny''], h)
     \<and> reports tool_host [] h sample_tool ''/work'' (Map.empty(''PATH'' \<mapsto> ''/bin'', ''RUSTUP_TOOLCHAIN'' \<mapsto> ''1.90.0''))
         (search_path ''/work'' [(''PATH'', ''/bin'')]) ''rustc''"
proof -
  obtain h where run: "verify_tool sample_tool ''/work'' [(''PATH'', ''/bin'')] None tool_host [] = (Inr ['''', ''bin'', ''cargo-deny''], h)"
    using verify_sample by (metis prod.collapse)
  from verify_tool_exact [OF run] run show ?thesis by (auto simp: Let_def sample_tool_def)
qed

end
