(* ===== verification/ApiBaseline.thy ===== *)
theory ApiBaseline
  imports CargoTools
begin

text \<open>
  \<open>api_baselines.py\<close>: the baseline an API check compares a candidate with. \<open>select_git\<close> takes it from
  trusted Git history, \<open>registry_version\<close> from the crates that were published. A command runs through
  \<open>runner.run\<close>, whose result is an answer of the machine: a status, \<open>success\<close> being zero, and the bytes it
  wrote, or \<open>CommandFailed\<close> for a run that was cut off.
\<close>

section \<open>Versions\<close>

text \<open>\<open>SEMVER\<close> adds a pre-release part and build metadata to a stable version.\<close>

definition identifiers :: "string \<Rightarrow> bool" where
  "identifiers s = list_all (\<lambda>p. p \<noteq> [] \<and> list_all (\<lambda>c. is_alnum c \<or> c = CHR ''-'') p) (split_on CHR ''.'' s)"

definition before_char :: "char \<Rightarrow> string \<Rightarrow> string" where
  "before_char c s = takeWhile (\<lambda>x. x \<noteq> c) s"

definition after_char :: "char \<Rightarrow> string \<Rightarrow> string option" where
  "after_char c s = (case dropWhile (\<lambda>x. x \<noteq> c) s of [] \<Rightarrow> None | _ # rest \<Rightarrow> Some rest)"

definition optional_part :: "string option \<Rightarrow> bool" where
  "optional_part p = (case p of None \<Rightarrow> True | Some s \<Rightarrow> identifiers s)"

definition is_semver :: "string \<Rightarrow> bool" where
  "is_semver s = (let core = before_char CHR ''+'' s in
     is_stable (before_char CHR ''-'' core) \<and> optional_part (after_char CHR ''-'' core) \<and> optional_part (after_char CHR ''+'' s))"

section \<open>The context of a check\<close>

definition FETCH_HELP :: string where
  "FETCH_HELP = ''Run git fetch origin --prune; use git fetch --unshallow for shallow history.''"

record api_context =
  purpose :: string
  api_event :: string
  api_candidate :: string
  api_policy :: string
  api_automation :: string
  api_repo :: string

definition API_REPOSITORIES :: "string list" where
  "API_REPOSITORIES = map (\<lambda>name. ''Strukturpiloten/'' @ name)
     [''boxferry'', ''compose-lens'', ''podman-lens'', ''quadlet-lens'', ''docker-lens'', ''kubernetes-lens'']"

definition validate_api :: "api_context \<Rightarrow> unit res" where
  "validate_api c =
     (if purpose c \<notin> {''development'', ''published''} \<or> api_repo c \<notin> set API_REPOSITORIES
      then Inl (ContractError ''API purpose or caller repository is outside the reviewed contract'' [])
      else if \<not> is_sha (api_candidate c) \<or> \<not> is_sha (api_policy c) \<or> \<not> is_sha (api_automation c)
      then Inl (ContractError ''API candidate, policy and automation require full commit SHAs'' [])
      else require (api_event c \<in> {''pull_request'', ''merge_group'', ''push'', ''workflow_dispatch'', ''local''})
             (ContractError ''unsupported API baseline event'' []))"

section \<open>Commands\<close>

definition forbidden_names :: "string list" where
  "forbidden_names = [''GIT_DIR'', ''GIT_WORK_TREE'', ''GIT_COMMON_DIR'', ''GIT_OBJECT_DIRECTORY'',
     ''GIT_ALTERNATE_OBJECT_DIRECTORIES'', ''GIT_SHALLOW_FILE'', ''GIT_GRAFT_FILE'', ''GIT_REPLACE_REF_BASE'',
     ''GIT_INDEX_FILE'', ''GIT_CONFIG_COUNT'', ''GIT_CONFIG_PARAMETERS'']"

definition overridden :: "environment \<Rightarrow> bool" where
  "overridden env = list_ex (\<lambda>name. env name \<notin> {None, Some []}) forbidden_names"

definition api_environment :: "environment \<Rightarrow> environment" where
  "api_environment env = env(''GIT_NO_REPLACE_OBJECTS'' \<mapsto> ''1'', ''GIT_CONFIG_NOSYSTEM'' \<mapsto> ''1'',
     ''GIT_CONFIG_GLOBAL'' \<mapsto> ''/dev/null'')"

definition api_command :: "string \<Rightarrow> string list \<Rightarrow> string prog" where
  "api_command dir argv =
     bindI (askI environ) (\<lambda>env.
     if overridden env
     then raiseI (ContractError ''API history refuses Git object, index or configuration environment overrides'' [])
     else if list_ex (\<lambda>arg. arg = [] \<or> nul \<in> set arg) argv
     then raiseI (ContractError ''a command must contain nonempty, NUL-free argv elements'' [])
     else
     bindI (spawn dir (api_environment env) argv) (\<lambda>r. case r of
       CommandFailed \<Rightarrow> raiseI (ApiCommandError ''API command failed'' [])
     | Exited status out err \<Rightarrow>
         if status \<noteq> 0 then raiseI (ApiCommandError ''API command failed'' []) else retI out))"

definition git_argv :: "string list \<Rightarrow> string list" where
  "git_argv arguments = [''git'', ''--no-replace-objects'', ''-c'', ''core.fsmonitor=false''] @ arguments"

definition api_git :: "string \<Rightarrow> string list \<Rightarrow> string prog" where
  "api_git dir arguments =
     bindI (api_command dir (git_argv arguments)) (\<lambda>out.
     bindI (liftI (decode_utf8 out)) (\<lambda>s. retI (py_strip s)))"

section \<open>The history behind a check\<close>

text \<open>
  \<open>re.search\<close> with \<open>(?mi)\<close>: at the beginning of a line, whatever its case. Without case \<open>i\<close> has the
  dotted and the dotless form and \<open>s\<close> the long one.
\<close>

definition fold_case :: "string \<Rightarrow> string" where
  "fold_case u =
     (if map ord u \<in> {[0xC4, 0xB0], [0xC4, 0xB1]} then ''i''
      else if map ord u = [0xC5, 0xBF] then ''s''
      else map (\<lambda>c. if is_upper c then char_of (ord c + 32) else c) u)"

fun contains :: "string \<Rightarrow> string \<Rightarrow> bool" where
  "contains pattern [] = (pattern = [])"
| "contains pattern (c # s) = (startswith (c # s) pattern \<or> contains pattern s)"

definition promisor_line :: "string \<Rightarrow> bool" where
  "promisor_line line =
     (let l = concat (map fold_case (utf8_chars line)) in
      startswith l ''extensions.partialclone=''
      \<or> startswith l ''remote.'' \<and> contains ''.promisor='' (drop 7 l))"

definition git_history :: "string \<Rightarrow> string \<Rightarrow> unit prog" where
  "git_history dir candidate =
     bindI (api_git dir [''rev-parse'', ''--is-shallow-repository'']) (\<lambda>shallow.
     if shallow \<noteq> ''false''
     then raiseI (ContractError ''API baseline needs complete, nonshallow history. {}'' [FETCH_HELP])
     else
     bindI (api_git dir [''rev-parse'', ''--git-path'', ''info/grafts'']) (\<lambda>grafts.
     bindI (probe (\<lambda>w h. path_present w h (if startswith grafts ''/'' then grafts else dir @ ''/'' @ grafts))) (\<lambda>present.
     if present
     then raiseI (ContractError ''API history must not use Git grafts'' [])
     else
     bindI (api_git dir [''config'', ''--list'']) (\<lambda>configuration.
     if list_ex promisor_line (split_on newline configuration)
     then raiseI (ContractError ''API history must not be a partial/promisor clone; fetch a complete clone'' [])
     else
     bindI (api_git dir [''rev-parse'', ''HEAD'']) (\<lambda>head.
     if head \<noteq> candidate
     then raiseI (ContractError ''held API checkout differs from exact tested candidate'' [])
     else
     bindI (api_git dir [''rev-list'', ''--objects'', ''--missing=error'', candidate]) (\<lambda>_. retI ()))))))"

definition dirty :: "string \<Rightarrow> bool prog" where
  "dirty dir = bindI (api_git dir [''status'', ''--porcelain'', ''--untracked-files=normal'']) (\<lambda>s. retI (s \<noteq> []))"

definition first_parent_history :: "string \<Rightarrow> string \<Rightarrow> string list prog" where
  "first_parent_history dir revn =
     bindI (api_git dir [''rev-list'', ''--first-parent'', revn]) (\<lambda>s. retI (str_lines s))"

section \<open>The canonical default branch\<close>

definition origins :: "string \<Rightarrow> string list" where
  "origins repository = [''https://github.com/'' @ repository, ''https://github.com/'' @ repository @ ''.git'',
     ''git@github.com:'' @ repository @ ''.git'', ''ssh://git@github.com/'' @ repository @ ''.git'']"

definition tab :: char where "tab = CHR 0x09"

text \<open>The lines of \<open>ls-remote --symref\<close> about HEAD: the branch it names and its tip.\<close>

definition head_row :: "string \<Rightarrow> bool" where
  "head_row row = endswith row (tab # ''HEAD'')"

definition symbolic_heads :: "string list \<Rightarrow> string list" where
  "symbolic_heads rows = map (\<lambda>row. drop 5 (before_char tab row)) (filter (\<lambda>row. startswith row ''ref: '' \<and> head_row row) rows)"

definition head_tips :: "string list \<Rightarrow> string list" where
  "head_tips rows = map (before_char tab) (filter (\<lambda>row. head_row row \<and> \<not> startswith row ''ref: '') rows)"

definition ls_remote :: "string \<Rightarrow> string list" where
  "ls_remote repository = [''-c'', ''credential.helper='', ''ls-remote'', ''--symref'',
     ''https://github.com/'' @ repository @ ''.git'', ''HEAD'']"

definition default_authority :: "string \<Rightarrow> api_context \<Rightarrow> (string \<times> string) prog" where
  "default_authority dir c =
     bindI (api_git dir [''remote'', ''get-url'', ''origin'']) (\<lambda>remote.
     if remote \<notin> set (origins (api_repo c))
     then raiseI (ContractError ''API default-branch authority requires this allowlisted repository's canonical origin'' [])
     else
     bindI (probe scratch_dir) (\<lambda>scratch.
     bindI (api_git scratch (ls_remote (api_repo c))) (\<lambda>out.
     let rows = str_lines out; symbolic = symbolic_heads rows; tips = head_tips rows in
     if length symbolic \<noteq> 1 \<or> length tips \<noteq> 1 \<or> \<not> startswith (hd symbolic) ''refs/heads/'' \<or> \<not> is_sha (hd tips)
     then raiseI (ContractError ''canonical default branch has missing or ambiguous authority. {}'' [FETCH_HELP])
     else
     bindI (api_git dir [''rev-parse'', ''--verify'', ''refs/remotes/origin/'' @ removeprefix (hd symbolic) ''refs/heads/'']) (\<lambda>tracked.
     if tracked \<noteq> hd tips
     then raiseI (ContractError ''fetched default branch differs from canonical advertised HEAD. {}'' [FETCH_HELP])
     else
     bindI (api_git dir [''rev-list'', ''--objects'', ''--missing=error'', hd tips]) (\<lambda>_.
     retI (removeprefix (hd symbolic) ''refs/heads/'', hd tips))))))"

section \<open>The Git baseline\<close>

text \<open>The three kinds of events, each with its baseline and what authorised it.\<close>

fun attr_get_or :: "json \<Rightarrow> string \<Rightarrow> json \<Rightarrow> json res" where
  "attr_get_or (JObj d) k w = Inr (dget_or d k w)"
| "attr_get_or _ k w = Inl AttributeError"

definition event_sha :: "api_context \<Rightarrow> dict \<Rightarrow> json res" where
  "event_sha c event =
     (if api_event c = ''pull_request''
      then bindR (attr_get_or (dget_or event ''pull_request'' (JObj [])) ''base'' (JObj [])) (\<lambda>base. attr_get base ''sha'')
      else attr_get (dget_or event ''merge_group'' (JObj [])) ''base_sha'')"

definition merge_baseline :: "string \<Rightarrow> api_context \<Rightarrow> dict \<Rightarrow> (string \<times> dict) prog" where
  "merge_baseline dir c event =
     bindI (liftI (event_sha c event)) (\<lambda>v. let base = str_of v in
     if v \<noteq> JStr (api_policy c) \<or> \<not> is_sha base
     then raiseI (ContractError ''API event base does not equal independently trusted policy SHA'' [])
     else if base = api_candidate c
     then raiseI (ContractError ''PR/queue API baseline must differ from tested merge'' [])
     else
     bindI (api_git dir [''merge-base'', ''--is-ancestor'', base, api_candidate c]) (\<lambda>_.
     retI (base, [(''event_base'', JStr base)])))"

definition shown :: "(json \<Rightarrow> string) \<Rightarrow> json \<Rightarrow> string" where
  "shown str v = (case v of JStr s \<Rightarrow> s | _ \<Rightarrow> str v)"

definition push_baseline :: "string \<Rightarrow> api_context \<Rightarrow> dict \<Rightarrow> (string \<times> dict) prog" where
  "push_baseline dir c event =
     bindI (liftI (attr_get (dget_or event ''repository'' (JObj [])) ''default_branch'')) (\<lambda>branch.
     bindI (askI json_shown) (\<lambda>str.
     let v = dget event ''before''; base = str_of v in
     if \<not> truthy branch \<or> dget event ''ref'' \<noteq> JStr (''refs/heads/'' @ shown str branch)
        \<or> \<not> is_str v \<or> \<not> is_sha base \<or> base = replicate 40 CHR ''0''
     then raiseI (ContractError ''development main API check requires an existing default-branch push before SHA'' [])
     else
     bindI (if base = api_candidate c then retI [] else first_parent_history dir (api_candidate c)) (\<lambda>commits.
     if base = api_candidate c \<or> base \<notin> set (tl commits)
     then raiseI (ContractError
            ''push API baseline must precede tested candidate on trusted first-parent main history'' [])
     else retI (base, [(''default_branch'', branch), (''push_before'', JStr base)]))))"

text \<open>A candidate that is on the default branch, and one that is proposed for it.\<close>

definition branch_base :: "string \<Rightarrow> api_context \<Rightarrow> string prog" where
  "branch_base dir c =
     bindI (if api_event c = ''local'' then dirty dir else retI False) (\<lambda>changed.
     if changed then retI (api_candidate c)
     else
     bindI (first_parent_history dir (api_candidate c)) (\<lambda>commits.
     if length commits < 2
     then raiseI (ContractError ''clean trusted-main API check needs a previous first-parent commit'' [])
     else retI (commits ! 1)))"

definition fork_base :: "string \<Rightarrow> api_context \<Rightarrow> string \<Rightarrow> string prog" where
  "fork_base dir c tip =
     bindI (api_git dir [''merge-base'', ''--all'', api_candidate c, tip]) (\<lambda>out.
     let bases = str_lines out in
     if length bases \<noteq> 1 \<or> \<not> is_sha (hd bases) \<or> hd bases = api_candidate c
     then raiseI (ContractError ''proposed branch needs one non-self trusted default-branch fork base. {}'' [FETCH_HELP])
     else retI (hd bases))"

definition default_baseline :: "string \<Rightarrow> api_context \<Rightarrow> (string \<times> dict) prog" where
  "default_baseline dir c =
     bindI (default_authority dir c) (\<lambda>(branch, tip).
     bindI (first_parent_history dir tip) (\<lambda>main_history.
     bindI (if api_candidate c \<in> set main_history then branch_base dir c else fork_base dir c tip) (\<lambda>base.
     bindI (default_authority dir c) (\<lambda>again.
     if again \<noteq> (branch, tip)
     then raiseI (ContractError
            ''canonical default branch moved during API baseline selection; retry after fetching'' [])
     else retI (base, [(''default_branch'', JStr branch), (''advertised_default_sha'', JStr tip)])))))"

definition select_git :: "string \<Rightarrow> api_context \<Rightarrow> dict \<Rightarrow> (string \<times> dict) prog" where
  "select_git dir c event =
     bindI (liftI (validate_api c)) (\<lambda>_.
     bindI (git_history dir (api_candidate c)) (\<lambda>_.
     bindI (if api_event c = ''pull_request'' \<or> api_event c = ''merge_group'' then merge_baseline dir c event
            else if api_event c = ''push'' then push_baseline dir c event
            else default_baseline dir c) (\<lambda>(base, authority).
     bindI (api_git dir [''cat-file'', ''-e'', base @ ''^{commit}'']) (\<lambda>_.
     bindI (api_git dir [''rev-list'', ''--objects'', ''--missing=error'', base]) (\<lambda>_.
     bindI (if api_event c \<noteq> ''local'' then dirty dir else retI False) (\<lambda>changed.
     if changed then raiseI (ContractError ''hosted API checks require a clean exact candidate source'' [])
     else retI (base, authority)))))))"

section \<open>The published baseline\<close>

definition crate_url :: "string \<Rightarrow> string" where
  "crate_url package = ''https://crates.io/api/v1/crates/'' @ package"

text \<open>A row of the history: nothing for a yanked or a pre-release version.\<close>

definition usable_row :: "string \<Rightarrow> json \<Rightarrow> string option res" where
  "usable_row package row =
     (let d = dict_of row; num = dget d ''num'' in
      if \<not> is_obj row \<or> dget d ''crate'' \<noteq> JStr package \<or> \<not> is_bool (dget d ''yanked'')
         \<or> \<not> is_str num \<or> \<not> is_semver (str_of num)
      then Inl (ContractError ''canonical API version history is malformed'' [])
      else Inr (if CHR ''-'' \<notin> set (before_char CHR ''+'' (str_of num)) \<and> dget d ''yanked'' = JBool False
                then Some (str_of num) else None))"

definition version_key :: "string \<Rightarrow> int list res" where
  "version_key version = mapR run_number (split_on CHR ''.'' (before_char CHR ''+'' version))"

text \<open>\<open>max\<close> with a key keeps the first of the greatest.\<close>

fun greatest :: "int list \<times> string \<Rightarrow> (int list \<times> string) list \<Rightarrow> string" where
  "greatest best [] = snd best"
| "greatest best (p # ps) = greatest (if fst best < fst p then p else best) ps"

definition latest_version :: "string \<Rightarrow> json \<Rightarrow> string res" where
  "latest_version package value =
     (let d = dict_of value; rows = dget d ''versions''; crate = dget d ''crate'' in
      if \<not> is_obj value \<or> \<not> is_obj crate \<or> dget (dict_of crate) ''name'' \<noteq> JStr package
         \<or> \<not> is_list rows \<or> list_of rows = []
      then Inl (ContractError ''canonical API metadata lacks publication identity/history'' [])
      else
      bindR (mapR (usable_row package) (list_of rows)) (\<lambda>found.
      let versions = map the (filter (\<lambda>v. v \<noteq> None) found) in
      if versions = []
      then Inl (ContractError
             ''crate has prior publication but no usable non-yanked stable API baseline; initial API is forbidden'' [])
      else bindR (mapR version_key versions) (\<lambda>ks.
      Inr (greatest (hd (zip ks versions)) (tl (zip ks versions))))))"

definition registry_version :: "string \<Rightarrow> string option prog" where
  "registry_version package =
     (let url = crate_url package in
      if \<not> is_package package
      then raiseI (ContractError ''invalid canonical API package'' [])
      else
      bindI (fetch url) (\<lambda>r. case r of
        HttpDown \<Rightarrow> raiseI (ContractError ''canonical API lookup unavailable; absence is unproven'' [])
      | HttpBroken name \<Rightarrow> raiseI (OSError name)
      | HttpInvalid name \<Rightarrow> raiseI (HttpException name)
      | HttpFailed final code \<Rightarrow>
          if code = 404 \<and> final = url then retI None
          else raiseI (ContractError ''canonical API lookup failed with HTTP {}'' [show_int code])
      | HttpOk final status body \<Rightarrow>
          if status \<noteq> 200 \<or> final \<noteq> url
          then raiseI (ContractError ''canonical API registry changed identity or returned unexpected status'' [])
          else if 2000000 < length body
          then raiseI (ContractError ''canonical API metadata exceeded its byte bound'' [])
          else
          bindI (askI json_value) (\<lambda>loads. case loads body of
            None \<Rightarrow> raiseI (ValueError ''JSON'')
          | Some value \<Rightarrow>
              bindI (liftI (latest_version package value)) (\<lambda>v. retI (Some v)))))"

definition release_allowance :: "string \<Rightarrow> string \<Rightarrow> string res" where
  "release_allowance reason release_type =
     (if release_type \<notin> {[], ''major'', ''minor'', ''patch''}
      then Inl (ContractError ''API release type must be empty, major, minor or patch'' [])
      else if reason = ''published'' then
        (if release_type \<noteq> []
         then Inl (ContractError
                ''published API must infer compatibility from the chosen manifest version, without intent overrides'' [])
         else Inr [])
      else Inr (if release_type = [] then ''minor'' else release_type))"

section \<open>What Git said\<close>

text \<open>A Git command ended well in a directory between two histories, with this output.\<close>

definition told_in :: "host \<Rightarrow> history \<Rightarrow> history \<Rightarrow> (history \<Rightarrow> string) \<Rightarrow> string list \<Rightarrow> string \<Rightarrow> bool" where
  "told_in w h h' dir arguments s \<longleftrightarrow>
     during h h' (\<lambda>g e. e = Command (dir g) (git_argv arguments)
       \<and> (\<exists>out err. command_reply w g (dir g) (api_environment (environ w)) (git_argv arguments) = Exited 0 out err
            \<and> decode_utf8 out = Inr out \<and> s = py_strip out))"

abbreviation told :: "host \<Rightarrow> history \<Rightarrow> history \<Rightarrow> string \<Rightarrow> string list \<Rightarrow> string \<Rightarrow> bool" where
  "told w h h' dir \<equiv> told_in w h h' (\<lambda>_. dir)"

lemma told_wider: "told_in w g g' dir arguments s \<Longrightarrow> suffix h g \<Longrightarrow> suffix g' h' \<Longrightarrow> told_in w h h' dir arguments s"
  unfolding told_in_def by (rule during_wider)

lemma told_earlier: "told_in w g h' dir arguments s \<Longrightarrow> suffix h g \<Longrightarrow> told_in w h h' dir arguments s"
  by (erule told_wider) simp_all

lemma told_later: "told_in w h g dir arguments s \<Longrightarrow> suffix g h' \<Longrightarrow> told_in w h h' dir arguments s"
  by (erule told_wider) simp_all

lemma api_git_told:
  assumes "api_git (d h) arguments w h = (Inr s, h')"
  shows "told_in w h h' d arguments s" and "h' = Command (d h) (git_argv arguments) # h" and "\<not> overridden (environ w)"
proof -
  from assms obtain out err where run: "command_reply w h (d h) (api_environment (environ w)) (git_argv arguments) = Exited 0 out err"
    "decode_utf8 out = Inr out" "s = py_strip out" and h': "h' = Command (d h) (git_argv arguments) # h"
    and env: "\<not> overridden (environ w)"
    unfolding api_git_def api_command_def
    by (elim run_elims) (auto simp: spawn_def decode_utf8_Inr split: command_reply.splits if_splits elim!: bindI_InrE)
  show "h' = Command (d h) (git_argv arguments) # h" "\<not> overridden (environ w)" using h' env by simp_all
  show "told_in w h h' d arguments s" unfolding told_in_def h' by (rule during_step) (use run in auto)
qed

lemma api_git_Inr:
  assumes "api_git dir arguments w h = (Inr s, h')"
  shows "h' = Command dir (git_argv arguments) # h" and "told w h h' dir arguments s"
    and "suffix h h'" and "\<not> overridden (environ w)"
  using api_git_told [of "\<lambda>_. dir", OF assms] by (simp_all add: suffix_ConsI)

section \<open>Why a baseline is trusted\<close>

lemma grow_rules:
  "keeps (extends (\<lambda>_. True)) (api_git dir arguments)"
  "keeps (extends (\<lambda>_. True)) (dirty dir)"
  "keeps (extends (\<lambda>_. True)) (first_parent_history dir revn)"
  "keeps (extends (\<lambda>_. True)) (default_authority dir c)"
proof -
  show g: "keeps (extends (\<lambda>_. True)) (api_git dir arguments)" for dir arguments
    unfolding api_git_def api_command_def by (intro host_rules TrueI)
  show "keeps (extends (\<lambda>_. True)) (dirty dir)" "keeps (extends (\<lambda>_. True)) (first_parent_history dir revn)"
    "keeps (extends (\<lambda>_. True)) (default_authority dir c)"
    unfolding dirty_def first_parent_history_def default_authority_def Let_def by (intro host_rules g)+
qed

lemma dirty_Inr:
  assumes "dirty dir w h = (Inr b, h')"
  shows "\<exists>s. told w h h' dir [''status'', ''--porcelain'', ''--untracked-files=normal''] s \<and> b = (s \<noteq> [])"
  using assms unfolding dirty_def by (elim run_elims) (auto dest: api_git_Inr(2))

lemma first_parent_Inr:
  assumes "first_parent_history dir revn w h = (Inr ls, h')"
  shows "\<exists>s. told w h h' dir [''rev-list'', ''--first-parent'', revn] s \<and> ls = str_lines s"
  using assms unfolding first_parent_history_def by (elim run_elims) (auto dest: api_git_Inr(2))

text \<open>The canonical repository advertised the branch and its tip, and the checkout has fetched it.\<close>

definition advertised :: "host \<Rightarrow> history \<Rightarrow> history \<Rightarrow> string \<Rightarrow> api_context \<Rightarrow> string \<Rightarrow> string \<Rightarrow> bool" where
  "advertised w h h' dir c branch tip \<longleftrightarrow> is_sha tip
     \<and> (\<exists>out. told_in w h h' (scratch_dir w) (ls_remote (api_repo c)) out
          \<and> symbolic_heads (str_lines out) = [''refs/heads/'' @ branch] \<and> head_tips (str_lines out) = [tip])
     \<and> (\<exists>origin \<in> set (origins (api_repo c)). told w h h' dir [''remote'', ''get-url'', ''origin''] origin)
     \<and> told w h h' dir [''rev-parse'', ''--verify'', ''refs/remotes/origin/'' @ branch] tip"

lemma advertised_wider:
  "advertised w g g' dir c branch tip \<Longrightarrow> suffix h g \<Longrightarrow> suffix g' h' \<Longrightarrow> advertised w h h' dir c branch tip"
  unfolding advertised_def by (blast intro: told_wider)

lemma single_hd: "length xs = 1 \<longleftrightarrow> xs = [hd xs]"
  by (cases xs) auto

lemma default_authority_Inr:
  assumes "default_authority dir c w h = (Inr (branch, tip), h')"
  shows "advertised w h h' dir c branch tip"
proof -
  obtain origin h1 out h2 h3 s where
    r: "api_git dir [''remote'', ''get-url'', ''origin''] w h = (Inr origin, h1)" "origin \<in> set (origins (api_repo c))"
    and o: "api_git (scratch_dir w h1) (ls_remote (api_repo c)) w h1 = (Inr out, h2)"
    and rows: "length (symbolic_heads (str_lines out)) = 1" "length (head_tips (str_lines out)) = 1"
      "startswith (hd (symbolic_heads (str_lines out))) ''refs/heads/''" "is_sha (hd (head_tips (str_lines out)))"
    and b: "branch = removeprefix (hd (symbolic_heads (str_lines out))) ''refs/heads/''" "tip = hd (head_tips (str_lines out))"
    and t: "api_git dir [''rev-parse'', ''--verify'', ''refs/remotes/origin/'' @ branch] w h2 = (Inr tip, h3)"
    and l: "api_git dir [''rev-list'', ''--objects'', ''--missing=error'', tip] w h3 = (Inr s, h')"
    using assms unfolding default_authority_def Let_def by (elim run_elims) (rule that, auto)
  note s = api_git_Inr(3) [OF r(1)] api_git_Inr(3) [OF o] api_git_Inr(3) [OF t] api_git_Inr(3) [OF l]
  have one: "suffix h1 h'" "suffix h2 h'" using s by (meson suffix_order.trans)+
  have "symbolic_heads (str_lines out) = [''refs/heads/'' @ branch]" "head_tips (str_lines out) = [tip]"
    using rows b unfolding single_hd by (auto simp: removeprefix_def startswith_def prefix_def)
  moreover have "told_in w h h' (scratch_dir w) (ls_remote (api_repo c)) out"
  proof -
    from o have "told_in w h1 h2 (scratch_dir w) (ls_remote (api_repo c)) out" by (rule api_git_told)
    then show ?thesis using s(1) one(2) by (rule told_wider)
  qed
  moreover have "told w h h' dir [''remote'', ''get-url'', ''origin''] origin"
    using api_git_Inr(2) [OF r(1)] one(1) by (rule told_later)
  moreover have "told w h h' dir [''rev-parse'', ''--verify'', ''refs/remotes/origin/'' @ branch] tip"
    using api_git_Inr(2) [OF t] suffix_order.trans [OF s(1,2)] s(4) by (rule told_wider)
  ultimately show ?thesis using rows(4) b(2) r(2) unfolding advertised_def by auto
qed

text \<open>The three reasons for a baseline: the base of a merge, the tip before a push, the default branch.\<close>

definition merge_reason :: "host \<Rightarrow> history \<Rightarrow> history \<Rightarrow> string \<Rightarrow> api_context \<Rightarrow> dict \<Rightarrow> string \<Rightarrow> bool" where
  "merge_reason w h h' dir c event base \<longleftrightarrow> event_sha c event = Inr (JStr base) \<and> base = api_policy c
     \<and> base \<noteq> api_candidate c \<and> (\<exists>s. told w h h' dir [''merge-base'', ''--is-ancestor'', base, api_candidate c] s)"

definition push_reason :: "host \<Rightarrow> history \<Rightarrow> history \<Rightarrow> string \<Rightarrow> api_context \<Rightarrow> dict \<Rightarrow> string \<Rightarrow> bool" where
  "push_reason w h h' dir c event base \<longleftrightarrow> dget event ''before'' = JStr base \<and> base \<noteq> api_candidate c
     \<and> (\<exists>branch. attr_get (dget_or event ''repository'' (JObj [])) ''default_branch'' = Inr branch \<and> truthy branch
          \<and> dget event ''ref'' = JStr (''refs/heads/'' @ shown (json_shown w) branch))
     \<and> (\<exists>log. told w h h' dir [''rev-list'', ''--first-parent'', api_candidate c] log \<and> base \<in> set (tl (str_lines log)))"

text \<open>
  A candidate on the default branch is compared with its first parent, or with itself when its source
  has local changes; a proposed one with the one commit where it left the branch.
\<close>

definition branch_reason :: "host \<Rightarrow> history \<Rightarrow> history \<Rightarrow> string \<Rightarrow> api_context \<Rightarrow> string \<Rightarrow> bool" where
  "branch_reason w h h' dir c base \<longleftrightarrow>
     (api_event c = ''local'' \<and> base = api_candidate c
        \<and> (\<exists>s. told w h h' dir [''status'', ''--porcelain'', ''--untracked-files=normal''] s \<and> s \<noteq> []))
     \<or> (\<exists>log. told w h h' dir [''rev-list'', ''--first-parent'', api_candidate c] log
          \<and> 2 \<le> length (str_lines log) \<and> base = str_lines log ! 1)"

definition fork_reason :: "host \<Rightarrow> history \<Rightarrow> history \<Rightarrow> string \<Rightarrow> api_context \<Rightarrow> string \<Rightarrow> string \<Rightarrow> bool" where
  "fork_reason w h h' dir c tip base \<longleftrightarrow> is_sha base \<and> base \<noteq> api_candidate c
     \<and> (\<exists>out. told w h h' dir [''merge-base'', ''--all'', api_candidate c, tip] out \<and> str_lines out = [base])"

definition default_reason :: "host \<Rightarrow> history \<Rightarrow> history \<Rightarrow> string \<Rightarrow> api_context \<Rightarrow> string \<Rightarrow> bool" where
  "default_reason w h h' dir c base \<longleftrightarrow> (\<exists>branch tip g g' log.
     advertised w h g dir c branch tip \<and> suffix g g' \<and> advertised w g' h' dir c branch tip
     \<and> told w g g' dir [''rev-list'', ''--first-parent'', tip] log
     \<and> (if api_candidate c \<in> set (str_lines log) then branch_reason w g g' dir c base
        else fork_reason w g g' dir c tip base))"

definition baseline_reason :: "host \<Rightarrow> history \<Rightarrow> history \<Rightarrow> string \<Rightarrow> api_context \<Rightarrow> dict \<Rightarrow> string \<Rightarrow> bool" where
  "baseline_reason w h h' dir c event base \<longleftrightarrow>
     (if api_event c \<in> {''pull_request'', ''merge_group''} then merge_reason w h h' dir c event base
      else if api_event c = ''push'' then push_reason w h h' dir c event base
      else default_reason w h h' dir c base)"

lemma merge_baseline_Inr:
  assumes "merge_baseline dir c event w h = (Inr (base, authority), h')"
  shows "merge_reason w h h' dir c event base"
  using assms unfolding merge_baseline_def merge_reason_def Let_def
  by (elim run_elims) (auto dest: api_git_Inr(2))

lemma push_baseline_Inr:
  assumes "push_baseline dir c event w h = (Inr (base, authority), h')"
  shows "push_reason w h h' dir c event base"
proof -
  obtain branch commits where b: "attr_get (dget_or event ''repository'' (JObj [])) ''default_branch'' = Inr branch" "truthy branch"
      "dget event ''ref'' = JStr (''refs/heads/'' @ shown (json_shown w) branch)"
    and v: "is_str (dget event ''before'')" "base = str_of (dget event ''before'')"
    and ne: "base \<noteq> api_candidate c" "base \<in> set (tl commits)"
    and f: "first_parent_history dir (api_candidate c) w h = (Inr commits, h')"
    using assms unfolding push_baseline_def Let_def by (elim run_elims) (rule that, auto split: if_splits)
  have "dget event ''before'' = JStr base" using v by (auto simp: is_str_iff)
  with b ne first_parent_Inr [OF f] show ?thesis unfolding push_reason_def by auto
qed

lemma branch_base_Inr:
  assumes "branch_base dir c w h = (Inr base, h')"
  shows "branch_reason w h h' dir c base"
proof -
  obtain changed h1 where d: "(if api_event c = ''local'' then dirty dir else retI False) w h = (Inr changed, h1)"
    and rest: "(if changed then retI (api_candidate c) else
     bindI (first_parent_history dir (api_candidate c)) (\<lambda>commits.
     if length commits < 2
     then raiseI (ContractError ''clean trusted-main API check needs a previous first-parent commit'' [])
     else retI (commits ! 1))) w h1 = (Inr base, h')"
    using assms unfolding branch_base_def by (elim run_elims) auto
  show ?thesis
  proof (cases changed)
    case True
    with d rest have "dirty dir w h = (Inr True, h')" "api_event c = ''local''" "base = api_candidate c"
      by (auto split: if_splits)
    with dirty_Inr [OF this(1)] show ?thesis unfolding branch_reason_def by blast
  next
    case False
    with rest obtain commits where f: "first_parent_history dir (api_candidate c) w h1 = (Inr commits, h')"
      and l: "2 \<le> length commits" "base = commits ! 1" by (auto elim!: run_elims)
    have "keeps (extends (\<lambda>_. True)) (if api_event c = ''local'' then dirty dir else retI False)"
      by (intro host_rules grow_rules)
    then have "suffix h h1" using d by (rule keeps_suffix)
    moreover obtain log where "told w h1 h' dir [''rev-list'', ''--first-parent'', api_candidate c] log" "commits = str_lines log"
      using first_parent_Inr [OF f] by blast
    ultimately show ?thesis using l unfolding branch_reason_def by (blast intro: told_earlier)
  qed
qed

lemma fork_base_Inr:
  assumes "fork_base dir c tip w h = (Inr base, h')"
  shows "fork_reason w h h' dir c tip base"
  using assms unfolding fork_base_def fork_reason_def Let_def
  by (elim run_elims) (force dest!: api_git_Inr(2) simp: length_Suc_conv)

lemma default_baseline_Inr:
  assumes "default_baseline dir c w h = (Inr (base, authority), h')"
  shows "default_reason w h h' dir c base"
proof -
  obtain branch tip h1 main_history h2 h3 where
    a: "default_authority dir c w h = (Inr (branch, tip), h1)"
    and m: "first_parent_history dir tip w h1 = (Inr main_history, h2)"
    and b: "(if api_candidate c \<in> set main_history then branch_base dir c else fork_base dir c tip) w h2 = (Inr base, h3)"
    and again: "default_authority dir c w h3 = (Inr (branch, tip), h')"
    using assms unfolding default_baseline_def by (elim run_elims pair_runE) (clarify, blast)
  obtain log where log: "told w h1 h2 dir [''rev-list'', ''--first-parent'', tip] log" "main_history = str_lines log"
    using first_parent_Inr [OF m] by blast
  have "keeps (extends (\<lambda>_. True)) (if api_candidate c \<in> set main_history then branch_base dir c else fork_base dir c tip)"
    unfolding branch_base_def fork_base_def Let_def by (intro host_rules grow_rules)
  then have s: "suffix h2 h3" using b by (rule keeps_suffix)
  have t: "suffix h1 h2" using grow_rules(3) m by (rule keeps_suffix)
  have "branch_reason w h1 h3 dir c base" if "api_candidate c \<in> set main_history"
    using branch_base_Inr [of dir c w h2 base h3] b t that unfolding branch_reason_def by (auto intro: told_earlier)
  moreover have "fork_reason w h1 h3 dir c tip base" if "api_candidate c \<notin> set main_history"
    using fork_base_Inr [of dir c tip w h2 base h3] b t that unfolding fork_reason_def by (auto intro: told_earlier)
  ultimately have "if api_candidate c \<in> set (str_lines log) then branch_reason w h1 h3 dir c base else fork_reason w h1 h3 dir c tip base"
    unfolding log(2) by simp
  with default_authority_Inr [OF a] default_authority_Inr [OF again] suffix_order.trans [OF t s] told_later [OF log(1) s]
  show ?thesis unfolding default_reason_def by blast
qed

lemma reason_later:
  assumes "baseline_reason w g g' dir c event base" and "suffix h g" and "suffix g' h'"
  shows "baseline_reason w h h' dir c event base"
proof -
  note wide = told_wider [OF _ assms(2,3)]
  have "merge_reason w h h' dir c event base" if "merge_reason w g g' dir c event base"
    using that unfolding merge_reason_def by (blast intro: wide)
  moreover have "push_reason w h h' dir c event base" if "push_reason w g g' dir c event base"
    using that unfolding push_reason_def by (blast intro: wide)
  moreover have "default_reason w h h' dir c base" if "default_reason w g g' dir c base"
    using that unfolding default_reason_def
    by (elim exE conjE) (intro exI conjI, (erule advertised_wider, rule assms, rule suffix_order.refl)+, assumption,
        erule advertised_wider, rule suffix_order.refl, rule assms)
  ultimately show ?thesis using assms(1) unfolding baseline_reason_def by (auto split: if_splits)
qed

lemma validate_api_Inr: "validate_api c = Inr () \<Longrightarrow>
    purpose c \<in> {''development'', ''published''} \<and> api_repo c \<in> set API_REPOSITORIES
    \<and> is_sha (api_candidate c) \<and> is_sha (api_policy c) \<and> is_sha (api_automation c)"
  by (auto simp: validate_api_def split: if_splits)

lemma git_history_Inr:
  assumes "git_history dir candidate w h = (Inr (), h')"
  shows "told w h h' dir [''rev-parse'', ''HEAD''] candidate" and "suffix h h'"
    and "\<exists>s. told w h h' dir [''rev-list'', ''--objects'', ''--missing=error'', candidate] s"
    and "told w h h' dir [''rev-parse'', ''--is-shallow-repository''] ''false''" and "\<not> overridden (environ w)"
proof -
  obtain h1 g h2 conf h3 h4 s where
    s: "api_git dir [''rev-parse'', ''--is-shallow-repository''] w h = (Inr ''false'', h1)"
    and g: "api_git dir [''rev-parse'', ''--git-path'', ''info/grafts''] w h1 = (Inr g, h2)"
    and l: "api_git dir [''config'', ''--list''] w h2 = (Inr conf, h3)"
    and d: "api_git dir [''rev-parse'', ''HEAD''] w h3 = (Inr candidate, h4)"
    and o: "api_git dir [''rev-list'', ''--objects'', ''--missing=error'', candidate] w h4 = (Inr s, h')"
    using assms unfolding git_history_def by (elim run_elims) (rule that, auto)
  note grow = api_git_Inr(3) [OF s] api_git_Inr(3) [OF g] api_git_Inr(3) [OF l] api_git_Inr(3) [OF d] api_git_Inr(3) [OF o]
  have sub: "suffix h h3" "suffix h h4" "suffix h1 h'" "suffix h h'" using grow by (meson suffix_order.trans)+
  show "suffix h h'" by (rule sub)
  show "told w h h' dir [''rev-parse'', ''HEAD''] candidate"
    using api_git_Inr(2) [OF d] sub(1) grow(5) by (rule told_wider)
  show "\<exists>s. told w h h' dir [''rev-list'', ''--objects'', ''--missing=error'', candidate] s"
    using told_earlier [OF api_git_Inr(2) [OF o] sub(2)] by blast
  show "told w h h' dir [''rev-parse'', ''--is-shallow-repository''] ''false''"
    using api_git_Inr(2) [OF s] sub(3) by (rule told_later)
  show "\<not> overridden (environ w)" using s by (rule api_git_Inr(4))
qed

lemma select_git_Inr:
  assumes "select_git dir c event w h = (Inr (base, authority), h')"
  shows "validate_api c = Inr () \<and> \<not> overridden (environ w)
    \<and> told w h h' dir [''rev-parse'', ''--is-shallow-repository''] ''false''
    \<and> told w h h' dir [''rev-parse'', ''HEAD''] (api_candidate c)
    \<and> baseline_reason w h h' dir c event base
    \<and> (\<exists>s. told w h h' dir [''cat-file'', ''-e'', base @ ''^{commit}''] s)
    \<and> (\<exists>s. told w h h' dir [''rev-list'', ''--objects'', ''--missing=error'', base] s)
    \<and> (api_event c \<noteq> ''local'' \<longrightarrow> told w h h' dir [''status'', ''--porcelain'', ''--untracked-files=normal''] [])"
proof -
  let ?choice = "if api_event c = ''pull_request'' \<or> api_event c = ''merge_group'' then merge_baseline dir c event
    else if api_event c = ''push'' then push_baseline dir c event else default_baseline dir c"
  obtain h1 h2 s1 h3 s2 h4 changed h5 where v: "validate_api c = Inr ()"
    and g: "git_history dir (api_candidate c) w h = (Inr (), h1)"
    and b: "?choice w h1 = (Inr (base, authority), h2)"
    and cat: "api_git dir [''cat-file'', ''-e'', base @ ''^{commit}''] w h2 = (Inr s1, h3)"
    and objects: "api_git dir [''rev-list'', ''--objects'', ''--missing=error'', base] w h3 = (Inr s2, h4)"
    and d: "(if api_event c \<noteq> ''local'' then dirty dir else retI False) w h4 = (Inr changed, h5)" "\<not> changed" "h' = h5"
    using assms unfolding select_git_def by (elim run_elims pair_runE) (clarify, blast)
  have reason: "baseline_reason w h1 h2 dir c event base"
    using merge_baseline_Inr [of dir c event w h1 base authority h2] push_baseline_Inr [of dir c event w h1 base authority h2]
      default_baseline_Inr [of dir c w h1 base authority h2] b unfolding baseline_reason_def by (auto split: if_splits)
  have grown: "keeps (extends (\<lambda>_. True)) ?choice"
      "keeps (extends (\<lambda>_. True)) (if api_event c \<noteq> ''local'' then dirty dir else retI False)"
    unfolding merge_baseline_def push_baseline_def default_baseline_def branch_base_def fork_base_def Let_def
    by (intro host_rules grow_rules)+
  have "suffix h1 h2" using grown(1) b by (rule keeps_suffix)
  moreover have "suffix h4 h5" using grown(2) d(1) by (rule keeps_suffix)
  ultimately have s: "suffix h h1" "suffix h1 h2" "suffix h2 h3" "suffix h3 h4" "suffix h4 h5"
    using git_history_Inr(2) [OF g] api_git_Inr(3) [OF cat] api_git_Inr(3) [OF objects] by simp_all
  have sub: "suffix h1 h5" "suffix h2 h5" "suffix h h2" "suffix h3 h5" "suffix h h3" "suffix h h4"
    using s by (meson suffix_order.trans)+
  note git = git_history_Inr [OF g]
  have "told w h h5 dir [''status'', ''--porcelain'', ''--untracked-files=normal''] []" if "api_event c \<noteq> ''local''"
  proof -
    from d that have "dirty dir w h4 = (Inr False, h5)" by simp
    from dirty_Inr [OF this] show ?thesis using sub(6) by (auto intro: told_earlier)
  qed
  moreover have "told w h h5 dir [''cat-file'', ''-e'', base @ ''^{commit}''] s1"
    using api_git_Inr(2) [OF cat] sub(3,4) by (rule told_wider)
  moreover have "told w h h5 dir [''rev-list'', ''--objects'', ''--missing=error'', base] s2"
    using api_git_Inr(2) [OF objects] sub(5) s(5) by (rule told_wider)
  ultimately show ?thesis unfolding d(3)
    using v git(5) told_later [OF git(4) sub(1)] told_later [OF git(1) sub(1)] reason_later [OF reason s(1) sub(2)] by blast
qed

text \<open>
  C34. A Git baseline is only selected for a valid context, in a full clone that is checked out at the
  candidate and without redirected Git stores. The baseline is the base of the event that the policy
  commit equals and Git calls an ancestor, or the tip before the push on the first-parent history of the
  candidate, or it follows from the default branch, which the canonical repository advertised in the same
  way before and after the choice. It is never the candidate itself, except for local source with changes
  on the default branch or where the history itself repeats it, its objects are complete, and the source of
  a hosted check has no changes.
\<close>

theorem select_git_baseline:
  assumes "select_git dir c event w h = (Inr (base, authority), h')"
  shows "validate_api c = Inr () \<and> \<not> overridden (environ w)
    \<and> told w h h' dir [''rev-parse'', ''--is-shallow-repository''] ''false''
    \<and> told w h h' dir [''rev-parse'', ''HEAD''] (api_candidate c)
    \<and> baseline_reason w h h' dir c event base
    \<and> (\<exists>s. told w h h' dir [''cat-file'', ''-e'', base @ ''^{commit}''] s)
    \<and> (\<exists>s. told w h h' dir [''rev-list'', ''--objects'', ''--missing=error'', base] s)
    \<and> (api_event c \<noteq> ''local'' \<longrightarrow> told w h h' dir [''status'', ''--porcelain'', ''--untracked-files=normal''] [])"
  using assms by (rule select_git_Inr)

text \<open>A pull request in a clean full clone.\<close>

definition sample_base :: string where "sample_base = replicate 40 CHR ''a''"
definition sample_tip :: string where "sample_tip = replicate 40 CHR ''b''"

definition api_sample_context :: api_context where
  "api_sample_context = \<lparr>purpose = ''development'', api_event = ''pull_request'', api_candidate = sample_tip,
     api_policy = sample_base, api_automation = sample_base, api_repo = ''Strukturpiloten/boxferry''\<rparr>"

definition api_sample_event :: dict where
  "api_sample_event = [(''pull_request'', JObj [(''base'', JObj [(''sha'', JStr sample_base)])])]"

definition api_sample_reply :: "string list \<Rightarrow> string" where
  "api_sample_reply argv =
     (if argv = git_argv [''rev-parse'', ''--is-shallow-repository''] then ''false'' @ [newline]
      else if argv = git_argv [''rev-parse'', ''--git-path'', ''info/grafts''] then ''.git/info/grafts''
      else if argv = git_argv [''config'', ''--list''] then ''remote.origin.url=x''
      else if argv = git_argv [''rev-parse'', ''HEAD''] then sample_tip @ [newline]
      else [])"

definition api_sample_host :: host where
  "api_sample_host = blank_host\<lparr>command_reply := (\<lambda>h dir env argv. Exited 0 (api_sample_reply argv) [])\<rparr>"

lemma api_sample_run:
  "fst (select_git ''/repo'' api_sample_context api_sample_event api_sample_host [])
     = Inr (sample_base, [(''event_base'', JStr sample_base)])"
  by code_simp

theorem select_git_baseline_witness:
  "\<exists>h. select_git ''/repo'' api_sample_context api_sample_event api_sample_host []
        = (Inr (sample_base, [(''event_base'', JStr sample_base)]), h)
     \<and> merge_reason api_sample_host [] h ''/repo'' api_sample_context api_sample_event sample_base"
proof -
  obtain h where run: "select_git ''/repo'' api_sample_context api_sample_event api_sample_host []
      = (Inr (sample_base, [(''event_base'', JStr sample_base)]), h)"
    using api_sample_run by (metis prod.collapse)
  from select_git_baseline [OF run] run show ?thesis
    by (auto simp: baseline_reason_def api_sample_context_def)
qed

section \<open>The published baseline is the latest\<close>

lemma greatest_in: "\<exists>k. (k, greatest p ps) \<in> set (p # ps) \<and> (\<forall>q \<in> set (p # ps). fst q \<le> k)"
proof (induction ps arbitrary: p)
  case Nil
  then show ?case by (cases p) auto
next
  case (Cons q ps)
  let ?best = "if fst p < fst q then q else p"
  obtain k where k: "(k, greatest ?best ps) \<in> set (?best # ps)" "\<forall>r \<in> set (?best # ps). fst r \<le> k"
    using Cons.IH [of ?best] by blast
  have "fst p \<le> k" "fst q \<le> k" using k(2) by (auto split: if_splits)
  with k show ?case by (intro exI [of _ k]) (auto split: if_splits)
qed

lemma mapR_zip: "mapR f xs = Inr ys \<Longrightarrow> (y, x) \<in> set (zip ys xs) \<Longrightarrow> f x = Inr y"
  by (induction xs arbitrary: ys) (auto simp: res_simps)

lemma latest_version_Inr:
  assumes "latest_version package v0 = Inr v"
  shows "\<exists>d rows. v0 = JObj d \<and> dget d ''versions'' = JList rows \<and> dget (dict_of (dget d ''crate'')) ''name'' = JStr package
    \<and> (\<forall>row \<in> set rows. \<exists>x. usable_row package row = Inr x)
    \<and> (\<exists>row \<in> set rows. usable_row package row = Inr (Some v))
    \<and> (\<forall>row \<in> set rows. \<forall>u. usable_row package row = Inr (Some u) \<longrightarrow>
         (\<exists>k l. version_key v = Inr k \<and> version_key u = Inr l \<and> l \<le> k))"
proof -
  obtain d rows found where doc: "v0 = JObj d" "dget d ''versions'' = JList rows"
      "dget (dict_of (dget d ''crate'')) ''name'' = JStr package"
    and found: "mapR (usable_row package) rows = Inr found"
    using assms unfolding latest_version_def Let_def by (auto simp: res_simps typed_iffs split: if_splits)
  define versions where "versions = map the (filter (\<lambda>v. v \<noteq> None) found)"
  have rest: "latest_version package v0 = (if versions = []
      then Inl (ContractError
             ''crate has prior publication but no usable non-yanked stable API baseline; initial API is forbidden'' [])
      else bindR (mapR version_key versions) (\<lambda>ks. Inr (greatest (hd (zip ks versions)) (tl (zip ks versions)))))"
    if "is_obj (dget d ''crate'')" "rows \<noteq> []"
    using doc found that unfolding latest_version_def Let_def versions_def by simp
  have "is_obj (dget d ''crate'')" "rows \<noteq> []"
    using assms doc(1,2) unfolding latest_version_def Let_def by (auto split: if_splits)
  from assms [unfolded rest [OF this]] obtain ks where ks: "mapR version_key versions = Inr ks" and ne: "versions \<noteq> []"
    and v: "v = greatest (hd (zip ks versions)) (tl (zip ks versions))"
    by (cases "versions = []") (auto elim: bindR_InrE)
  have len: "length ks = length versions" using ks by (rule mapR_length)
  with ne have split: "zip ks versions = hd (zip ks versions) # tl (zip ks versions)" by (cases ks; cases versions) auto
  obtain k where k: "(k, v) \<in> set (zip ks versions)" "\<forall>q \<in> set (zip ks versions). fst q \<le> k"
    using greatest_in [of "hd (zip ks versions)" "tl (zip ks versions)"] unfolding split [symmetric] v [symmetric] by blast
  have found_rows: "set found = {x. \<exists>row \<in> set rows. usable_row package row = Inr x}"
    "\<forall>row \<in> set rows. \<exists>x. usable_row package row = Inr x"
    using found by (induction rows arbitrary: found) (auto simp: res_simps)
  have usable: "u \<in> set versions \<longleftrightarrow> (\<exists>row \<in> set rows. usable_row package row = Inr (Some u))" for u
    unfolding versions_def using found_rows(1) by force
  have "v \<in> set versions" using k(1) by (rule set_zip_rightD)
  moreover have "\<exists>k l. version_key v = Inr k \<and> version_key u = Inr l \<and> l \<le> k" if u: "u \<in> set versions" for u
  proof -
    obtain l where l: "(l, u) \<in> set (zip ks versions)"
      using in_set_impl_in_set_zip2 [OF len u] by blast
    show ?thesis using mapR_zip [OF ks k(1)] mapR_zip [OF ks l] k(2) l by force
  qed
  ultimately show ?thesis using doc found_rows(2) unfolding usable by blast
qed

text \<open>What the registry said about a crate: that it was never published, or its latest usable version.\<close>

definition registry_says :: "host \<Rightarrow> history \<Rightarrow> string \<Rightarrow> string option \<Rightarrow> bool" where
  "registry_says w h package r \<longleftrightarrow> (case r of
       None \<Rightarrow> http_reply w h (crate_url package) = HttpFailed (crate_url package) 404
     | Some v \<Rightarrow> \<exists>body d rows. http_reply w h (crate_url package) = HttpOk (crate_url package) 200 body
         \<and> length body \<le> 2000000 \<and> json_value w body = Some (JObj d) \<and> dget d ''versions'' = JList rows
         \<and> dget (dict_of (dget d ''crate'')) ''name'' = JStr package
         \<and> (\<forall>row \<in> set rows. \<exists>x. usable_row package row = Inr x)
         \<and> (\<exists>row \<in> set rows. usable_row package row = Inr (Some v))
         \<and> (\<forall>row \<in> set rows. \<forall>u. usable_row package row = Inr (Some u) \<longrightarrow>
              (\<exists>k l. version_key v = Inr k \<and> version_key u = Inr l \<and> l \<le> k)))"

text \<open>
  A registry lookup sends one request. It answers that a crate was never published only when crates.io
  itself said 404 for the address, and otherwise with the latest stable version that is not yanked of a
  history in which every row is well formed.
\<close>

lemma registry_version_Inr:
  assumes "registry_version package w h = (Inr r, h')"
  shows "h' = Fetched (crate_url package) # h" and "is_package package" and "registry_says w h package r"
proof -
  show "h' = Fetched (crate_url package) # h" "is_package package" using assms unfolding registry_version_def Let_def
    by (auto simp: bindI_def fetch_def split: if_splits http_reply.splits option.splits sum.splits)
  show "registry_says w h package r"
  proof (cases r)
    case None
    with assms show ?thesis unfolding registry_version_def Let_def registry_says_def
      by (auto simp: bindI_def fetch_def split: if_splits http_reply.splits option.splits sum.splits)
  next
    case (Some v)
    with assms obtain body doc where "http_reply w h (crate_url package) = HttpOk (crate_url package) 200 body"
        "length body \<le> 2000000" "json_value w body = Some doc" and latest: "latest_version package doc = Inr v"
      unfolding registry_version_def Let_def
      by (auto simp: bindI_def fetch_def split: if_splits http_reply.splits option.splits sum.splits)
    with latest_version_Inr [OF latest] Some show ?thesis unfolding registry_says_def by auto
  qed
qed

text \<open>A history with a yanked and a pre-release version above the latest usable one.\<close>

definition version_row :: "string \<Rightarrow> bool \<Rightarrow> json" where
  "version_row num yanked = JObj [(''crate'', JStr ''core''), (''num'', JStr num), (''yanked'', JBool yanked)]"

definition registry_sample_host :: host where
  "registry_sample_host = api_sample_host\<lparr>http_reply := (\<lambda>h url. HttpOk url 200 ''{}''),
     json_value := (\<lambda>_. Some (JObj [(''crate'', JObj [(''name'', JStr ''core'')]),
       (''versions'', JList [version_row ''1.9.0'' False, version_row ''1.10.0+b2'' False, version_row ''2.0.0-rc.1'' False,
          version_row ''3.0.0'' True])]))\<rparr>"

lemma registry_sample_run: "fst (registry_version ''core'' registry_sample_host []) = Inr (Some ''1.10.0+b2'')"
  by code_simp

lemma registry_sample_says: "registry_says registry_sample_host [] ''core'' (Some ''1.10.0+b2'')"
proof -
  obtain h where run: "registry_version ''core'' registry_sample_host [] = (Inr (Some ''1.10.0+b2''), h)"
    using registry_sample_run by (metis prod.collapse)
  then show ?thesis by (rule registry_version_Inr)
qed

lemma select_git_suffix:
  assumes "select_git dir c event w h = (Inr p, h')"
  shows "suffix h h'"
proof -
  have "keeps (extends (\<lambda>_. True)) (select_git dir c event)"
    unfolding select_git_def git_history_def merge_baseline_def push_baseline_def default_baseline_def branch_base_def
      fork_base_def Let_def by (intro host_rules grow_rules)
  then show ?thesis using assms by (rule keeps_suffix)
qed

end
