(* ===== verification/ApiSource.thy ===== *)
theory ApiSource
  imports ApiBaseline
begin

text \<open>
  The fingerprint of \<open>api_baselines.py\<close>: which source files are read, in which bounds, and the bytes that
  are hashed for them. SHA-256 is \<open>digest_hex\<close>. For files without NUL bytes equal fingerprints mean equal
  files or a collision of the digest; a file with NUL bytes can stand for several.
\<close>

section \<open>The files\<close>

definition inventory_argv :: "string list" where
  "inventory_argv = [''git'', ''--no-replace-objects'', ''ls-files'', ''-z'', ''--cached'', ''--others'', ''--exclude-standard'']"

definition tracked_paths :: "string \<Rightarrow> string list prog" where
  "tracked_paths dir =
     bindI (api_command dir inventory_argv) (\<lambda>raw.
     if raw \<noteq> [] \<and> last raw \<noteq> nul
     then raiseI (ContractError ''API source inventory is incomplete'' [])
     else
     bindI (liftI (decode_utf8 raw)) (\<lambda>s.
     let paths = sorted_strings (set (butlast (split_on nul s))) in
     if 100000 < length paths
     then raiseI (ContractError ''API source inventory exceeded its path bound'' [])
     else retI paths))"

definition MAX_SOURCE_BYTES :: nat where "MAX_SOURCE_BYTES = 512 * 1024 * 1024"
definition CHUNK :: nat where "CHUNK = 1024 * 1024"

function chunks :: "string \<Rightarrow> string list" where
  "chunks s = (if s = [] then [] else take CHUNK s # chunks (drop CHUNK s))"
  by auto
termination by (relation "measure length") (auto simp: CHUNK_def)

declare chunks.simps [simp del]

text \<open>The chunks of a file are counted before they are hashed.\<close>

fun count_chunks :: "rat \<Rightarrow> nat \<Rightarrow> string list \<Rightarrow> nat prog" where
  "count_chunks limit so_far [] = retI so_far"
| "count_chunks limit so_far (c # cs) =
     (let exceeded = raiseI (ContractError ''API source fingerprint exceeded its actual read bound'' []) in
      if MAX_SOURCE_BYTES < so_far + length c then exceeded
      else bindI clock (\<lambda>t. if limit < t then exceeded else count_chunks limit (so_far + length c) cs))"

definition escapes :: "string \<Rightarrow> bool" where
  "escapes relative = (startswith relative ''/'' \<or> ''..'' \<in> set (split_on CHR ''/'' relative))"

definition source_links :: "string \<Rightarrow> string \<Rightarrow> string list" where
  "source_links dir relative = map (path_join dir) (relative_prefixes relative) @ path_parents dir"

text \<open>The bytes hashed for a file: its path, whether it may be executed, and its contents.\<close>

type_synonym source = "string \<times> bool \<times> string"

definition source_bytes :: "source \<Rightarrow> string" where
  "source_bytes f = (case f of (relative, executable, data) \<Rightarrow>
     relative @ [nul] @ (if executable then ''executable'' else ''regular'') @ [nul] @ data @ [nul])"

definition add_source :: "string \<Rightarrow> rat \<Rightarrow> nat \<times> string \<Rightarrow> string \<Rightarrow> (nat \<times> string) prog" where
  "add_source dir limit acc relative =
     (let (so_far, stream) = acc; path = path_join dir relative in
     bindI clock (\<lambda>t.
     if limit < t then raiseI (ContractError ''API source fingerprint exceeded its read deadline'' [])
     else if escapes relative then raiseI (ContractError ''API source inventory escaped its checkout'' [])
     else
     bindI (probe (\<lambda>w h. list_ex (path_link w h) (source_links dir relative))) (\<lambda>linked.
     if linked then raiseI (ContractError ''API source fingerprint refuses source symlinks'' [])
     else
     bindI (probe (\<lambda>w h. (path_present w h path, path_file w h path))) (\<lambda>(present, node).
     if \<not> present then retI acc
     else (case node of
       None \<Rightarrow> raiseI (ContractError ''API source inventory contains a nonregular file'' [])
     | Some (stat_size, executable, data) \<Rightarrow>
         if MAX_SOURCE_BYTES < so_far + stat_size
         then raiseI (ContractError ''API source fingerprint exceeded its byte bound'' [])
         else
         bindI (count_chunks limit so_far (chunks data)) (\<lambda>so_far'.
         retI (so_far', stream @ source_bytes (relative, executable, data))))))))"

definition fingerprint :: "string \<Rightarrow> string list option \<Rightarrow> string prog" where
  "fingerprint dir paths =
     bindI clock (\<lambda>t.
     bindI (case paths of None \<Rightarrow> tracked_paths dir | Some ps \<Rightarrow> retI ps) (\<lambda>ps.
     bindI (foldI (add_source dir (t + 60)) (0, []) ps) (\<lambda>acc.
     bindI (askI digest_hex) (\<lambda>digest. retI (digest (snd acc))))))"

section \<open>What a fingerprint covers\<close>

definition source_stream :: "source list \<Rightarrow> string" where
  "source_stream fs = concat (map source_bytes fs)"

text \<open>A file was read without a link on its way, between two histories; a path without a file was absent.\<close>

definition file_read :: "host \<Rightarrow> history \<Rightarrow> history \<Rightarrow> string \<Rightarrow> source \<Rightarrow> bool" where
  "file_read w h h' dir f \<longleftrightarrow> (case f of (relative, executable, data) \<Rightarrow> \<not> escapes relative
     \<and> (\<exists>g stat_size. suffix h g \<and> suffix g h' \<and> \<not> list_ex (path_link w g) (source_links dir relative)
          \<and> path_file w g (path_join dir relative) = Some (stat_size, executable, data)))"

definition path_absent :: "host \<Rightarrow> history \<Rightarrow> history \<Rightarrow> string \<Rightarrow> string \<Rightarrow> bool" where
  "path_absent w h h' dir relative \<longleftrightarrow> (\<exists>g. suffix h g \<and> suffix g h' \<and> \<not> path_present w g (path_join dir relative))"

definition covers :: "host \<Rightarrow> history \<Rightarrow> history \<Rightarrow> string \<Rightarrow> string list \<Rightarrow> source list \<Rightarrow> bool" where
  "covers w h h' dir paths fs \<longleftrightarrow> subseq (map fst fs) paths
     \<and> (\<forall>f \<in> set fs. file_read w h h' dir f)
     \<and> (\<forall>p \<in> set paths. p \<in> fst ` set fs \<or> path_absent w h h' dir p)
     \<and> (\<Sum>f\<leftarrow>fs. length (snd (snd f))) \<le> MAX_SOURCE_BYTES"

lemma concat_chunks: "concat (chunks s) = s"
  by (induction s rule: chunks.induct) (subst chunks.simps, simp)

lemma count_chunks_Inr:
  "count_chunks limit so_far cs w h = (Inr n, h') \<Longrightarrow> so_far \<le> MAX_SOURCE_BYTES \<Longrightarrow>
     n = so_far + length (concat cs) \<and> n \<le> MAX_SOURCE_BYTES \<and> suffix h h'"
proof (induction cs arbitrary: so_far h)
  case (Cons c cs)
  then have "count_chunks limit (so_far + length c) cs w (Ticked # h) = (Inr n, h')" "so_far + length c \<le> MAX_SOURCE_BYTES"
    by (auto simp: bindI_def clock_def Let_def split: if_splits)
  from Cons.IH [OF this] show ?case by (auto intro: suffix_order.trans [OF suffix_ConsI [OF suffix_order.refl]])
qed simp

lemma add_source_Inr:
  assumes "add_source dir limit (so_far, stream) relative w h = (Inr acc, h')" and "so_far \<le> MAX_SOURCE_BYTES"
  shows "suffix h h' \<and>
     (acc = (so_far, stream) \<and> path_absent w h h' dir relative
      \<or> (\<exists>executable data. acc = (so_far + length data, stream @ source_bytes (relative, executable, data))
           \<and> so_far + length data \<le> MAX_SOURCE_BYTES \<and> file_read w h h' dir (relative, executable, data)))"
proof -
  let ?g = "Ticked # h"
  have step: "suffix h ?g" by (simp add: suffix_ConsI)
  have ok: "\<not> escapes relative" "\<not> list_ex (path_link w ?g) (source_links dir relative)"
    using assms(1) unfolding add_source_def by (auto simp: bindI_def clock_def Let_def split: if_splits)
  show ?thesis
  proof (cases "path_present w ?g (path_join dir relative)")
    case False
    with assms(1) ok have "acc = (so_far, stream)" "h' = ?g"
      unfolding add_source_def by (auto simp: bindI_def clock_def Let_def split: if_splits)
    with False step show ?thesis unfolding path_absent_def by blast
  next
    case True
    with assms(1) ok obtain stat_size executable data n where
      node: "path_file w ?g (path_join dir relative) = Some (stat_size, executable, data)"
      and run: "count_chunks limit so_far (chunks data) w ?g = (Inr n, h')"
      and acc: "acc = (n, stream @ source_bytes (relative, executable, data))"
      unfolding add_source_def
      by (auto simp: bindI_def clock_def Let_def split: if_splits option.splits prod.splits sum.splits)
    from count_chunks_Inr [OF run assms(2)] have n: "n = so_far + length data" "n \<le> MAX_SOURCE_BYTES" "suffix ?g h'"
      by (simp_all add: concat_chunks)
    have "file_read w h h' dir (relative, executable, data)"
      unfolding file_read_def using ok node step n(3) by auto
    with acc n suffix_order.trans [OF step n(3)] show ?thesis by auto
  qed
qed

lemma file_read_wider: "file_read w g g' dir f \<Longrightarrow> suffix h g \<Longrightarrow> suffix g' h' \<Longrightarrow> file_read w h h' dir f"
  unfolding file_read_def by (cases f) (auto; meson suffix_order.trans)

lemma path_absent_wider: "path_absent w g g' dir p \<Longrightarrow> suffix h g \<Longrightarrow> suffix g' h' \<Longrightarrow> path_absent w h h' dir p"
  unfolding path_absent_def by (meson suffix_order.trans)

lemma fold_sources:
  assumes "foldI (add_source dir limit) (count, stream) ps w h = (Inr acc, h')" and "count \<le> MAX_SOURCE_BYTES"
  shows "suffix h h' \<and> (\<exists>fs. snd acc = stream @ source_stream fs \<and> subseq (map fst fs) ps
    \<and> (\<forall>f \<in> set fs. file_read w h h' dir f) \<and> (\<forall>p \<in> set ps. p \<in> fst ` set fs \<or> path_absent w h h' dir p)
    \<and> fst acc = count + (\<Sum>f\<leftarrow>fs. length (snd (snd f))) \<and> fst acc \<le> MAX_SOURCE_BYTES)"
  using assms
proof (induction ps arbitrary: count stream h)
  case Nil
  then show ?case by (auto simp: source_stream_def intro: exI [of _ "[]"])
next
  case (Cons p ps)
  then obtain next_acc h1 where first: "add_source dir limit (count, stream) p w h = (Inr next_acc, h1)"
    and rest: "foldI (add_source dir limit) next_acc ps w h1 = (Inr acc, h')" by (auto simp: bindI_Inr)
  note one = add_source_Inr [OF first Cons.prems(2)]
  obtain count' stream' where n: "next_acc = (count', stream')" by (cases next_acc)
  have "count' \<le> MAX_SOURCE_BYTES" using one n Cons.prems(2) by auto
  from Cons.IH [OF rest [unfolded n] this] obtain fs where fs: "suffix h1 h'" "snd acc = stream' @ source_stream fs"
    "subseq (map fst fs) ps" "\<forall>f \<in> set fs. file_read w h1 h' dir f"
    "\<forall>p \<in> set ps. p \<in> fst ` set fs \<or> path_absent w h1 h' dir p"
    "fst acc = count' + (\<Sum>f\<leftarrow>fs. length (snd (snd f)))" "fst acc \<le> MAX_SOURCE_BYTES" by blast
  have h: "suffix h h1" "suffix h h'" using one fs(1) suffix_order.trans by auto
  have rest_read: "\<forall>f \<in> set fs. file_read w h h' dir f"
    using fs(4) h(1) file_read_wider [OF _ _ suffix_order.refl] by blast
  have rest_absent: "\<forall>p \<in> set ps. p \<in> fst ` set fs \<or> path_absent w h h' dir p"
    using fs(5) h(1) path_absent_wider [OF _ _ suffix_order.refl] by blast
  from one n consider "count' = count" "stream' = stream" "path_absent w h h1 dir p"
    | executable data where "count' = count + length data" "stream' = stream @ source_bytes (p, executable, data)"
        "file_read w h h1 dir (p, executable, data)" by auto
  then show ?case
  proof cases
    case 1
    from path_absent_wider [OF 1(3) suffix_order.refl fs(1)] 1(1,2) fs(2,3,6,7) h(2) rest_read rest_absent
    show ?thesis by auto
  next
    case (2 executable data)
    from file_read_wider [OF 2(3) suffix_order.refl fs(1)] 2(1,2) fs(2,3,6,7) h(2) rest_read rest_absent
    show ?thesis by (intro conjI exI [of _ "(p, executable, data) # fs"]) (auto simp: source_stream_def)
  qed
qed

text \<open>A command ended with success and this output, between two histories.\<close>

definition printed :: "host \<Rightarrow> history \<Rightarrow> history \<Rightarrow> string \<Rightarrow> string list \<Rightarrow> string \<Rightarrow> bool" where
  "printed w h h' dir argv raw \<longleftrightarrow> during h h' (\<lambda>g e. e = Command dir argv
     \<and> (\<exists>err. command_reply w g dir (api_environment (environ w)) argv = Exited 0 raw err))"

lemma printed_wider: "printed w g g' dir argv raw \<Longrightarrow> suffix h g \<Longrightarrow> suffix g' h' \<Longrightarrow> printed w h h' dir argv raw"
  unfolding printed_def by (rule during_wider)

lemma api_command_Inr:
  assumes "api_command dir argv w h = (Inr raw, h')"
  shows "suffix h h'" and "printed w h h' dir argv raw"
proof -
  obtain err where run: "command_reply w h dir (api_environment (environ w)) argv = Exited 0 raw err"
    and h': "h' = Command dir argv # h"
    using assms unfolding api_command_def
    by (elim run_elims) (auto simp: spawn_def split: command_reply.splits if_splits elim!: bindI_InrE)
  show "suffix h h'" unfolding h' by (simp add: suffix_ConsI)
  show "printed w h h' dir argv raw" unfolding printed_def h' by (rule during_step) (use run in simp)
qed

text \<open>
  The paths of a fingerprint: the given ones, or each path once that Git listed, tracked or untracked and not
  ignored, in a complete listing of the checkout made for it.
\<close>

definition inventory_of :: "host \<Rightarrow> history \<Rightarrow> history \<Rightarrow> string \<Rightarrow> string list option \<Rightarrow> string list \<Rightarrow> bool" where
  "inventory_of w h h' dir paths ps \<longleftrightarrow> (case paths of
     Some given \<Rightarrow> ps = given
   | None \<Rightarrow> \<exists>raw. printed w h h' dir inventory_argv raw
        \<and> (raw = [] \<or> last raw = nul) \<and> distinct ps \<and> set ps = set (butlast (split_on nul raw)))"

lemma tracked_paths_Inr:
  assumes "tracked_paths dir w h = (Inr ps, h')"
  shows "suffix h h'" and "inventory_of w h h' dir None ps"
proof -
  obtain raw where c: "api_command dir inventory_argv w h = (Inr raw, h')"
    and raw: "raw = [] \<or> last raw = nul" and ps: "ps = sorted_strings (set (butlast (split_on nul raw)))"
    using assms unfolding tracked_paths_def
    by (elim run_elims) (auto simp: decode_utf8_Inr Let_def split: if_splits)
  note c = api_command_Inr [OF c]
  show "suffix h h'" by (rule c(1))
  show "inventory_of w h h' dir None ps" using raw ps c(2) unfolding inventory_of_def by auto
qed

lemma inventory_wider:
  "inventory_of w g g' dir paths ps \<Longrightarrow> suffix h g \<Longrightarrow> suffix g' h' \<Longrightarrow> inventory_of w h h' dir paths ps"
  unfolding inventory_of_def by (cases paths) (auto dest: printed_wider)

lemma fingerprint_covers:
  assumes "fingerprint dir paths w h = (Inr d, h')"
  shows "suffix h h' \<and> (\<exists>ps fs. d = digest_hex w (source_stream fs) \<and> covers w h h' dir ps fs
    \<and> inventory_of w h h' dir paths ps)"
proof -
  obtain t h1 ps h2 acc h3 where c: "clock w h = (Inr t, h1)"
    and p: "(case paths of None \<Rightarrow> tracked_paths dir | Some ps \<Rightarrow> retI ps) w h1 = (Inr ps, h2)"
    and f: "foldI (add_source dir (t + 60)) (0, []) ps w h2 = (Inr acc, h3)"
    and d: "d = digest_hex w (snd acc)" "h' = h3"
    using assms unfolding fingerprint_def by (elim run_elims) (rule that, assumption+, auto)
  have h1: "suffix h h1" using c by (auto simp: clock_def suffix_ConsI)
  have i: "suffix h1 h2 \<and> inventory_of w h1 h2 dir paths ps"
  proof (cases paths)
    case None
    with p tracked_paths_Inr [of dir w h1 ps h2] show ?thesis by simp
  next
    case (Some given)
    with p show ?thesis by (simp add: inventory_of_def)
  qed
  then have s: "suffix h h2" using h1 by (meson suffix_order.trans)
  from fold_sources [OF f] obtain fs where fs: "suffix h2 h3" "snd acc = source_stream fs" "covers w h2 h3 dir ps fs"
    unfolding covers_def by auto
  have "covers w h h3 dir ps fs"
    using fs(3) s file_read_wider [OF _ _ suffix_order.refl] path_absent_wider [OF _ _ suffix_order.refl]
    unfolding covers_def by blast
  moreover have "inventory_of w h h3 dir paths ps"
    using inventory_wider [OF conjunct2 [OF i] h1 fs(1)] .
  ultimately show ?thesis using fs(1,2) s d by (auto intro: suffix_order.trans)
qed

section \<open>What a fingerprint identifies\<close>

text \<open>The stream is read back field by field: a field ends at the first NUL byte.\<close>

lemma nul_field: "nul \<notin> set a \<Longrightarrow> nul \<notin> set b \<Longrightarrow> a @ nul # s = b @ nul # t \<longleftrightarrow> a = b \<and> s = t"
proof (induction a arbitrary: b)
  case Nil
  then show ?case by (cases b) auto
next
  case (Cons c a)
  then show ?case by (cases b) auto
qed

definition text_only :: "source list \<Rightarrow> bool" where
  "text_only fs = list_all (\<lambda>f. nul \<notin> set (fst f) \<and> nul \<notin> set (snd (snd f))) fs"

lemma source_stream_inject:
  "text_only fs \<Longrightarrow> text_only gs \<Longrightarrow> source_stream fs = source_stream gs \<Longrightarrow> fs = gs"
proof (induction fs arbitrary: gs)
  case Nil
  then show ?case by (cases gs) (auto simp: source_stream_def source_bytes_def split: prod.splits)
next
  case (Cons f fs)
  obtain p x c where f: "f = (p, x, c)" by (cases f)
  from Cons.prems(3) obtain g gs' where gs: "gs = g # gs'"
    by (cases gs) (auto simp: source_stream_def source_bytes_def split: prod.splits)
  obtain q y e where g: "g = (q, y, e)" by (cases g)
  have kind: "nul \<notin> set (if b then ''executable'' else ''regular'')" "(if b then ''executable'' else ''regular'')
      = (if b' then ''executable'' else ''regular'') \<longleftrightarrow> b = b'" for b b' by (auto simp: nul_def)
  have "p @ nul # (if x then ''executable'' else ''regular'') @ nul # c @ nul # source_stream fs
      = q @ nul # (if y then ''executable'' else ''regular'') @ nul # e @ nul # source_stream gs'"
    using Cons.prems(3) unfolding f g gs source_stream_def source_bytes_def by simp
  moreover have "nul \<notin> set p" "nul \<notin> set q" "nul \<notin> set c" "nul \<notin> set e" "text_only fs" "text_only gs'"
    using Cons.prems(1,2) unfolding f g gs text_only_def by auto
  ultimately have "p = q" "x = y" "c = e" "source_stream fs = source_stream gs'"
    by (simp_all add: nul_field kind)
  with Cons.IH [OF \<open>text_only fs\<close> \<open>text_only gs'\<close>] show ?case unfolding f g gs by simp
qed

text \<open>
  C37. A fingerprint is the digest of the source it stands for: of every path it was given, or that Git listed
  in the checkout during the run, the file was read within the checkout, regular, without a link on its way and
  within the byte bound, or it was absent. When two runs have the same fingerprint, they read the same files
  with the same modes and contents, if no file has a NUL byte and the digest does not give the same value for
  different streams.
\<close>

theorem equal_fingerprint_same_source:
  assumes "fingerprint dir paths w h = (Inr d, h')" and "fingerprint dir2 paths2 w2 g = (Inr d, g')"
  shows "\<exists>ps fs ps2 fs2. inventory_of w h h' dir paths ps \<and> covers w h h' dir ps fs
    \<and> inventory_of w2 g g' dir2 paths2 ps2 \<and> covers w2 g g' dir2 ps2 fs2
    \<and> d = digest_hex w (source_stream fs) \<and> d = digest_hex w2 (source_stream fs2)
    \<and> (text_only fs \<and> text_only fs2
       \<and> (digest_hex w (source_stream fs) = digest_hex w2 (source_stream fs2) \<longrightarrow> source_stream fs = source_stream fs2)
       \<longrightarrow> fs = fs2)"
proof -
  obtain ps fs where 1: "d = digest_hex w (source_stream fs)" "covers w h h' dir ps fs" "inventory_of w h h' dir paths ps"
    using fingerprint_covers [OF assms(1)] by blast
  obtain ps2 fs2 where 2: "d = digest_hex w2 (source_stream fs2)" "covers w2 g g' dir2 ps2 fs2"
    "inventory_of w2 g g' dir2 paths2 ps2"
    using fingerprint_covers [OF assms(2)] by blast
  have "fs = fs2" if "text_only fs \<and> text_only fs2
       \<and> (digest_hex w (source_stream fs) = digest_hex w2 (source_stream fs2) \<longrightarrow> source_stream fs = source_stream fs2)"
    using that source_stream_inject [of fs fs2] 1(1) 2(1) by simp
  with 1 2 show ?thesis by blast
qed

text \<open>A checkout of the given files.\<close>

definition source_host :: "source list \<Rightarrow> host" where
  "source_host fs = blank_host\<lparr>
     path_present := (\<lambda>h path. path \<in> set (map (\<lambda>f. path_join ''/repo'' (fst f)) fs)),
     path_file := (\<lambda>h path. map_option (\<lambda>(x, c). (length c, x, c)) (map_of (map (\<lambda>f. (path_join ''/repo'' (fst f), snd f)) fs) path)),
     command_reply := (\<lambda>h dir env argv. Exited 0 (concat (map (\<lambda>f. fst f @ [nul]) fs)) [])\<rparr>"

theorem equal_fingerprint_same_source_witness:
  "\<exists>h. fingerprint ''/repo'' None (source_host [(''a'', True, ''x''), (''b'', False, ''y'')]) []
       = (Inr (source_stream [(''a'', True, ''x''), (''b'', False, ''y'')]), h)
     \<and> (\<exists>ps fs. inventory_of (source_host [(''a'', True, ''x''), (''b'', False, ''y'')]) [] h ''/repo'' None ps
          \<and> covers (source_host [(''a'', True, ''x''), (''b'', False, ''y'')]) [] h ''/repo'' ps fs
          \<and> source_stream fs = source_stream [(''a'', True, ''x''), (''b'', False, ''y'')])"
proof -
  have "fst (fingerprint ''/repo'' None (source_host [(''a'', True, ''x''), (''b'', False, ''y'')]) [])
      = Inr (source_stream [(''a'', True, ''x''), (''b'', False, ''y'')])" by code_simp
  then obtain h where run: "fingerprint ''/repo'' None (source_host [(''a'', True, ''x''), (''b'', False, ''y'')]) []
      = (Inr (source_stream [(''a'', True, ''x''), (''b'', False, ''y'')]), h)" by (metis prod.collapse)
  have digest: "digest_hex (source_host fs) s = s" for fs s by (simp add: source_host_def blank_host_def)
  from equal_fingerprint_same_source [OF run run] run show ?thesis unfolding digest by metis
qed

text \<open>
  A file with NUL bytes can contain the separators: here one file has the fingerprint of two, whatever the
  digest.
\<close>

theorem fingerprint_ambiguous:
  "fst (fingerprint ''/repo'' None (source_host [(''a'', False, ''x'' @ nul # ''b'' @ nul # ''regular'' @ nul # ''y'')]) [])
     = fst (fingerprint ''/repo'' None (source_host [(''a'', False, ''x''), (''b'', False, ''y'')]) [])"
  by code_simp

end
