(* ===== verification/ApiEvidence.thy ===== *)
theory ApiEvidence
  imports ApiSource
begin

text \<open>
  \<open>prepare\<close> of \<open>api_baselines.py\<close>: the evidence of an API check, which names a baseline for every selected
  library of the workspace and the fingerprint of the source around the choice. \<open>tarfile\<close> gives the
  members of an archive; what it extracts is found in the files of the machine afterwards.
\<close>

section \<open>The libraries of a workspace\<close>

definition LIBRARY_KINDS :: "string list" where
  "LIBRARY_KINDS = [''lib'', ''rlib'', ''dylib'', ''cdylib'', ''staticlib'', ''proc-macro'']"

definition target_ok :: "json \<Rightarrow> bool" where
  "target_ok target = (is_obj target \<and> is_list (dget (dict_of target) ''kind'')
     \<and> list_all is_str (list_of (dget (dict_of target) ''kind'')))"

definition library_target :: "json \<Rightarrow> bool" where
  "library_target target = list_ex (\<lambda>k. str_of k \<in> set LIBRARY_KINDS) (list_of (dget (dict_of target) ''kind''))"

definition add_library :: "json list \<Rightarrow> (string \<times> dict) list \<Rightarrow> json \<Rightarrow> (string \<times> dict) list res" where
  "add_library members packages package =
     (let d = dict_of package; targets = dget d ''targets''; name = dget d ''name''; version = dget d ''version'' in
      if \<not> is_obj package then Inl (ContractError ''API workspace package metadata is malformed'' [])
      else if \<not> list_ex (py_eq (dget d ''id'')) members then Inr packages
      else if \<not> is_list targets \<or> \<not> list_all target_ok (list_of targets)
      then Inl (ContractError ''API workspace target metadata is malformed'' [])
      else if \<not> list_ex library_target (list_of targets) then Inr packages
      else if \<not> is_str name \<or> \<not> is_package (str_of name) \<or> \<not> is_str version \<or> \<not> is_semver (str_of version)
         \<or> str_of name \<in> keys packages
      then Inl (ContractError ''API package name/version is malformed or duplicated'' [])
      else Inr (packages @ [(str_of name, d)]))"

fun add_libraries :: "json list \<Rightarrow> (string \<times> dict) list \<Rightarrow> json list \<Rightarrow> (string \<times> dict) list res" where
  "add_libraries members packages [] = Inr packages"
| "add_libraries members packages (p # ps) = bindR (add_library members packages p) (\<lambda>q. add_libraries members q ps)"

definition libraries_of :: "json option \<Rightarrow> (string \<times> dict) list res" where
  "libraries_of value = (case value of
     None \<Rightarrow> Inl (ValueError ''JSON'')
   | Some v \<Rightarrow>
       let packages = dget (dict_of v) ''packages''; members = dget (dict_of v) ''workspace_members'' in
       if \<not> is_obj v \<or> \<not> is_list packages \<or> \<not> is_list members
       then Inl (ContractError ''API workspace metadata is malformed'' [])
       else add_libraries (list_of members) [] (list_of packages))"

definition metadata_argv :: "string \<Rightarrow> string \<Rightarrow> string list" where
  "metadata_argv dir channel = [''cargo'', ''+'' @ channel, ''metadata'', ''--manifest-path'', path_join dir ''Cargo.toml'',
     ''--locked'', ''--no-deps'', ''--format-version'', ''1'']"

definition workspace_libraries :: "string \<Rightarrow> string \<Rightarrow> (string \<times> dict) list prog" where
  "workspace_libraries dir channel =
     bindI (api_command dir (metadata_argv dir channel)) (\<lambda>raw.
     bindI (askI json_value) (\<lambda>loads. liftI (libraries_of (loads raw))))"

section \<open>The snapshot of a baseline\<close>

definition snapshot :: "string \<Rightarrow> string \<Rightarrow> string prog" where
  "snapshot dir revn =
     bindI (probe scratch_dir) (\<lambda>temporary.
     let archive = path_join temporary ''baseline.tar'' in
     bindI (api_git dir [''archive'', ''--format=tar'', ''--output='' @ archive, revn]) (\<lambda>_.
     bindI (probe (\<lambda>w h. archive_contents w h archive)) (\<lambda>(stat_size, contents).
     if MAX_SOURCE_BYTES < stat_size
     then raiseI (ContractError ''trusted API baseline archive exceeded its byte bound'' [])
     else (case contents of
       None \<Rightarrow> raiseI TarError
     | Some members \<Rightarrow>
         if 100000 < length members \<or> MAX_SOURCE_BYTES < (\<Sum>(name, count, plain)\<leftarrow>members. count)
         then raiseI (ContractError ''trusted API baseline archive exceeded extraction bounds'' [])
         else if list_ex (\<lambda>(name, count, plain). \<not> plain \<or> escapes name) members
         then raiseI (ContractError ''trusted API baseline archive contains links or unsafe paths'' [])
         else retI (path_join temporary ''source'')))))"

section \<open>The evidence\<close>

record api_check =
  chk_package :: string
  candidate_version :: json
  chk_kind :: string
  baseline_rev :: string
  baseline_version :: string
  chk_release_type :: string

record api_evidence =
  ev_context :: api_context
  source_fingerprint :: string
  ev_authority :: dict
  ev_tool :: tool
  ev_checks :: "api_check list"

definition selected_libraries :: "string option \<Rightarrow> (string \<times> dict) list \<Rightarrow> string list" where
  "selected_libraries package packages = (case package of
     Some (c # name) \<Rightarrow> [c # name]
   | _ \<Rightarrow> sort (map fst (filter (\<lambda>p. \<not> py_eq (dget (snd p) ''publish'') (JList [])) packages)))"

text \<open>The baseline of a development check: its commit and the libraries it has.\<close>

definition baseline_libraries :: "string \<Rightarrow> api_context \<Rightarrow> tool \<Rightarrow> string \<Rightarrow> string \<Rightarrow> (string \<times> dict) list prog" where
  "baseline_libraries dir c t before base =
     bindI (snapshot dir base) (\<lambda>baseline.
     bindI (api_git dir [''ls-tree'', ''-r'', ''--name-only'', ''-z'', base]) (\<lambda>out.
     let paths = sort (butlast (split_on nul out)) in
     bindI (probe (\<lambda>w h. list_ex (\<lambda>p. path_file w h (path_join baseline p) = None) paths)) (\<lambda>omitted.
     if omitted
     then raiseI (ContractError ''trusted API archive omitted source paths; complete baseline is required'' [])
     else
     bindI (if base = api_candidate c then bindI (fingerprint baseline (Some paths)) (\<lambda>d. retI (before = d)) else retI False) (\<lambda>same.
     if same
     then raiseI (ContractError
            ''dirty index without actual source changes cannot authorize a self API comparison'' [])
     else
     bindI (probe (\<lambda>w h. path_present w h (path_join baseline ''Cargo.toml''))) (\<lambda>present.
     if present then workspace_libraries baseline (rust_channel t) else retI [])))))"

definition development_baseline ::
  "string \<Rightarrow> api_context \<Rightarrow> dict \<Rightarrow> tool \<Rightarrow> string \<Rightarrow> (string option \<times> dict \<times> (string \<times> dict) list) prog" where
  "development_baseline dir c event t before =
     (if purpose c = ''development'' then
        bindI (select_git dir c event) (\<lambda>(base, authority).
        bindI (baseline_libraries dir c t before base) (\<lambda>found. retI (Some base, authority, found)))
      else
        bindI (dirty dir) (\<lambda>changed.
        if changed then raiseI (ContractError ''published API evidence requires a clean exact committed candidate'' [])
        else retI (None, [], [])))"

definition check_library ::
  "(string \<times> dict) list \<Rightarrow> string option \<Rightarrow> (string \<times> dict) list \<Rightarrow> string \<Rightarrow> bool \<Rightarrow> string \<Rightarrow> api_check prog" where
  "check_library packages base found allowance allow_initial name =
     (let entry = \<lambda>kind revn version. \<lparr>chk_package = name,
            candidate_version = dget (case map_of packages name of None \<Rightarrow> [] | Some d \<Rightarrow> d) ''version'',
            chk_kind = kind, baseline_rev = revn, baseline_version = version, chk_release_type = allowance\<rparr> in
      if base \<noteq> None \<and> name \<in> keys found then retI (entry ''git'' (the base) [])
      else
      bindI (registry_version name) (\<lambda>published. case published of
        Some version \<Rightarrow> retI (entry ''published'' [] version)
      | None \<Rightarrow>
          if \<not> allow_initial
          then raiseI (ContractError
                 ''API baseline is genuinely absent; explicit positive initial-api-contract (#485) is required'' [])
          else retI (entry ''initial-contract'' [] [])))"

definition prepare_evidence ::
  "string \<Rightarrow> string \<Rightarrow> api_context \<Rightarrow> dict \<Rightarrow> string option \<Rightarrow> string \<Rightarrow> bool \<Rightarrow> api_evidence prog" where
  "prepare_evidence automation_root dir c event package release_type allow_initial =
     bindI (liftI (validate_api c)) (\<lambda>_.
     bindI (liftI (release_allowance (purpose c) release_type)) (\<lambda>allowance.
     bindI (select_tool automation_root dir ''cargo-semver-checks'' None) (\<lambda>t.
     bindI (workspace_libraries dir (rust_channel t)) (\<lambda>packages.
     let selected = selected_libraries package packages in
     if selected = [] \<or> \<not> set selected \<subseteq> keys packages
     then raiseI (ContractError
            ''API package must be a tested workspace library; select private libraries explicitly with --package'' [])
     else
     bindI (api_git dir [''rev-parse'', ''HEAD'']) (\<lambda>head.
     if head \<noteq> api_candidate c
     then raiseI (ContractError ''API checkout differs from tested candidate'' [])
     else
     bindI (fingerprint dir None) (\<lambda>before.
     bindI (development_baseline dir c event t before) (\<lambda>(base, authority, found).
     bindI (mapI (check_library packages base found allowance allow_initial) selected) (\<lambda>checks.
     bindI (fingerprint dir None) (\<lambda>again.
     if before \<noteq> again
     then raiseI (ContractError ''candidate source changed while selecting API baseline'' [])
     else retI \<lparr>ev_context = c, source_fingerprint = before, ev_authority = authority, ev_tool = t, ev_checks = checks\<rparr>)))))))))"

text \<open>The command that compares one library with its baseline.\<close>

definition check_argv :: "string \<Rightarrow> api_check \<Rightarrow> string list res" where
  "check_argv dir check =
     (if chk_kind check \<noteq> ''git'' \<and> chk_kind check \<noteq> ''published''
      then Inl (ContractError ''initial API requires the positive contract task, not compatibility omission'' [])
      else Inr ([''cargo'', ''semver-checks'', ''check-release'', ''--manifest-path'', path_join dir ''Cargo.toml'',
          ''--package'', chk_package check, ''--all-features'']
        @ (if chk_kind check = ''git'' then [''--baseline-rev'', baseline_rev check]
           else [''--baseline-version'', baseline_version check])
        @ (if chk_release_type check \<noteq> [] then [''--release-type'', chk_release_type check] else [])))"

section \<open>The evidence is sound\<close>

definition registry_told :: "host \<Rightarrow> history \<Rightarrow> history \<Rightarrow> string \<Rightarrow> string option \<Rightarrow> bool" where
  "registry_told w h h' package r \<longleftrightarrow> during h h' (\<lambda>g e. e = Fetched (crate_url package) \<and> registry_says w g package r)"

text \<open>
  A library is compared with the Git baseline when that has it; otherwise with the latest published version,
  and with nothing only when the registry has no version and this was allowed.
\<close>

definition justified ::
  "host \<Rightarrow> history \<Rightarrow> history \<Rightarrow> string option \<Rightarrow> (string \<times> dict) list \<Rightarrow> bool \<Rightarrow> api_check \<Rightarrow> bool" where
  "justified w h h' base found allow_initial chk \<longleftrightarrow>
     (chk_kind chk = ''git'' \<and> base = Some (baseline_rev chk) \<and> chk_package chk \<in> keys found)
     \<or> (\<not> (base \<noteq> None \<and> chk_package chk \<in> keys found)
        \<and> (chk_kind chk = ''published'' \<and> registry_told w h h' (chk_package chk) (Some (baseline_version chk))
           \<or> chk_kind chk = ''initial-contract'' \<and> allow_initial \<and> registry_told w h h' (chk_package chk) None))"

lemma justified_wider:
  "justified w g g' base found a chk \<Longrightarrow> suffix h g \<Longrightarrow> suffix g' h' \<Longrightarrow> justified w h h' base found a chk"
  unfolding justified_def registry_told_def by (blast intro: during_wider)

lemma check_library_Inr:
  assumes "check_library packages base found allowance allow_initial name w h = (Inr chk, h')"
  shows "suffix h h'" and "chk_package chk = name" and "chk_release_type chk = allowance"
    and "justified w h h' base found allow_initial chk"
proof -
  have told: "registry_told w h h1 name r" "suffix h h1" if "registry_version name w h = (Inr r, h1)" for r h1
    using registry_version_Inr [OF that] unfolding registry_told_def by (auto intro!: during_step simp: suffix_ConsI)
  have "suffix h h' \<and> chk_package chk = name \<and> chk_release_type chk = allowance
    \<and> justified w h h' base found allow_initial chk"
  proof (cases "base \<noteq> None \<and> name \<in> keys found")
    case True
    then obtain b where b: "base = Some b" "name \<in> keys found" by blast
    with assms have "chk_kind chk = ''git''" "baseline_rev chk = b" "chk_package chk = name" "chk_release_type chk = allowance" "h' = h"
      unfolding check_library_def Let_def by (simp_all, force+)
    with b show ?thesis unfolding justified_def by simp
  next
    case False
    with assms obtain r where "registry_version name w h = (Inr r, h')"
      and chk: "chk_package chk = name" "chk_release_type chk = allowance"
        "case r of Some v \<Rightarrow> chk_kind chk = ''published'' \<and> baseline_version chk = v
           | None \<Rightarrow> chk_kind chk = ''initial-contract'' \<and> allow_initial"
      unfolding check_library_def Let_def
      by (auto simp: bindI_def split: if_splits option.splits prod.splits sum.splits)
    with False told [of r h'] show ?thesis unfolding justified_def by (cases r) auto
  qed
  then show "suffix h h'" "chk_package chk = name" "chk_release_type chk = allowance"
    "justified w h h' base found allow_initial chk" by auto
qed

lemma check_libraries_Inr:
  "mapI (check_library packages base found allowance allow_initial) names w h = (Inr checks, h') \<Longrightarrow>
     suffix h h' \<and> map chk_package checks = names
     \<and> (\<forall>chk \<in> set checks. justified w h h' base found allow_initial chk \<and> chk_release_type chk = allowance)"
proof (induction names arbitrary: h checks)
  case (Cons name names)
  then obtain chk h1 rest where c: "check_library packages base found allowance allow_initial name w h = (Inr chk, h1)"
    and rest: "mapI (check_library packages base found allowance allow_initial) names w h1 = (Inr rest, h')"
    and checks: "checks = chk # rest" by (auto simp: bindI_Inr)
  note one = check_library_Inr [OF c] and all = Cons.IH [OF rest]
  have "justified w h h' base found allow_initial chk"
    using one(4) suffix_order.refl conjunct1 [OF all] by (rule justified_wider)
  moreover have "\<forall>k \<in> set rest. justified w h h' base found allow_initial k \<and> chk_release_type k = allowance"
    using all one(1) justified_wider [OF _ _ suffix_order.refl] by blast
  ultimately show ?case using one(1-3) all suffix_order.trans [OF one(1)] unfolding checks by auto
qed auto

lemma evidence_grows:
  "keeps (extends (\<lambda>_. True)) (workspace_libraries dir channel)"
  "keeps (extends (\<lambda>_. True)) (fingerprint dir paths)"
  "keeps (extends (\<lambda>_. True)) (select_tool automation_root dir package fallback)"
  "keeps (extends (\<lambda>_. True)) (baseline_libraries dir c t before base)"
proof -
  show w: "keeps (extends (\<lambda>_. True)) (workspace_libraries dir channel)" for dir channel
    unfolding workspace_libraries_def api_command_def by (intro host_rules TrueI)
  have chunk: "keeps (extends (\<lambda>_. True)) (count_chunks limit count cs)" for limit count cs
    by (induction cs arbitrary: count)
      (simp only: count_chunks.simps host.keeps_ret, simp only: count_chunks.simps Let_def, intro host_rules TrueI)
  show f: "keeps (extends (\<lambda>_. True)) (fingerprint dir paths)" for dir paths
    unfolding fingerprint_def tracked_paths_def api_command_def add_source_def Let_def
    by (intro host_rules chunk TrueI)
  show "keeps (extends (\<lambda>_. True)) (select_tool automation_root dir package fallback)"
    unfolding select_tool_def declarations_def read_data_def Let_def by (intro host_rules)
  show "keeps (extends (\<lambda>_. True)) (baseline_libraries dir c t before base)"
    unfolding baseline_libraries_def snapshot_def Let_def by (intro host_rules grow_rules f w)
qed

text \<open>The libraries of a workspace are those of the metadata that Cargo printed for it.\<close>

definition cargo_libraries :: "host \<Rightarrow> history \<Rightarrow> history \<Rightarrow> string \<Rightarrow> string \<Rightarrow> (string \<times> dict) list \<Rightarrow> bool" where
  "cargo_libraries w h h' dir channel packages \<longleftrightarrow> (\<exists>raw. printed w h h' dir (metadata_argv dir channel) raw
     \<and> libraries_of (json_value w raw) = Inr packages)"

lemma workspace_libraries_Inr:
  assumes "workspace_libraries dir channel w h = (Inr packages, h')"
  shows "suffix h h'" and "cargo_libraries w h h' dir channel packages"
  using assms unfolding workspace_libraries_def cargo_libraries_def
  by (elim run_elims, use api_command_Inr in fastforce)+

text \<open>
  The libraries of a baseline are those of the archive of its commit, extracted to a scratch directory, and there
  are none when it has no workspace.
\<close>

definition archive_args :: "string \<Rightarrow> string \<Rightarrow> string list" where
  "archive_args temporary revn = [''archive'', ''--format=tar'', ''--output='' @ path_join temporary ''baseline.tar'', revn]"

definition baseline_has :: "host \<Rightarrow> history \<Rightarrow> history \<Rightarrow> string \<Rightarrow> string \<Rightarrow> string \<Rightarrow> (string \<times> dict) list \<Rightarrow> bool" where
  "baseline_has w h h' dir channel base found \<longleftrightarrow> (\<exists>g temporary out. suffix h g \<and> temporary = scratch_dir w g
     \<and> told w g h' dir (archive_args temporary base) out
     \<and> (let extracted = path_join temporary ''source'' in
          cargo_libraries w g h' extracted channel found
          \<or> found = [] \<and> (\<exists>k. suffix g k \<and> suffix k h' \<and> \<not> path_present w k (path_join extracted ''Cargo.toml''))))"

lemma snapshot_Inr:
  assumes "snapshot dir revn w h = (Inr extracted, h')"
  shows "suffix h h'" and "extracted = path_join (scratch_dir w h) ''source''"
    and "\<exists>out. told w h h' dir (archive_args (scratch_dir w h) revn) out"
proof -
  obtain out h1 where g: "api_git dir (archive_args (scratch_dir w h) revn) w h = (Inr out, h1)"
    and rest: "h' = h1" "extracted = path_join (scratch_dir w h) ''source''"
    using assms unfolding snapshot_def Let_def archive_args_def
    by (elim run_elims pair_runE) (auto simp: bindI_Inr split: if_splits option.splits)
  show "suffix h h'" "extracted = path_join (scratch_dir w h) ''source''"
    "\<exists>out. told w h h' dir (archive_args (scratch_dir w h) revn) out"
    using api_git_Inr [OF g] rest by auto
qed

lemma baseline_libraries_Inr:
  assumes "baseline_libraries dir c t before base w h = (Inr found, h')"
  shows "baseline_has w h h' dir (rust_channel t) base found"
proof -
  obtain extracted h1 out h2 same h3 where s: "snapshot dir base w h = (Inr extracted, h1)"
    and l: "api_git dir [''ls-tree'', ''-r'', ''--name-only'', ''-z'', base] w h1 = (Inr out, h2)"
    and f: "(if base = api_candidate c then bindI (fingerprint extracted (Some (sort (butlast (split_on nul out)))))
          (\<lambda>d. retI (before = d)) else retI False) w h2 = (Inr same, h3)"
    and p: "(if path_present w h3 (path_join extracted ''Cargo.toml'') then workspace_libraries extracted (rust_channel t)
          else retI []) w h3 = (Inr found, h')"
    using assms unfolding baseline_libraries_def Let_def
    by (elim run_elims) (simp only: probe_run prod.inject sum.inject, elim conjE, hypsubst, rule that, assumption+)
  note s' = snapshot_Inr [OF s]
  have "keeps (extends (\<lambda>_. True)) (if base = api_candidate c then bindI (fingerprint extracted
      (Some (sort (butlast (split_on nul out))))) (\<lambda>d. retI (before = d)) else retI False)"
    by (intro host_rules evidence_grows)
  then have f': "suffix h2 h3" using f by (rule keeps_suffix)
  have g: "suffix h1 h3" using api_git_Inr(3) [OF l] f' by (meson suffix_order.trans)
  obtain o2 where o2: "told w h h1 dir (archive_args (scratch_dir w h) base) o2" using s'(3) by blast
  show ?thesis
  proof (cases "path_present w h3 (path_join extracted ''Cargo.toml'')")
    case True
    with p have "workspace_libraries extracted (rust_channel t) w h3 = (Inr found, h')" by simp
    note lib = workspace_libraries_Inr [OF this]
    have "suffix h h3" "suffix h1 h'" using s'(1) g lib(1) by (meson suffix_order.trans)+
    moreover have "cargo_libraries w h h' extracted (rust_channel t) found"
      using lib(2) printed_wider [OF _ \<open>suffix h h3\<close> suffix_order.refl] unfolding cargo_libraries_def by blast
    moreover have "told w h h' dir (archive_args (scratch_dir w h) base) o2" using told_later [OF o2 \<open>suffix h1 h'\<close>] .
    ultimately show ?thesis unfolding baseline_has_def Let_def
      by (intro exI [of _ h] exI [of _ "scratch_dir w h"] exI [of _ o2]) (simp add: s'(2))
  next
    case False
    with p have "found = []" "h' = h3" by simp_all
    moreover have "suffix h h3" using s'(1) g by (meson suffix_order.trans)
    moreover have "told w h h3 dir (archive_args (scratch_dir w h) base) o2" using told_later [OF o2 g] .
    moreover have "\<exists>k. suffix h k \<and> suffix k h3 \<and> \<not> path_present w k (path_join extracted ''Cargo.toml'')"
      using False \<open>suffix h h3\<close> by (intro exI [of _ h3]) simp
    ultimately show ?thesis unfolding baseline_has_def Let_def
      by (intro exI [of _ h] exI [of _ "scratch_dir w h"] exI [of _ o2]) (simp add: s'(2))
  qed
qed

lemma baseline_has_wider:
  "baseline_has w g g' dir channel base found \<Longrightarrow> suffix h g \<Longrightarrow> suffix g' h' \<Longrightarrow> baseline_has w h h' dir channel base found"
  unfolding baseline_has_def cargo_libraries_def Let_def
  by (meson suffix_order.trans told_later printed_wider suffix_order.refl)

text \<open>
  The baseline of the evidence: for a development check one Git commit with its reason and the libraries it has,
  for any other check none, in a clean checkout.
\<close>

definition baseline_for :: "host \<Rightarrow> history \<Rightarrow> history \<Rightarrow> string \<Rightarrow> api_context \<Rightarrow> dict \<Rightarrow> tool
    \<Rightarrow> string option \<Rightarrow> (string \<times> dict) list \<Rightarrow> bool" where
  "baseline_for w h h' dir c event t base found \<longleftrightarrow> (if purpose c = ''development''
     then \<exists>b. base = Some b \<and> baseline_reason w h h' dir c event b \<and> baseline_has w h h' dir (rust_channel t) b found
     else base = None \<and> found = [] \<and> told w h h' dir [''status'', ''--porcelain'', ''--untracked-files=normal''] [])"

lemma baseline_for_later:
  "baseline_for w h g dir c event t base found \<Longrightarrow> suffix g h' \<Longrightarrow> baseline_for w h h' dir c event t base found"
  unfolding baseline_for_def
  using reason_later [OF _ suffix_order.refl] baseline_has_wider [OF _ suffix_order.refl] told_later
  by (auto split: if_splits)

lemma development_baseline_Inr:
  assumes "development_baseline dir c event t before w h = (Inr (base, authority, found), h')"
  shows "suffix h h'" and "baseline_for w h h' dir c event t base found"
proof -
  have "suffix h h' \<and> baseline_for w h h' dir c event t base found"
  proof (cases "purpose c = ''development''")
    case True
    with assms obtain b h1 where s: "select_git dir c event w h = (Inr (b, authority), h1)"
      and f: "baseline_libraries dir c t before b w h1 = (Inr found, h')" and base: "base = Some b"
      unfolding development_baseline_def by (simp, elim run_elims pair_runE) (clarify, blast)
    have h1: "suffix h1 h'" using evidence_grows(4) f by (rule keeps_suffix)
    have h: "suffix h h1" using s by (rule select_git_suffix)
    have "baseline_reason w h h1 dir c event b" using select_git_Inr [OF s] by blast
    from reason_later [OF this suffix_order.refl h1] baseline_has_wider [OF baseline_libraries_Inr [OF f] h suffix_order.refl]
    show ?thesis using base True h h1 by (auto simp: baseline_for_def intro: suffix_order.trans)
  next
    case False
    with assms have d: "dirty dir w h = (Inr False, h')" "base = None" "found = []"
      unfolding development_baseline_def by (auto simp: bindI_Inr split: if_splits)
    have "suffix h h'" using grow_rules(2) d(1) by (rule keeps_suffix)
    with dirty_Inr [OF d(1)] d(2,3) False show ?thesis by (auto simp: baseline_for_def)
  qed
  then show "suffix h h'" "baseline_for w h h' dir c event t base found" by blast+
qed

text \<open>
  C35. Prepared evidence names the context it was asked for, which is valid and checked out, and exactly one
  check for every selected library, in order: the library that was named, or every publishable library of the
  metadata that Cargo printed for the checkout. A development check has one Git baseline with its reason, and a
  library is compared with it when the archive of that commit has the library; any other library is compared with
  the latest version the registry has published, or recorded to have none when that is allowed. The source had
  the same fingerprint before and after all of this.
\<close>

theorem prepared_evidence_sound:
  assumes "prepare_evidence automation_root dir c event package release_type allow_initial w h = (Inr ev, h')"
  shows "ev_context ev = c \<and> validate_api c = Inr () \<and> told w h h' dir [''rev-parse'', ''HEAD''] (api_candidate c)
    \<and> (\<exists>k. select_tool automation_root dir ''cargo-semver-checks'' None w h = (Inr (ev_tool ev), k))
    \<and> (\<exists>packages g1 g2 g3 base found. suffix h g1 \<and> suffix g2 g3
        \<and> cargo_libraries w h g1 dir (rust_channel (ev_tool ev)) packages
        \<and> selected_libraries package packages \<noteq> [] \<and> set (selected_libraries package packages) \<subseteq> keys packages
        \<and> map chk_package (ev_checks ev) = selected_libraries package packages
        \<and> fingerprint dir None w g1 = (Inr (source_fingerprint ev), g2)
        \<and> fingerprint dir None w g3 = (Inr (source_fingerprint ev), h')
        \<and> baseline_for w g2 g3 dir c event (ev_tool ev) base found
        \<and> (\<forall>chk \<in> set (ev_checks ev). justified w g2 g3 base found allow_initial chk
              \<and> release_allowance (purpose c) release_type = Inr (chk_release_type chk)))"
proof -
  obtain allowance t h1 packages h2 h3 before h4 base authority found h5 checks h6 where
    v: "validate_api c = Inr ()" and a: "release_allowance (purpose c) release_type = Inr allowance"
    and t: "select_tool automation_root dir ''cargo-semver-checks'' None w h = (Inr t, h1)"
    and p: "workspace_libraries dir (rust_channel t) w h1 = (Inr packages, h2)"
    and ne: "selected_libraries package packages \<noteq> []" "set (selected_libraries package packages) \<subseteq> keys packages"
    and head: "api_git dir [''rev-parse'', ''HEAD''] w h2 = (Inr (api_candidate c), h3)"
    and b: "fingerprint dir None w h3 = (Inr before, h4)"
    and d: "development_baseline dir c event t before w h4 = (Inr (base, authority, found), h5)"
    and k: "mapI (check_library packages base found allowance allow_initial) (selected_libraries package packages) w h5
        = (Inr checks, h6)"
    and f: "fingerprint dir None w h6 = (Inr before, h')"
    and ev: "ev_context ev = c" "source_fingerprint ev = before" "ev_checks ev = checks" "ev_tool ev = t"
    using assms unfolding prepare_evidence_def Let_def
    apply (elim run_elims pair_runE)
    apply (rule that)
    apply (assumption | (hypsubst, (assumption | rule refl | simp; fail)))+
    done
  note checks = check_libraries_Inr [OF k] and base = development_baseline_Inr [OF d] and lib = workspace_libraries_Inr [OF p]
  have grow: "suffix h h1" "suffix h2 h3" "suffix h3 h4" "suffix h6 h'"
    using keeps_suffix [OF evidence_grows(3)] t api_git_Inr(3) [OF head] keeps_suffix [OF evidence_grows(2)] b f by blast+
  have s: "suffix h h2" "suffix h h3" "suffix h4 h6" "suffix h3 h'" using grow lib(1) base(1) checks by (meson suffix_order.trans)+
  have "told w h h' dir [''rev-parse'', ''HEAD''] (api_candidate c)" using api_git_Inr(2) [OF head] s(1,4) by (rule told_wider)
  moreover have "cargo_libraries w h h3 dir (rust_channel t) packages"
    using lib(2) printed_wider [OF _ grow(1) grow(2)] unfolding cargo_libraries_def by blast
  moreover have "map chk_package (ev_checks ev) = selected_libraries package packages" using checks ev(3) by simp
  moreover have "baseline_for w h4 h6 dir c event t base found"
    using base(2) conjunct1 [OF checks] by (rule baseline_for_later)
  moreover have "\<forall>chk \<in> set (ev_checks ev). justified w h4 h6 base found allow_initial chk
              \<and> release_allowance (purpose c) release_type = Inr (chk_release_type chk)"
    using checks a ev(3) justified_wider [OF _ base(1) suffix_order.refl] by auto
  ultimately show ?thesis using v ev b f t ne s(2,3) by blast
qed

text \<open>A published check of one library.\<close>

definition evidence_context :: api_context where
  "evidence_context = api_sample_context\<lparr>purpose := ''published'', api_event := ''workflow_dispatch''\<rparr>"

definition evidence_metadata :: json where
  "evidence_metadata = JObj [(''workspace_members'', JList [JStr ''core-id'']),
     (''packages'', JList [JObj [(''id'', JStr ''core-id''), (''name'', JStr ''core''), (''version'', JStr ''1.11.0''),
        (''targets'', JList [JObj [(''kind'', JList [JStr ''lib''])]])]])]"

definition evidence_registry :: json where
  "evidence_registry = JObj [(''crate'', JObj [(''name'', JStr ''core'')]),
     (''versions'', JList [version_row ''1.9.0'' False, version_row ''1.10.0'' False])]"

definition evidence_dockerfile :: string where
  "evidence_dockerfile = marker_of ''cargo-semver-checks'' @ newline # ''ARG CARGO_SEMVER_CHECKS_VERSION=0.40.0'' @ [newline]"

definition evidence_files :: "string \<Rightarrow> string option" where
  "evidence_files = [''/repo/.devcontainer/Dockerfile'' \<mapsto> evidence_dockerfile, ''/repo/rust-toolchain.toml'' \<mapsto> ''toml'',
     ''/repo/a'' \<mapsto> ''x'']"

definition evidence_host :: host where
  "evidence_host = blank_host\<lparr>
     path_present := (\<lambda>h path. evidence_files path \<noteq> None),
     path_file := (\<lambda>h path. map_option (\<lambda>c. (length c, False, c)) (evidence_files path)),
     toml_value := (\<lambda>_. Some (JObj [(''toolchain'', JObj [(''channel'', JStr ''1.90.0'')])])),
     json_value := (\<lambda>s. Some (if s = ''M'' then evidence_metadata else evidence_registry)),
     http_reply := (\<lambda>h url. HttpOk url 200 ''R''),
     command_reply := (\<lambda>h dir env argv. Exited 0
       (if argv = metadata_argv ''/repo'' ''1.90.0'' then ''M''
        else if argv = git_argv [''rev-parse'', ''HEAD''] then sample_tip
        else if ''ls-files'' \<in> set argv then ''a'' @ [nul] else []) [])\<rparr>"

lemma evidence_run:
  "map_sum id ev_checks (fst (prepare_evidence ''/automation'' ''/repo'' evidence_context [] None [] False evidence_host []))
     = Inr [\<lparr>chk_package = ''core'', candidate_version = JStr ''1.11.0'', chk_kind = ''published'', baseline_rev = [],
              baseline_version = ''1.10.0'', chk_release_type = []\<rparr>]"
  by code_simp

theorem prepared_evidence_sound_witness:
  "\<exists>h ev. prepare_evidence ''/automation'' ''/repo'' evidence_context [] None [] False evidence_host [] = (Inr ev, h)
     \<and> map baseline_version (ev_checks ev) = [''1.10.0'']
     \<and> told evidence_host [] h ''/repo'' [''rev-parse'', ''HEAD''] sample_tip
     \<and> (\<exists>packages g. cargo_libraries evidence_host [] g ''/repo'' (rust_channel (ev_tool ev)) packages
          \<and> map chk_package (ev_checks ev) = selected_libraries None packages)"
proof -
  obtain ev h where run: "prepare_evidence ''/automation'' ''/repo'' evidence_context [] None [] False evidence_host [] = (Inr ev, h)"
    and checks: "map baseline_version (ev_checks ev) = [''1.10.0'']"
    using evidence_run
    by (cases "prepare_evidence ''/automation'' ''/repo'' evidence_context [] None [] False evidence_host []"; cases "fst
      (prepare_evidence ''/automation'' ''/repo'' evidence_context [] None [] False evidence_host [])") auto
  have "api_candidate evidence_context = sample_tip" by (simp add: evidence_context_def api_sample_context_def)
  with prepared_evidence_sound [OF run] run checks show ?thesis by (elim exE conjE) (intro exI conjI, assumption+, simp, assumption+)
qed

end
