(* ===== verification/LockFiles.thy ===== *)
theory LockFiles
  imports CargoTools
begin

text \<open>
  \<open>dependencies.py\<close>, the reading of the lock files: which packages a source tree pins, each with its registry and
  the digests of its artifacts. A tree is a value, since the code reads a private snapshot. The decoders
  of the standard library are the record \<open>decoders\<close>; TOML values are JSON values here, so a date counts as
  its text.
\<close>

section \<open>Packages\<close>

datatype dep = Dep (ecosystem: string) (dep_name: string) (dep_version: string) (dep_source: string) (integrity: "string list")

text \<open>The order of the dataclass is that of its fields.\<close>

definition dep_fields :: "dep \<Rightarrow> string list list" where
  "dep_fields p = [[ecosystem p], [dep_name p], [dep_version p], [dep_source p], integrity p]"

lemma dep_fields_inject: "dep_fields p = dep_fields q \<Longrightarrow> p = q"
  by (cases p; cases q) (simp add: dep_fields_def)

instantiation dep :: linorder
begin

definition less_eq_dep :: "dep \<Rightarrow> dep \<Rightarrow> bool" where "less_eq_dep p q \<longleftrightarrow> dep_fields p \<le> dep_fields q"
definition less_dep :: "dep \<Rightarrow> dep \<Rightarrow> bool" where "less_dep p q \<longleftrightarrow> dep_fields p < dep_fields q"

instance
  by standard (auto simp: less_eq_dep_def less_dep_def less_le_not_le dest: dep_fields_inject antisym)

end

text \<open>A source tree: what exists, what is a link, and the bytes of its regular files.\<close>

record source_tree =
  tree_is_dir :: bool
  tree_exists :: "string \<Rightarrow> bool"
  tree_link :: "string \<Rightarrow> bool"
  tree_data :: "string \<Rightarrow> string option"
  tree_manifests :: "string list"

record decoders =
  loads_json :: "string \<Rightarrow> json option"
  loads_toml :: "string \<Rightarrow> json option"
  url_parts :: "string \<Rightarrow> (string \<times> string option \<times> string option \<times> string option) option"
  b64decode :: "string \<Rightarrow> string option"
  sha256_of :: "string \<Rightarrow> string"
  instant_of :: "string \<Rightarrow> rat res"
  text_of_instant :: "rat \<Rightarrow> string"
  decimal_char :: "string \<Rightarrow> bool"
  str_of_json :: "json \<Rightarrow> string"
  str_of_error :: "exn \<Rightarrow> string"
  class_of_error :: "exn \<Rightarrow> string"

text \<open>
  \<open>url_parts\<close> gives scheme, host, user and password of \<open>urlparse\<close>; \<open>instant_of\<close> the seconds of
  \<open>fromisoformat\<close> in UTC, which may raise \<open>ValueError\<close> or \<open>OverflowError\<close>; \<open>str_of_json\<close> and \<open>str_of_error\<close> are
  \<open>str\<close>, \<open>class_of_error\<close> the name of the class.
\<close>

abbreviation wrong :: "string \<Rightarrow> 'a res" where
  "wrong message \<equiv> Inl (DependencyError message [])"

section \<open>Readers\<close>

definition MAX_LOCK_BYTES :: nat where "MAX_LOCK_BYTES = 8 * 1024 * 1024"
definition MAX_PACKAGES :: nat where "MAX_PACKAGES = 4096"

definition CRATES_SOURCE :: string where
  "CRATES_SOURCE = ''registry+https://github.com/rust-lang/crates.io-index''"

definition read_lock :: "source_tree \<Rightarrow> string \<Rightarrow> string res" where
  "read_lock t path =
     (if tree_link t path \<or> tree_data t path = None
      then Inl (DependencyError ''expected a regular file: {}'' [path_name path])
      else let data = the (tree_data t path) in
      if MAX_LOCK_BYTES < length data
      then Inl (DependencyError ''file exceeds {} byte bound: {}'' [show_nat MAX_LOCK_BYTES, path_name path])
      else Inr data)"

definition read_toml :: "decoders \<Rightarrow> source_tree \<Rightarrow> string \<Rightarrow> dict res" where
  "read_toml D t path =
     bindR (read_lock t path) (\<lambda>data.
     bindR (decode_utf8 data) (\<lambda>s. case loads_toml D s of
       None \<Rightarrow> Inl (ValueError ''TOML'')
     | Some v \<Rightarrow> Inr (dict_of v)))"

text \<open>Iteration over a decoded value: the items of a list, the keys of a table, the characters of a string.\<close>

fun iterate :: "json \<Rightarrow> json list res" where
  "iterate (JList xs) = Inr xs"
| "iterate (JObj d) = Inr (map (\<lambda>p. JStr (fst p)) d)"
| "iterate (JStr s) = Inr (map JStr (utf8_chars s))"
| "iterate _ = Inl TypeError"

text \<open>\<open>v[k]\<close> with a string, and \<open>v.get(k, w)\<close>.\<close>

fun index_str :: "json \<Rightarrow> string \<Rightarrow> json res" where
  "index_str (JObj d) k = item d k"
| "index_str _ k = Inl TypeError"

fun get_default :: "json \<Rightarrow> string \<Rightarrow> json \<Rightarrow> json res" where
  "get_default (JObj d) k w = Inr (dget_or d k w)"
| "get_default _ k w = Inl AttributeError"

definition package_char :: "char \<Rightarrow> bool" where
  "package_char c = (is_alnum c \<or> c \<in> set ''@_.+/-'')"

definition registry_name :: "json \<Rightarrow> string res" where
  "registry_name v =
     (if is_str v \<and> str_of v \<noteq> [] \<and> list_all package_char (str_of v) then Inr (str_of v)
      else wrong ''invalid registry package name or version'')"

definition sha256_value :: "json \<Rightarrow> string res" where
  "sha256_value v =
     (if is_str v \<and> is_sha256 (str_of v) then Inr (str_of v) else wrong ''missing or invalid SHA-256 integrity'')"

section \<open>The three lock formats\<close>

definition cargo_item :: "json \<Rightarrow> dep list res" where
  "cargo_item v =
     bindR (attr_get v ''source'') (\<lambda>source.
     if source = JNull then Inr []
     else if source \<noteq> JStr CRATES_SOURCE then wrong ''only the canonical crates.io Cargo registry is supported''
     else
     bindR (bindR (index_str v ''name'') registry_name) (\<lambda>name.
     bindR (bindR (index_str v ''version'') registry_name) (\<lambda>version.
     bindR (bindR (attr_get v ''checksum'') sha256_value) (\<lambda>digest.
     Inr [Dep ''cargo'' name version CRATES_SOURCE [digest]]))))"

definition cargo_lock :: "decoders \<Rightarrow> source_tree \<Rightarrow> string \<Rightarrow> dep list res" where
  "cargo_lock D t path =
     bindR (read_toml D t path) (\<lambda>d.
     bindR (iterate (dget_or d ''package'' (JList []))) (\<lambda>items.
     bindR (mapR cargo_item items) (\<lambda>found. Inr (concat found))))"

text \<open>\<open>sha(?:256|384|512)-[A-Za-z0-9+/]+=*\<close> with the length of the decoded digest.\<close>

definition sri_bytes :: "string \<Rightarrow> nat option" where
  "sri_bytes s = (if startswith s ''sha256-'' then Some 32 else if startswith s ''sha384-'' then Some 48
     else if startswith s ''sha512-'' then Some 64 else None)"

definition base64_text :: "string \<Rightarrow> bool" where
  "base64_text s = (let a = takeWhile (\<lambda>c. is_alnum c \<or> c \<in> set ''+/'') s in
     a \<noteq> [] \<and> list_all (\<lambda>c. c = CHR ''='') (drop (length a) s))"

definition sri :: "decoders \<Rightarrow> json \<Rightarrow> string res" where
  "sri D v = (case (if is_str v then sri_bytes (str_of v) else None) of
     None \<Rightarrow> wrong ''missing or unsupported npm artifact integrity''
   | Some n \<Rightarrow>
       if \<not> base64_text (drop 7 (str_of v)) then wrong ''missing or unsupported npm artifact integrity''
       else (case b64decode D (drop 7 (str_of v)) of
         None \<Rightarrow> wrong ''malformed npm artifact integrity''
       | Some raw \<Rightarrow> if length raw \<noteq> n then wrong ''incorrect npm integrity digest length'' else Inr (str_of v)))"

text \<open>What follows the last \<open>node_modules/\<close> of a location.\<close>

fun after_last :: "string \<Rightarrow> string \<Rightarrow> string option" where
  "after_last sep [] = None"
| "after_last sep (c # s) = (case after_last sep s of
     Some r \<Rightarrow> Some r
   | None \<Rightarrow> if startswith (c # s) sep then Some (drop (length sep) (c # s)) else None)"

definition npm_registry :: "decoders \<Rightarrow> json \<Rightarrow> unit res" where
  "npm_registry D v =
     (let refused = wrong ''only canonical npm registry artifacts are supported'' in
      if \<not> is_str v then (if truthy v then Inl AttributeError else refused)
      else (case url_parts D (str_of v) of
        None \<Rightarrow> Inl (ValueError ''URL'')
      | Some (scheme, host, user, password) \<Rightarrow>
          if scheme \<noteq> ''https'' \<or> host \<noteq> Some ''registry.npmjs.org'' \<or> user \<notin> {None, Some []} \<or> password \<notin> {None, Some []}
          then refused else Inr ()))"

definition npm_item :: "decoders \<Rightarrow> string \<times> json \<Rightarrow> dep list res" where
  "npm_item D p =
     (let (location, v) = p in
      if location = [] then Inr []
      else
      bindR (attr_get v ''link'') (\<lambda>link.
      if truthy link then Inr []
      else (case after_last ''node_modules/'' location of
        None \<Rightarrow> wrong ''unsupported npm lockfile package location''
      | Some tail \<Rightarrow>
          bindR (bindR (get_default v ''name'' (JStr tail)) registry_name) (\<lambda>name.
          bindR (bindR (index_str v ''version'') registry_name) (\<lambda>version.
          bindR (bindR (get_default v ''resolved'' (JStr [])) (npm_registry D)) (\<lambda>_.
          bindR (bindR (attr_get v ''integrity'') (sri D)) (\<lambda>digest.
          Inr [Dep ''npm'' name version ''https://registry.npmjs.org'' [digest]])))))))"

definition npm_lock :: "decoders \<Rightarrow> source_tree \<Rightarrow> string \<Rightarrow> dep list res" where
  "npm_lock D t path =
     bindR (read_lock t path) (\<lambda>data. case loads_json D data of
       None \<Rightarrow> Inl (ValueError ''JSON'')
     | Some document \<Rightarrow>
         bindR (attr_get document ''lockfileVersion'') (\<lambda>version.
         bindR (attr_get document ''packages'') (\<lambda>packages.
         if \<not> (py_eq version (JInt 2) \<or> py_eq version (JInt 3)) \<or> \<not> is_obj packages
         then wrong ''npm lockfile v2/v3 packages are required''
         else bindR (mapR (npm_item D) (dict_of packages)) (\<lambda>found. Inr (concat found)))))"

text \<open>A name of the Python index: runs of separators become one hyphen, letters lower case.\<close>

fun hyphenate :: "bool \<Rightarrow> string \<Rightarrow> string" where
  "hyphenate within_run [] = []"
| "hyphenate within_run (c # s) =
     (if c \<in> set ''-_.'' then (if within_run then hyphenate True s else CHR ''-'' # hyphenate True s)
      else c # hyphenate False s)"

definition index_name :: "string \<Rightarrow> string" where
  "index_name s = concat (map (\<lambda>u. if map ord u = [0xE2, 0x84, 0xAA] then ''k''
     else map (\<lambda>c. if is_upper c then char_of (ord c + 32) else c) u) (utf8_chars (hyphenate False s)))"

definition artifact_hash :: "json \<Rightarrow> string res" where
  "artifact_hash a =
     bindR (get_default a ''hash'' (JStr [])) (\<lambda>h.
     if \<not> is_str h then Inl AttributeError else sha256_value (JStr (removeprefix (str_of h) ''sha256:'')))"

definition rstrip_slashes :: "string \<Rightarrow> string" where
  "rstrip_slashes s = rev (dropWhile (\<lambda>c. c = CHR ''/'') (rev s))"

definition uv_item :: "json \<Rightarrow> dep list res" where
  "uv_item v =
     bindR (get_default v ''source'' (JObj [])) (\<lambda>source.
     bindR (attr_get source ''registry'') (\<lambda>registry.
     if registry = JNull then
       (if has_key (dict_of source) ''virtual'' \<or> has_key (dict_of source) ''editable'' \<or> has_key (dict_of source) ''directory''
        then Inr [] else wrong ''unsupported uv package source'')
     else if \<not> is_str registry then Inl AttributeError
     else if rstrip_slashes (str_of registry) \<noteq> ''https://pypi.org/simple''
     then wrong ''only the canonical PyPI registry is supported''
     else
     bindR (bindR (get_default v ''wheels'' (JList [])) iterate) (\<lambda>wheels.
     bindR (mapR artifact_hash (wheels @ (if has_key (dict_of v) ''sdist'' then [dget (dict_of v) ''sdist''] else []))) (\<lambda>hashes.
     if hashes = [] then wrong ''uv registry package has no artifact integrity''
     else
     bindR (bindR (index_str v ''name'') registry_name) (\<lambda>name.
     bindR (bindR (index_str v ''version'') registry_name) (\<lambda>version.
     Inr [Dep ''python'' (index_name name) version ''https://pypi.org'' (sort (remdups hashes))]))))))"

definition uv_lock :: "decoders \<Rightarrow> source_tree \<Rightarrow> string \<Rightarrow> dep list res" where
  "uv_lock D t path =
     bindR (read_toml D t path) (\<lambda>d.
     bindR (iterate (dget_or d ''package'' (JList []))) (\<lambda>items.
     bindR (mapR uv_item items) (\<lambda>found. Inr (concat found))))"

section \<open>All packages of a tree\<close>

definition when_present :: "source_tree \<Rightarrow> string \<Rightarrow> dep list res \<Rightarrow> dep list res" where
  "when_present t path r = (if tree_exists t path then r else Inr [])"

text \<open>\<open>cargo_tools.declarations\<close> on a tree.\<close>

definition tree_declarations :: "source_tree \<Rightarrow> (string \<times> string) list res" where
  "tree_declarations t =
     (if list_ex (tree_link t) [DOCKERFILE, ''.devcontainer'', []]
      then Inl (ContractError ''Cargo tool metadata must not follow symlinks: {}'' [DOCKERFILE])
      else (case tree_data t DOCKERFILE of
        None \<Rightarrow> Inl (ContractError ''Cargo tool metadata is missing, nonregular or oversized: {}'' [DOCKERFILE])
      | Some data \<Rightarrow>
          if MAX_DECLARATION_BYTES < length data
          then Inl (ContractError ''Cargo tool metadata is missing, nonregular or oversized: {}'' [DOCKERFILE])
          else bindR (decode_utf8 data) declarations_of))"

definition tool_deps :: "source_tree \<Rightarrow> dep list res" where
  "tool_deps t =
     (if tree_exists t DOCKERFILE \<or> tree_link t DOCKERFILE \<or> tree_link t ''.devcontainer''
      then bindR (tree_declarations t) (\<lambda>found.
        Inr (map (\<lambda>(name, version). Dep ''cargo-tool'' name version CRATES_SOURCE []) found))
      else Inr [])"

definition packages_of :: "decoders \<Rightarrow> source_tree \<Rightarrow> dep list res" where
  "packages_of D t =
     bindR (when_present t ''Cargo.lock'' (cargo_lock D t ''Cargo.lock'')) (\<lambda>a.
     bindR (when_present t ''package-lock.json'' (npm_lock D t ''package-lock.json'')) (\<lambda>b.
     bindR (when_present t ''automation/devcontainer/package-lock.json''
              (npm_lock D t ''automation/devcontainer/package-lock.json'')) (\<lambda>c.
     bindR (when_present t ''uv.lock'' (uv_lock D t ''uv.lock'')) (\<lambda>d.
     bindR (when_present t ''automation/uv.lock'' (uv_lock D t ''automation/uv.lock'')) (\<lambda>e.
     bindR (tool_deps t) (\<lambda>f.
     let found = remdups (a @ b @ c @ d @ e @ f) in
     if MAX_PACKAGES < length found
     then wrong ''lock graph and standalone Cargo tools exceed package bound''
     else Inr found))))))"

text \<open>The key of an artifact: the digest of its fields as JSON, whose characters need no escapes.\<close>

definition json_quoted :: "string \<Rightarrow> string" where
  "json_quoted s = CHR 0x22 # s @ [CHR 0x22]"

definition key_material :: "dep \<Rightarrow> string" where
  "key_material p = ''['' @ join '','' [json_quoted (ecosystem p), json_quoted (dep_name p), json_quoted (dep_version p), json_quoted (dep_source p),
     ''['' @ join '','' (map json_quoted (integrity p)) @ '']''] @ '']''"

definition dep_key :: "decoders \<Rightarrow> dep \<Rightarrow> string" where
  "dep_key D p = sha256_of D (key_material p)"

section \<open>What a pinned package is\<close>

text \<open>Every package of a tree is of a canonical registry and carries the digests its ecosystem requires.\<close>

definition dep_ok :: "decoders \<Rightarrow> dep \<Rightarrow> bool" where
  "dep_ok D p \<longleftrightarrow> (ecosystem p, dep_source p) \<in> {(''cargo'', CRATES_SOURCE), (''cargo-tool'', CRATES_SOURCE),
       (''npm'', ''https://registry.npmjs.org''), (''python'', ''https://pypi.org'')}
     \<and> (ecosystem p = ''cargo'' \<longrightarrow> (\<exists>d. integrity p = [d] \<and> is_sha256 d))
     \<and> (ecosystem p = ''npm'' \<longrightarrow> (\<exists>d. integrity p = [d] \<and> sri D (JStr d) = Inr d))
     \<and> (ecosystem p = ''python'' \<longrightarrow> integrity p \<noteq> [] \<and> sorted (integrity p) \<and> distinct (integrity p) \<and> list_all is_sha256 (integrity p))
     \<and> (ecosystem p = ''cargo-tool'' \<longrightarrow> dep_name p \<in> keys DECLARATIONS \<and> is_stable (dep_version p))"

lemma registry_name_Inr [res_simps]: "registry_name v = Inr s \<longleftrightarrow> v = JStr s \<and> s \<noteq> [] \<and> list_all package_char s"
  by (cases v) (auto simp: registry_name_def)

lemma sha256_value_Inr [res_simps]: "sha256_value v = Inr s \<longleftrightarrow> v = JStr s \<and> is_sha256 s"
  by (cases v) (auto simp: sha256_value_def)

lemma sri_Inr: "sri D v = Inr s \<Longrightarrow> v = JStr s"
  by (cases v) (auto simp: sri_def split: option.splits if_splits)

lemma sri_stable: "sri D v = Inr s \<Longrightarrow> sri D (JStr s) = Inr s"
  using sri_Inr by fastforce

lemma concat_bind_Inr: "bindR (mapR f xs) (\<lambda>found. Inr (concat found)) = Inr ys \<Longrightarrow> y \<in> set ys \<Longrightarrow>
    \<exists>x \<in> set xs. \<exists>zs. f x = Inr zs \<and> y \<in> set zs"
  by (force simp: bindR_Inr elim: mapR_in_set)

lemma dep_ok_simps [simp]:
  "dep_ok D (Dep ''cargo'' n v CRATES_SOURCE i) \<longleftrightarrow> (\<exists>d. i = [d] \<and> is_sha256 d)"
  "dep_ok D (Dep ''cargo-tool'' n v CRATES_SOURCE i) \<longleftrightarrow> n \<in> keys DECLARATIONS \<and> is_stable v"
  "dep_ok D (Dep ''npm'' n v ''https://registry.npmjs.org'' i) \<longleftrightarrow> (\<exists>d. i = [d] \<and> sri D (JStr d) = Inr d)"
  "dep_ok D (Dep ''python'' n v ''https://pypi.org'' i) \<longleftrightarrow>
     i \<noteq> [] \<and> sorted i \<and> distinct i \<and> list_all is_sha256 i"
  by (simp_all add: dep_ok_def)

lemma cargo_item_ok: "cargo_item v = Inr ps \<Longrightarrow> p \<in> set ps \<Longrightarrow> dep_ok D p"
  unfolding cargo_item_def
  by (elim bindR_InrE) (auto simp: sha256_value_Inr elim!: bindR_InrE split: if_splits)

lemma option_InlE: "(case x of None \<Rightarrow> Inl e | Some y \<Rightarrow> f y) = Inr z \<Longrightarrow> (\<And>y. x = Some y \<Longrightarrow> f y = Inr z \<Longrightarrow> P) \<Longrightarrow> P"
  by (cases x) auto

lemma npm_item_ok: "npm_item D x = Inr ps \<Longrightarrow> p \<in> set ps \<Longrightarrow> dep_ok D p"
  unfolding npm_item_def Let_def case_prod_beta
  by (cases "fst x = []", simp, simp only: if_False, elim bindR_InrE)
    (cases "after_last ''node_modules/'' (fst x)"; auto elim!: bindR_InrE simp: sri_stable split: if_splits)

lemma artifact_hash_ok: "artifact_hash v = Inr s \<Longrightarrow> is_sha256 s"
  by (auto simp: artifact_hash_def res_simps split: if_splits)

lemma hashes_ok: "mapR artifact_hash xs = Inr hs \<Longrightarrow> list_all is_sha256 hs"
  by (auto simp: list_all_iff elim!: mapR_in_set intro: artifact_hash_ok)

lemma sort_Nil_iff [simp]: "sort xs = [] \<longleftrightarrow> xs = []"
  by (metis set_empty set_sort)

lemma uv_item_ok: "uv_item v = Inr ps \<Longrightarrow> p \<in> set ps \<Longrightarrow> dep_ok D p"
  unfolding uv_item_def
  by (elim bindR_InrE) (auto simp: list_all_iff elim!: bindR_InrE dest!: hashes_ok split: if_splits)

lemma declared_stable: "declared marker name cs = Some (num, rest) \<Longrightarrow> is_stable num"
  by (auto simp: declared_def Let_def split: if_splits)

declare declared_versions.simps [simp del] arg_rows.simps [simp del] occurrences.simps [simp del]

lemma declared_versions_stable: "v \<in> set (declared_versions marker name b cs) \<Longrightarrow> is_stable v"
proof (induction marker name b cs rule: declared_versions.induct)
  case (1 marker name b cs)
  show ?case
  proof (cases "if b then declared marker name cs else None")
    case None
    with "1.prems" have "v \<in> set (case cs of [] \<Rightarrow> [] | c # rest \<Rightarrow> declared_versions marker name (c = [newline]) rest)"
      by (subst (asm) declared_versions.simps) simp
    with 1(1) [OF None] show ?thesis by (cases cs) auto
  next
    case (Some x)
    obtain num rest where x: "x = (num, rest)" by (cases x)
    from Some x have "is_stable num" by (auto split: if_splits intro: declared_stable)
    moreover from "1.prems" Some x have "v = num \<or> v \<in> set (declared_versions marker name False rest)"
      by (subst (asm) declared_versions.simps) simp
    ultimately show ?thesis using 1(2) [OF Some x [symmetric]] by auto
  qed
qed

lemma declared_crate_found:
  assumes "declared_crate s p = Inr zs" and "(name, v) \<in> set zs"
  shows "name = fst p" and "v \<in> set (declared_versions (marker_of (fst p)) (snd p) True (utf8_chars s))"
  using assms unfolding declared_crate_def Let_def case_prod_beta
  by (auto split: if_splits intro!: hd_in_set)

lemma declarations_of_ok:
  assumes "declarations_of s = Inr found" and "(name, v) \<in> set found"
  shows "name \<in> keys DECLARATIONS" and "is_stable v"
proof -
  obtain p zs where p: "p \<in> set DECLARATIONS" "declared_crate s p = Inr zs" "(name, v) \<in> set zs"
    using concat_bind_Inr [OF assms(1) [unfolded declarations_of_def] assms(2)] by blast
  note c = declared_crate_found [OF p(2,3)]
  show "name \<in> keys DECLARATIONS" using p(1) c(1) by auto
  show "is_stable v" using c(2) by (rule declared_versions_stable)
qed

lemma tree_declarations_ok: "tree_declarations t = Inr found \<Longrightarrow> (name, v) \<in> set found \<Longrightarrow>
    name \<in> fst ` set DECLARATIONS \<and> is_stable v"
  unfolding tree_declarations_def
  by (auto simp: bindR_Inr split: if_splits option.splits dest: declarations_of_ok)

lemma tool_deps_ok:
  assumes "tool_deps t = Inr ps" and "p \<in> set ps"
  shows "dep_ok D p"
proof -
  obtain found name v where "tree_declarations t = Inr found" "(name, v) \<in> set found"
    and p: "p = Dep ''cargo-tool'' name v CRATES_SOURCE []"
    using assms unfolding tool_deps_def by (auto simp: bindR_Inr split: if_splits)
  from tree_declarations_ok [OF this(1,2)] show ?thesis unfolding p by simp
qed

lemma when_present_ok: "when_present t path r = Inr ps \<Longrightarrow> (\<And>qs. r = Inr qs \<Longrightarrow> p \<in> set qs \<Longrightarrow> Q) \<Longrightarrow> p \<in> set ps \<Longrightarrow> Q"
  by (auto simp: when_present_def split: if_splits)

lemma mapR_concat: "mapR f xs = Inr ys \<Longrightarrow> p \<in> set (concat ys) \<Longrightarrow> (\<And>x zs. f x = Inr zs \<Longrightarrow> p \<in> set zs \<Longrightarrow> P p) \<Longrightarrow> P p"
  by (auto elim: mapR_in_set)

lemma cargo_lock_ok: "cargo_lock D t path = Inr ps \<Longrightarrow> p \<in> set ps \<Longrightarrow> dep_ok D p"
  unfolding cargo_lock_def
  by (auto simp: bindR_Inr simp del: set_concat elim!: mapR_concat [where P = "dep_ok D"] intro: cargo_item_ok)

lemma npm_lock_ok: "npm_lock D t path = Inr ps \<Longrightarrow> p \<in> set ps \<Longrightarrow> dep_ok D p"
  unfolding npm_lock_def
  by (auto simp: bindR_Inr simp del: set_concat split: option.splits if_splits
      elim!: mapR_concat [where P = "dep_ok D"] intro: npm_item_ok)

lemma uv_lock_ok: "uv_lock D t path = Inr ps \<Longrightarrow> p \<in> set ps \<Longrightarrow> dep_ok D p"
  unfolding uv_lock_def
  by (auto simp: bindR_Inr simp del: set_concat elim!: mapR_concat [where P = "dep_ok D"] intro: uv_item_ok)

lemmas lock_ok = cargo_lock_ok npm_lock_ok uv_lock_ok

text \<open>
  C29. Every package read from a tree belongs to one of the four canonical registries; a Cargo package carries
  exactly one SHA-256, an npm package one integrity value of the right digest length, a Python package the
  sorted digests of its artifacts, at least one, and a standalone tool a declared name and a stable
  version. There are at most 4096 packages and none twice.
\<close>

theorem packages_typed:
  assumes "packages_of D t = Inr ps"
  shows "list_all (dep_ok D) ps \<and> distinct ps \<and> length ps \<le> MAX_PACKAGES"
proof -
  obtain a b c d e f where
    "when_present t ''Cargo.lock'' (cargo_lock D t ''Cargo.lock'') = Inr a"
    "when_present t ''package-lock.json'' (npm_lock D t ''package-lock.json'') = Inr b"
    "when_present t ''automation/devcontainer/package-lock.json''
       (npm_lock D t ''automation/devcontainer/package-lock.json'') = Inr c"
    "when_present t ''uv.lock'' (uv_lock D t ''uv.lock'') = Inr d"
    "when_present t ''automation/uv.lock'' (uv_lock D t ''automation/uv.lock'') = Inr e"
    "tool_deps t = Inr f"
    and ps: "ps = remdups (a @ b @ c @ d @ e @ f)" "length ps \<le> MAX_PACKAGES"
    using assms unfolding packages_of_def by (elim bindR_InrE) (auto simp: Let_def split: if_splits)
  then have "p \<in> set (a @ b @ c @ d @ e @ f) \<Longrightarrow> dep_ok D p" for p
    by (auto elim!: when_present_ok intro: lock_ok tool_deps_ok)
  then show ?thesis unfolding list_all_iff using ps by simp
qed

text \<open>A tree with one lock file.\<close>

definition sample_digest :: string where
  "sample_digest = replicate 64 CHR ''a''"

definition lock_decoders :: decoders where
  "lock_decoders = \<lparr>loads_json = (\<lambda>_. None),
     loads_toml = (\<lambda>s. Some (JObj [(''package'', JList [
        JObj [(''name'', JStr ''app''), (''version'', JStr ''1.0.0'')],
        JObj [(''name'', JStr ''serde''), (''version'', JStr s), (''source'', JStr CRATES_SOURCE),
              (''checksum'', JStr sample_digest)]])])),
     url_parts = (\<lambda>_. None), b64decode = (\<lambda>_. None), sha256_of = (\<lambda>s. s),
     instant_of = (\<lambda>_. Inl (ValueError [])), text_of_instant = (\<lambda>_. []), decimal_char = (\<lambda>_. False),
     str_of_json = (\<lambda>_. []), str_of_error = (\<lambda>_. []), class_of_error = (\<lambda>_. [])\<rparr>"

definition lock_tree :: "string \<Rightarrow> source_tree" where
  "lock_tree version = \<lparr>tree_is_dir = True, tree_exists = (\<lambda>p. p = ''Cargo.lock''), tree_link = (\<lambda>_. False),
     tree_data = (\<lambda>p. if p = ''Cargo.lock'' then Some version else None), tree_manifests = []\<rparr>"

lemma lock_tree_packages:
  "packages_of lock_decoders (lock_tree ''1.0.2'') = Inr [Dep ''cargo'' ''serde'' ''1.0.2'' CRATES_SOURCE [sample_digest]]"
  by code_simp

theorem packages_typed_witness:
  "dep_ok lock_decoders (Dep ''cargo'' ''serde'' ''1.0.2'' CRATES_SOURCE [sample_digest])"
  using packages_typed [OF lock_tree_packages] by simp

end
