(* ===== verification/FirstParty.thy ===== *)
theory FirstParty
  imports LockFiles
begin

text \<open>
  \<open>dependencies.py\<close>, the exemption of first-party updates: an update of the organisation's own crates by the
  trusted application skips the hold when nothing but their versions in the manifests and their
  dependency closure in the lock file changes. Sets are iterated in the order of their lists here; which of several
  refusals is reported depends on it, the decision does not.
\<close>

section \<open>The trusted context\<close>

definition FIRST_PARTY :: "string list" where
  "FIRST_PARTY = [''boxferry'', ''boxferry-model'', ''boxferry-engine'', ''boxferry-compose'', ''boxferry-podman'',
     ''boxferry-quadlet'', ''compose-lens'', ''podman-lens'', ''quadlet-lens'', ''docker-lens'', ''kubernetes-lens'']"

definition ALLOWED_REPOSITORIES :: "string list" where
  "ALLOWED_REPOSITORIES = map (\<lambda>name. ''Strukturpiloten/'' @ name) [''boxferry'', ''compose-lens'', ''podman-lens'',
     ''quadlet-lens'', ''docker-lens'', ''kubernetes-lens'', ''boxferry-website'']"

record dep_context =
  ctx_actor :: string
  ctx_actor_type :: string
  ctx_repository :: string
  ctx_base :: string
  ctx_head :: string
  ctx_paths :: "string list"

definition from_mapping :: "dict \<Rightarrow> dep_context res" where
  "from_mapping v =
     (let texts = [''actor_login'', ''actor_type'', ''repository'', ''base_revision'', ''head_revision''];
          paths = dget v ''changed_paths'' in
      if keys v \<noteq> set (''changed_paths'' # texts)
      then wrong ''context fields differ from the trusted context schema''
      else if \<not> is_list paths \<or> \<not> list_all is_str (list_of paths)
      then wrong ''context changed_paths must be strings''
      else
      bindR (checkR (\<lambda>key. require (is_str (dget v key)) (DependencyError ''context {} must be a string'' [key])) texts) (\<lambda>_.
      Inr \<lparr>ctx_actor = str_of (dget v ''actor_login''), ctx_actor_type = str_of (dget v ''actor_type''),
           ctx_repository = str_of (dget v ''repository''), ctx_base = str_of (dget v ''base_revision''),
           ctx_head = str_of (dget v ''head_revision''), ctx_paths = map str_of (list_of paths)\<rparr>))"

section \<open>Manifests\<close>

definition manifests :: "decoders \<Rightarrow> source_tree \<Rightarrow> (string \<times> dict) list res" where
  "manifests D t =
     (let paths = filter (tree_exists t) (''Cargo.toml'' # tree_manifests t) in
      if 128 < length paths then wrong ''Cargo manifest count exceeds bound''
      else mapR (\<lambda>p. bindR (read_toml D t p) (\<lambda>d. Inr (p, d))) paths)"

definition SECTIONS :: "string list" where
  "SECTIONS = [''dependencies'', ''dev-dependencies'', ''build-dependencies'']"

text \<open>The dependency whose version a path of keys names: \<open>[..., section, name]\<close> or \<open>[..., section, name, version]\<close>.\<close>

definition version_path :: "string list \<Rightarrow> string option" where
  "version_path path = (let n = length path in
     if 2 \<le> n \<and> path ! (n - 2) \<in> set SECTIONS then Some (path ! (n - 1))
     else if 3 \<le> n \<and> path ! (n - 3) \<in> set SECTIONS \<and> path ! (n - 1) = ''version'' then Some (path ! (n - 2))
     else None)"

definition leaf_update :: "json \<Rightarrow> json \<Rightarrow> string list \<Rightarrow> string list res" where
  "leaf_update before after path = (case version_path path of
     None \<Rightarrow> wrong ''first-party scope includes a non-dependency-version manifest change''
   | Some name \<Rightarrow>
       if name \<notin> set FIRST_PARTY \<or> \<not> is_str before \<or> \<not> is_str after
       then wrong ''first-party scope includes an unrelated dependency change'' else Inr [name])"

fun manifest_updates :: "json \<Rightarrow> json \<Rightarrow> string list \<Rightarrow> string list res"
  and table_updates :: "dict \<Rightarrow> dict \<Rightarrow> string list \<Rightarrow> string list res" where
  "manifest_updates (JObj d) after path =
     (if py_eq (JObj d) after then Inr []
      else if is_obj after \<and> keys d = keys (dict_of after) then table_updates d (dict_of after) path
      else leaf_update (JObj d) after path)"
| "manifest_updates before after path = (if py_eq before after then Inr [] else leaf_update before after path)"
| "table_updates [] e path = Inr []"
| "table_updates ((k, v) # d) e path =
     bindR (if py_eq v (dget e k) then Inr [] else manifest_updates v (dget e k) (path @ [k])) (\<lambda>names.
     bindR (table_updates d e path) (\<lambda>others. Inr (names @ others)))"

section \<open>The closure in the lock file\<close>

text \<open>
  A record is found by its name and version. Python compares these with \<open>==\<close>, which \<open>same_identity\<close> writes out;
  the names of edges are strings.
\<close>

type_synonym identity = "json \<times> json"
type_synonym lock_records = "(identity \<times> json) list"

definition hashable :: "json \<Rightarrow> bool" where
  "hashable v = (\<not> is_list v \<and> \<not> is_obj v)"

definition same_identity :: "identity \<Rightarrow> identity \<Rightarrow> bool" where
  "same_identity i j = (py_eq (fst i) (fst j) \<and> py_eq (snd i) (snd j))"

definition lock_record :: "json \<Rightarrow> (identity \<times> json) res" where
  "lock_record v =
     bindR (index_str v ''name'') (\<lambda>name.
     bindR (index_str v ''version'') (\<lambda>version.
     if hashable name \<and> hashable version then Inr ((name, version), v) else Inl TypeError))"

fun repeated :: "('a \<Rightarrow> 'a \<Rightarrow> bool) \<Rightarrow> 'a list \<Rightarrow> bool" where
  "repeated eq [] = False"
| "repeated eq (x # xs) = (list_ex (eq x) xs \<or> repeated eq xs)"

definition lock_records :: "decoders \<Rightarrow> source_tree \<Rightarrow> lock_records res" where
  "lock_records D t =
     bindR (read_toml D t ''Cargo.lock'') (\<lambda>d.
     bindR (iterate (dget_or d ''package'' (JList []))) (\<lambda>found.
     bindR (mapR lock_record found) (\<lambda>records.
     if repeated same_identity (map fst records) then wrong ''duplicate Cargo package identity''
     else Inr records)))"

definition edge :: "lock_records \<Rightarrow> json \<Rightarrow> identity res" where
  "edge R v =
     (if \<not> is_str v then Inl AttributeError
      else let parts = split_on CHR '' '' (str_of v);
               named = filter (\<lambda>i. fst i = JStr (parts ! 0)) (map fst R);
               candidates = (if 1 < length parts then filter (\<lambda>i. snd i = JStr (parts ! 1)) named else named) in
      if length candidates \<noteq> 1 then wrong ''ambiguous or missing Cargo dependency edge''
      else Inr (candidates ! 0))"

definition edges :: "lock_records \<Rightarrow> identity \<Rightarrow> identity list res" where
  "edges R i = (case map_of R i of
     None \<Rightarrow> Inl (KeyError [])
   | Some v \<Rightarrow> bindR (bindR (get_default v ''dependencies'' (JList [])) iterate) (mapR (edge R)))"

lemma edges_known: "edges R i = Inr es \<Longrightarrow> i \<in> fst ` set R"
  by (force simp: edges_def split: option.splits dest: map_of_SomeD)

text \<open>The work list is a stack, its top first; \<open>seen\<close> are the identities visited.\<close>

function closure :: "lock_records \<Rightarrow> identity list \<Rightarrow> identity list \<Rightarrow> identity list res" where
  "closure R [] seen = Inr seen"
| "closure R (i # stack) seen =
     (if i \<in> set seen then closure R stack seen
      else bindR (edges R i) (\<lambda>es. closure R (rev es @ stack) (i # seen)))"
  by pat_completeness auto
termination
  by (relation "inv_image (less_than <*lex*> less_than) (\<lambda>(R, stack, seen). (card (fst ` set R - set seen), length stack))")
    (auto dest!: edges_known intro!: psubset_card_mono)

definition cargo_closure :: "lock_records \<Rightarrow> string list \<Rightarrow> identity list res" where
  "cargo_closure R names = closure R (rev (filter (\<lambda>i. is_str (fst i) \<and> str_of (fst i) \<in> set names) (map fst R))) []"

section \<open>The scope of the exemption\<close>

definition found_record :: "lock_records \<Rightarrow> identity \<Rightarrow> json option" where
  "found_record R i = map_option snd (find (\<lambda>r. same_identity (fst r) i) R)"

definition same_record :: "json option \<Rightarrow> json option \<Rightarrow> bool" where
  "same_record x y = (case (x, y) of (None, None) \<Rightarrow> True | (Some v, Some w) \<Rightarrow> py_eq v w | _ \<Rightarrow> False)"

definition record_change :: "lock_records \<Rightarrow> lock_records \<Rightarrow> identity list \<Rightarrow> identity list \<Rightarrow> identity \<Rightarrow> string option" where
  "record_change old new old_closure new_closure i =
     (if same_record (found_record old i) (found_record new i) then None
      else if found_record old i \<noteq> None \<and> \<not> list_ex (same_identity i) old_closure
      then Some ''lock maintenance is outside the old first-party closure''
      else if found_record new i \<noteq> None \<and> \<not> list_ex (same_identity i) new_closure
      then Some ''lock maintenance is outside the new first-party closure''
      else None)"

definition versions_of :: "dep list \<Rightarrow> string \<Rightarrow> string list" where
  "versions_of ps name = map dep_version (filter (\<lambda>p. ecosystem p = ''cargo'' \<and> dep_name p = name) ps)"

definition transition :: "dep list \<Rightarrow> dep list \<Rightarrow> string \<Rightarrow> bool" where
  "transition before after name =
     (length (versions_of before name) = 1 \<and> length (versions_of after name) = 1
      \<and> versions_of before name \<noteq> versions_of after name)"

definition isolated :: "decoders \<Rightarrow> source_tree \<Rightarrow> source_tree \<Rightarrow> dep list \<Rightarrow> dep list
    \<Rightarrow> (string \<times> dict) list \<Rightarrow> (string \<times> dict) list \<Rightarrow> string list \<Rightarrow> (bool \<times> string) res" where
  "isolated D base head before after old new changed =
     bindR (mapR (\<lambda>path. manifest_updates (JObj (the (map_of old path))) (JObj (the (map_of new path))) []) changed) (\<lambda>found.
     let names = remdups (concat found) in
     if \<not> list_all (transition before after) names
     then Inr (False, ''first-party crates.io version transition is absent or ambiguous'')
     else
     bindR (lock_records D base) (\<lambda>old_records.
     bindR (cargo_closure old_records names) (\<lambda>old_closure.
     bindR (lock_records D head) (\<lambda>new_records.
     bindR (cargo_closure new_records names) (\<lambda>new_closure.
     case List.map_filter (record_change old_records new_records old_closure new_closure)
            (map fst old_records @ map fst new_records) of
       reason # _ \<Rightarrow> Inr (False, reason)
     | [] \<Rightarrow> Inr (True, ''isolated first-party crates.io update and its dependency closure''))))))"

text \<open>The clause \<open>except (DependencyError, ValueError, KeyError, TypeError, AttributeError, IndexError, OSError)\<close>.\<close>

fun data_error :: "exn \<Rightarrow> bool" where
  "data_error OverflowError = False"
| "data_error SubprocessError = False"
| "data_error TarError = False"
| "data_error (HttpException _) = False"
| "data_error _ = True"

definition tool_set :: "dep list \<Rightarrow> dep set" where
  "tool_set ps = set (filter (\<lambda>p. ecosystem p = ''cargo-tool'') ps)"

definition trusted_context :: "dep_context \<Rightarrow> (bool \<times> string) option" where
  "trusted_context c =
     (if ctx_actor c \<noteq> ''renovate[bot]'' \<or> ctx_actor_type c \<noteq> ''Bot''
      then Some (False, ''actor is not the trusted Renovate application'')
      else if ctx_repository c \<notin> set ALLOWED_REPOSITORIES \<or> \<not> is_sha (ctx_base c) \<or> \<not> is_sha (ctx_head c)
      then Some (False, ''context lacks an allowed repository and immutable revisions'')
      else None)"

definition changed_manifests :: "(string \<times> dict) list \<Rightarrow> (string \<times> dict) list \<Rightarrow> string list" where
  "changed_manifests old new = filter (\<lambda>name. \<not> py_eq (JObj (the (map_of old name))) (JObj (the (map_of new name)))) (map fst old)"

definition first_party_scope :: "decoders \<Rightarrow> source_tree \<Rightarrow> source_tree \<Rightarrow> dep list \<Rightarrow> dep list \<Rightarrow> dep_context option
    \<Rightarrow> (bool \<times> string) res" where
  "first_party_scope D base head before after context =
     (if tool_set before \<noteq> tool_set after
      then Inr (False, ''standalone Cargo tool changes retain their own third-party age hold'')
      else case context of
        None \<Rightarrow> Inr (False, ''no trusted isolated pull-request context'')
      | Some c \<Rightarrow> (case trusted_context c of
          Some refusal \<Rightarrow> Inr refusal
        | None \<Rightarrow>
            bindR (manifests D base) (\<lambda>old.
            bindR (manifests D head) (\<lambda>new.
            let changed = changed_manifests old new in
            if keys old \<noteq> keys new then Inr (False, ''manifest set changed'')
            else if changed = [] \<or> set (ctx_paths c) \<noteq> insert ''Cargo.lock'' (set changed)
            then Inr (False, ''update is not isolated to first-party Cargo manifests and lockfile'')
            else (case isolated D base head before after old new changed of
              Inr result \<Rightarrow> Inr result
            | Inl e \<Rightarrow>
                if data_error e
                then Inr (False, ''first-party isolation proof unavailable: '' @ class_of_error D e @ '': '' @ str_of_error D e)
                else Inl e)))))"

section \<open>The closure is what the lock file reaches\<close>

definition edge_rel :: "lock_records \<Rightarrow> (identity \<times> identity) set" where
  "edge_rel R = {(i, j). \<exists>es. edges R i = Inr es \<and> j \<in> set es}"

lemma edge_rel_image: "edges R i = Inr es \<Longrightarrow> edge_rel R `` insert i S = set es \<union> edge_rel R `` S"
  by (auto simp: edge_rel_def)

lemma closure_grows: "closure R stack seen = Inr found \<Longrightarrow> set stack \<union> set seen \<subseteq> set found"
proof (induction R stack seen rule: closure.induct)
  case (2 R i stack seen)
  then show ?case by (cases "i \<in> set seen") (auto elim!: bindR_InrE)
qed simp

lemma closure_closed:
  "closure R stack seen = Inr found \<Longrightarrow> edge_rel R `` set seen \<subseteq> set stack \<union> set seen \<Longrightarrow>
     edge_rel R `` set found \<subseteq> set found"
proof (induction R stack seen rule: closure.induct)
  case (2 R i stack seen)
  show ?case
  proof (cases "i \<in> set seen")
    case True
    with 2 show ?thesis by auto
  next
    case False
    with 2(3) obtain es where e: "edges R i = Inr es" and c: "closure R (rev es @ stack) (i # seen) = Inr found"
      by (auto elim: bindR_InrE)
    have "edge_rel R `` set (i # seen) \<subseteq> set (rev es @ stack) \<union> set (i # seen)"
      using 2(4) edge_rel_image [OF e, of "set seen"] by auto
    with 2(2) [OF False e c] show ?thesis .
  qed
qed simp

lemma closure_reached:
  "closure R stack seen = Inr found \<Longrightarrow> set found \<subseteq> set seen \<union> (edge_rel R)\<^sup>* `` set stack"
proof (induction R stack seen rule: closure.induct)
  case (2 R i stack seen)
  show ?case
  proof (cases "i \<in> set seen")
    case True
    with 2 show ?thesis by auto
  next
    case False
    with 2(3) obtain es where e: "edges R i = Inr es" and c: "closure R (rev es @ stack) (i # seen) = Inr found"
      by (auto elim: bindR_InrE)
    have "(edge_rel R)\<^sup>* `` set es \<subseteq> (edge_rel R)\<^sup>* `` {i}"
      using e by (auto simp: edge_rel_def intro: converse_rtrancl_into_rtrancl)
    with 2(2) [OF False e c] show ?thesis by auto
  qed
qed auto

text \<open>It ends with an exception only at an identity it reached whose edges do not resolve.\<close>

lemma closure_fails:
  "closure R stack seen = Inl e \<Longrightarrow> \<exists>i \<in> (edge_rel R)\<^sup>* `` set stack. edges R i = Inl e"
proof (induction R stack seen rule: closure.induct)
  case (2 R i stack seen)
  show ?case
  proof (cases "i \<in> set seen")
    case True
    with 2 show ?thesis by auto
  next
    case False
    show ?thesis
    proof (cases "edges R i")
      case (Inl f)
      with False 2(3) show ?thesis by auto
    next
      case (Inr es)
      have "(edge_rel R)\<^sup>* `` set es \<subseteq> (edge_rel R)\<^sup>* `` {i}"
        using Inr by (auto simp: edge_rel_def intro: converse_rtrancl_into_rtrancl)
      with 2(2) [OF False Inr] 2(3) False Inr show ?thesis by auto
    qed
  qed
qed simp

lemma closure_resolved:
  "closure R stack seen = Inr found \<Longrightarrow> i \<in> set found \<Longrightarrow> i \<in> set seen \<or> (\<exists>es. edges R i = Inr es)"
proof (induction R stack seen rule: closure.induct)
  case (2 R j stack seen)
  then show ?case by (cases "j \<in> set seen") (auto elim!: bindR_InrE)
qed simp

text \<open>The identities reached from the records of the given names.\<close>

definition reach :: "lock_records \<Rightarrow> string list \<Rightarrow> identity set" where
  "reach R names = (edge_rel R)\<^sup>* `` {i \<in> fst ` set R. \<exists>name \<in> set names. fst i = JStr name}"

lemma closure_start:
  "set (rev (filter (\<lambda>i. is_str (fst i) \<and> str_of (fst i) \<in> set names) (map fst R)))
     = {i \<in> fst ` set R. \<exists>name \<in> set names. fst i = JStr name}"
  by (auto simp: is_str_iff)

lemma cargo_closure_reach: "cargo_closure R names = Inr found \<Longrightarrow> set found = reach R names"
proof -
  assume run: "cargo_closure R names = Inr found"
  note run = run [unfolded cargo_closure_def]
  have "edge_rel R `` set found \<subseteq> set found" using run by (rule closure_closed) simp
  then have "(edge_rel R)\<^sup>* `` set found = set found" by (rule Image_closed_trancl)
  moreover have "reach R names \<subseteq> (edge_rel R)\<^sup>* `` set found"
    unfolding reach_def using closure_grows [OF run] unfolding closure_start by blast
  moreover have "set found \<subseteq> reach R names"
    using closure_reached [OF run] unfolding closure_start reach_def by simp
  ultimately show ?thesis by auto
qed

text \<open>
  C25. The closure of a set of names in a lock file is exactly what the edges reach from the records of these names,
  each of which then has only edges that name one record; the computation ends, and it ends with an
  exception only at a reached record whose edges do not resolve.
\<close>

theorem cargo_closure_exact:
  "case cargo_closure R names of
     Inr found \<Rightarrow> set found = reach R names \<and> edges R ` reach R names \<subseteq> range Inr
   | Inl e \<Rightarrow> (\<exists>i \<in> reach R names. edges R i = Inl e)"
proof (cases "cargo_closure R names")
  case (Inl e)
  with closure_fails show ?thesis unfolding cargo_closure_def reach_def closure_start [symmetric] by fastforce
next
  case (Inr found)
  from cargo_closure_reach [OF Inr] have "set found = reach R names" .
  moreover from closure_resolved [OF Inr [unfolded cargo_closure_def]] this
  have "\<exists>es. edges R i = Inr es" if "i \<in> reach R names" for i using that by auto
  then have "edges R ` reach R names \<subseteq> range Inr" by (metis image_subsetI rangeI)
  ultimately show ?thesis using Inr by simp
qed

section \<open>What the exemption establishes\<close>

text \<open>The value at a path of keys.\<close>

fun at_path :: "json \<Rightarrow> string list \<Rightarrow> json option" where
  "at_path v [] = Some v"
| "at_path (JObj d) (k # ks) = (case map_of d k of None \<Rightarrow> None | Some v \<Rightarrow> at_path v ks)"
| "at_path _ (k # ks) = None"

text \<open>
  The two manifests have values at the same paths of keys: none disappears and none is added. Where a value
  that is not a table differs, it is the version of one of the named first-party crates, a string before and
  after.
\<close>

definition version_change :: "string list \<Rightarrow> json \<Rightarrow> json \<Rightarrow> string list \<Rightarrow> bool" where
  "version_change names x y path \<longleftrightarrow> py_eq x y \<or> is_obj x \<and> is_obj y
     \<or> is_str x \<and> is_str y \<and> (\<exists>name \<in> set names \<inter> set FIRST_PARTY. version_path path = Some name)"

definition only_versions :: "string list \<Rightarrow> json \<Rightarrow> json \<Rightarrow> bool" where
  "only_versions names before after \<longleftrightarrow> (\<forall>ks. case (at_path before ks, at_path after ks) of
     (None, None) \<Rightarrow> True
   | (Some x, Some y) \<Rightarrow> version_change names x y ks
   | _ \<Rightarrow> False)"

text \<open>A decoded table holds each key once, as every Python dictionary does.\<close>

fun unique_keys :: "json \<Rightarrow> bool" and unique_entries :: "dict \<Rightarrow> bool" where
  "unique_keys (JObj d) = unique_entries d"
| "unique_keys _ = True"
| "unique_entries [] = True"
| "unique_entries ((k, v) # d) = (k \<notin> keys d \<and> unique_keys v \<and> unique_entries d)"

definition tables_unique :: "decoders \<Rightarrow> bool" where
  "tables_unique D \<longleftrightarrow> (\<forall>s. case loads_toml D s of None \<Rightarrow> True | Some v \<Rightarrow> unique_keys v)"

lemma unique_entries_distinct: "unique_entries d \<Longrightarrow> distinct (map fst d)"
  by (induction d) force+

lemma unique_dict_of: "unique_keys v \<Longrightarrow> unique_entries (dict_of v)"
  by (cases v) auto

lemma unique_entries_in: "unique_entries d \<Longrightarrow> map_of d k = Some v \<Longrightarrow> unique_keys v"
  by (induction d) (auto split: if_splits)

lemma py_eq_dict_entry: "py_eq_dict d e \<Longrightarrow> map_of d k = Some v \<Longrightarrow> \<exists>w. map_of e k = Some w \<and> py_eq v w"
  by (induction d) (auto split: if_splits option.splits)

lemma py_eq_at: "py_eq v w \<Longrightarrow> at_path v ks = Some x \<Longrightarrow> \<exists>y. at_path w ks = Some y \<and> py_eq x y"
proof (induction ks arbitrary: v w)
  case (Cons k ks)
  then obtain d v' where d: "v = JObj d" "map_of d k = Some v'" "at_path v' ks = Some x"
    by (cases v) (auto split: option.splits)
  with Cons.prems(1) obtain e where e: "w = JObj e" "py_eq_dict d e" by (cases w) auto
  obtain w' where "map_of e k = Some w'" "py_eq v' w'" using py_eq_dict_entry [OF e(2) d(2)] by auto
  with Cons.IH [OF this(2) d(3)] e(1) show ?case by simp
qed simp

lemma version_change_append [intro]:
  "version_change a x y path \<Longrightarrow> version_change (a @ b) x y path"
  "version_change b x y path \<Longrightarrow> version_change (a @ b) x y path"
  by (auto simp: version_change_def)

lemma version_change_mono: "version_change a x y path \<Longrightarrow> set a \<subseteq> set b \<Longrightarrow> version_change b x y path"
  by (auto simp: version_change_def)

lemma leaf_update_change: "leaf_update x y path = Inr names \<Longrightarrow> version_change names x y path"
  by (auto simp: leaf_update_def version_change_def split: option.splits if_splits)

lemma leaf_update_str: "leaf_update x y path = Inr names \<Longrightarrow> is_str x"
  by (auto simp: leaf_update_def split: option.splits if_splits)

lemma leaf_at: "leaf_update v w path = Inr names \<Longrightarrow> at_path v ks = Some x \<Longrightarrow>
    \<exists>y. at_path w ks = Some y \<and> version_change names x y (path @ ks)"
  using leaf_update_str [of v w path names] leaf_update_change [of v w path names]
  by (cases ks) (auto simp: is_str_iff)

lemma leaf_or_equal:
  "(if py_eq v w then Inr [] else leaf_update v w path) = Inr names \<Longrightarrow> at_path v ks = Some x \<Longrightarrow>
     \<exists>y. at_path w ks = Some y \<and> version_change names x y (path @ ks)"
  using py_eq_at [of v w ks x] leaf_at [of v w path names ks x] by (auto simp: version_change_def split: if_splits)

lemma updates_change:
  "manifest_updates before after path = Inr names \<Longrightarrow> at_path before ks = Some x \<Longrightarrow>
     \<exists>y. at_path after ks = Some y \<and> version_change names x y (path @ ks)"
  "table_updates d e path = Inr names \<Longrightarrow> map_of d k = Some v \<Longrightarrow> at_path v ks = Some x \<Longrightarrow>
     \<exists>y. at_path (dget e k) ks = Some y \<and> version_change names x y (path @ k # ks)"
proof (induction before after path and d e path arbitrary: names ks x and names k v ks x
    rule: manifest_updates_table_updates.induct)
  case (1 d after path)
  show ?case
  proof (cases "\<not> py_eq (JObj d) after \<and> is_obj after \<and> keys d = keys (dict_of after)")
    case True
    then obtain e where e: "after = JObj e" "keys d = keys e" by (auto simp: is_obj_iff)
    have t: "table_updates d e path = Inr names"
      using 1(2) True e(1) by (simp del: set_map split: if_splits)
    show ?thesis
    proof (cases ks)
      case Nil
      with 1(3) e show ?thesis by (auto simp: version_change_def)
    next
      case (Cons k ks')
      with 1(3) obtain v where v: "map_of d k = Some v" "at_path v ks' = Some x" by (auto split: option.splits)
      then have "k \<in> keys e" using e(2) by (force dest: map_of_SomeD)
      then obtain w where "map_of e k = Some w" by (metis map_of_eq_None_iff not_Some_eq set_map)
      with 1(1) [of names k v ks' x] True e t v Cons show ?thesis by (auto simp: dget_def dget_or_def)
    qed
  next
    case False
    with 1(2) have "(if py_eq (JObj d) after then Inr [] else leaf_update (JObj d) after path) = Inr names"
      by (auto split: if_splits)
    then show ?thesis using 1(3) by (rule leaf_or_equal)
  qed
next
  case (3 e path)
  then show ?case by simp
next
  case (4 k' v' d e path)
  from "4.prems"(1) obtain a b where
    a: "(if py_eq v' (dget e k') then Inr [] else manifest_updates v' (dget e k') (path @ [k'])) = Inr a"
    and b: "table_updates d e path = Inr b" and names: "names = a @ b"
    by (auto elim!: bindR_InrE)
  show ?case
  proof (cases "k = k'")
    case True
    with "4.prems"(2) have v: "v = v'" by simp
    show ?thesis
    proof (cases "py_eq v' (dget e k')")
      case True
      with py_eq_at [OF this "4.prems"(3) [unfolded v]] \<open>k = k'\<close> show ?thesis by (auto simp: version_change_def)
    next
      case False
      with a have "manifest_updates v' (dget e k') (path @ [k']) = Inr a" by simp
      from "4.IH"(1) [OF False this "4.prems"(3) [unfolded v]] \<open>k = k'\<close> names
      show ?thesis by auto
    qed
  next
    case False
    with "4.prems"(2) have "map_of d k = Some v" by simp
    from "4.IH"(2) [OF a b this "4.prems"(3)] names show ?thesis by auto
  qed
qed (simp only: manifest_updates.simps, erule leaf_or_equal, assumption)+

lemma py_eq_keys: "py_eq (JObj d) (JObj e) \<Longrightarrow> distinct (map fst d) \<Longrightarrow> keys e = keys d"
proof -
  assume eq: "py_eq (JObj d) (JObj e)" and d: "distinct (map fst d)"
  have "keys d \<subseteq> keys e"
  proof
    fix k assume "k \<in> keys d"
    then obtain v where "map_of d k = Some v" by (metis map_of_eq_None_iff not_None_eq set_map)
    with eq py_eq_dict_entry [of d e k v] obtain w where "map_of e k = Some w" by auto
    then show "k \<in> keys e" by (force dest: map_of_SomeD)
  qed
  moreover have "card (keys d) = length e" using d eq distinct_card [of "map fst d"] by simp
  then have "card (keys e) \<le> card (keys d)" by (metis card_length length_map)
  ultimately show ?thesis using card_seteq [of "keys e" "keys d"] by simp
qed

lemma key_entry: "k \<in> keys d \<Longrightarrow> \<exists>v. map_of d k = Some v"
  by (metis map_of_eq_None_iff not_None_eq set_map)

lemma py_eq_back: "py_eq v w \<Longrightarrow> unique_keys v \<Longrightarrow> at_path w ks = Some y \<Longrightarrow> \<exists>x. at_path v ks = Some x"
proof (induction ks arbitrary: v w)
  case (Cons k ks)
  then obtain e w' where e: "w = JObj e" "map_of e k = Some w'" "at_path w' ks = Some y"
    by (cases w) (auto split: option.splits)
  with Cons.prems(1) obtain d where d: "v = JObj d"
    by (cases v) (auto elim: num_eq.elims)
  have u: "unique_entries d" using Cons.prems(2) d by simp
  have "keys e = keys d" using py_eq_keys [OF _ unique_entries_distinct [OF u]] Cons.prems(1) d e(1) by simp
  then obtain v' where v: "map_of d k = Some v'" using key_entry [of k d] e(2) by (force dest: map_of_SomeD)
  have "py_eq v' w'" using py_eq_dict_entry [of d e k v'] v e Cons.prems(1) d by auto
  from Cons.IH [OF this unique_entries_in [OF u v] e(3)] show ?case using d v by simp
qed simp

lemma leaf_or_equal_back:
  "(if py_eq v w then Inr [] else leaf_update v w path) = Inr names \<Longrightarrow> unique_keys v \<Longrightarrow> at_path w ks = Some y \<Longrightarrow>
     \<exists>x. at_path v ks = Some x"
  using py_eq_back [of v w ks y] leaf_update_change [of v w path names]
  by (cases ks) (auto simp: leaf_update_def is_str_iff split: if_splits option.splits)

text \<open>No path is added: where the key sets are not compared, the values are equal or strings.\<close>

lemma updates_back:
  "manifest_updates before after path = Inr names \<Longrightarrow> unique_keys before \<Longrightarrow> at_path after ks = Some y \<Longrightarrow>
     \<exists>x. at_path before ks = Some x"
  "table_updates d e path = Inr names \<Longrightarrow> unique_entries d \<Longrightarrow> map_of d k = Some v \<Longrightarrow> at_path (dget e k) ks = Some y \<Longrightarrow>
     \<exists>x. at_path v ks = Some x"
proof (induction before after path and d e path arbitrary: names ks y and names k v ks y
    rule: manifest_updates_table_updates.induct)
  case (1 d after path)
  show ?case
  proof (cases "\<not> py_eq (JObj d) after \<and> is_obj after \<and> keys d = keys (dict_of after)")
    case True
    then obtain e where e: "after = JObj e" "keys d = keys e" by (auto simp: is_obj_iff)
    have t: "table_updates d e path = Inr names"
      using 1(2) True e(1) by (simp del: set_map split: if_splits)
    show ?thesis
    proof (cases ks)
      case (Cons k ks')
      with 1(4) e obtain w where w: "map_of e k = Some w" "at_path w ks' = Some y" by (auto split: option.splits)
      then obtain v where "map_of d k = Some v" using e(2) key_entry [of k d] by (force dest: map_of_SomeD)
      with 1(1) [of names k v ks' y] 1(3) True e t w Cons show ?thesis by (auto simp: dget_def dget_or_def)
    qed simp
  next
    case False
    with 1(2) have "(if py_eq (JObj d) after then Inr [] else leaf_update (JObj d) after path) = Inr names"
      by (auto split: if_splits)
    then show ?thesis using 1(3,4) by (rule leaf_or_equal_back)
  qed
next
  case (3 e path)
  then show ?case by simp
next
  case (4 k' v' d e path)
  from "4.prems"(1) obtain a b where
    a: "(if py_eq v' (dget e k') then Inr [] else manifest_updates v' (dget e k') (path @ [k'])) = Inr a"
    and b: "table_updates d e path = Inr b"
    by (auto elim!: bindR_InrE)
  have u: "unique_keys v'" "unique_entries d" using "4.prems"(2) by simp_all
  show ?case
  proof (cases "k = k'")
    case True
    with "4.prems"(3) have v: "v = v'" by simp
    show ?thesis
    proof (cases "py_eq v' (dget e k')")
      case True
      from py_eq_back [OF this u(1)] "4.prems"(4) \<open>k = k'\<close> v show ?thesis by simp
    next
      case False
      with a have "manifest_updates v' (dget e k') (path @ [k']) = Inr a" by simp
      from "4.IH"(1) [OF False this u(1)] "4.prems"(4) \<open>k = k'\<close> v show ?thesis by simp
    qed
  next
    case False
    with "4.prems"(3) have "map_of d k = Some v" by simp
    from "4.IH"(2) [OF a b u(2) this "4.prems"(4)] show ?thesis .
  qed
qed (simp only: manifest_updates.simps, erule leaf_or_equal_back, assumption, assumption)+

lemma manifest_updates_only:
  assumes "manifest_updates before after [] = Inr names" and "unique_keys before"
  shows "only_versions names before after"
  unfolding only_versions_def
proof
  fix ks
  show "case (at_path before ks, at_path after ks) of (None, None) \<Rightarrow> True
     | (Some x, Some y) \<Rightarrow> version_change names x y ks | _ \<Rightarrow> False"
    using updates_change(1) [OF assms(1), of ks] updates_back(1) [OF assms, of ks]
    by (cases "at_path before ks"; cases "at_path after ks") auto
qed

lemma leaf_update_first: "leaf_update x y path = Inr names \<Longrightarrow> set names \<subseteq> set FIRST_PARTY"
  by (auto simp: leaf_update_def split: option.splits if_splits)

lemma leaf_or_equal_first:
  "(if py_eq v w then Inr [] else leaf_update v w path) = Inr names \<Longrightarrow> set names \<subseteq> set FIRST_PARTY"
  by (auto split: if_splits dest: leaf_update_first)

lemma updates_first_party:
  "manifest_updates before after path = Inr names \<Longrightarrow> set names \<subseteq> set FIRST_PARTY"
  "table_updates d e path = Inr names \<Longrightarrow> set names \<subseteq> set FIRST_PARTY"
proof (induction before after path and d e path arbitrary: names and names
    rule: manifest_updates_table_updates.induct)
  case (1 d after path)
  then show ?case by (auto simp del: set_map split: if_splits dest!: leaf_update_first)
next
  case (4 k v d e path)
  from "4.prems" obtain a b where
    a: "(if py_eq v (dget e k) then Inr [] else manifest_updates v (dget e k) (path @ [k])) = Inr a"
    and b: "table_updates d e path = Inr b" and names: "names = a @ b"
    by (auto elim!: bindR_InrE)
  have "set a \<subseteq> set FIRST_PARTY" using a "4.IH"(1) by (cases "py_eq v (dget e k)") auto
  with "4.IH"(2) [OF a b] names show ?case by auto
qed (simp_all only: manifest_updates.simps table_updates.simps leaf_or_equal_first, auto dest: leaf_or_equal_first)

text \<open>The two lock files differ only in records that the named crates reach in their own file.\<close>

definition isolated_records :: "lock_records \<Rightarrow> lock_records \<Rightarrow> string list \<Rightarrow> bool" where
  "isolated_records old new names \<longleftrightarrow> (\<forall>i \<in> fst ` (set old \<union> set new).
     same_record (found_record old i) (found_record new i)
     \<or> (found_record old i \<noteq> None \<longrightarrow> (\<exists>j \<in> reach old names. same_identity i j))
        \<and> (found_record new i \<noteq> None \<longrightarrow> (\<exists>j \<in> reach new names. same_identity i j)))"

definition isolated_update :: "decoders \<Rightarrow> source_tree \<Rightarrow> source_tree \<Rightarrow> dep list \<Rightarrow> dep list
    \<Rightarrow> (string \<times> dict) list \<Rightarrow> (string \<times> dict) list \<Rightarrow> string list \<Rightarrow> bool" where
  "isolated_update D base head before after old new names \<longleftrightarrow> set names \<subseteq> set FIRST_PARTY
     \<and> list_all (transition before after) names
     \<and> (\<forall>p \<in> keys old. only_versions names (JObj (the (map_of old p))) (JObj (the (map_of new p))))
     \<and> (\<exists>old_records new_records. lock_records D base = Inr old_records \<and> lock_records D head = Inr new_records
          \<and> isolated_records old_records new_records names)"

lemma only_versions_equal:
  assumes "py_eq v w" and "unique_keys v"
  shows "only_versions names v w"
  unfolding only_versions_def
proof
  fix ks
  show "case (at_path v ks, at_path w ks) of (None, None) \<Rightarrow> True
     | (Some x, Some y) \<Rightarrow> version_change names x y ks | _ \<Rightarrow> False"
    using py_eq_at [OF assms(1), of ks] py_eq_back [OF assms, of ks]
    by (cases "at_path v ks"; cases "at_path w ks") (auto simp: version_change_def)
qed

lemma only_versions_mono: "only_versions a v w \<Longrightarrow> set a \<subseteq> set b \<Longrightarrow> only_versions b v w"
  unfolding only_versions_def
proof (intro allI)
  fix ks
  assume a: "\<forall>ks. case (at_path v ks, at_path w ks) of (None, None) \<Rightarrow> True
     | (Some x, Some y) \<Rightarrow> version_change a x y ks | _ \<Rightarrow> False" and b: "set a \<subseteq> set b"
  show "case (at_path v ks, at_path w ks) of (None, None) \<Rightarrow> True
     | (Some x, Some y) \<Rightarrow> version_change b x y ks | _ \<Rightarrow> False"
    using spec [OF a, of ks] b
    by (cases "at_path v ks"; cases "at_path w ks") (simp_all add: version_change_mono)
qed

lemma manifests_unique:
  assumes "tables_unique D" and "manifests D t = Inr ms" and "p \<in> keys ms"
  shows "unique_keys (JObj (the (map_of ms p)))"
proof -
  obtain d where "map_of ms p = Some d" using assms(3) key_entry by metis
  moreover from this have "(p, d) \<in> set ms" by (rule map_of_SomeD)
  with assms(2) have "read_toml D t p = Inr d"
    unfolding manifests_def
    by (auto simp: Let_def split: if_splits elim!: mapR_in_set bindR_InrE)
  ultimately show ?thesis using assms(1)
    by (auto simp: read_toml_def tables_unique_def unique_dict_of elim!: bindR_InrE split: if_splits option.splits json.splits)
qed

lemma no_change_isolated:
  assumes "List.map_filter (record_change old new old_closure new_closure) (map fst old @ map fst new) = []"
    and "set old_closure = reach old names" and "set new_closure = reach new names"
  shows "isolated_records old new names"
  using assms unfolding isolated_records_def record_change_def map_filter_def
  by (fastforce simp: filter_empty_conv list_ex_iff split: if_splits)

lemma changed_only:
  assumes "mapR (\<lambda>path. manifest_updates (JObj (the (map_of old path))) (JObj (the (map_of new path))) [])
      (changed_manifests old new) = Inr found" and "p \<in> keys old"
    and "unique_keys (JObj (the (map_of old p)))"
  shows "only_versions (remdups (concat found)) (JObj (the (map_of old p))) (JObj (the (map_of new p)))"
proof (cases "py_eq (JObj (the (map_of old p))) (JObj (the (map_of new p)))")
  case False
  with assms(2) have "p \<in> set (changed_manifests old new)" by (auto simp: changed_manifests_def)
  from mapR_all [OF assms(1) this] obtain names where "names \<in> set found"
    "manifest_updates (JObj (the (map_of old p))) (JObj (the (map_of new p))) [] = Inr names" by auto
  then show ?thesis by (auto intro!: only_versions_mono [OF manifest_updates_only [OF _ assms(3)]])
qed (rule only_versions_equal [OF _ assms(3)])

lemma isolated_True:
  assumes "isolated D base head before after old new (changed_manifests old new) = Inr (True, reason)"
    and unique: "\<And>p. p \<in> keys old \<Longrightarrow> unique_keys (JObj (the (map_of old p)))"
  obtains names where "isolated_update D base head before after old new names"
proof -
  obtain found where found: "mapR (\<lambda>path. manifest_updates (JObj (the (map_of old path))) (JObj (the (map_of new path))) [])
      (changed_manifests old new) = Inr found"
    and rest: "isolated D base head before after old new (changed_manifests old new) = Inr (True, reason)"
    using assms(1) unfolding isolated_def by (elim bindR_InrE) (rule that, assumption, use assms(1) isolated_def in simp)
  let ?names = "remdups (concat found)"
  obtain old_records old_closure new_records new_closure where
    t: "list_all (transition before after) ?names"
    and o: "lock_records D base = Inr old_records" "cargo_closure old_records ?names = Inr old_closure"
    and n: "lock_records D head = Inr new_records" "cargo_closure new_records ?names = Inr new_closure"
    and c: "List.map_filter (record_change old_records new_records old_closure new_closure)
        (map fst old_records @ map fst new_records) = []"
    using rest unfolding isolated_def found
    by (auto simp: Let_def elim!: bindR_InrE split: if_splits list.splits)
  have "set ?names \<subseteq> set FIRST_PARTY"
    using found by (auto simp del: manifest_updates.simps elim!: mapR_in_set dest!: updates_first_party(1))
  moreover have "isolated_records old_records new_records ?names"
    using c cargo_closure_reach [OF o(2)] cargo_closure_reach [OF n(2)] by (rule no_change_isolated)
  ultimately show thesis using that [of ?names] t o(1) n(1) changed_only [OF found _ unique]
    unfolding isolated_update_def by blast
qed

text \<open>
  C5. The exemption is only granted to the trusted application in an allowed repository at immutable
  revisions, for an update that changes no standalone tool and no path but the changed manifests and the
  lock file; the manifests keep their key paths, none removed and none added, and nothing but versions of
  first-party crates differs, each of these crates has exactly one other version afterwards, and the lock
  files differ only in the closure of these crates. The decoder builds dictionaries, with each key once.
\<close>

theorem first_party_isolated:
  assumes "tables_unique D" and "first_party_scope D base head before after context = Inr (True, reason)"
  shows "\<exists>c old new names. context = Some c \<and> ctx_actor c = ''renovate[bot]'' \<and> ctx_actor_type c = ''Bot''
    \<and> ctx_repository c \<in> set ALLOWED_REPOSITORIES \<and> is_sha (ctx_base c) \<and> is_sha (ctx_head c)
    \<and> tool_set before = tool_set after
    \<and> manifests D base = Inr old \<and> manifests D head = Inr new \<and> keys old = keys new
    \<and> changed_manifests old new \<noteq> [] \<and> set (ctx_paths c) = insert ''Cargo.lock'' (set (changed_manifests old new))
    \<and> isolated_update D base head before after old new names"
proof -
  obtain c where tools: "tool_set before = tool_set after" and c: "context = Some c" "trusted_context c = None"
    using assms(2) unfolding first_party_scope_def
    by (auto simp: trusted_context_def split: if_splits option.splits)
  obtain old new where m: "manifests D base = Inr old" "manifests D head = Inr new"
    and rest: "(let changed = changed_manifests old new in
            if keys old \<noteq> keys new then Inr (False, ''manifest set changed'')
            else if changed = [] \<or> set (ctx_paths c) \<noteq> insert ''Cargo.lock'' (set changed)
            then Inr (False, ''update is not isolated to first-party Cargo manifests and lockfile'')
            else (case isolated D base head before after old new changed of
              Inr result \<Rightarrow> Inr result
            | Inl e \<Rightarrow>
                if data_error e
                then Inr (False, ''first-party isolation proof unavailable: '' @ class_of_error D e @ '': '' @ str_of_error D e)
                else Inl e)) = Inr (True, reason)"
    using assms(2) tools c unfolding first_party_scope_def
    by (simp only: option.case if_False not_True_eq_False refl) (elim bindR_InrE, rule that)
  have k: "keys old = keys new" "changed_manifests old new \<noteq> []"
      "set (ctx_paths c) = insert ''Cargo.lock'' (set (changed_manifests old new))"
    and i: "isolated D base head before after old new (changed_manifests old new) = Inr (True, reason)"
    using rest by (auto simp: Let_def split: if_splits sum.splits simp del: set_map)
  obtain names where names: "isolated_update D base head before after old new names"
    using i by (rule isolated_True) (rule manifests_unique [OF assms(1) m(1)])
  have "ctx_actor c = ''renovate[bot]''" "ctx_actor_type c = ''Bot''" "ctx_repository c \<in> set ALLOWED_REPOSITORIES"
      "is_sha (ctx_base c)" "is_sha (ctx_head c)"
    using c(2) unfolding trusted_context_def by (auto split: if_splits)
  with tools c(1) m k names show ?thesis by blast
qed

text \<open>An update of one first-party crate together with a package only it depends on.\<close>

definition update_manifest :: "string \<Rightarrow> json" where
  "update_manifest version = JObj [(''package'', JObj [(''name'', JStr ''app'')]),
     (''dependencies'', JObj [(''compose-lens'', JStr version)])]"

definition update_lock :: "string \<Rightarrow> json" where
  "update_lock version = JObj [(''package'', JList [
     JObj [(''name'', JStr ''compose-lens''), (''version'', JStr version), (''source'', JStr CRATES_SOURCE),
           (''checksum'', JStr sample_digest), (''dependencies'', JList [JStr ''yaml''])],
     JObj [(''name'', JStr ''yaml''), (''version'', JStr version), (''source'', JStr CRATES_SOURCE),
           (''checksum'', JStr sample_digest)]])]"

definition update_decoders :: decoders where
  "update_decoders = lock_decoders\<lparr>loads_toml := (\<lambda>s.
     if hd s = CHR ''m'' then Some (update_manifest (tl s)) else Some (update_lock (tl s)))\<rparr>"

definition update_tree :: "string \<Rightarrow> source_tree" where
  "update_tree version = \<lparr>tree_is_dir = True, tree_exists = (\<lambda>p. p \<in> set [''Cargo.toml'', ''Cargo.lock'']), tree_link = (\<lambda>_. False),
     tree_data = (\<lambda>p. if p = ''Cargo.toml'' then Some (CHR ''m'' # version) else Some (CHR ''l'' # version)),
     tree_manifests = []\<rparr>"

definition update_context :: dep_context where
  "update_context = \<lparr>ctx_actor = ''renovate[bot]'', ctx_actor_type = ''Bot'', ctx_repository = ''Strukturpiloten/boxferry'',
     ctx_base = replicate 40 CHR ''b'', ctx_head = replicate 40 CHR ''a'', ctx_paths = [''Cargo.lock'', ''Cargo.toml'']\<rparr>"

definition update_packages :: "string \<Rightarrow> dep list" where
  "update_packages version = map (\<lambda>name. Dep ''cargo'' name version CRATES_SOURCE [sample_digest]) [''compose-lens'', ''yaml'']"

lemma update_packages_of: "packages_of update_decoders (update_tree ''1.1.0'') = Inr (update_packages ''1.1.0'')"
  by code_simp

lemma update_scope:
  "first_party_scope update_decoders (update_tree ''1.0.0'') (update_tree ''1.1.0'') (update_packages ''1.0.0'')
     (update_packages ''1.1.0'') (Some update_context)
   = Inr (True, ''isolated first-party crates.io update and its dependency closure'')"
  by code_simp

lemma update_decoders_unique: "tables_unique update_decoders"
  by (auto simp: tables_unique_def update_decoders_def update_manifest_def update_lock_def)

theorem first_party_isolated_witness:
  "\<exists>old new names. changed_manifests old new \<noteq> []
     \<and> isolated_update update_decoders (update_tree ''1.0.0'') (update_tree ''1.1.0'') (update_packages ''1.0.0'')
         (update_packages ''1.1.0'') old new names"
  using first_party_isolated [OF update_decoders_unique update_scope] by (elim exE conjE) (intro exI conjI, assumption+)

text \<open>The same update with a third-party package that nothing of the crate reaches is not exempt.\<close>

definition stray_decoders :: decoders where
  "stray_decoders = update_decoders\<lparr>loads_toml := (\<lambda>s.
     if hd s = CHR ''m'' then Some (update_manifest (tl s))
     else Some (JObj [(''package'', JList (list_of (dget (dict_of (update_lock (tl s))) ''package'')
       @ [JObj [(''name'', JStr ''stray''), (''version'', JStr (tl s))]]))]))\<rparr>"

lemma stray_refused:
  "first_party_scope stray_decoders (update_tree ''1.0.0'') (update_tree ''1.1.0'') (update_packages ''1.0.0'')
     (update_packages ''1.1.0'') (Some update_context)
   = Inr (False, ''lock maintenance is outside the old first-party closure'')"
  by code_simp

end
