(* ===== verification/Cooldown.thy ===== *)
theory Cooldown
  imports FirstParty Effects
begin

text \<open>
  \<open>dependencies.py\<close>, the age policy: every package that a candidate introduces needs matching metadata of
  its registry and must have been published, or first seen by a trusted run, 72 hours ago. Times are
  seconds. The state of a check is its budget, what the registries answered and the ledger of
  observations; the world is what an acquisition answers after the earlier ones.
\<close>

section \<open>Acquisition within a budget\<close>

record cooldown =
  requests :: nat
  consumed :: nat
  answers :: "(string \<times> string res) list"
  ledger :: "(string \<times> string) list"

type_synonym fetcher = "(string \<times> string res) list \<Rightarrow> string \<Rightarrow> string res"
type_synonym 'a budgeted = "(fetcher, cooldown, 'a) io"

definition HOLD :: rat where "HOLD = 72 * 3600"
definition MAX_METADATA_BYTES :: nat where "MAX_METADATA_BYTES = 2 * 1024 * 1024"
definition MAX_TOTAL_METADATA_BYTES :: nat where "MAX_TOTAL_METADATA_BYTES = 16 * 1024 * 1024"
definition MAX_INTRODUCED :: nat where "MAX_INTRODUCED = 256"
definition MAX_METADATA_REQUESTS :: nat where "MAX_METADATA_REQUESTS = MAX_INTRODUCED"
definition MAX_STATE_ENTRIES :: nat where "MAX_STATE_ENTRIES = 4096"

text \<open>\<open>fetch_metadata\<close>; \<open>opened\<close> is the response of an opener that refuses redirects, read up to the bound.\<close>

definition fetch_metadata :: "decoders \<Rightarrow> fetcher \<Rightarrow> fetcher" where
  "fetch_metadata D opened earlier url = (case url_parts D url of
     None \<Rightarrow> Inl (ValueError ''URL'')
   | Some (scheme, host, user, password) \<Rightarrow>
       if scheme \<noteq> ''https'' \<or> user \<notin> {None, Some []} \<or> password \<notin> {None, Some []}
       then wrong ''registry metadata requires a credential-free HTTPS URL''
       else bindR (opened earlier url) (\<lambda>data.
         if MAX_METADATA_BYTES < length data then wrong ''version metadata exceeds byte bound'' else Inr data))"

definition acquire :: "decoders \<Rightarrow> fetcher \<Rightarrow> fetcher option \<Rightarrow> fetcher" where
  "acquire D opened given = (case given of None \<Rightarrow> fetch_metadata D opened | Some f \<Rightarrow> f)"

definition changeI :: "(cooldown \<Rightarrow> cooldown) \<Rightarrow> unit budgeted" where
  "changeI f w s = (Inr (), f s)"

definition tryI :: "'a budgeted \<Rightarrow> 'a res budgeted" where
  "tryI m = catchI (bindI m (\<lambda>x. retI (Inr x))) (\<lambda>e. retI (Inl e))"

definition ask :: "string \<Rightarrow> string budgeted" where
  "ask url w s = (let r = w (answers s) url in (r, s\<lparr>answers := (url, r) # answers s\<rparr>))"

definition account :: "string \<Rightarrow> string budgeted" where
  "account data =
     bindI (changeI (\<lambda>s. s\<lparr>consumed := consumed s + length data\<rparr>)) (\<lambda>_.
     if MAX_METADATA_BYTES < length data then raiseI (DependencyError ''metadata exceeds its byte bound'' [])
     else bindI (getI consumed) (\<lambda>n.
     if MAX_TOTAL_METADATA_BYTES < n then raiseI (DependencyError ''shared metadata byte budget exhausted'' [])
     else retI data))"

definition admit_request :: "unit budgeted" where
  "admit_request =
     bindI (getI requests) (\<lambda>n.
     if MAX_METADATA_REQUESTS \<le> n then raiseI (UrlError ''URLError'')
     else changeI (\<lambda>s. s\<lparr>requests := n + 1\<rparr>))"

definition bounded :: "string \<Rightarrow> string budgeted" where
  "bounded url = bindI admit_request (\<lambda>_. bindI (ask url) account)"

section \<open>Timestamps\<close>

text \<open>A template character \<open>d\<close> stands for a decimal digit of any script, \<open>s\<close> for a sign.\<close>

definition fits :: "decoders \<Rightarrow> char \<Rightarrow> string \<Rightarrow> bool" where
  "fits D t c = (if t = CHR ''d'' then decimal_char D c else if t = CHR ''s'' then c = ''+'' \<or> c = ''-'' else c = [t])"

definition stamp_form :: "decoders \<Rightarrow> string \<Rightarrow> bool" where
  "stamp_form D s =
     (let cs = utf8_chars s; rest = drop 19 cs;
          fraction = takeWhile (decimal_char D) (tl rest);
          zone = (if rest \<noteq> [] \<and> hd rest = ''.'' then drop (length fraction) (tl rest) else rest) in
      list_all2 (fits D) ''dddd-dd-ddTdd:dd:dd'' (take 19 cs)
      \<and> (rest \<noteq> [] \<and> hd rest = ''.'' \<longrightarrow> fraction \<noteq> [])
      \<and> (zone = [''Z''] \<or> list_all2 (fits D) ''sdd:dd'' zone))"

definition instant_value :: "decoders \<Rightarrow> rat \<Rightarrow> json \<Rightarrow> rat res" where
  "instant_value D now' v =
     (if \<not> is_str v \<or> \<not> stamp_form D (str_of v)
      then wrong ''publication/observation timestamp must be timezone-aware RFC 3339''
      else let s = str_of v in
      case instant_of D (if last s = CHR ''Z'' then butlast s @ ''+00:00'' else s) of
        Inl e \<Rightarrow> if is_ValueError e then wrong ''malformed publication/observation timestamp'' else Inl e
      | Inr t \<Rightarrow> if now' < t then wrong ''future publication/observation timestamp'' else Inr t)"

section \<open>Metadata of a package\<close>

definition is_crate :: "dep \<Rightarrow> bool" where
  "is_crate p = (ecosystem p = ''cargo'' \<or> ecosystem p = ''cargo-tool'')"

definition metadata_url :: "dep \<Rightarrow> string" where
  "metadata_url p = (let name = quote [] (dep_name p); version = quote [] (dep_version p) in
     if is_crate p then ''https://crates.io/api/v1/crates/'' @ name @ ''/'' @ version
     else if ecosystem p = ''npm'' then ''https://registry.npmjs.org/'' @ name @ ''/'' @ version
     else ''https://pypi.org/pypi/'' @ name @ ''/'' @ version @ ''/json'')"

fun first_of :: "'a list \<Rightarrow> 'a res" where
  "first_of [] = Inl IndexError"
| "first_of (x # xs) = Inr x"

definition crate_metadata :: "dep \<Rightarrow> json \<Rightarrow> (json list \<times> string list) res" where
  "crate_metadata p v =
     bindR (index_str v ''version'') (\<lambda>r.
     bindR (attr_get r ''crate'') (\<lambda>name.
     bindR (attr_get r ''num'') (\<lambda>version.
     if name \<noteq> JStr (dep_name p) \<or> version \<noteq> JStr (dep_version p) then wrong ''Cargo metadata identity mismatch''
     else
     bindR (bindR (attr_get r ''checksum'') sha256_value) (\<lambda>digest.
     bindR (if ecosystem p = ''cargo'' then first_of (integrity p) else Inr digest) (\<lambda>pinned.
     if digest \<noteq> pinned then wrong ''Cargo checksum differs from authoritative version metadata''
     else
     bindR (attr_get r ''created_at'') (\<lambda>created.
     if ecosystem p = ''cargo-tool'' \<and> created = JNull
     then wrong ''standalone Cargo tool requires canonical publication timestamp''
     else Inr ([created], [digest])))))))"

definition npm_metadata :: "decoders \<Rightarrow> dep \<Rightarrow> json \<Rightarrow> (json list \<times> string list) res" where
  "npm_metadata D p v =
     bindR (attr_get v ''name'') (\<lambda>name.
     bindR (attr_get v ''version'') (\<lambda>version.
     if name \<noteq> JStr (dep_name p) \<or> version \<noteq> JStr (dep_version p) then wrong ''npm metadata identity mismatch''
     else
     bindR (get_default v ''dist'' (JObj [])) (\<lambda>dist.
     bindR (bindR (attr_get dist ''integrity'') (sri D)) (\<lambda>digest.
     bindR (first_of (integrity p)) (\<lambda>pinned.
     if digest \<noteq> pinned then wrong ''npm integrity differs from authoritative version metadata''
     else
     bindR (get_default v ''time'' (JObj [])) (\<lambda>stamps.
     bindR (attr_get stamps (dep_version p)) (\<lambda>published. Inr ([published], integrity p))))))))"

text \<open>The artifacts of a version by their digest; the last of several with one digest counts.\<close>

definition artifact_entry :: "json \<Rightarrow> (json \<times> json) res" where
  "artifact_entry a =
     bindR (get_default a ''digests'' (JObj [])) (\<lambda>digests.
     bindR (attr_get digests ''sha256'') (\<lambda>digest. if hashable digest then Inr (digest, a) else Inl TypeError))"

text \<open>The normalised name is only compared with the name of a package, which is ASCII.\<close>

definition python_metadata :: "decoders \<Rightarrow> dep \<Rightarrow> json \<Rightarrow> (json list \<times> string list) res" where
  "python_metadata D p v =
     bindR (index_str v ''info'') (\<lambda>info.
     bindR (get_default info ''name'' (JStr [])) (\<lambda>name.
     bindR (attr_get info ''version'') (\<lambda>version.
     if index_name (str_of_json D name) \<noteq> dep_name p \<or> version \<noteq> JStr (dep_version p)
     then wrong ''PyPI metadata identity mismatch''
     else
     bindR (bindR (index_str v ''urls'') iterate) (\<lambda>urls.
     bindR (mapR artifact_entry urls) (\<lambda>artifacts.
     if \<not> list_all (\<lambda>d. map_of artifacts (JStr d) \<noteq> None) (integrity p)
     then wrong ''uv artifact digest differs from authoritative PyPI metadata''
     else
     bindR (mapR (\<lambda>d. attr_get (the (map_of (rev artifacts) (JStr d))) ''upload_time_iso_8601'') (integrity p)) (\<lambda>stamps.
     Inr (stamps, integrity p)))))))"

text \<open>An absent time of one artifact leaves no time at all.\<close>

definition metadata_of :: "decoders \<Rightarrow> rat \<Rightarrow> dep \<Rightarrow> string \<Rightarrow> (rat list \<times> string list) res" where
  "metadata_of D now' p raw = (case loads_json D raw of
     None \<Rightarrow> Inl (ValueError ''JSON'')
   | Some v \<Rightarrow>
       bindR (if is_crate p then crate_metadata p v else if ecosystem p = ''npm'' then npm_metadata D p v
              else python_metadata D p v) (\<lambda>(stamps, digests).
       bindR (mapR (instant_value D now') (filter (\<lambda>t. t \<noteq> JNull) stamps)) (\<lambda>present.
       Inr (if length present = length stamps then present else [], digests))))"

definition metadata :: "decoders \<Rightarrow> rat \<Rightarrow> dep \<Rightarrow> (rat list \<times> string list) budgeted" where
  "metadata D now' p =
     bindI (bounded (metadata_url p)) (\<lambda>raw.
     if MAX_METADATA_BYTES < length raw
     then raiseI (DependencyError ''version metadata exceeds byte bound or is not bytes'' [])
     else liftI (metadata_of D now' p raw))"

section \<open>The check of a package\<close>

record package_result =
  about :: "dep option"
  artifact_key :: "string option"
  verdict :: string
  retry_at :: "string option"
  retry_eligible :: bool
  age_evidence :: "string option"
  evidence_at :: "string option"
  reason_text :: "string option"
  metadata_at :: "string option"
  confirmed :: "string list option"
  immutable :: "bool option"
  place :: "(string \<times> nat) option"

text \<open>
  A key that the dictionary of a result does not have is \<open>None\<close>. The last two, and the ecosystem, name and version of an
  image or runner in \<open>about\<close>, are those of the operational results.
\<close>

definition started :: "decoders \<Rightarrow> dep \<Rightarrow> package_result" where
  "started D p = \<lparr>about = Some p, artifact_key = Some (dep_key D p), verdict = ''pass'', retry_at = None, retry_eligible = False,
     age_evidence = None, evidence_at = None, reason_text = None, metadata_at = None, confirmed = None,
     immutable = None, place = None\<rparr>"

definition retry_later :: "decoders \<Rightarrow> rat \<Rightarrow> package_result \<Rightarrow> package_result" where
  "retry_later D now' r = r\<lparr>retry_at := Some (text_of_instant D (now' + 3600)), retry_eligible := True\<rparr>"

text \<open>The \<open>except\<close> clauses of the loop.\<close>

definition failed :: "decoders \<Rightarrow> rat \<Rightarrow> package_result \<Rightarrow> exn \<Rightarrow> package_result res" where
  "failed D now' r e =
     (let failure = (\<lambda>reason. r\<lparr>verdict := ''failure'', reason_text := Some reason\<rparr>) in case e of
       HttpError code \<Rightarrow>
         (let x = failure (''registry HTTP status '' @ show_int code) in
          Inr (if code = 429 \<or> 500 \<le> code then retry_later D now' x else x))
     | UrlError name \<Rightarrow> Inr (retry_later D now' (failure (''metadata acquisition: '' @ name)))
     | _ \<Rightarrow> if data_error e then Inr (failure (str_of_error D e)) else Inl e)"

text \<open>The newest publication time of an artifact, or when a trusted run first saw it, which may be now.\<close>

definition first_seen :: "decoders \<Rightarrow> rat \<Rightarrow> dep \<Rightarrow> unit budgeted" where
  "first_seen D now' p =
     bindI (getI ledger) (\<lambda>seen.
     if map_of seen (dep_key D p) \<noteq> None then retI ()
     else if MAX_STATE_ENTRIES \<le> length seen then raiseI (DependencyError ''first-seen state capacity exhausted'' [])
     else changeI (\<lambda>s. s\<lparr>ledger := ledger s @ [(dep_key D p, text_of_instant D now')]\<rparr>))"

definition observed_at :: "decoders \<Rightarrow> rat \<Rightarrow> dep \<Rightarrow> rat list \<Rightarrow> (rat \<times> string) budgeted" where
  "observed_at D now' p stamps =
     (if stamps \<noteq> [] then retI (Max (set stamps), ''registry-publication'')
      else
      bindI (first_seen D now' p) (\<lambda>_.
      bindI (getI ledger) (\<lambda>seen.
      bindI (liftI (instant_value D now' (JStr (the (map_of seen (dep_key D p)))))) (\<lambda>t.
      retI (t, ''artifact-first-seen'')))))"

definition judged :: "decoders \<Rightarrow> rat \<Rightarrow> package_result \<Rightarrow> rat \<times> string \<Rightarrow> package_result" where
  "judged D now' r p =
     (let (observed, evidence) = p;
          dated = r\<lparr>age_evidence := Some evidence, evidence_at := Some (text_of_instant D observed)\<rparr> in
      if now' < observed + HOLD
      then dated\<lparr>verdict := ''waiting'', retry_at := Some (text_of_instant D (observed + HOLD)), retry_eligible := True,
             reason_text := Some ''72-hour publication or artifact observation hold''\<rparr>
      else dated)"

definition check_package :: "decoders \<Rightarrow> rat \<Rightarrow> bool \<Rightarrow> string \<Rightarrow> dep \<Rightarrow> package_result budgeted" where
  "check_package D now' exempt reason p =
     bindI (tryI (metadata D now' p)) (\<lambda>r. case r of
       Inl e \<Rightarrow> liftI (failed D now' (started D p) e)
     | Inr (stamps, digests) \<Rightarrow>
         (let known = (started D p)\<lparr>metadata_at := Some (metadata_url p), confirmed := Some digests\<rparr> in
          if exempt
          then retI (known\<lparr>age_evidence := Some ''first-party-update-exemption'', reason_text := Some reason\<rparr>)
          else bindI (tryI (observed_at D now' p stamps)) (\<lambda>q. case q of
             Inl e \<Rightarrow> liftI (failed D now' known e)
           | Inr observed \<Rightarrow> retI (judged D now' known observed))))"

text \<open>
  A timestamp of year one with an eastern offset has no instant in UTC: \<open>astimezone\<close> raises \<open>OverflowError\<close>, which no
  clause of the loop catches, so the answer of one registry ends the check instead of failing its package.
\<close>

lemma overflow_escapes:
  assumes "metadata D now' p w s = (Inl OverflowError, t)"
  shows "check_package D now' exempt reason p w s = (Inl OverflowError, t)"
  using assms
  by (simp add: check_package_def tryI_def catchI_def bindI_def failed_def)

section \<open>The check of a candidate\<close>

record coverage_gap =
  gap_source :: string
  gap_path :: string
  gap_policy :: "string option"

record report =
  results :: "package_result list"
  overall :: string
  next_retry :: "string option"
  first_party_exempt :: bool
  first_party_reason :: string
  problem :: "string option"
  remembered :: "(string \<times> string) list"
  coverage_gaps :: "coverage_gap list"

definition load_state :: "decoders \<Rightarrow> rat \<Rightarrow> dict option \<Rightarrow> unit budgeted" where
  "load_state D now' state = (case state of
     None \<Rightarrow> retI ()
   | Some d \<Rightarrow>
       if keys d \<noteq> {''schema_version'', ''first_seen''} \<or> \<not> py_eq (dget d ''schema_version'') (JInt 1)
          \<or> \<not> is_obj (dget d ''first_seen'')
       then raiseI (DependencyError ''invalid trusted first-seen state schema'' [])
       else if MAX_STATE_ENTRIES < length (dict_of (dget d ''first_seen''))
       then raiseI (DependencyError ''first-seen state exceeds entry bound'' [])
       else bindI (mapI (\<lambda>(k, v).
              bindI (liftI (sha256_value (JStr k))) (\<lambda>_.
              bindI (liftI (instant_value D now' v)) (\<lambda>_.
              changeI (\<lambda>s. s\<lparr>ledger := ledger s @ [(k, str_of v)]\<rparr>)))) (dict_of (dget d ''first_seen''))) (\<lambda>_. retI ()))"

definition introduced :: "dep list \<Rightarrow> dep list \<Rightarrow> dep list" where
  "introduced before after = sort (filter (\<lambda>p. p \<notin> set before) after)"

definition prepare :: "decoders \<Rightarrow> source_tree \<Rightarrow> source_tree \<Rightarrow> rat \<Rightarrow> dict option \<Rightarrow> dep_context option
    \<Rightarrow> (dep list \<times> bool \<times> string) budgeted" where
  "prepare D base head now' state context =
     (if \<not> tree_is_dir base \<or> \<not> tree_is_dir head
      then raiseI (DependencyError ''dependency snapshot root is missing or is not a directory'' [])
      else
      bindI (load_state D now' state) (\<lambda>_.
      bindI (liftI (packages_of D base)) (\<lambda>before.
      bindI (liftI (packages_of D head)) (\<lambda>after.
      if MAX_INTRODUCED < length (introduced before after)
      then raiseI (DependencyError ''introduced versions exceed request bound'' [])
      else
      bindI (liftI (first_party_scope D base head before after context)) (\<lambda>(exempt, reason).
      retI (introduced before after, exempt, reason))))))"

definition overall_verdict :: "package_result list \<Rightarrow> string" where
  "overall_verdict rs = (if list_ex (\<lambda>r. verdict r = ''failure'') rs then ''failure''
     else if list_ex (\<lambda>r. verdict r = ''waiting'') rs then ''waiting'' else ''pass'')"

definition earliest_retry :: "package_result list \<Rightarrow> string option" where
  "earliest_retry rs = (let stamps = List.map_filter (\<lambda>r. if retry_eligible r then retry_at r else None) rs in
     if stamps = [] then None else Some (Min (set stamps)))"

text \<open>
  \<open>operational\<close> stands for \<open>check_operational\<close> with its arguments but the remaining identities: it uses the
  same budget and ledger and gives its results and the gaps of coverage. \<open>retry_eligible\<close> of the report holds when it has a
  next retry.
\<close>

definition check_dependencies :: "decoders \<Rightarrow> (nat \<Rightarrow> (package_result list \<times> coverage_gap list) budgeted) \<Rightarrow> source_tree \<Rightarrow> source_tree
    \<Rightarrow> rat \<Rightarrow> dict option \<Rightarrow> dep_context option \<Rightarrow> report budgeted" where
  "check_dependencies D operational base head now' state context =
     bindI (tryI (prepare D base head now' state context)) (\<lambda>r. case r of
       Inl e \<Rightarrow>
         if \<not> data_error e then raiseI e
         else bindI (getI ledger) (\<lambda>seen. retI \<lparr>results = [], overall = ''failure'', next_retry = None,
           first_party_exempt = False, first_party_reason = ''not evaluated'', problem = Some (str_of_error D e),
           remembered = seen, coverage_gaps = []\<rparr>)
     | Inr (fresh, exempt, reason) \<Rightarrow>
         bindI (mapI (check_package D now' exempt reason) fresh) (\<lambda>checked.
         bindI (operational (MAX_INTRODUCED - length fresh)) (\<lambda>(others, gaps).
         bindI (getI ledger) (\<lambda>seen.
         retI \<lparr>results = checked @ others, overall = overall_verdict (checked @ others),
           next_retry = earliest_retry (checked @ others), first_party_exempt = exempt, first_party_reason = reason,
           problem = None, remembered = seen, coverage_gaps = gaps\<rparr>))))"

definition blank_check :: cooldown where
  "blank_check = \<lparr>requests = 0, consumed = 0, answers = [], ledger = []\<rparr>"

section \<open>The budget and the ledger\<close>

lemma changeI_run [simp]: "changeI f w s = (Inr (), f s)" by (simp add: changeI_def)

lemma tryI_run: "tryI m w s = (case m w s of (r, t) \<Rightarrow> (Inr r, t))"
  by (auto simp: tryI_def catchI_def bindI_def split: prod.splits sum.splits)

lemma tryI_Inr: "tryI m w s = (Inr r, t) \<longleftrightarrow> m w s = (r, t)"
  by (auto simp: tryI_run split: prod.splits)

text \<open>What one run may add: requests and answers within the budget, and entries of the ledger stamped now.\<close>

definition grows :: "decoders \<Rightarrow> rat \<Rightarrow> cooldown \<Rightarrow> cooldown \<Rightarrow> bool" where
  "grows D now' s t \<longleftrightarrow> requests s \<le> requests t \<and> requests t \<le> max MAX_METADATA_REQUESTS (requests s)
     \<and> suffix (answers s) (answers t) \<and> length (answers t) + requests s \<le> length (answers s) + requests t
     \<and> (\<exists>new. ledger t = ledger s @ new \<and> list_all (\<lambda>e. snd e = text_of_instant D now') new)
     \<and> length (ledger t) \<le> max MAX_STATE_ENTRIES (length (ledger s))"

interpretation growth: step_rule "grows D now'" for D now'
proof
  show "grows D now' s s" for s by (simp add: grows_def)
  fix s t u
  assume st: "grows D now' s t" and tu: "grows D now' t u"
  have "suffix (answers s) (answers u)"
    using st tu unfolding grows_def by (meson suffix_order.trans)
  with st tu show "grows D now' s u" unfolding grows_def by auto
qed

lemma grows_bounded: "keeps (grows D now') (bounded url)"
  by (rule keepsI)
    (auto simp: bounded_def admit_request_def ask_def account_def bindI_def Let_def grows_def suffix_ConsI
      split: if_splits prod.splits sum.splits)

lemma grows_first_seen: "keeps (grows D now') (first_seen D now' p)"
  by (rule keepsI) (auto simp: first_seen_def bindI_def grows_def split: if_splits)

lemma keeps_sum:
  "(\<And>e. keeps R (f e)) \<Longrightarrow> (\<And>x. keeps R (g x)) \<Longrightarrow> keeps R (case r of Inl e \<Rightarrow> f e | Inr x \<Rightarrow> g x)"
  by (cases r) auto

lemma grows_try: "keeps (grows D now') m \<Longrightarrow> keeps (grows D now') (tryI m)"
  unfolding tryI_def by (intro growth.keeps_rules)

lemmas grows_rules = growth.keeps_rules grows_bounded grows_first_seen grows_try keeps_sum

lemma grows_metadata: "keeps (grows D now') (metadata D now' p)"
  unfolding metadata_def by (intro grows_rules)

lemma grows_observed: "keeps (grows D now') (observed_at D now' p stamps)"
  unfolding observed_at_def by (intro grows_rules)

lemma grows_package: "keeps (grows D now') (check_package D now' exempt reason p)"
  unfolding check_package_def by (intro grows_rules grows_metadata grows_observed)

lemma grows_packages: "keeps (grows D now') (mapI (check_package D now' exempt reason) ps)"
  by (intro grows_rules grows_package)

text \<open>The ledger starts as the trusted state.\<close>

definition trusted_seen :: "dict option \<Rightarrow> (string \<times> string) list" where
  "trusted_seen state = (case state of None \<Rightarrow> [] | Some d \<Rightarrow> map (\<lambda>(k, v). (k, str_of v)) (dict_of (dget d ''first_seen'')))"

abbreviation load_entry :: "decoders \<Rightarrow> rat \<Rightarrow> string \<times> json \<Rightarrow> unit budgeted" where
  "load_entry D now' \<equiv> \<lambda>(k, v).
     bindI (liftI (sha256_value (JStr k))) (\<lambda>_.
     bindI (liftI (instant_value D now' v)) (\<lambda>_.
     changeI (\<lambda>s. s\<lparr>ledger := ledger s @ [(k, str_of v)]\<rparr>)))"

lemma load_entries:
  assumes "mapI (load_entry D now') es w s = (r, t)"
  shows "requests t = requests s" and "answers t = answers s" and "length (ledger t) \<le> length (ledger s) + length es"
    and "\<And>u. r = Inr u \<Longrightarrow> ledger t = ledger s @ map (\<lambda>(k, v). (k, str_of v)) es"
  using assms
  by (induction es arbitrary: s r) (fastforce simp: bindI_def split: prod.splits sum.splits)+

lemma load_state_run:
  assumes "load_state D now' state w s = (r, t)"
  shows "requests t = requests s" and "answers t = answers s" and "length (ledger t) \<le> length (ledger s) + MAX_STATE_ENTRIES"
    and "r = Inr () \<Longrightarrow> ledger t = ledger s @ trusted_seen state"
proof -
  let ?P = "requests t = requests s \<and> answers t = answers s \<and> length (ledger t) \<le> length (ledger s) + MAX_STATE_ENTRIES
    \<and> (r = Inr () \<longrightarrow> ledger t = ledger s @ trusted_seen state)"
  have ?P
  proof (cases state)
    case None
    with assms show ?thesis by (auto simp: load_state_def trusted_seen_def)
  next
    case (Some d)
    let ?es = "dict_of (dget d ''first_seen'')"
    obtain q u where q: "mapI (load_entry D now') ?es w s = (q, u)" by (cases "mapI (load_entry D now') ?es w s")
    show ?thesis
      using assms Some load_entries [OF q] unfolding load_state_def
      by (auto simp: trusted_seen_def bindI_def q split: if_splits sum.splits)
  qed
  then show "requests t = requests s" "answers t = answers s" "length (ledger t) \<le> length (ledger s) + MAX_STATE_ENTRIES"
    "r = Inr () \<Longrightarrow> ledger t = ledger s @ trusted_seen state" by auto
qed

lemma prepare_run:
  assumes "prepare D base head now' state context w s = (r, t)"
  shows "requests t = requests s" and "answers t = answers s" and "length (ledger t) \<le> length (ledger s) + MAX_STATE_ENTRIES"
    and "\<And>fresh exempt reason. r = Inr (fresh, exempt, reason) \<Longrightarrow> ledger t = ledger s @ trusted_seen state
      \<and> (\<exists>before after. packages_of D base = Inr before \<and> packages_of D head = Inr after \<and> fresh = introduced before after
          \<and> length fresh \<le> MAX_INTRODUCED \<and> first_party_scope D base head before after context = Inr (exempt, reason))"
proof -
  obtain q u where q: "load_state D now' state w s = (q, u)" by (cases "load_state D now' state w s")
  note l = load_state_run [OF q]
  have "t = s \<or> t = u" using assms unfolding prepare_def
    by (auto simp: bindI_def q split: if_splits sum.splits prod.splits)
  then show "requests t = requests s" "answers t = answers s" "length (ledger t) \<le> length (ledger s) + MAX_STATE_ENTRIES"
    using l(1,2,3) by auto
  fix fresh exempt reason
  assume "r = Inr (fresh, exempt, reason)"
  with assms have "q = Inr ()" "t = u" and "\<exists>before after. packages_of D base = Inr before \<and> packages_of D head = Inr after
      \<and> fresh = introduced before after \<and> length fresh \<le> MAX_INTRODUCED
      \<and> first_party_scope D base head before after context = Inr (exempt, reason)"
    unfolding prepare_def by (auto simp: bindI_def q split: if_splits sum.splits prod.splits)
  with l(4) show "ledger t = ledger s @ trusted_seen state
      \<and> (\<exists>before after. packages_of D base = Inr before \<and> packages_of D head = Inr after \<and> fresh = introduced before after
          \<and> length fresh \<le> MAX_INTRODUCED \<and> first_party_scope D base head before after context = Inr (exempt, reason))"
    by simp
qed

text \<open>The check of the packages alone, as \<open>check_dependencies\<close> composes it before the operational one.\<close>

definition check_packages :: "decoders \<Rightarrow> source_tree \<Rightarrow> source_tree \<Rightarrow> rat \<Rightarrow> dict option \<Rightarrow> dep_context option
    \<Rightarrow> package_result list budgeted" where
  "check_packages D base head now' state context =
     bindI (prepare D base head now' state context) (\<lambda>(fresh, exempt, reason).
     mapI (check_package D now' exempt reason) fresh)"

section \<open>The hold is enforced\<close>

text \<open>The registry answered the request for a package, in the order of the run.\<close>

definition was_answered :: "fetcher \<Rightarrow> cooldown \<Rightarrow> string \<Rightarrow> string \<Rightarrow> bool" where
  "was_answered w g url raw \<longleftrightarrow> (\<exists>earlier. suffix ((url, Inr raw) # earlier) (answers g) \<and> w earlier url = Inr raw)"

text \<open>A package may pass: its metadata match, and it is exempt, published or seen long enough ago.\<close>

definition cleared :: "decoders \<Rightarrow> rat \<Rightarrow> bool \<Rightarrow> fetcher \<Rightarrow> cooldown \<Rightarrow> dep \<Rightarrow> bool" where
  "cleared D now' exempt w g p \<longleftrightarrow> (\<exists>raw stamps digests. was_answered w g (metadata_url p) raw
     \<and> metadata_of D now' p raw = Inr (stamps, digests)
     \<and> (exempt \<or> stamps \<noteq> [] \<and> (\<forall>t \<in> set stamps. t + HOLD \<le> now')
        \<or> stamps = [] \<and> (\<exists>seen t. map_of (ledger g) (dep_key D p) = Some seen
             \<and> instant_value D now' (JStr seen) = Inr t \<and> t + HOLD \<le> now')))"

lemma cleared_mono: "cleared D now' exempt w s p \<Longrightarrow> grows D now' s t \<Longrightarrow> cleared D now' exempt w t p"
proof -
  assume c: "cleared D now' exempt w s p" and g: "grows D now' s t"
  have a: "was_answered w s url raw \<Longrightarrow> was_answered w t url raw" for url raw
    using g unfolding was_answered_def grows_def by (meson suffix_order.trans)
  have "map_of (ledger s) k = Some v \<Longrightarrow> map_of (ledger t) k = Some v" for k v
    using g unfolding grows_def by (auto simp: map_add_def)
  with c a show ?thesis unfolding cleared_def by (elim exE conjE disjE) blast+
qed

lemma bounded_Inr: "bounded url w s = (Inr raw, t) \<Longrightarrow> was_answered w t url raw"
  by (auto simp: bounded_def admit_request_def ask_def account_def bindI_def Let_def was_answered_def
      split: if_splits prod.splits sum.splits)

lemma metadata_Inr:
  assumes "metadata D now' p w s = (Inr x, t)"
  obtains raw where "was_answered w t (metadata_url p) raw" and "metadata_of D now' p raw = Inr x"
  using assms unfolding metadata_def by (elim run_elims) (auto dest: bounded_Inr)

lemma first_seen_Inr: "first_seen D now' p w s = (Inr (), t) \<Longrightarrow> map_of (ledger t) (dep_key D p) \<noteq> None"
  by (auto simp: first_seen_def bindI_def map_add_def split: if_splits option.splits)

lemma observed_at_Inr:
  assumes "observed_at D now' p stamps w s = (Inr (t, evidence), s')"
  shows "stamps \<noteq> [] \<and> t = Max (set stamps)
    \<or> stamps = [] \<and> (\<exists>seen. map_of (ledger s') (dep_key D p) = Some seen \<and> instant_value D now' (JStr seen) = Inr t)"
  using assms unfolding observed_at_def
  by (cases "stamps = []") (auto simp: bindI_Inr dest: first_seen_Inr)

lemma judged_pass: "verdict r = ''pass'' \<Longrightarrow> verdict (judged D now' r (t, evidence)) = ''pass'' \<longleftrightarrow> t + HOLD \<le> now'"
  by (auto simp: judged_def Let_def)

lemma failed_failure: "failed D now' r e = Inr x \<Longrightarrow> verdict x = ''failure''"
  by (auto simp: failed_def Let_def retry_later_def split: exn.splits if_splits)

lemma check_package_pass:
  assumes "check_package D now' exempt reason p w s = (Inr x, t)" and pass: "verdict x = ''pass''"
  shows "cleared D now' exempt w t p"
proof -
  obtain stamps digests s1 where m: "metadata D now' p w s = (Inr (stamps, digests), s1)"
    and rest: "(if exempt then True else \<exists>q evidence. observed_at D now' p stamps w s1 = (Inr (q, evidence), t) \<and> q + HOLD \<le> now')"
    and t: "exempt \<Longrightarrow> t = s1"
  proof -
    obtain r s1 where r: "metadata D now' p w s = (r, s1)" by (cases "metadata D now' p w s")
    show thesis
    proof (cases r)
      case (Inl e)
      with assms r show ?thesis by (auto simp: check_package_def bindI_def tryI_run dest: failed_failure)
    next
      case (Inr y)
      obtain stamps digests where y: "y = (stamps, digests)" by (cases y)
      obtain q s2 where q: "observed_at D now' p stamps w s1 = (q, s2)" by (cases "observed_at D now' p stamps w s1")
      show ?thesis
        using assms r Inr y q that [of stamps digests s1]
        by (cases q) (auto simp: check_package_def bindI_def tryI_run started_def judged_pass Let_def
            dest: failed_failure split: if_splits)
    qed
  qed
  obtain raw where raw: "was_answered w s1 (metadata_url p) raw" "metadata_of D now' p raw = Inr (stamps, digests)"
    using m by (rule metadata_Inr)
  show ?thesis
  proof (cases exempt)
    case True
    with raw t show ?thesis unfolding cleared_def by auto
  next
    case False
    then obtain q evidence where o: "observed_at D now' p stamps w s1 = (Inr (q, evidence), t)" "q + HOLD \<le> now'"
      using rest by auto
    have "was_answered w t (metadata_url p) raw"
      using raw(1) keepsD [OF grows_observed, OF o(1)] unfolding was_answered_def grows_def by (meson suffix_order.trans)
    moreover have "\<forall>u \<in> set stamps. u + HOLD \<le> now'" if "q = Max (set stamps)"
    proof
      fix u assume "u \<in> set stamps"
      then have "u \<le> q" using that by simp
      with o(2) show "u + HOLD \<le> now'" by linarith
    qed
    ultimately show ?thesis using observed_at_Inr [OF o(1)] o(2) raw(2) unfolding cleared_def by blast
  qed
qed

lemma check_packages_pass:
  "mapI (check_package D now' exempt reason) ps w s = (Inr xs, t) \<Longrightarrow> list_all (\<lambda>x. verdict x = ''pass'') xs \<Longrightarrow> p \<in> set ps \<Longrightarrow>
     cleared D now' exempt w t p"
proof (induction ps arbitrary: s xs)
  case (Cons q ps)
  then obtain x ys u where x: "check_package D now' exempt reason q w s = (Inr x, u)"
    and ys: "mapI (check_package D now' exempt reason) ps w u = (Inr ys, t)" and xs: "xs = x # ys"
    by (auto simp: bindI_Inr)
  show ?case
  proof (cases "p = q")
    case True
    have "cleared D now' exempt w u q" using x Cons.prems(2) xs by (auto intro: check_package_pass)
    with True keepsD [OF grows_packages, OF ys] show ?thesis by (auto intro: cleared_mono)
  next
    case False
    with Cons.IH [OF ys] Cons.prems(2,3) xs show ?thesis by simp
  qed
qed simp

lemma package_verdict:
  assumes run: "check_package D now' exempt reason p w s = (Inr x, t)"
  shows "verdict x \<in> {''pass'', ''waiting'', ''failure''}"
proof -
  obtain r s1 where r: "metadata D now' p w s = (r, s1)" by (cases "metadata D now' p w s")
  show ?thesis
  proof (cases r)
    case (Inl e)
    with run r show ?thesis by (auto simp: check_package_def bindI_def tryI_run dest: failed_failure)
  next
    case (Inr y)
    obtain stamps digests where y: "y = (stamps, digests)" by (cases y)
    obtain q s2 where q: "observed_at D now' p stamps w s1 = (q, s2)" by (cases "observed_at D now' p stamps w s1")
    show ?thesis
    proof (cases q)
      case (Inl e)
      with run r Inr y q show ?thesis
        by (auto simp: check_package_def bindI_def tryI_run started_def Let_def dest: failed_failure split: if_splits)
    next
      case (Inr z)
      with run r \<open>r = Inr y\<close> y q show ?thesis
        by (cases z) (auto simp: check_package_def bindI_def tryI_run started_def judged_def Let_def split: if_splits)
    qed
  qed
qed

lemma packages_verdict:
  "mapI (check_package D now' exempt reason) ps w s = (Inr xs, t) \<Longrightarrow> x \<in> set xs \<Longrightarrow> verdict x \<in> {''pass'', ''waiting'', ''failure''}"
  by (induction ps arbitrary: s xs) (auto simp: bindI_Inr dest: package_verdict)

lemma overall_pass:
  "overall_verdict (xs @ ys) = ''pass'' \<Longrightarrow> (\<And>x. x \<in> set xs \<Longrightarrow> verdict x \<in> {''pass'', ''waiting'', ''failure''}) \<Longrightarrow>
     list_all (\<lambda>x. verdict x = ''pass'') xs"
  by (fastforce simp: overall_verdict_def list_all_iff list_ex_iff split: if_splits)

text \<open>
  C4. When the report passes, every package that the candidate introduces was looked up in its canonical
  registry during the run and the answer matched its name, version and pinned digests; and the update is
  an isolated first-party one, or every publication time is at least 72 hours old, or, without complete
  publication times, the trusted state that the run was given has seen this artifact at least 72 hours ago: the
  first observation of the run itself never suffices. A formatted instant is read back as itself.
\<close>

theorem cooldown_enforced:
  assumes run: "check_dependencies D operational base head now' state context w blank_check = (Inr r, t)"
    and pass: "overall r = ''pass''"
    and format: "instant_value D now' (JStr (text_of_instant D now')) = Inr now'"
  shows "\<exists>before after. packages_of D base = Inr before \<and> packages_of D head = Inr after
    \<and> (\<forall>p \<in> set after - set before. \<exists>raw stamps digests.
         was_answered w (snd (check_packages D base head now' state context w blank_check)) (metadata_url p) raw
         \<and> metadata_of D now' p raw = Inr (stamps, digests)
         \<and> (first_party_scope D base head before after context = Inr (True, first_party_reason r)
            \<or> stamps \<noteq> [] \<and> (\<forall>u \<in> set stamps. u + HOLD \<le> now')
            \<or> stamps = [] \<and> (\<exists>seen u. (dep_key D p, seen) \<in> set (trusted_seen state)
                 \<and> instant_value D now' (JStr seen) = Inr u \<and> u + HOLD \<le> now')))"
proof -
  obtain q s where p: "prepare D base head now' state context w blank_check = (q, s)"
    by (cases "prepare D base head now' state context w blank_check")
  obtain fresh exempt reason where q: "q = Inr (fresh, exempt, reason)"
    using run pass p unfolding check_dependencies_def
    by (cases q) (auto simp: bindI_def tryI_run split: if_splits)
  obtain checked u others gaps v where c: "mapI (check_package D now' exempt reason) fresh w s = (Inr checked, u)"
    and r: "overall r = overall_verdict (checked @ others)" "first_party_reason r = reason"
    using run p q unfolding check_dependencies_def
    by (auto simp: bindI_Inr tryI_run)
  have u: "snd (check_packages D base head now' state context w blank_check) = u"
    unfolding check_packages_def by (simp add: p q c)
  obtain before after where k: "ledger s = trusted_seen state" "packages_of D base = Inr before" "packages_of D head = Inr after"
      "fresh = introduced before after" "first_party_scope D base head before after context = Inr (exempt, reason)"
    using prepare_run(4) [OF p q] by (auto simp: blank_check_def)
  obtain new where new: "ledger u = trusted_seen state @ new" "list_all (\<lambda>e. snd e = text_of_instant D now') new"
    using keepsD [OF grows_packages, OF c] unfolding grows_def k(1) by blast
  have all: "list_all (\<lambda>x. verdict x = ''pass'') checked"
    using pass r(1) overall_pass packages_verdict [OF c] by simp
  have seen: "(dep_key D p, seen) \<in> set (trusted_seen state)"
    if "map_of (ledger u) (dep_key D p) = Some seen" "instant_value D now' (JStr seen) = Inr z" "z + HOLD \<le> now'" for p seen z
  proof (rule ccontr)
    assume "(dep_key D p, seen) \<notin> set (trusted_seen state)"
    with map_of_SomeD [OF that(1)] new have "seen = text_of_instant D now'" by (auto simp: list_all_iff)
    with that format show False by (simp add: HOLD_def)
  qed
  have "\<exists>raw stamps digests. was_answered w u (metadata_url p) raw \<and> metadata_of D now' p raw = Inr (stamps, digests)
      \<and> (first_party_scope D base head before after context = Inr (True, first_party_reason r)
         \<or> stamps \<noteq> [] \<and> (\<forall>u \<in> set stamps. u + HOLD \<le> now')
         \<or> stamps = [] \<and> (\<exists>seen u. (dep_key D p, seen) \<in> set (trusted_seen state)
              \<and> instant_value D now' (JStr seen) = Inr u \<and> u + HOLD \<le> now'))" if "p \<in> set after - set before" for p
  proof -
    have "p \<in> set fresh" using that by (simp add: k(4) introduced_def)
    from check_packages_pass [OF c all this] obtain raw stamps digests where
      a: "was_answered w u (metadata_url p) raw" "metadata_of D now' p raw = Inr (stamps, digests)"
      and e: "exempt \<or> stamps \<noteq> [] \<and> (\<forall>t \<in> set stamps. t + HOLD \<le> now')
        \<or> stamps = [] \<and> (\<exists>seen t. map_of (ledger u) (dep_key D p) = Some seen
             \<and> instant_value D now' (JStr seen) = Inr t \<and> t + HOLD \<le> now')"
      unfolding cleared_def by blast
    have "first_party_scope D base head before after context = Inr (True, first_party_reason r)" if exempt
      using that k(5) r(2) by simp
    with e seen a show ?thesis by blast
  qed
  with k(2,3) show ?thesis unfolding u by blast
qed

text \<open>A candidate with one new version, published long ago or without a publication time.\<close>

definition old_stamp :: string where "old_stamp = ''2026-01-01T00:00:00Z''"
definition new_stamp :: string where "new_stamp = ''2026-01-11T00:00:00Z''"

definition check_decoders :: decoders where
  "check_decoders = lock_decoders\<lparr>
     loads_json := (\<lambda>raw. Some (JObj [(''version'', JObj [(''crate'', JStr ''serde''), (''num'', JStr ''1.0.2''),
       (''checksum'', JStr sample_digest), (''created_at'', if raw = [] then JNull else JStr raw)])])),
     url_parts := (\<lambda>url. Some (''https'', Some ''crates.io'', None, None)),
     instant_of := (\<lambda>s. Inr (if s = ''2026-01-01T00:00:00+00:00'' then 0 else 864000)),
     text_of_instant := (\<lambda>t. if t = 0 then old_stamp else new_stamp),
     decimal_char := (\<lambda>c. length c = 1 \<and> is_digit (hd c))\<rparr>"

definition no_others :: "nat \<Rightarrow> (package_result list \<times> coverage_gap list) budgeted" where
  "no_others n = retI ([], [])"

lemma check_format: "instant_value check_decoders 864000 (JStr (text_of_instant check_decoders 864000)) = Inr 864000"
  by code_simp

lemma check_published:
  "(case check_dependencies check_decoders no_others (lock_tree ''1.0.1'') (lock_tree ''1.0.2'') 864000 None None
     (acquire check_decoders (\<lambda>h url. Inr old_stamp) None) blank_check of (Inr r, t) \<Rightarrow> overall r = ''pass'' | _ \<Rightarrow> False)"
  by code_simp

theorem cooldown_enforced_witness:
  "\<exists>before after raw stamps digests. packages_of check_decoders (lock_tree ''1.0.1'') = Inr before
     \<and> packages_of check_decoders (lock_tree ''1.0.2'') = Inr after
     \<and> Dep ''cargo'' ''serde'' ''1.0.2'' CRATES_SOURCE [sample_digest] \<in> set after - set before
     \<and> metadata_of check_decoders 864000 (Dep ''cargo'' ''serde'' ''1.0.2'' CRATES_SOURCE [sample_digest]) raw = Inr (stamps, digests)"
proof -
  let ?w = "acquire check_decoders (\<lambda>h url. Inr old_stamp) None"
  let ?p = "Dep ''cargo'' ''serde'' ''1.0.2'' CRATES_SOURCE [sample_digest]"
  obtain r t where run: "check_dependencies check_decoders no_others (lock_tree ''1.0.1'') (lock_tree ''1.0.2'') 864000 None None
      ?w blank_check = (Inr r, t)" and pass: "overall r = ''pass''"
    using check_published by (auto split: prod.splits sum.splits)
  have "packages_of check_decoders (lock_tree ''1.0.1'') = Inr [Dep ''cargo'' ''serde'' ''1.0.1'' CRATES_SOURCE [sample_digest]]"
    "packages_of check_decoders (lock_tree ''1.0.2'') = Inr [?p]" by code_simp+
  moreover have "?p \<in> set [?p] - set [Dep ''cargo'' ''serde'' ''1.0.1'' CRATES_SOURCE [sample_digest]]" by simp
  ultimately show ?thesis using cooldown_enforced [OF run pass check_format] by fastforce
qed

text \<open>
  C26. A package without publication times that the ledger has not seen is not exempted by its first
  observation: the check remembers the artifact with the time of the check and lets the candidate wait, with a
  retry exactly when the hold of 72 hours ends.
\<close>

theorem first_observation_waits:
  assumes meta: "metadata D now' p w s = (Inr ([], digests), s1)"
    and unseen: "map_of (ledger s1) (dep_key D p) = None" and room: "length (ledger s1) < MAX_STATE_ENTRIES"
    and format: "instant_value D now' (JStr (text_of_instant D now')) = Inr now'"
  shows "\<exists>x. check_package D now' False reason p w s
      = (Inr x, s1\<lparr>ledger := ledger s1 @ [(dep_key D p, text_of_instant D now')]\<rparr>)
    \<and> verdict x = ''waiting'' \<and> retry_eligible x \<and> retry_at x = Some (text_of_instant D (now' + HOLD))
    \<and> age_evidence x = Some ''artifact-first-seen''"
proof -
  let ?s = "s1\<lparr>ledger := ledger s1 @ [(dep_key D p, text_of_instant D now')]\<rparr>"
  have "first_seen D now' p w s1 = (Inr (), ?s)"
    using unseen room by (simp add: first_seen_def bindI_def)
  then have o: "observed_at D now' p [] w s1 = (Inr (now', ''artifact-first-seen''), ?s)"
    using unseen format by (simp add: observed_at_def bindI_def map_add_def)
  show ?thesis unfolding check_package_def
    by (simp add: bindI_def meta tryI_run o judged_def HOLD_def Let_def)
qed

definition serde :: dep where
  "serde = Dep ''cargo'' ''serde'' ''1.0.2'' CRATES_SOURCE [sample_digest]"

lemma unpublished_metadata:
  "fst (metadata check_decoders 864000 serde (\<lambda>h url. Inr []) blank_check) = Inr ([], [sample_digest])"
  "ledger (snd (metadata check_decoders 864000 serde (\<lambda>h url. Inr []) blank_check)) = []"
  by code_simp+

theorem first_observation_waits_witness:
  "\<exists>x t. check_package check_decoders 864000 False [] serde (\<lambda>h url. Inr []) blank_check = (Inr x, t) \<and> verdict x = ''waiting''
     \<and> ledger t = [(dep_key check_decoders serde, new_stamp)]"
proof -
  let ?m = "metadata check_decoders 864000 serde (\<lambda>h url. Inr []) blank_check"
  have m: "?m = (Inr ([], [sample_digest]), snd ?m)" using unpublished_metadata(1) by (metis prod.collapse)
  have u: "map_of (ledger (snd ?m)) (dep_key check_decoders serde) = None" "length (ledger (snd ?m)) < MAX_STATE_ENTRIES"
    unfolding unpublished_metadata(2) by (simp_all add: MAX_STATE_ENTRIES_def)
  have t: "text_of_instant check_decoders 864000 = new_stamp" by code_simp
  from first_observation_waits [OF m u check_format, of "[]"] show ?thesis
    unfolding unpublished_metadata(2) t by auto
qed

end
