(* ===== verification/Operational.thy ===== *)
theory Operational
  imports Cooldown
begin

text \<open>
  \<open>check_operational\<close> of \<open>operational.py\<close>: the images and runners that a candidate introduces wait 72 hours
  after a trusted run first saw them. It shares the request budget, the byte budget and the ledger of
  \<open>check_dependencies\<close>. The readers of the inventory and of the features, and the program that validates a feature
  graph through the same requests, are arguments; what is proved holds for any of them.
\<close>

section \<open>Requests with headers\<close>

type_synonym request_headers = "(string \<times> string) list"
type_synonym request_fetcher = "(string \<times> string res) list \<Rightarrow> string \<Rightarrow> request_headers \<Rightarrow> string res"

text \<open>\<open>bounded_request\<close>; the acquisition is the argument \<open>fetch_request\<close>, or \<open>fetch_metadata\<close> when there is none.\<close>

definition ask_request :: "request_fetcher \<Rightarrow> string \<Rightarrow> request_headers \<Rightarrow> string budgeted" where
  "ask_request reply url headers w s =
     (let r = reply (answers s) url headers in (r, s\<lparr>answers := (url, r) # answers s\<rparr>))"

definition bounded_request :: "request_fetcher \<Rightarrow> string \<Rightarrow> request_headers \<Rightarrow> string budgeted" where
  "bounded_request reply url headers = bindI admit_request (\<lambda>_. bindI (ask_request reply url headers) account)"

text \<open>A program that only makes requests: what it does next depends on what they returned or raised.\<close>

datatype request_program = Finish "unit res" | Request string request_headers "string res \<Rightarrow> request_program"

primrec run_client :: "request_fetcher \<Rightarrow> request_program \<Rightarrow> unit budgeted" where
  "run_client reply (Finish r) = liftI r"
| "run_client reply (Request url headers k) =
     bindI (tryI (bounded_request reply url headers)) (\<lambda>r. run_client reply (k r))"

section \<open>Pins\<close>

record operational_pin =
  op_kind :: string
  op_source :: string
  op_name :: string
  op_digest :: string
  op_version :: string
  op_path :: string
  op_line :: nat

text \<open>The identity of a pin has no character that JSON escapes.\<close>

definition pin_identity :: "decoders \<Rightarrow> operational_pin \<Rightarrow> string" where
  "pin_identity D p = sha256_of D (''['' @ join '','' (map json_quoted
     [''boxferry-operational-v1'', op_kind p, op_source p, op_name p, op_digest p]) @ '']'')"

definition pin_covered :: "operational_pin \<Rightarrow> bool" where
  "pin_covered p \<longleftrightarrow> op_kind p = ''runner'' \<or> op_source p = ''ghcr.io''
     \<or> (op_source p, op_name p) \<in> set [(''quay.io'', ''libpod/alpine''),
          (''mcr.microsoft.com'', ''devcontainers/rust''), (''codeberg.org'', ''forgejo/forgejo'')]"

definition native_dated :: "operational_pin \<Rightarrow> bool" where
  "native_dated p \<longleftrightarrow> op_source p \<in> set [''docker.io'', ''index.docker.io'', ''registry-1.docker.io'']"

text \<open>The image reference: registry, name, optional tag, digest. No part contains the separator after it.\<close>

definition registry_char :: "char \<Rightarrow> bool" where
  "registry_char c \<longleftrightarrow> is_lower c \<or> is_digit c \<or> c = CHR ''.'' \<or> c = CHR ''-''"

definition image_name_char :: "char \<Rightarrow> bool" where
  "image_name_char c \<longleftrightarrow> is_lower c \<or> is_digit c \<or> c \<in> set ''_./-''"

definition version_char :: "char \<Rightarrow> bool" where
  "version_char c \<longleftrightarrow> is_alnum c \<or> c \<in> set ''_.-''"

definition exact_digest :: "string \<Rightarrow> bool" where
  "exact_digest s \<longleftrightarrow> startswith s ''sha256:'' \<and> is_sha256 (drop 7 s)"

definition image_ref :: "string \<Rightarrow> (string \<times> string \<times> string \<times> string) option" where
  "image_ref v =
     (let registry = takeWhile registry_char v;
          a = drop (length registry) v;
          name = takeWhile image_name_char (tl a);
          b = drop (length name) (tl a);
          version = (if startswith b '':'' then takeWhile version_char (tl b) else []);
          c = (if startswith b '':'' then drop (length version) (tl b) else b)
      in if registry \<noteq> [] \<and> startswith a ''/'' \<and> name \<noteq> []
            \<and> (startswith b '':'' \<longrightarrow> version \<noteq> [] \<and> length version \<le> 128 \<and> (is_alnum (hd version) \<or> hd version = CHR ''_''))
            \<and> startswith c ''@'' \<and> exact_digest (tl c)
         then Some (registry, name, version, tl c) else None)"

definition pin_of_ref :: "string \<Rightarrow> string \<Rightarrow> nat \<Rightarrow> operational_pin res" where
  "pin_of_ref v path line = (case image_ref v of
     None \<Rightarrow> Inl (OperationalError ''image needs a canonical repository and SHA-256 manifest'' [])
   | Some (registry, name, version, digest) \<Rightarrow>
       if list_ex (\<lambda>part. part \<in> {[], ''.'', ''..''}) (split_on CHR ''/'' name)
       then Inl (OperationalError ''image needs a canonical repository and SHA-256 manifest'' [])
       else Inr \<lparr>op_kind = ''oci'', op_source = registry, op_name = name, op_digest = digest, op_version = version,
              op_path = path, op_line = line\<rparr>)"

section \<open>The manifest of an image\<close>

text \<open>
  What the check reads of the two snapshots, and \<open>json.loads\<close> with its object hook: the objects it completed, in
  order, and the value, if the text was JSON. \<open>aware_instant\<close> is \<open>fromisoformat\<close>, \<open>None\<close> without a time zone.
\<close>

record operational_readers =
  op_inventory :: "source_tree \<Rightarrow> (string \<times> operational_pin) list res"
  op_features :: "source_tree \<Rightarrow> (dict \<times> (string \<times> operational_pin) list \<times> (string \<times> string) list) res"
  op_graph :: "source_tree \<Rightarrow> rat \<Rightarrow> request_program"
  op_loads :: "string \<Rightarrow> dict list \<times> json option"
  aware_instant :: "string \<Rightarrow> rat option res"

definition op_json :: "operational_readers \<Rightarrow> string \<Rightarrow> dict res" where
  "op_json R raw =
     bindR (checkR (\<lambda>d. if distinct (map fst d) then Inr ()
              else Inl (OperationalError ''duplicate JSON object key in operational evidence'' [])) (fst (op_loads R raw))) (\<lambda>_.
     case snd (op_loads R raw) of
       None \<Rightarrow> Inl (ValueError ''JSON'')
     | Some v \<Rightarrow> if is_obj v then Inr (dict_of v)
         else Inl (OperationalError ''operational JSON document must be an object'' []))"

definition MEDIA_TYPES :: "string list" where
  "MEDIA_TYPES = [''application/vnd.docker.distribution.manifest.list.v2+json'',
     ''application/vnd.docker.distribution.manifest.v2+json'', ''application/vnd.oci.image.index.v1+json'',
     ''application/vnd.oci.image.manifest.v1+json'']"

definition INDEX_TYPES :: "string list" where
  "INDEX_TYPES = [''application/vnd.oci.image.index.v1+json'', ''application/vnd.docker.distribution.manifest.list.v2+json'']"

definition auth_profiles :: "(string \<times> string \<times> string) list" where
  "auth_profiles = [(''ghcr.io'', ''https://ghcr.io/token'', ''ghcr.io''), (''quay.io'', ''https://quay.io/v2/auth'', ''quay.io''),
     (''codeberg.org'', ''https://codeberg.org/v2/token'', ''container_registry'')]"

definition bearer_token :: "dict \<Rightarrow> string res" where
  "bearer_token d =
     (let token = dget_or d ''token'' (dget d ''access_token'') in
      if \<not> is_str token \<or> str_of token = [] \<or> 16384 < py_len (str_of token)
         \<or> newline \<in> set (str_of token) \<or> carriage \<in> set (str_of token)
      then Inl (OperationalError ''anonymous registry authentication returned invalid evidence'' [])
      else Inr (str_of token))"

definition authenticated :: "operational_readers \<Rightarrow> request_fetcher \<Rightarrow> operational_pin \<Rightarrow> string \<Rightarrow> request_headers \<Rightarrow> string budgeted" where
  "authenticated R reply p url headers = (case map_of auth_profiles (op_source p) of
     None \<Rightarrow> raiseI (OperationalError ''reviewed public registry unexpectedly requires authentication'' [])
   | Some (endpoint, service) \<Rightarrow>
       bindI (bounded_request reply (endpoint @ ''?service='' @ quote [] service @ ''&scope=''
           @ quote [] (''repository:'' @ op_name p @ '':pull'')) []) (\<lambda>raw.
       bindI (liftI (bindR (op_json R raw) bearer_token)) (\<lambda>token.
       bounded_request reply url (headers @ [(''Authorization'', ''Bearer '' @ token)]))))"

definition descriptor_ok :: "bool \<Rightarrow> json \<Rightarrow> bool" where
  "descriptor_ok index v \<longleftrightarrow> is_obj v \<and> is_str (dget (dict_of v) ''digest'') \<and> exact_digest (str_of (dget (dict_of v) ''digest''))
     \<and> (case dget (dict_of v) ''size'' of JInt n \<Rightarrow> 0 \<le> n | _ \<Rightarrow> False) \<and> is_str (dget (dict_of v) ''mediaType'')
     \<and> (index \<longrightarrow> str_of (dget (dict_of v) ''mediaType'') \<in> set MEDIA_TYPES)"

definition manifest_ok :: "dict \<Rightarrow> unit res" where
  "manifest_ok m =
     (let media = dget m ''mediaType''; listed = (\<lambda>types. is_str media \<and> str_of media \<in> set types); index = listed INDEX_TYPES;
          descriptors = (if index then dget m ''manifests'' else dget m ''layers'') in
      if dget m ''schemaVersion'' \<noteq> JInt 2 \<or> \<not> listed MEDIA_TYPES
      then Inl (if (is_list media \<or> is_obj media) \<and> dget m ''schemaVersion'' = JInt 2 then TypeError
        else OperationalError ''registry manifest has an unsupported schema or media type'' [])
      else if \<not> is_list descriptors \<or> (index \<and> list_of descriptors = [])
      then Inl (OperationalError ''registry manifest descriptors are malformed'' [])
      else if \<not> list_all (descriptor_ok index) ((if index then [] else [dget m ''config'']) @ list_of descriptors)
      then Inl (OperationalError ''registry manifest descriptor identity is malformed'' [])
      else Inr ())"

definition verify_manifest :: "decoders \<Rightarrow> operational_readers \<Rightarrow> request_fetcher \<Rightarrow> operational_pin \<Rightarrow> unit budgeted" where
  "verify_manifest D R reply p =
     (if op_kind p \<noteq> ''oci'' \<or> \<not> pin_covered p
      then raiseI (OperationalError ''manifest identity is outside reviewed origin/repository policy'' [])
      else
      bindI (liftI (pin_of_ref (op_source p @ ''/'' @ op_name p @ ''@'' @ op_digest p) (op_path p) (op_line p))) (\<lambda>_.
      let url = ''https://'' @ op_source p @ ''/v2/'' @ op_name p @ ''/manifests/'' @ op_digest p;
          headers = [(''Accept'', join '', '' MEDIA_TYPES)] in
      bindI (catchI (bounded_request reply url headers)
        (\<lambda>e. if e = HttpError 401 then authenticated R reply p url headers else raiseI e)) (\<lambda>data.
      if ''sha256:'' @ sha256_of D data \<noteq> op_digest p
      then raiseI (OperationalError ''registry manifest bytes differ from the pinned SHA-256'' [])
      else liftI (bindR (op_json R data) manifest_ok))))"

section \<open>What the candidate introduces\<close>

definition OPERATIONAL_NAMES :: "string list" where
  "OPERATIONAL_NAMES = [''automation/renovate-runtime.json'', ''scripts/renovate-tool.json'',
     ''.devcontainer/devcontainer.json'', ''.devcontainer/devcontainer-lock.json'', ''.devcontainer/Dockerfile'',
     ''scripts/podman-live-conformance.sh'', ''fixtures/conformance/podman-live/matrix.tsv'']
     @ map (\<lambda>name. ''fixtures/conformance/'' @ name @ ''-application/images.tsv'')
       [''forgejo'', ''immich'', ''nextcloud'', ''observability'', ''paperless-ngx'', ''supabase'']"

definition FEATURE_FILES :: "string list" where
  "FEATURE_FILES = [''.devcontainer/devcontainer.json'', ''.devcontainer/devcontainer-lock.json'']"

definition operational_workflow :: "string \<Rightarrow> bool" where
  "operational_workflow path =
     (let name = drop (length ''.github/workflows/'') path;
          stem = (if endswith name ''.yaml'' then take (length name - 5) name else take (length name - 4) name) in
      startswith path ''.github/workflows/'' \<and> (endswith name ''.yml'' \<or> endswith name ''.yaml'')
      \<and> stem \<noteq> [] \<and> list_all version_char stem)"

definition MAX_SNAPSHOT_FILES :: nat where "MAX_SNAPSHOT_FILES = 256"

definition snapshot_paths :: "string list \<Rightarrow> string set res" where
  "snapshot_paths paths =
     (let found = set (filter (\<lambda>p. p \<in> set OPERATIONAL_NAMES \<or> operational_workflow p) paths);
          both = (if found \<inter> set FEATURE_FILES \<noteq> {} then found \<union> set FEATURE_FILES else found) in
      if MAX_SNAPSHOT_FILES < card both
      then Inl (OperationalError ''operational snapshot file count exceeds its bound'' []) else Inr both)"

definition context_evidence :: "source_tree \<Rightarrow> source_tree \<Rightarrow> dep_context option \<Rightarrow> unit res" where
  "context_evidence base head context = (case context of
     None \<Rightarrow> Inr ()
   | Some c \<Rightarrow>
       if ctx_repository c \<notin> set ALLOWED_REPOSITORIES
       then Inl (OperationalError ''operational evidence repository is outside trusted ownership'' [])
       else bindR (snapshot_paths (ctx_paths c)) (\<lambda>owned.
         if list_ex (\<lambda>p. p \<in> owned \<and> \<not> tree_exists base p \<and> \<not> tree_exists head p) (ctx_paths c)
         then Inl (OperationalError ''changed operational input is missing from exact snapshots'' []) else Inr ()))"

text \<open>\<open>pins[pin.key] = pin\<close> for every pin of a dictionary.\<close>

definition store_pin :: "string \<Rightarrow> 'a \<Rightarrow> (string \<times> 'a) list \<Rightarrow> (string \<times> 'a) list" where
  "store_pin k p d = (if k \<in> keys d then map (\<lambda>(k', p'). (k', if k' = k then p else p')) d else d @ [(k, p)])"

definition store_pins :: "decoders \<Rightarrow> (string \<times> operational_pin) list \<Rightarrow> (string \<times> operational_pin) list
    \<Rightarrow> (string \<times> operational_pin) list" where
  "store_pins D valid d = fold (\<lambda>(_, p). store_pin (pin_identity D p) p) valid d"

definition fresh_pins :: "(string \<times> operational_pin) list \<Rightarrow> (string \<times> operational_pin) list \<Rightarrow> operational_pin list" where
  "fresh_pins before after = map (\<lambda>k. the (map_of after k)) (sort (filter (\<lambda>k. k \<notin> keys before) (map fst after)))"

text \<open>The keys of the features are visited in some order; it only decides which of several messages is reported.\<close>

definition prepare_operational :: "decoders \<Rightarrow> operational_readers \<Rightarrow> request_fetcher \<Rightarrow> source_tree \<Rightarrow> source_tree \<Rightarrow> rat
    \<Rightarrow> dep_context option \<Rightarrow> nat \<Rightarrow> operational_pin list budgeted" where
  "prepare_operational D R reply base head now' context remaining =
     bindI (liftI (context_evidence base head context)) (\<lambda>_.
     bindI (liftI (op_inventory R base)) (\<lambda>before.
     bindI (liftI (op_inventory R head)) (\<lambda>after.
     bindI (liftI (op_features R base)) (\<lambda>(old_features, old_valid, old_errors).
     bindI (liftI (op_features R head)) (\<lambda>(new_features, new_valid, errors).
     bindI (liftI (checkR (\<lambda>source. if py_eq (dget old_features source) (dget new_features source) then Inr ()
         else (case map_of errors source of None \<Rightarrow> Inr () | Some message \<Rightarrow> Inl (OperationalError message [])))
       (map fst old_features @ map fst new_features))) (\<lambda>_.
     let changed = \<not> py_eq (JObj old_features) (JObj new_features) in
     bindI (if changed then run_client reply (op_graph R head now') else retI ()) (\<lambda>_.
     let fresh = fresh_pins (store_pins D (if changed \<and> old_errors \<noteq> [] then [] else old_valid) before)
                   (store_pins D new_valid after) in
     if remaining < length (filter (\<lambda>p. pin_covered p \<or> op_kind p = ''unsupported-runner'') fresh)
     then raiseI (OperationalError ''combined introduced identities exceed their request bound'' [])
     else retI fresh)))))))"

text \<open>The \<open>except\<close> clauses around it: an acquisition may be tried again later, an invalid snapshot may not.\<close>

definition blank_result :: package_result where
  "blank_result = \<lparr>about = None, artifact_key = None, verdict = ''failure'', retry_at = None, retry_eligible = False,
     age_evidence = None, evidence_at = None, reason_text = None, metadata_at = None, confirmed = None,
     immutable = None, place = None\<rparr>"

fun snapshot_error :: "exn \<Rightarrow> bool" where
  "snapshot_error TypeError = True"
| "snapshot_error (KeyError _) = True"
| "snapshot_error (OSError _) = True"
| "snapshot_error e = is_ValueError e"

definition refused_snapshot :: "decoders \<Rightarrow> rat \<Rightarrow> exn \<Rightarrow> package_result res" where
  "refused_snapshot D now' e =
     (let acquisition = (\<lambda>name. blank_result\<lparr>reason_text := Some (''feature graph metadata acquisition: '' @ name)\<rparr>) in case e of
       HttpError code \<Rightarrow> Inr (if code = 429 \<or> 500 \<le> code then retry_later D now' (acquisition ''HTTPError'')
         else acquisition ''HTTPError'')
     | UrlError name \<Rightarrow> Inr (retry_later D now' (acquisition name))
     | _ \<Rightarrow> if snapshot_error e then Inr (blank_result\<lparr>reason_text := Some (str_of_error D e)\<rparr>) else Inl e)"

section \<open>The observation of a pin\<close>

definition replace_zulu :: "string \<Rightarrow> string" where
  "replace_zulu s = concat (map (\<lambda>c. if c = CHR ''Z'' then ''+00:00'' else [c]) s)"

definition observation_instant :: "operational_readers \<Rightarrow> rat \<Rightarrow> string \<Rightarrow> rat res" where
  "observation_instant R now' v =
     (let malformed = OperationalError ''first-seen observation is malformed or in the future'' [] in
      case aware_instant R (replace_zulu v) of
        Inl e \<Rightarrow> Inl (if is_ValueError e then malformed else e)
      | Inr None \<Rightarrow> Inl malformed
      | Inr (Some t) \<Rightarrow> if now' < t then Inl malformed else Inr t)"

definition remember_pin :: "decoders \<Rightarrow> operational_readers \<Rightarrow> request_fetcher \<Rightarrow> rat \<Rightarrow> nat \<Rightarrow> operational_pin \<Rightarrow> unit budgeted" where
  "remember_pin D R reply now' state_limit p =
     bindI (getI ledger) (\<lambda>seen.
     if map_of seen (pin_identity D p) \<noteq> None then retI ()
     else if state_limit \<le> length seen
     then raiseI (OperationalError ''shared first-seen state capacity exhausted'' [])
     else bindI (if op_kind p = ''oci'' then verify_manifest D R reply p else retI ()) (\<lambda>_.
       changeI (\<lambda>s. s\<lparr>ledger := ledger s @ [(pin_identity D p, text_of_instant D now')]\<rparr>)))"

definition observe_pin :: "decoders \<Rightarrow> operational_readers \<Rightarrow> request_fetcher \<Rightarrow> rat \<Rightarrow> nat \<Rightarrow> operational_pin \<Rightarrow> rat budgeted" where
  "observe_pin D R reply now' state_limit p =
     (if \<not> pin_covered p
      then raiseI (OperationalError ''operational source or runner grammar lacks reviewed fallback'' [])
      else
      bindI (remember_pin D R reply now' state_limit p) (\<lambda>_.
      bindI (getI ledger) (\<lambda>seen.
      liftI (observation_instant R now' (the (map_of seen (pin_identity D p)))))))"

definition pin_result :: "decoders \<Rightarrow> operational_pin \<Rightarrow> package_result" where
  "pin_result D p = blank_result\<lparr>
     about := Some (Dep (if op_source p = ''github-hosted'' then ''github-runners'' else ''oci'')
       (op_source p @ ''/'' @ op_name p) (op_version p) (op_source p) [op_digest p]),
     artifact_key := Some (pin_identity D p), verdict := ''pass'', immutable := Some (op_kind p = ''oci''),
     place := Some (op_path p, op_line p),
     age_evidence := Some (if op_kind p = ''runner'' then ''runner-label-first-seen'' else ''manifest-first-seen'')\<rparr>"

definition held_pin :: "decoders \<Rightarrow> rat \<Rightarrow> package_result \<Rightarrow> rat \<Rightarrow> package_result" where
  "held_pin D now' r observed =
     (let dated = r\<lparr>evidence_at := Some (text_of_instant D observed)\<rparr> in
      if now' < observed + HOLD
      then dated\<lparr>verdict := ''waiting'', retry_at := Some (text_of_instant D (observed + HOLD)), retry_eligible := True,
             reason_text := Some ''72-hour operational observation hold''\<rparr>
      else dated)"

definition failed_pin :: "decoders \<Rightarrow> rat \<Rightarrow> package_result \<Rightarrow> exn \<Rightarrow> package_result res" where
  "failed_pin D now' r e =
     (let failure = (\<lambda>reason. r\<lparr>verdict := ''failure'', reason_text := Some reason\<rparr>) in case e of
       HttpError code \<Rightarrow>
         (let x = failure (''registry manifest HTTP status '' @ show_int code) in
          Inr (if code = 429 \<or> 500 \<le> code then retry_later D now' x else x))
     | UrlError name \<Rightarrow> Inr (retry_later D now' (failure (''manifest acquisition: '' @ name)))
     | KeyError _ \<Rightarrow> Inl e
     | _ \<Rightarrow> if snapshot_error e then Inr (failure (str_of_error D e)) else Inl e)"

text \<open>A pin has a date of its own, a gap of the coverage, a result, or both of the latter.\<close>

definition check_pin :: "decoders \<Rightarrow> operational_readers \<Rightarrow> request_fetcher \<Rightarrow> rat \<Rightarrow> nat \<Rightarrow> operational_pin
    \<Rightarrow> (package_result list \<times> coverage_gap list) budgeted" where
  "check_pin D R reply now' state_limit p =
     (if native_dated p then retI ([], [])
      else if op_kind p = ''oci'' \<and> \<not> pin_covered p
      then retI ([], [\<lparr>gap_source = op_source p, gap_path = op_path p,
             gap_policy = Some ''native-timestamp-required; no operational fallback''\<rparr>])
      else
      bindI (tryI (observe_pin D R reply now' state_limit p)) (\<lambda>q.
      bindI (case q of Inl e \<Rightarrow> liftI (failed_pin D now' (pin_result D p) e)
               | Inr observed \<Rightarrow> retI (held_pin D now' (pin_result D p) observed)) (\<lambda>result.
      retI ([result], if pin_covered p then []
        else [\<lparr>gap_source = op_source p, gap_path = op_path p, gap_policy = None\<rparr>]))))"

definition check_operational :: "decoders \<Rightarrow> operational_readers \<Rightarrow> request_fetcher \<Rightarrow> source_tree \<Rightarrow> source_tree \<Rightarrow> rat
    \<Rightarrow> dep_context option \<Rightarrow> nat \<Rightarrow> nat \<Rightarrow> (package_result list \<times> coverage_gap list) budgeted" where
  "check_operational D R reply base head now' context state_limit remaining =
     bindI (tryI (prepare_operational D R reply base head now' context remaining)) (\<lambda>q. case q of
       Inl e \<Rightarrow> bindI (liftI (refused_snapshot D now' e)) (\<lambda>r. retI ([r], []))
     | Inr fresh \<Rightarrow>
         bindI (mapI (check_pin D R reply now' state_limit) fresh) (\<lambda>parts.
         retI (concat (map fst parts), concat (map snd parts))))"

section \<open>The budget and the ledger of the whole check\<close>

lemma grows_ask_request: "keeps (grows D now') (bounded_request reply url headers)"
  by (rule keepsI)
    (auto simp: bounded_request_def admit_request_def ask_request_def account_def bindI_def Let_def grows_def suffix_ConsI
      split: if_splits prod.splits sum.splits)

lemma grows_client: "keeps (grows D now') (run_client reply c)"
proof (induction c)
  case (Finish r)
  show ?case unfolding run_client.simps by (rule growth.keeps_lift)
next
  case (Request url headers k)
  show ?case unfolding run_client.simps
    by (rule growth.keeps_bind) (intro grows_try grows_ask_request, rule Request.IH, rule rangeI)
qed

lemma grows_manifest: "keeps (grows D now') (verify_manifest D R reply p)"
  unfolding verify_manifest_def authenticated_def by (intro grows_rules grows_ask_request)

text \<open>The new entry is added after the manifest was verified, to a ledger that may not have grown since.\<close>

lemma bounded_request_ledger: "keeps (\<lambda>s t. ledger t = ledger s) (bounded_request reply url headers)"
  by (rule keepsI)
    (auto simp: bounded_request_def admit_request_def ask_request_def account_def bindI_def Let_def
      split: if_splits prod.splits sum.splits)

interpretation same_ledger: step_rule "\<lambda>s t. ledger t = ledger s"
  by unfold_locales simp_all

lemma manifest_ledger: "keeps (\<lambda>s t. ledger t = ledger s) (verify_manifest D R reply p)"
  unfolding verify_manifest_def authenticated_def by (intro same_ledger.keeps_rules bounded_request_ledger)

lemma grows_remember:
  assumes "state_limit \<le> MAX_STATE_ENTRIES"
  shows "keeps (grows D now') (remember_pin D R reply now' state_limit p)"
proof (rule keepsI)
  fix w s r t
  assume run: "remember_pin D R reply now' state_limit p w s = (r, t)"
  let ?read = "if op_kind p = ''oci'' then verify_manifest D R reply p else retI ()"
  let ?entry = "(pin_identity D p, text_of_instant D now')"
  obtain q u where q: "?read w s = (q, u)" by (cases "?read w s")
  have "keeps (grows D now') ?read" by (intro grows_rules grows_manifest)
  note g = keepsD [OF this, OF q]
  have "keeps (\<lambda>s t. ledger t = ledger s) ?read" by (intro same_ledger.keeps_rules manifest_ledger)
  note l = keepsD [OF this, OF q]
  have "t = s \<or> t = u \<or> length (ledger s) < state_limit \<and> t = u\<lparr>ledger := ledger u @ [?entry]\<rparr>"
    using run q unfolding remember_pin_def
    by (cases "map_of (ledger s) (pin_identity D p) \<noteq> None"; cases "state_limit \<le> length (ledger s)"; cases q)
       (simp_all add: bindI_def)
  then show "grows D now' s t"
    using g l assms by (auto simp: grows_def)
qed

lemma grows_operational:
  assumes "state_limit \<le> MAX_STATE_ENTRIES"
  shows "keeps (grows D now') (check_operational D R reply base head now' context state_limit remaining)"
proof -
  have pin: "keeps (grows D now') (check_pin D R reply now' state_limit p)" for p
  proof -
    have "keeps (grows D now') (observe_pin D R reply now' state_limit p)"
      unfolding observe_pin_def by (intro grows_rules grows_remember assms)
    then show ?thesis unfolding check_pin_def by (intro grows_rules)
  qed
  have start: "keeps (grows D now') (prepare_operational D R reply base head now' context remaining)"
    unfolding prepare_operational_def by (intro grows_rules grows_client)
  show ?thesis
    unfolding check_operational_def by (intro grows_rules start pin)
qed

text \<open>Loading the trusted state only adds its own entries, also when it stops at a malformed one.\<close>

lemma mapI_adds:
  assumes "\<And>e s r t. f e w s = (r, t) \<Longrightarrow> set (ledger t) \<subseteq> set (ledger s) \<union> {h e}"
  shows "mapI f es w s = (r, t) \<Longrightarrow> set (ledger t) \<subseteq> set (ledger s) \<union> h ` set es"
proof (induction es arbitrary: s r t)
  case (Cons e es)
  obtain q u where q: "f e w s = (q, u)" by (cases "f e w s")
  note one = assms [OF q]
  show ?case
  proof (cases q)
    case (Inl x)
    with Cons.prems q have "t = u" by simp
    with one show ?thesis by auto
  next
    case (Inr x)
    obtain q' u' where q': "mapI f es w u = (q', u')" by (cases "mapI f es w u")
    with Cons.prems q Inr have "t = u'" by (cases q') simp_all
    with Cons.IH [OF q'] one show ?thesis by auto
  qed
qed simp

lemma load_entry_adds:
  "load_entry D now' e w s = (r, t) \<Longrightarrow> set (ledger t) \<subseteq> set (ledger s) \<union> {case e of (k, v) \<Rightarrow> (k, str_of v)}"
  by (cases e) (auto simp: bindI_def split: sum.splits)

lemma load_entries_set:
  "mapI (load_entry D now') es w s = (r, t) \<Longrightarrow> set (ledger t) \<subseteq> set (ledger s) \<union> (\<lambda>(k, v). (k, str_of v)) ` set es"
  by (rule mapI_adds) (rule load_entry_adds)

lemma prepare_trusted:
  assumes "prepare D base head now' state context w blank_check = (r, t)"
  shows "set (ledger t) \<subseteq> set (trusted_seen state)"
proof -
  obtain q u where q: "load_state D now' state w blank_check = (q, u)" by (cases "load_state D now' state w blank_check")
  have "set (ledger u) \<subseteq> set (trusted_seen state)"
  proof (cases state)
    case None
    with q show ?thesis by (auto simp: load_state_def blank_check_def)
  next
    case (Some d)
    let ?es = "dict_of (dget d ''first_seen'')"
    obtain x v where x: "mapI (load_entry D now') ?es w blank_check = (x, v)"
      by (cases "mapI (load_entry D now') ?es w blank_check")
    have "set (ledger v) \<subseteq> set (trusted_seen state)"
      using load_entries_set [OF x] Some by (simp add: trusted_seen_def blank_check_def)
    moreover have "u = blank_check \<or> u = v"
      using q x Some unfolding load_state_def by (auto simp: bindI_def split: if_splits sum.splits)
    ultimately show ?thesis by (auto simp: blank_check_def)
  qed
  moreover have "t = blank_check \<or> t = u" using assms unfolding prepare_def
    by (auto simp: bindI_def q split: if_splits sum.splits prod.splits)
  ultimately show ?thesis by (auto simp: blank_check_def)
qed

text \<open>
  C27. Whatever the packages, images, runners and feature graphs of the candidate, the trusted state and the
  registries, a whole check makes at most 256 requests, one for every answer it got, and leaves at most 4096
  observations, each from the trusted state or stamped with the time of the check; this also holds when it ends
  with an exception.
\<close>

theorem cooldown_bounded:
  "let t = snd (check_dependencies D (check_operational D R reply base head now' context MAX_STATE_ENTRIES)
             base head now' state context w blank_check) in
     requests t \<le> MAX_METADATA_REQUESTS \<and> length (answers t) \<le> requests t \<and> length (ledger t) \<le> MAX_STATE_ENTRIES
     \<and> set (ledger t) \<subseteq> set (trusted_seen state) \<union> {e. snd e = text_of_instant D now'}"
proof -
  let ?op = "check_operational D R reply base head now' context MAX_STATE_ENTRIES"
  obtain r s where p: "prepare D base head now' state context w blank_check = (r, s)"
    by (cases "prepare D base head now' state context w blank_check")
  note s = prepare_run(1,2,3) [OF p] prepare_trusted [OF p]
  define t where "t = snd (check_dependencies D ?op base head now' state context w blank_check)"
  have "grows D now' s t"
  proof (cases r)
    case (Inl e)
    then have "t = s" unfolding t_def check_dependencies_def by (simp add: bindI_def tryI_run p)
    then show ?thesis by (simp add: growth.none)
  next
    case (Inr x)
    obtain fresh exempt reason where x: "x = (fresh, exempt, reason)" by (cases x)
    let ?rest = "bindI (mapI (check_package D now' exempt reason) fresh) (\<lambda>checked.
         bindI (?op (MAX_INTRODUCED - length fresh)) (\<lambda>(others, gaps).
         bindI (getI ledger) (\<lambda>seen.
         retI \<lparr>results = checked @ others, overall = overall_verdict (checked @ others),
           next_retry = earliest_retry (checked @ others), first_party_exempt = exempt, first_party_reason = reason,
           problem = None, remembered = seen, coverage_gaps = gaps\<rparr>)))"
    obtain q u where q: "?rest w s = (q, u)" by (cases "?rest w s")
    have "keeps (grows D now') ?rest"
      by (intro grows_rules grows_package grows_operational order_refl)
    note g = keepsD [OF this, OF q]
    have "check_dependencies D ?op base head now' state context w blank_check = ?rest w s"
      unfolding check_dependencies_def bindI_def [of "tryI _"] tryI_run p Inr x by (simp only: prod.case sum.case)
    then have "t = u" unfolding t_def q by simp
    moreover note g
    ultimately show ?thesis by simp
  qed
  note g = this
  then obtain new where new: "ledger t = ledger s @ new" "list_all (\<lambda>e. snd e = text_of_instant D now') new"
    unfolding grows_def by blast
  have "set new \<subseteq> {e. snd e = text_of_instant D now'}" using new(2) unfolding list_all_iff by blast
  then have "set (ledger t) \<subseteq> set (trusted_seen state) \<union> {e. snd e = text_of_instant D now'}"
    unfolding new(1) set_append using s(4) by blast
  moreover have "requests t \<le> MAX_METADATA_REQUESTS \<and> length (answers t) \<le> requests t \<and> length (ledger t) \<le> MAX_STATE_ENTRIES"
    using g s by (auto simp: grows_def blank_check_def)
  ultimately have "requests t \<le> MAX_METADATA_REQUESTS \<and> length (answers t) \<le> requests t \<and> length (ledger t) \<le> MAX_STATE_ENTRIES
     \<and> set (ledger t) \<subseteq> set (trusted_seen state) \<union> {e. snd e = text_of_instant D now'}"
    by blast
  then show ?thesis unfolding t_def [symmetric] Let_def .
qed

text \<open>
  A candidate that moves to a new runner waits: the label is remembered with the time of the check. When a trusted
  state has seen it long enough ago the candidate passes.
\<close>

definition new_runner :: operational_pin where
  "new_runner = \<lparr>op_kind = ''runner'', op_source = ''github-hosted'', op_name = ''ubuntu-26.04'', op_digest = [],
     op_version = ''ubuntu-26.04'', op_path = ''.github/workflows/ci.yml'', op_line = 7\<rparr>"

definition runner_readers :: operational_readers where
  "runner_readers = \<lparr>op_inventory = (\<lambda>tree. Inr (if tree_is_dir tree then [] else [(pin_identity check_decoders new_runner, new_runner)])),
     op_features = (\<lambda>tree. Inr ([], [], [])), op_graph = (\<lambda>tree t. Finish (Inr ())), op_loads = (\<lambda>raw. ([], None)),
     aware_instant = (\<lambda>s. Inr (Some (if s = ''2026-01-01T00:00:00+00:00'' then 0 else 864000)))\<rparr>"

definition runner_check :: "(string \<times> string) list \<Rightarrow> (package_result list \<times> coverage_gap list) res \<times> cooldown" where
  "runner_check seen = check_operational check_decoders runner_readers (\<lambda>h url headers. Inl (UrlError ''URLError''))
     (lock_tree ''1.0.1'') (lock_tree ''1.0.1''\<lparr>tree_is_dir := False\<rparr>) 864000 None MAX_STATE_ENTRIES 256
     (\<lambda>h url. Inr []) (blank_check\<lparr>ledger := seen\<rparr>)"

lemma new_runner_waits:
  "(case runner_check [] of (Inr (rs, gaps), t) \<Rightarrow> map verdict rs = [''waiting''] \<and> map retry_eligible rs = [True]
      \<and> ledger t = [(pin_identity check_decoders new_runner, new_stamp)] | _ \<Rightarrow> False)"
  by code_simp

lemma seen_runner_passes:
  "(case runner_check [(pin_identity check_decoders new_runner, old_stamp)] of (Inr (rs, gaps), t) \<Rightarrow>
      map verdict rs = [''pass''] | _ \<Rightarrow> False)"
  by code_simp

end
