(* ===== verification/OciBlob.thy ===== *)
theory OciBlob
  imports Cooldown
begin

text \<open>
  \<open>dependencies.py\<close>, \<open>fetch_oci_blob\<close>: one blob of the container registry, which answers with a redirect to its
  signed address. The world says what a request returns after the earlier ones and what the clock shows; the
  alarm that ends a request in progress is a \<open>TimeoutError\<close> of that request.
\<close>

section \<open>Addresses\<close>

type_synonym headers = "(string \<times> string) list"

definition OCI_BLOB_SECONDS :: rat where "OCI_BLOB_SECONDS = 30"
definition OCI_BLOB_REDIRECTS :: nat where "OCI_BLOB_REDIRECTS = 1"

text \<open>\<open>https://ghcr\.io/v2/[a-z0-9_./-]+/blobs/(sha256:[a-f0-9]{64})\<close>, and its digest.\<close>

definition blob_digest :: "string \<Rightarrow> string option" where
  "blob_digest url =
     (let n = length url - 71; digest = drop n url; path = take n url; middle = drop 19 (take (n - 7) path) in
      if 71 \<le> length url \<and> startswith path ''https://ghcr.io/v2/'' \<and> endswith path ''/blobs/'' \<and> middle \<noteq> []
         \<and> list_all (\<lambda>c. is_lower c \<or> is_digit c \<or> c \<in> set ''_./-'') middle
         \<and> startswith digest ''sha256:'' \<and> is_sha256 (drop 7 digest)
      then Some digest else None)"

definition plain_parts :: "string \<Rightarrow> bool" where
  "plain_parts url = list_all (\<lambda>part. part \<noteq> [] \<and> part \<noteq> ''.'' \<and> part \<noteq> ''..'') (tl (split_on CHR ''/'' (drop 15 url)))"

text \<open>The signed address; \<open>split\<close> gives scheme, authority, path and fragment of \<open>urlparse\<close>.\<close>

type_synonym url_split = "string \<Rightarrow> (string \<times> string \<times> string \<times> string) option"

definition cdn_location :: "url_split \<Rightarrow> string \<Rightarrow> string \<Rightarrow> bool res" where
  "cdn_location split digest location = (case split location of
     None \<Rightarrow> Inl (ValueError ''URL'')
   | Some (scheme, authority, path, fragment) \<Rightarrow>
       Inr (py_len location \<le> 16384 \<and> scheme = ''https'' \<and> authority = ''pkg-containers.githubusercontent.com''
            \<and> path = ''/ghcr1/blobs/'' @ digest \<and> fragment = []))"

section \<open>Requests\<close>

datatype blob_reply = Content string | Redirect string | Refused exn

record blob_world =
  own_timer :: bool
  idle_timer :: bool
  clock_at :: "nat \<Rightarrow> rat"
  reply_to :: "(string \<times> headers) list \<Rightarrow> string \<Rightarrow> headers \<Rightarrow> blob_reply"

record blob_run =
  sent :: "(string \<times> headers) list"
  clock_reads :: nat

type_synonym 'a blob_io = "(blob_world, blob_run, 'a) io"

text \<open>The redirect handler of the opener.\<close>

definition redirect_request :: "string \<Rightarrow> int \<Rightarrow> string \<Rightarrow> blob_reply" where
  "redirect_request url code location =
     (if code = 307 \<and> blob_digest url \<noteq> None then Redirect location
      else Refused (DependencyError ''registry metadata redirects are not allowed'' []))"

definition monotonic :: "rat blob_io" where
  "monotonic w s = (Inr (clock_at w (clock_reads s)), s\<lparr>clock_reads := clock_reads s + 1\<rparr>)"

definition send :: "string \<Rightarrow> headers \<Rightarrow> blob_reply blob_io" where
  "send url headers w s = (Inr (reply_to w (sent s) url headers), s\<lparr>sent := (url, headers) # sent s\<rparr>)"

definition deadline_error :: exn where
  "deadline_error = UrlError ''TimeoutError''"

text \<open>The loop over \<open>range(OCI_BLOB_REDIRECTS + 1)\<close>; the number is what is left of it.\<close>

fun blob_hops :: "nat \<Rightarrow> decoders \<Rightarrow> url_split \<Rightarrow> string \<Rightarrow> rat \<Rightarrow> string \<Rightarrow> headers \<Rightarrow> string blob_io" where
  "blob_hops 0 D split digest deadline current forwarded =
     raiseI (DependencyError ''OCI blob acquisition exceeded its redirect bound'' [])"
| "blob_hops (Suc n) D split digest deadline current forwarded =
     bindI monotonic (\<lambda>t.
     if deadline \<le> t then raiseI deadline_error
     else bindI (send current forwarded) (\<lambda>reply. case reply of
       Refused e \<Rightarrow> raiseI e
     | Redirect location \<Rightarrow>
         bindI (liftI (cdn_location split digest location)) (\<lambda>ok.
         if n = 0 \<or> \<not> ok
         then raiseI (DependencyError ''OCI blob redirect is outside the exact reviewed CDN identity'' [])
         else blob_hops n D split digest deadline location [])
     | Content data \<Rightarrow>
         bindI monotonic (\<lambda>t'.
         if deadline \<le> t' then raiseI deadline_error
         else if MAX_METADATA_BYTES < length data
         then raiseI (DependencyError ''OCI blob content exceeds its byte bound'' [])
         else if ''sha256:'' @ sha256_of D data \<noteq> digest
         then raiseI (DependencyError ''OCI blob content differs from the requested SHA-256'' [])
         else retI data)))"

definition blob_deadline :: "rat blob_io" where
  "blob_deadline =
     bindI (askI own_timer) (\<lambda>own. if \<not> own
       then raiseI (DependencyError ''OCI blob acquisition requires a main-thread wall-clock guard'' [])
     else bindI (askI idle_timer) (\<lambda>idle. if \<not> idle
       then raiseI (DependencyError ''OCI blob acquisition requires its own wall-clock budget'' [])
     else bindI monotonic (\<lambda>t. retI (t + OCI_BLOB_SECONDS))))"

definition fetch_oci_blob :: "decoders \<Rightarrow> url_split \<Rightarrow> string \<Rightarrow> headers \<Rightarrow> string blob_io" where
  "fetch_oci_blob D split url headers = (case (if plain_parts url then blob_digest url else None) of
     None \<Rightarrow> raiseI (DependencyError ''OCI blob needs an exact reviewed credential-free HTTPS identity'' [])
   | Some digest \<Rightarrow>
       bindI blob_deadline (\<lambda>deadline. blob_hops (OCI_BLOB_REDIRECTS + 1) D split digest deadline url headers))"

section \<open>What is sent and what is returned\<close>

definition good_content :: "decoders \<Rightarrow> string \<Rightarrow> string \<Rightarrow> bool" where
  "good_content D digest data \<longleftrightarrow> ''sha256:'' @ sha256_of D data = digest \<and> length data \<le> MAX_METADATA_BYTES"

lemma last_hop:
  assumes "blob_hops (Suc 0) D split digest deadline current forwarded w s = (r, t)"
  shows "sent t = sent s \<or> sent t = (current, forwarded) # sent s"
    and "\<And>data. r = Inr data \<Longrightarrow> sent t \<noteq> sent s \<and> good_content D digest data"
  using assms
  by (auto simp: bindI_def monotonic_def send_def good_content_def split: if_splits blob_reply.splits sum.splits)

lemma first_hop:
  assumes "blob_hops (Suc (Suc 0)) D split digest deadline url headers w s = (r, t)" and "sent s = []"
  shows "sent t \<in> {[], [(url, headers)]} \<or>
      (\<exists>location. sent t = [(location, []), (url, headers)] \<and> cdn_location split digest location = Inr True)"
    and "\<And>data. r = Inr data \<Longrightarrow> sent t \<noteq> [] \<and> good_content D digest data"
proof -
  define u where "u = s\<lparr>clock_reads := clock_reads s + 1, sent := [(url, headers)]\<rparr>"
  have "(sent t \<in> {[], [(url, headers)]} \<or>
      (\<exists>location. sent t = [(location, []), (url, headers)] \<and> cdn_location split digest location = Inr True))
    \<and> (\<forall>data. r = Inr data \<longrightarrow> sent t \<noteq> [] \<and> good_content D digest data)"
  proof (cases "deadline \<le> clock_at w (clock_reads s)")
    case True
    with assms show ?thesis by (auto simp: bindI_def monotonic_def)
  next
    case False
    show ?thesis
    proof (cases "reply_to w [] url headers")
      case (Content data)
      with assms False show ?thesis
        by (auto simp: bindI_def monotonic_def send_def good_content_def split: if_splits)
    next
      case (Redirect location)
      obtain q v where q: "blob_hops (Suc 0) D split digest deadline location [] w u = (q, v)"
        by (cases "blob_hops (Suc 0) D split digest deadline location [] w u")
      have u: "sent u = [(url, headers)]" by (simp add: u_def)
      from Redirect assms False have "t = u \<and> r \<in> range Inl \<or> t = v \<and> r = q \<and> cdn_location split digest location = Inr True"
        using q unfolding u_def
        by (simp del: blob_hops.simps(2) add: blob_hops.simps(2) [of "Suc 0"] bindI_def monotonic_def send_def)
          (auto simp: assms(2) split: sum.splits if_splits)
      then show ?thesis using last_hop [OF q] u by auto
    next
      case (Refused e)
      with assms False show ?thesis by (auto simp: bindI_def monotonic_def send_def)
    qed
  qed
  then show "sent t \<in> {[], [(url, headers)]} \<or>
      (\<exists>location. sent t = [(location, []), (url, headers)] \<and> cdn_location split digest location = Inr True)"
    "\<And>data. r = Inr data \<Longrightarrow> sent t \<noteq> [] \<and> good_content D digest data" by auto
qed

text \<open>
  C28. A blob is only returned when its bytes have the digest that the address names, within the bound. Whatever
  the registry answers, at most two requests are sent: the headers, which carry the credentials, only to the
  reviewed registry address, and the second without any headers to the storage address of the same digest.
\<close>

theorem oci_blob_confined:
  assumes run: "fetch_oci_blob D split url headers w \<lparr>sent = [], clock_reads = 0\<rparr> = (r, t)"
  shows "(sent t = [] \<or> (\<exists>digest. blob_digest url = Some digest \<and> plain_parts url \<and>
      (sent t = [(url, headers)] \<or>
       (\<exists>location. sent t = [(location, []), (url, headers)] \<and> cdn_location split digest location = Inr True))))
    \<and> (case r of Inl e \<Rightarrow> True | Inr data \<Rightarrow> (\<exists>digest. blob_digest url = Some digest \<and> good_content D digest data))"
proof (cases "if plain_parts url then blob_digest url else None")
  case None
  with run show ?thesis by (auto simp: fetch_oci_blob_def split: if_splits)
next
  case (Some digest)
  then have d: "plain_parts url" "blob_digest url = Some digest" by (auto split: if_splits)
  let ?s = "\<lparr>sent = [], clock_reads = 0\<rparr> :: blob_run"
  show ?thesis
  proof (cases "own_timer w \<and> idle_timer w")
    case False
    with run Some show ?thesis
      by (cases "own_timer w") (auto simp: fetch_oci_blob_def blob_deadline_def bindI_def simp del: blob_hops.simps)
  next
    case True
    with run Some have "blob_hops (Suc (Suc 0)) D split digest (clock_at w 0 + OCI_BLOB_SECONDS) url headers w
        (?s\<lparr>clock_reads := 1\<rparr>) = (r, t)"
      by (simp add: fetch_oci_blob_def blob_deadline_def bindI_def monotonic_def OCI_BLOB_REDIRECTS_def numeral_2_eq_2 del: blob_hops.simps)
    from first_hop [OF this] d show ?thesis by (auto split: sum.splits)
  qed
qed

text \<open>A blob behind one redirect.\<close>

definition blob_url :: string where
  "blob_url = ''https://ghcr.io/v2/devcontainers/features/blobs/sha256:'' @ sample_digest"

definition blob_location :: string where
  "blob_location = ''https://pkg-containers.githubusercontent.com/ghcr1/blobs/sha256:'' @ sample_digest @ ''?sig=1''"

definition blob_sample :: blob_world where
  "blob_sample = \<lparr>own_timer = True, idle_timer = True, clock_at = (\<lambda>n. of_nat n),
     reply_to = (\<lambda>earlier url headers. if earlier = [] then Redirect blob_location else Content ''data'')\<rparr>"

definition blob_split :: url_split where
  "blob_split location = Some (''https'', ''pkg-containers.githubusercontent.com'', ''/ghcr1/blobs/sha256:'' @ sample_digest, [])"

lemma blob_fetched:
  "fetch_oci_blob (lock_decoders\<lparr>sha256_of := (\<lambda>_. sample_digest)\<rparr>) blob_split blob_url [(''Authorization'', ''t'')] blob_sample
     \<lparr>sent = [], clock_reads = 0\<rparr>
   = (Inr ''data'', \<lparr>sent = [(blob_location, []), (blob_url, [(''Authorization'', ''t'')])], clock_reads = 4\<rparr>)"
  by code_simp

theorem oci_blob_confined_witness:
  "cdn_location blob_split (''sha256:'' @ sample_digest) blob_location = Inr True
     \<and> blob_digest blob_url = Some (''sha256:'' @ sample_digest)"
proof -
  have "blob_digest blob_url = Some (''sha256:'' @ sample_digest)" by code_simp
  with oci_blob_confined [OF blob_fetched] show ?thesis by auto
qed

end
