(* ===== verification/Spec2Isabelle.thy ===== *)
theory Spec2Isabelle
  imports Gate Distribution Retry Wait ReleaseCommand ApiEvidence Operational OciBlob
begin

text \<open>
  The automation package of boxferry, \<open>src/automation/src/boxferry_ci/\<close>. The package decides, for the
  repositories of one fleet, which checks a change needs, whether a candidate of the merge queue passed
  them, when the shared automation branch moves, when a new dependency is old enough and when a crate is published. All of these decisions
  are taken from data an attacker may influence (change lists, workflow reports, pull request titles,
  JSON of other jobs), so the theorems say what has been checked when a decision is positive, and what
  a program can have done when it is not.

  Data and errors (\<open>Prelude\<close>). A JSON value is the datatype \<open>json\<close>; a Python string is the list of the
  bytes of its UTF-8 encoding; a Python integer is an \<open>int\<close>, a
  float the datatype \<open>pyfloat\<close> of the rationals with the infinities and NaN. An exception is a value of \<open>exn\<close>, its message a template with its arguments, and
  a function that may raise has the type \<open>exn + 'a\<close>. The exceptions Python raises by itself (a missing
  key, an attribute of the wrong type, an unhashable set element) are values as well, at the place where
  the code can raise them.

  Effects (\<open>Effects\<close>, \<open>GitHubApi\<close>, \<open>Host\<close>). A program with effects takes a world and the history of the
  effects so far. The world answers the next effect and sees the whole history, so a second identical
  read may be answered differently: every theorem of this kind holds against an environment that changes
  between two reads. There are two worlds: \<open>world\<close> for the GitHub API (\<open>eligibility.GitHub\<close>, its request
  budget and its deadline) and \<open>host\<close> for the machine (processes, the registry, the pipe of a Git
  transaction, clocks, step outputs). The locale \<open>step_rule\<close> lifts a reflexive and transitive relation of
  states from the primitive effects to programs; it is interpreted for the relations \<open>frame\<close>,
  \<open>budget_step\<close>, \<open>read_step\<close>, \<open>act_step\<close> and \<open>observe_step\<close> of the client, for \<open>may_write 0\<close> of the
  distribution client, for \<open>extends P\<close> of the machine, and for \<open>grows\<close> and the equality of ledgers of the dependency check, whose state is the record
  \<open>cooldown\<close> (budget, answers, ledger) and whose world is what the next acquisition answers. \<open>OciBlob\<close> has a world of its own, with the
  clock it reads.

  The parts, in the order in which they use each other:

    \<open>Contracts\<close>       contracts.py: the strict readers of untrusted values and paths.
    \<open>Policy\<close>          policy.py: \<open>load_policy\<close>, the invariant \<open>policy_wf\<close>, \<open>selected_jobs\<close>.
    \<open>Markdown\<close>        markdown.py: the projection of prose to its code, regular expressions as matchers.
    \<open>Planner\<close>         planner.py: \<open>parse_diff\<close>, \<open>path_profiles\<close>, \<open>classify\<close>, \<open>make_plan\<close>.
    \<open>Gate\<close>            gate.py, devcontainer_seed.py: \<open>verify_gate\<close>, \<open>verify_devcontainer_gate\<close>.
    \<open>GitHubApi\<close>       eligibility.py, \<open>class GitHub\<close>.
    \<open>QueueTree\<close>       queue_tree.py: the tree proof of a queue candidate.
    \<open>Candidate\<close>       eligibility.py: identities, \<open>pr_candidate\<close>, \<open>queue_candidate\<close>, \<open>still_current\<close>, \<open>changed_paths\<close>.
    \<open>EligState\<close>       eligibility.py: the state of the service, \<open>validate_state\<close>, \<open>previous_state\<close>.
    \<open>Distribution\<close>    distribution.py: \<open>distribute\<close>, the one writer of automation-v1.
    \<open>Admission\<close>       admission.py: \<open>resolve_admission\<close>, the policy revision that decides.
    \<open>PinUpgrade\<close>      eligibility.py: \<open>expected_ci_upgrade\<close>.
    \<open>Runners\<close>         operational.py \<open>_runners\<close>, eligibility.py \<open>hosted_runner_only_change\<close>.
    \<open>Retry\<close>           eligibility.py: \<open>rerun_ready\<close>, the one retry of a candidate.
    \<open>Wait\<close>            eligibility.py: \<open>candidate_receipt\<close>, \<open>wait_for_candidate\<close>.
    \<open>Release\<close>         release.py: policy, gate, inventory, registry, \<open>publish_crate\<close>, \<open>classify_queue\<close>.
    \<open>Preparation\<close>     release.py: \<open>prepare_branch\<close> and its Git transaction.
    \<open>ReleaseCommand\<close>  release.py: \<open>main\<close>, the order in which a release command checks and acts.
    \<open>CargoTools\<close>      cargo_tools.py: which tool and compiler a checkout declares, and \<open>verify\<close>.
    \<open>ApiBaseline\<close>     api_baselines.py: \<open>select_git\<close> and \<open>registry_version\<close>, the two sources of a baseline.
    \<open>ApiSource\<close>       api_baselines.py: \<open>fingerprint\<close>.
    \<open>ApiEvidence\<close>     api_baselines.py: \<open>metadata\<close>, \<open>snapshot\<close>, \<open>prepare\<close>.
    \<open>LockFiles\<close>       dependencies.py: \<open>_packages\<close>, what the lock files of a source tree pin.
    \<open>FirstParty\<close>      dependencies.py: \<open>_first_party_scope\<close>, the exemption of the fleet's own crates.
    \<open>Cooldown\<close>        dependencies.py: \<open>_metadata\<close>, \<open>check_dependencies\<close>, the hold of 72 hours.
    \<open>Operational\<close>     operational.py: \<open>check_operational\<close>, the hold for images and runners, within the same budget.
    \<open>OciBlob\<close>         dependencies.py: \<open>fetch_oci_blob\<close>, a registry blob behind its one redirect.

  What the theorems show. Planning: a change of guarded files selects everything
  (\<open>guarded_change_full\<close>), a plan selects declared jobs only, and a plan made for a loaded policy is
  accepted by the gate once the jobs report the outcomes it requires (\<open>made_plan_accepted\<close>); conversely
  an accepted gate binds plan, revisions and results (\<open>verify_gate_sound\<close>). Parsing: change lists and
  Git's conflict output are read back exactly (\<open>parse_render_diff\<close>, \<open>conflict_output_iff\<close>), and what is
  accepted is bounded and inside the repository. Candidates: what a returned candidate was checked for,
  with the reads before and after the proof (\<open>queue_candidate_bound\<close>, \<open>pr_candidate_bound\<close>), and that
  finding one only reads. State: an accepted state satisfies the invariant of the ledger and comes from a
  trusted run. Writers: the branch moves, a run is retried, a Git transaction commits and a crate is
  published only after the checks the code promises, at most once, and with the confirmation it reports; what
  \<open>publication_guarded\<close> says of the policy, the inventory and the dependencies is tied to the reads of that run
  (\<open>distribute_advanced\<close>, \<open>distribute_confined\<close>, \<open>rerun_ready_once\<close>, \<open>attach_commit_checked\<close>,
  \<open>publish_crate_confirmed\<close>, \<open>publication_guarded\<close>). Refinement: the admission decision computed from the
  text output of Git is the one of an abstract object store (\<open>resolve_admission_refines\<close>). Equivalences:
  upgrades of pins and runners change these and no other byte, and only pins and runners that the trusted file owns by
  the declarative account of its lines (\<open>owned_line\<close>, \<open>ci_upgrade_only_pins\<close>). API evidence: why a baseline is trusted
  (\<open>select_git_baseline\<close>), that evidence has exactly one check with a justified baseline for every selected library while the source stayed
  the same (\<open>prepared_evidence_sound\<close>), and what equal fingerprints say (\<open>equal_fingerprint_same_source\<close>; for
  files with NUL bytes \<open>fingerprint_ambiguous\<close> shows that they say less). Dependencies: what a passing report says of every
  introduced package (\<open>cooldown_enforced\<close>), that a first observation waits (\<open>first_observation_waits\<close>), what the
  exemption of first-party updates has established (\<open>first_party_isolated\<close>), that the closure it uses is
  reachability (\<open>cargo_closure_exact\<close>), the bounds of requests and ledger of a whole check, the operational one included (\<open>cooldown_bounded\<close>), and that credentials stay with
  the registry (\<open>oci_blob_confined\<close>).

  Bounds and fuel. The loops that do not recurse on their data have a number: \<open>poll\<close> has the fuel 13,
  which \<open>wait_returns\<close> proves enough for the longest wait of 120 seconds at 10 seconds a round;
  \<open>read_reply\<close> counts the 4096 bytes a reply may have; \<open>registry_attempts\<close> the 4 attempts and
  \<open>await_visible\<close> the 60 rounds of the \<open>range\<close> they translate. None of these is a bound of the model only.
  The other functions with a measure consume their input; \<open>closure\<close> visits a record of the lock file once.

  Parameters of the model: the answers of GitHub, the registry and the processes, and the decoders and
  digests of the standard library and its surroundings: the JSON and TOML decoders, SHA-256, ZIP and tar
  archives, ISO dates, path resolution. No theorem assumes anything about the answers, except for what its statement
  names: Git objects that stay the same during one proof (\<open>queue_sources_exact\<close>), a clock that does not
  run backwards and is moved by a sleep (\<open>wait_returns\<close>), a Git process that, when
  it succeeds, prints what the repository holds (\<open>git_agrees\<close> in \<open>resolve_admission_refines\<close>; that it does succeed is only
  assumed for the converse direction, \<open>git_answers\<close>), a TOML decoder that builds dictionaries with each key once
  (\<open>tables_unique\<close> in \<open>first_party_isolated\<close>), and that \<open>fromisoformat\<close> reads what \<open>isoformat\<close> wrote (\<open>cooldown_enforced\<close>,
  \<open>first_observation_waits\<close>). The dependency check takes the source trees, which are private snapshots, and a
  continuation that runs after the packages: \<open>cooldown_enforced\<close> holds for any, \<open>cooldown_bounded\<close> is about
  \<open>check_operational\<close>. That check in turn has the readers of the inventory and of the features as arguments
  (\<open>operational_readers\<close>), and the validation of a feature graph as a program of requests.

  Not modelled: the command lines apart from the release command, logging and the text of summaries other
  than the one of the admission; the signal handler and the forced end of the transaction process in
  release.py; the service loop of eligibility.py and its reports; \<open>finish\<close> of api_baselines.py and the
  installation of tools; the loop of runner.py that drains the pipes of a process, whose result is an answer
  of \<open>host\<close>; and the components of the package that
  mostly move files and processes (recovery, the readers of Dockerfiles, catalogues and features in operational.py,
  the test reporting, the
  installers of tools). The scripts of the Rust product under \<open>src/scripts\<close> are separate programs.
\<close>

end
